(* ===== verification/Prelude.thy ===== *)
theory Prelude
  imports Main "HOL-Library.Word" "HOL-Library.Sublist" "HOL-Library.AList"
    "HOL-Library.Char_ord" "HOL-Library.List_Lexorder"
begin

text \<open>
  Shared vocabulary of the development: Rust strings as byte strings with the operations of
  \<open>str\<close> the runtime uses (\<open>trim\<close>, \<open>strip_prefix\<close>, \<open>split_once\<close>, \<open>split\<close>, \<open>find\<close>), the
  64-bit integer operations, CBOR values, \<open>HashMap\<close> and \<open>BTreeMap\<close> as association lists with
  one contract for both (locale \<open>key_map\<close>), and the error values that stand for
  \<open>anyhow::Error\<close>.  A Rust \<open>String\<close> is the list of its UTF-8 bytes.
\<close>

named_theorems str_simps "evaluation and characterisation of the string operations"
named_theorems map_simps "lookup laws of the association-list maps"

section \<open>Types\<close>

type_synonym bytes = "8 word list"
type_synonym u64 = "64 word"
type_synonym cid = string
type_synonym 'a hash_map = "(string \<times> 'a) list"
type_synonym 'a btree_map = "(string \<times> 'a) list"

text \<open>The part of \<open>ciborium::Value\<close> the runtime matches on.  A float is kept as its bits.\<close>

datatype cbor =
    CInteger int
  | CBytes bytes
  | CFloat u64
  | CText string
  | CBool bool
  | CNull
  | CTag nat cbor
  | CArray "cbor list"
  | CMap "(cbor \<times> cbor) list"

section \<open>Strings\<close>

fun strip_prefix :: "string \<Rightarrow> string \<Rightarrow> string option" where
  "strip_prefix [] s = Some s"
| "strip_prefix (p # ps) [] = None"
| "strip_prefix (p # ps) (c # cs) = (if p = c then strip_prefix ps cs else None)"

definition starts_with :: "string \<Rightarrow> string \<Rightarrow> bool" where
  "starts_with p s = (strip_prefix p s \<noteq> None)"

text \<open>\<open>s.split_once(c)\<close>: the parts before and after the first occurrence of the character.\<close>

fun split_once :: "char \<Rightarrow> string \<Rightarrow> (string \<times> string) option" where
  "split_once c [] = None"
| "split_once c (x # xs) =
     (if x = c then Some ([], xs)
      else map_option (\<lambda>(a, b). (x # a, b)) (split_once c xs))"

text \<open>\<open>s.split(c)\<close>: every separator splits, so the result has at least one element.\<close>

fun split_on :: "char \<Rightarrow> string \<Rightarrow> string list" where
  "split_on c [] = [[]]"
| "split_on c (x # xs) =
     (if x = c then [] # split_on c xs
      else (case split_on c xs of [] \<Rightarrow> [[x]] | w # ws \<Rightarrow> (x # w) # ws))"

fun join_with :: "string \<Rightarrow> string list \<Rightarrow> string" where
  "join_with sep [] = []"
| "join_with sep [w] = w"
| "join_with sep (w # ws) = w @ sep @ join_with sep ws"

text \<open>\<open>s.find(p)\<close> followed by the slice after the match.\<close>

fun split_at_str :: "string \<Rightarrow> string \<Rightarrow> (string \<times> string) option" where
  "split_at_str p [] = (if p = [] then Some ([], []) else None)"
| "split_at_str p (x # xs) =
     (case strip_prefix p (x # xs) of
        Some r \<Rightarrow> Some ([], r)
      | None \<Rightarrow> map_option (\<lambda>(a, b). (x # a, b)) (split_at_str p xs))"

text \<open>\<open>s.trim_start_matches(c)\<close> and \<open>s.trim_end_matches(c)\<close> for a character.\<close>

definition trim_start_matches :: "char \<Rightarrow> string \<Rightarrow> string" where
  "trim_start_matches c s = dropWhile (\<lambda>x. x = c) s"

definition trim_end_matches :: "char \<Rightarrow> string \<Rightarrow> string" where
  "trim_end_matches c s = rev (dropWhile (\<lambda>x. x = c) (rev s))"

text \<open>
  \<open>str::trim\<close> removes the characters with the Unicode property \<open>White_Space\<close>; these are
  their UTF-8 encodings.
\<close>

definition ws_seqs :: "string list" where
  "ws_seqs =
     map (\<lambda>n. [char_of n]) [9::nat, 10, 11, 12, 13, 32] @
     map (map char_of)
       ([[194, 133], [194, 160], [225, 154, 128], [226, 128, 168], [226, 128, 169],
         [226, 128, 175], [226, 129, 159], [227, 128, 128]] @
        map (\<lambda>k. [226, 128, 128 + k]) [0::nat, 1, 2, 3, 4, 5, 6, 7, 8, 9, 10])"

fun drop_seqs :: "nat \<Rightarrow> string list \<Rightarrow> string \<Rightarrow> string" where
  "drop_seqs 0 ws s = s"
| "drop_seqs (Suc n) ws s =
     (case find (\<lambda>w. starts_with w s) ws of
        None \<Rightarrow> s
      | Some w \<Rightarrow> drop_seqs n ws (drop (length w) s))"

text \<open>Each step drops at least one byte, so the length of the string is enough fuel.\<close>

definition trim_start :: "string \<Rightarrow> string" where
  "trim_start s = drop_seqs (length s) ws_seqs s"

definition trim_end :: "string \<Rightarrow> string" where
  "trim_end s = rev (drop_seqs (length s) (map rev ws_seqs) (rev s))"

definition trim :: "string \<Rightarrow> string" where
  "trim s = trim_end (trim_start s)"

text \<open>
  \<open>char::is_control\<close>: U+0000 to U+001F, U+007F, and U+0080 to U+009F, whose UTF-8 form is
  the byte \<open>0xC2\<close> followed by a byte below \<open>0xA0\<close>.
\<close>

fun has_control :: "string \<Rightarrow> bool" where
  "has_control [] = False"
| "has_control (c # cs) =
     (of_char c < (32::nat) \<or> of_char c = (127::nat)
      \<or> (of_char c = (194::nat) \<and> (case cs of [] \<Rightarrow> False | d # _ \<Rightarrow> of_char d < (160::nat)))
      \<or> has_control cs)"

fun nat_digits :: "nat \<Rightarrow> string" where
  "nat_digits n = (if n < 10 then [char_of (48 + n)] else nat_digits (n div 10) @ [char_of (48 + n mod 10)])"

declare nat_digits.simps [simp del]

definition is_ascii_digit :: "char \<Rightarrow> bool" where
  "is_ascii_digit c = (48 \<le> (of_char c :: nat) \<and> (of_char c :: nat) \<le> 57)"

fun digits_value :: "nat \<Rightarrow> string \<Rightarrow> nat" where
  "digits_value acc [] = acc"
| "digits_value acc (c # cs) = digits_value (10 * acc + (of_char c - 48)) cs"

text \<open>\<open>str::parse::<u64>\<close> on a string of ASCII digits: empty and out-of-range are errors.\<close>

definition parse_u64_digits :: "string \<Rightarrow> u64 option" where
  "parse_u64_digits s =
     (if s = [] then None
      else if digits_value 0 s < 2 ^ 64 then Some (of_nat (digits_value 0 s)) else None)"

subsection \<open>Laws\<close>

lemma strip_prefix_Some_iff [str_simps]: "strip_prefix p s = Some r \<longleftrightarrow> s = p @ r"
  by (induction p s rule: strip_prefix.induct) auto

lemma strip_prefix_append [simp]: "strip_prefix p (p @ r) = Some r"
  by (simp add: strip_prefix_Some_iff)

lemma starts_with_iff [str_simps]: "starts_with p s \<longleftrightarrow> prefix p s"
  unfolding starts_with_def prefix_def by (auto simp: strip_prefix_Some_iff)

lemma split_once_Some_iff [str_simps]:
  "split_once c s = Some (a, b) \<longleftrightarrow> s = a @ c # b \<and> c \<notin> set a"
proof (induction s arbitrary: a)
  case (Cons x xs)
  then show ?case by (cases a) auto
qed simp

lemma split_once_None_iff [str_simps]: "split_once c s = None \<longleftrightarrow> c \<notin> set s"
  by (induction s) auto

lemma split_once_append [simp]: "c \<notin> set a \<Longrightarrow> split_once c (a @ c # b) = Some (a, b)"
  by (simp add: split_once_Some_iff)

lemma split_on_not_Nil [simp]: "split_on c s \<noteq> []"
  by (induction c s rule: split_on.induct) (auto split: list.splits)

lemma split_on_no_sep: "c \<notin> set s \<Longrightarrow> split_on c s = [s]"
  by (induction s) auto

lemma split_on_append_sep: "c \<notin> set a \<Longrightarrow> split_on c (a @ c # b) = a # split_on c b"
  by (induction a) (auto split: list.splits)

lemma split_on_elem: "w \<in> set (split_on c s) \<Longrightarrow> c \<notin> set w"
  by (induction c s arbitrary: w rule: split_on.induct) (auto split: list.splits if_splits)

lemma split_on_join:
  "ws \<noteq> [] \<Longrightarrow> (\<forall>w\<in>set ws. c \<notin> set w) \<Longrightarrow> split_on c (join_with [c] ws) = ws"
  by (induction "[c]" ws rule: join_with.induct)
     (auto simp: split_on_no_sep split_on_append_sep)

lemma join_split_on: "join_with [c] (split_on c s) = s"
proof (induction c s rule: split_on.induct)
  case (2 c x xs)
  then obtain w ws where "split_on c xs = w # ws" by (meson neq_Nil_conv split_on_not_Nil)
  with 2 show ?case by (cases ws) (auto split: if_splits)
qed simp

text \<open>Trimming twice is trimming once.\<close>

lemma drop_seqs_clean:
  "[] \<notin> set ws \<Longrightarrow> length s \<le> n \<Longrightarrow> w \<in> set ws \<Longrightarrow> \<not> prefix w (drop_seqs n ws s)"
proof (induction n arbitrary: s)
  case 0
  then show ?case by auto
next
  case (Suc n)
  show ?case
  proof (cases "find (\<lambda>w. starts_with w s) ws")
    case None
    then have "\<not> prefix w s" using Suc.prems(3) by (auto simp: find_None_iff starts_with_iff)
    with None show ?thesis by simp
  next
    case (Some v)
    then have v: "v \<in> set ws" "prefix v s" by (auto simp: find_Some_iff starts_with_iff)
    with Suc.prems(1) have "v \<noteq> []" by auto
    then have "length (drop (length v) s) \<le> n" using Suc.prems(2) v(2) by (cases v) auto
    with Some Suc show ?thesis by simp
  qed
qed

lemma drop_seqs_id: "(\<And>w. w \<in> set ws \<Longrightarrow> \<not> prefix w s) \<Longrightarrow> drop_seqs n ws s = s"
  by (cases n) (auto simp: find_Some_iff starts_with_iff split: option.splits)

lemma drop_seqs_suffix: "\<exists>p. s = p @ drop_seqs n ws s"
proof (induction n arbitrary: s)
  case (Suc n)
  show ?case
  proof (cases "find (\<lambda>w. starts_with w s) ws")
    case (Some v)
    obtain p where "drop (length v) s = p @ drop_seqs n ws (drop (length v) s)" using Suc.IH by blast
    then have "s = (take (length v) s @ p) @ drop_seqs n ws (drop (length v) s)" by (metis append.assoc append_take_drop_id)
    with Some show ?thesis by (intro exI[of _ "take (length v) s @ p"]) simp
  qed simp
qed simp

lemma ws_seqs_nonempty: "[] \<notin> set ws_seqs"
  by (simp add: ws_seqs_def image_iff)

lemma trim_idem [simp]: "trim (trim s) = trim s"
proof -
  let ?t = "trim_start s"
  let ?u = "trim_end ?t"
  have t: "\<not> prefix w ?t" if "w \<in> set ws_seqs" for w
    using drop_seqs_clean[OF ws_seqs_nonempty _ that, of s "length s"] by (simp add: trim_start_def)
  have ne: "[] \<notin> set (map rev ws_seqs)" using ws_seqs_nonempty by auto
  have r: "rev ?u = drop_seqs (length ?t) (map rev ws_seqs) (rev ?t)" by (simp add: trim_end_def)
  have u: "\<not> prefix w (rev ?u)" if "w \<in> set (map rev ws_seqs)" for w
    unfolding r by (rule drop_seqs_clean[OF ne _ that]) simp
  obtain p where "rev ?t = p @ rev ?u" using drop_seqs_suffix[of "rev ?t" "length ?t" "map rev ws_seqs"] r by metis
  then have "?t = ?u @ rev p" by (metis rev_append rev_rev_ident)
  with t have "\<not> prefix w ?u" if "w \<in> set ws_seqs" for w using that by (metis prefix_prefix)
  then have "trim_start ?u = ?u" unfolding trim_start_def by (rule drop_seqs_id)
  moreover have "trim_end ?u = ?u" unfolding trim_end_def[of ?u] by (subst drop_seqs_id[OF u]) simp_all
  ultimately show ?thesis by (simp add: trim_def)
qed

text \<open>A text with visible ASCII characters at both ends has nothing to trim.\<close>

lemma ws_seqs_edge:
  "w \<in> set ws_seqs \<Longrightarrow> w \<noteq> [] \<and> \<not> (33 \<le> (of_char (hd w) :: nat) \<and> (of_char (hd w) :: nat) < 127)
     \<and> \<not> (33 \<le> (of_char (last w) :: nat) \<and> (of_char (last w) :: nat) < 127)"
  by (auto simp: ws_seqs_def)

lemma trim_visible:
  assumes "s \<noteq> []" and "33 \<le> (of_char (hd s) :: nat)" "(of_char (hd s) :: nat) < 127"
    and "33 \<le> (of_char (last s) :: nat)" "(of_char (last s) :: nat) < 127"
  shows "trim s = s"
proof -
  have "\<not> prefix w s" if "w \<in> set ws_seqs" for w
    using ws_seqs_edge[OF that] assms(2,3) by (auto simp: prefix_def)
  then have start: "trim_start s = s" by (simp add: trim_start_def drop_seqs_id)
  have "\<not> prefix w (rev s)" if "w \<in> set (map rev ws_seqs)" for w
  proof
    assume "prefix w (rev s)"
    with that obtain v x where "v \<in> set ws_seqs" "rev s = rev v @ x" by (auto simp: prefix_def)
    moreover from this have "s = rev x @ v" by (metis rev_append rev_rev_ident)
    ultimately show False using ws_seqs_edge[of v] assms(4,5) by auto
  qed
  then have "trim_end s = s" unfolding trim_end_def by (subst drop_seqs_id) simp_all
  with start show ?thesis by (simp add: trim_def)
qed

lemma has_control_append: "has_control cs \<Longrightarrow> has_control (a @ cs)"
  by (induction a) auto

section \<open>Machine integers\<close>

definition u64_saturating_add :: "u64 \<Rightarrow> u64 \<Rightarrow> u64" where
  "u64_saturating_add a b = (if unat a + unat b < 2 ^ 64 then a + b else - 1)"

definition u64_saturating_mul :: "u64 \<Rightarrow> u64 \<Rightarrow> u64" where
  "u64_saturating_mul a b = (if unat a * unat b < 2 ^ 64 then a * b else - 1)"

lemma unat_saturating_add:
  "unat (u64_saturating_add a b) = min (unat a + unat b) (2 ^ 64 - 1)"
proof (cases "unat a + unat b < 2 ^ 64")
  case True
  then have "unat (a + b) = unat a + unat b"
    by (simp add: unat_add_lem[symmetric])
  with True show ?thesis by (simp add: u64_saturating_add_def)
next
  case False
  then show ?thesis by (simp add: u64_saturating_add_def unsigned_minus_1_eq_mask mask_eq_exp_minus_1)
qed

lemma uint_saturating_mul:
  "uint (u64_saturating_mul a b) = min (uint a * uint b) (2 ^ 64 - 1)"
proof (cases "unat a * unat b < 2 ^ 64")
  case True
  then have "unat (a * b) = unat a * unat b" by (simp add: unat_mult_lem[symmetric])
  from arg_cong[OF this, of int] have "uint (a * b) = uint a * uint b" by simp
  moreover have "int (unat a * unat b) < int (2 ^ 64)" using True by (simp only: of_nat_less_iff)
  then have "uint a * uint b < 2 ^ 64" by simp
  ultimately show ?thesis using True by (simp add: u64_saturating_mul_def)
next
  case False
  then have "\<not> int (unat a * unat b) < int (2 ^ 64)" by (simp only: of_nat_less_iff) simp
  then have "\<not> uint a * uint b < 2 ^ 64" by simp
  with False show ?thesis
    by (simp add: u64_saturating_mul_def unsigned_minus_1_eq_mask mask_eq_exp_minus_1)
qed

section \<open>Maps\<close>

text \<open>
  A \<open>HashMap\<close> is an association list with distinct keys in some iteration order; \<open>insert\<close>
  and \<open>remove\<close> are the library's \<open>AList.update\<close> and \<open>AList.delete\<close>.  A \<open>BTreeMap\<close> is an
  association list in increasing key order.
\<close>

definition hm_inv :: "'a hash_map \<Rightarrow> bool" where
  "hm_inv m = distinct (map fst m)"

fun bt_insert :: "string \<Rightarrow> 'a \<Rightarrow> 'a btree_map \<Rightarrow> 'a btree_map" where
  "bt_insert k v [] = [(k, v)]"
| "bt_insert k v ((k', v') # m) =
     (if k < k' then (k, v) # (k', v') # m
      else if k = k' then (k, v) # m
      else (k', v') # bt_insert k v m)"

fun bt_remove :: "string \<Rightarrow> 'a btree_map \<Rightarrow> 'a btree_map" where
  "bt_remove k [] = []"
| "bt_remove k ((k', v') # m) = (if k = k' then m else (k', v') # bt_remove k m)"

definition bt_inv :: "'a btree_map \<Rightarrow> bool" where
  "bt_inv m = sorted_wrt (<) (map fst m)"

locale key_map =
  fixes ins :: "string \<Rightarrow> 'a \<Rightarrow> 'm \<Rightarrow> 'm"
    and del :: "string \<Rightarrow> 'm \<Rightarrow> 'm"
    and get :: "'m \<Rightarrow> string \<Rightarrow> 'a option"
    and inv :: "'m \<Rightarrow> bool"
  assumes ins_inv: "inv m \<Longrightarrow> inv (ins k v m)"
    and del_inv: "inv m \<Longrightarrow> inv (del k m)"
    and get_ins: "inv m \<Longrightarrow> get (ins k v m) k' = (if k' = k then Some v else get m k')"
    and get_del: "inv m \<Longrightarrow> get (del k m) k' = (if k' = k then None else get m k')"
begin

lemma get_ins_same: "inv m \<Longrightarrow> get (ins k v m) k = Some v"
  by (simp add: get_ins)

lemma get_ins_other: "inv m \<Longrightarrow> k' \<noteq> k \<Longrightarrow> get (ins k v m) k' = get m k'"
  by (simp add: get_ins)

lemma dom_ins: "inv m \<Longrightarrow> dom (get (ins k v m)) = insert k (dom (get m))"
  by (auto simp: get_ins split: if_splits)

lemma dom_del: "inv m \<Longrightarrow> dom (get (del k m)) = dom (get m) - {k}"
  by (auto simp: get_del split: if_splits)

text \<open>A batch of insertions with one value function, as the loaders do it.\<close>

lemma fold_ins:
  "inv m \<Longrightarrow> inv (fold (\<lambda>k. ins k (f k)) ks m)
     \<and> get (fold (\<lambda>k. ins k (f k)) ks m) k' = (if k' \<in> set ks then Some (f k') else get m k')"
proof (induction ks arbitrary: m)
  case (Cons k ks)
  then have "inv (ins k (f k) m)" by (simp add: ins_inv)
  from Cons.IH[OF this] Cons.prems show ?case by (simp add: get_ins)
qed simp

end

interpretation hm: key_map AList.update AList.delete map_of hm_inv
  by unfold_locales
    (auto simp: hm_inv_def distinct_update distinct_delete AList.update_conv AList.delete_conv)

lemma map_of_bt_insert [map_simps]:
  "map_of (bt_insert k v m) k' = (if k' = k then Some v else map_of m k')"
  by (induction k v m rule: bt_insert.induct) auto

lemma bt_insert_keys: "fst ` set (bt_insert k v m) = insert k (fst ` set m)"
proof -
  have "dom (map_of (bt_insert k v m)) = insert k (dom (map_of m))"
    by (auto simp: map_of_bt_insert split: if_splits)
  then show ?thesis by (simp add: dom_map_of_conv_image_fst)
qed

lemma bt_remove_set: "set (bt_remove k m) \<subseteq> set m"
  by (induction k m rule: bt_remove.induct) auto

lemma bt_inv_Nil [simp]: "bt_inv []"
  by (simp add: bt_inv_def)

lemma bt_inv_Cons: "bt_inv ((k, v) # m) \<longleftrightarrow> (\<forall>k' \<in> fst ` set m. k < k') \<and> bt_inv m"
  by (auto simp: bt_inv_def)

lemma bt_insert_inv: "bt_inv m \<Longrightarrow> bt_inv (bt_insert k v m)"
proof (induction k v m rule: bt_insert.induct)
  case (2 k v k' v' m)
  consider "k < k'" | "k = k'" | "k' < k" by (rule linorder_cases)
  then show ?case
  proof cases
    case 1
    with "2.prems" show ?thesis by (auto simp: bt_inv_Cons intro: less_trans)
  next
    case 2
    with "2.prems" show ?thesis by (simp add: bt_inv_Cons)
  next
    case 3
    with "2.prems" "2.IH" have "bt_inv (bt_insert k v m)" by (auto simp: bt_inv_Cons)
    with 3 "2.prems" show ?thesis by (auto simp: bt_inv_Cons bt_insert_keys)
  qed
qed (simp add: bt_inv_Cons)

lemma bt_remove_inv: "bt_inv m \<Longrightarrow> bt_inv (bt_remove k m)"
proof (induction k m rule: bt_remove.induct)
  case (2 k k' v' m)
  with bt_remove_set[of k m] show ?case by (auto simp: bt_inv_Cons subset_iff)
qed simp

lemma map_of_bt_remove:
  "bt_inv m \<Longrightarrow> map_of (bt_remove k m) k' = (if k' = k then None else map_of m k')"
proof (induction k m rule: bt_remove.induct)
  case (2 k k'' v m)
  show ?case
  proof (cases "k = k''")
    case True
    with "2.prems" have "k \<notin> fst ` set m" by (auto simp: bt_inv_Cons)
    with True show ?thesis by (auto simp: map_of_eq_None_iff)
  next
    case False
    with 2 show ?thesis by (auto simp: bt_inv_Cons)
  qed
qed simp

interpretation bt: key_map bt_insert bt_remove map_of bt_inv
  by unfold_locales (simp_all add: bt_insert_inv bt_remove_inv map_of_bt_insert map_of_bt_remove)

lemma map_of_update [map_simps]:
  "map_of (AList.update k v m) k' = (if k' = k then Some v else map_of m k')"
  by (simp add: AList.update_conv)

lemma map_of_delete [map_simps]:
  "map_of (AList.delete k m) k' = (if k' = k then None else map_of m k')"
  by (simp add: AList.delete_conv)

lemma bt_insert_commute_lookup:
  "k \<noteq> k' \<Longrightarrow> map_of (bt_insert k v (bt_insert k' v' m)) = map_of (bt_insert k' v' (bt_insert k v m))"
  by (auto simp: map_simps)

lemmas map_lookup = map_of_update map_of_delete map_of_bt_insert

end
