(* ===== verification/KindTree.thy ===== *)
theory KindTree
  imports Prelude
begin

text \<open>
  The nested kinds registry of the manifest (\<open>KindTree\<close>, \<open>KindTreeNode\<close> and the
  \<open>kind_tree_*\<close> functions of \<open>src/entity.rs\<close>).  Each level is a \<open>BTreeMap\<close>; a protocol ID is
  split on \<open>/\<close> into the path of its leaf.  The contract of a map from paths to links is the
  locale \<open>path_map\<close>, interpreted on the tree.
\<close>

section \<open>Model\<close>

text \<open>\<open>IpldLink\<close> wraps one CID string.\<close>

type_synonym ipld_link = cid

datatype kind_tree_node = Leaf ipld_link | Branch "(string \<times> kind_tree_node) list"

type_synonym kind_tree = "kind_tree_node btree_map"

fun kind_tree_insert :: "kind_tree \<Rightarrow> string list \<Rightarrow> ipld_link \<Rightarrow> kind_tree" where
  "kind_tree_insert m [] link = m"
| "kind_tree_insert m [key] link = bt_insert key (Leaf link) m"
| "kind_tree_insert m (key # rest) link =
     (case map_of m key of
        None \<Rightarrow> bt_insert key (Branch (kind_tree_insert [] rest link)) m
      | Some (Branch inner) \<Rightarrow> bt_insert key (Branch (kind_tree_insert inner rest link)) m
      | Some (Leaf _) \<Rightarrow> m)"

fun kind_tree_get :: "kind_tree \<Rightarrow> string list \<Rightarrow> ipld_link option" where
  "kind_tree_get m [] = None"
| "kind_tree_get m [key] =
     (case map_of m key of Some (Leaf link) \<Rightarrow> Some link | _ \<Rightarrow> None)"
| "kind_tree_get m (key # rest) =
     (case map_of m key of Some (Branch inner) \<Rightarrow> kind_tree_get inner rest | _ \<Rightarrow> None)"

text \<open>Removal returns the new map and whether something was removed; emptied branches go.\<close>

fun kind_tree_remove :: "kind_tree \<Rightarrow> string list \<Rightarrow> kind_tree \<times> bool" where
  "kind_tree_remove m [] = (m, False)"
| "kind_tree_remove m [key] = (bt_remove key m, map_of m key \<noteq> None)"
| "kind_tree_remove m (key # rest) =
     (case map_of m key of
        Some (Branch inner) \<Rightarrow>
          (let (inner', removed) = kind_tree_remove inner rest
           in (if inner' = [] then bt_remove key m else bt_insert key (Branch inner') m, removed))
      | _ \<Rightarrow> (m, False))"

fun kind_tree_collect_ids :: "kind_tree \<Rightarrow> string \<Rightarrow> string list" where
  "kind_tree_collect_ids [] pre = []"
| "kind_tree_collect_ids ((key, Leaf link) # m) pre =
     (pre @ ''/'' @ key) # kind_tree_collect_ids m pre"
| "kind_tree_collect_ids ((key, Branch inner) # m) pre =
     kind_tree_collect_ids inner (pre @ ''/'' @ key) @ kind_tree_collect_ids m pre"

definition segments :: "string \<Rightarrow> string list" where
  "segments protocol = split_on (CHR ''/'') (trim_start_matches (CHR ''/'') protocol)"

definition insert_protocol :: "string \<Rightarrow> ipld_link \<Rightarrow> kind_tree \<Rightarrow> kind_tree" where
  "insert_protocol protocol link t = kind_tree_insert t (segments protocol) link"

definition get_protocol :: "kind_tree \<Rightarrow> string \<Rightarrow> ipld_link option" where
  "get_protocol t protocol = kind_tree_get t (segments protocol)"

definition remove_protocol :: "string \<Rightarrow> kind_tree \<Rightarrow> kind_tree \<times> bool" where
  "remove_protocol protocol t = kind_tree_remove t (segments protocol)"

definition protocol_ids :: "kind_tree \<Rightarrow> string list" where
  "protocol_ids t = kind_tree_collect_ids t []"

definition iter_protocols :: "kind_tree \<Rightarrow> (string \<times> ipld_link) list" where
  "iter_protocols t =
     List.map_filter (\<lambda>i. map_option (\<lambda>link. (i, link)) (get_protocol t i)) (protocol_ids t)"

section \<open>Well-formed trees\<close>

text \<open>Every level is ordered, no key contains the separator, and no branch is empty.\<close>

fun node_ok :: "kind_tree_node \<Rightarrow> bool"
  and level_ok :: "kind_tree \<Rightarrow> bool" where
  "node_ok (Leaf link) = True"
| "node_ok (Branch inner) = (inner \<noteq> [] \<and> bt_inv inner \<and> level_ok inner)"
| "level_ok [] = True"
| "level_ok ((k, n) # m) = (CHR ''/'' \<notin> set k \<and> node_ok n \<and> level_ok m)"

definition tree_ok :: "kind_tree \<Rightarrow> bool" where
  "tree_ok t = (bt_inv t \<and> level_ok t \<and> (\<forall>inner. map_of t [] \<noteq> Some (Branch inner)))"

text \<open>
  A path fits if no proper prefix of it is a leaf and it is not itself a branch: then
  inserting it neither is ignored nor discards other entries.
\<close>

fun fits :: "kind_tree \<Rightarrow> string list \<Rightarrow> bool" where
  "fits m [] = False"
| "fits m [key] = (case map_of m key of Some (Branch _) \<Rightarrow> False | _ \<Rightarrow> True)"
| "fits m (key # rest) =
     (case map_of m key of None \<Rightarrow> True | Some (Branch inner) \<Rightarrow> fits inner rest | Some (Leaf _) \<Rightarrow> False)"

lemma level_ok_iff: "level_ok m \<longleftrightarrow> (\<forall>(k, n)\<in>set m. CHR ''/'' \<notin> set k \<and> node_ok n)"
  by (induction m) auto

lemma level_ok_map_of:
  "level_ok m \<Longrightarrow> map_of m k = Some n \<Longrightarrow> CHR ''/'' \<notin> set k \<and> node_ok n"
  unfolding level_ok_iff by (auto dest!: map_of_SomeD)

lemma bt_insert_set: "set (bt_insert k v m) \<subseteq> insert (k, v) (set m)"
  by (induction k v m rule: bt_insert.induct) auto

lemma bt_insert_not_Nil [simp]: "bt_insert k v m \<noteq> []"
  by (induction k v m rule: bt_insert.induct) auto

lemma level_ok_bt_insert:
  "level_ok m \<Longrightarrow> CHR ''/'' \<notin> set k \<Longrightarrow> node_ok n \<Longrightarrow> level_ok (bt_insert k n m)"
  unfolding level_ok_iff using bt_insert_set[of k n m] by auto

lemma level_ok_bt_remove: "level_ok m \<Longrightarrow> level_ok (bt_remove k m)"
  unfolding level_ok_iff using bt_remove_set[of k m] by auto

lemma kind_tree_insert_not_Nil: "p \<noteq> [] \<Longrightarrow> kind_tree_insert m p l \<noteq> []"
  by (cases "(m, p, l)" rule: kind_tree_insert.cases)
     (auto split: option.splits kind_tree_node.splits)

lemma kind_tree_insert_ok:
  "bt_inv m \<Longrightarrow> level_ok m \<Longrightarrow> p \<noteq> [] \<Longrightarrow> \<forall>k\<in>set p. CHR ''/'' \<notin> set k \<Longrightarrow>
     bt_inv (kind_tree_insert m p l) \<and> level_ok (kind_tree_insert m p l)"
proof (induction m p l rule: kind_tree_insert.induct)
  case (3 m key r rs link)
  show ?case
  proof (cases "map_of m key")
    case None
    with 3 show ?thesis by (simp add: bt_insert_inv level_ok_bt_insert kind_tree_insert_not_Nil)
  next
    case (Some n)
    with 3(4) have "node_ok n" using level_ok_map_of by blast
    with Some 3 show ?thesis
      by (cases n) (auto simp: bt_insert_inv level_ok_bt_insert kind_tree_insert_not_Nil)
  qed
qed (auto simp: bt_insert_inv level_ok_bt_insert)

section \<open>The path-map contract\<close>

locale path_map =
  fixes ins :: "'p \<Rightarrow> 'l \<Rightarrow> 't \<Rightarrow> 't"
    and get :: "'t \<Rightarrow> 'p \<Rightarrow> 'l option"
    and fit :: "'t \<Rightarrow> 'p \<Rightarrow> bool"
    and compat :: "'p \<Rightarrow> 'p \<Rightarrow> bool"
  assumes get_ins: "fit t p \<Longrightarrow> get (ins p l t) q = (if q = p then Some l else get t q)"
    and fit_ins: "fit t p \<Longrightarrow> fit t q \<Longrightarrow> compat p q \<Longrightarrow> fit (ins p l t) q"
begin

text \<open>Inserting a batch of mutually compatible entries overlays them on the map.\<close>

lemma get_overlay:
  assumes "\<forall>p\<in>fst ` set xs. fit t p"
    and "\<forall>p\<in>fst ` set xs. \<forall>q\<in>fst ` set xs. compat p q" and "\<forall>p l l'. (p, l) \<in> set xs \<longrightarrow> (p, l') \<in> set xs \<longrightarrow> l = l'"
  shows "get (fold (\<lambda>(p, l). ins p l) xs t) q
       = (case map_of xs q of Some l \<Rightarrow> Some l | None \<Rightarrow> get t q)"
  using assms
proof (induction xs arbitrary: t)
  case (Cons x xs)
  obtain p l where x: "x = (p, l)" by (cases x)
  have "\<forall>q\<in>fst ` set xs. fit (ins p l t) q"
    using Cons.prems(1,2) x by (auto intro!: fit_ins)
  with Cons.IH[of "ins p l t"] Cons.prems
  have "get (fold (\<lambda>(p, l). ins p l) xs (ins p l t)) q
      = (case map_of xs q of Some l' \<Rightarrow> Some l' | None \<Rightarrow> get (ins p l t) q)" by auto
  moreover have "l' = l" if "map_of xs p = Some l'" for l'
    using Cons.prems(3) x map_of_SomeD[OF that] by (metis list.set_intros)
  ultimately show ?case
    using Cons.prems(1) x by (auto simp: get_ins split: option.splits)
qed simp

lemma get_ins_same: "fit t p \<Longrightarrow> get (ins p l t) p = Some l"
  by (simp add: get_ins)

end

definition path_compat :: "string list \<Rightarrow> string list \<Rightarrow> bool" where
  "path_compat p q = (\<not> strict_prefix p q \<and> \<not> strict_prefix q p)"

lemma fits_Nil: "p \<noteq> [] \<Longrightarrow> fits [] p"
  by (cases "([] :: kind_tree, p)" rule: fits.cases) auto

lemma kind_tree_get_Nil [simp]: "kind_tree_get [] p = None"
  by (cases "([] :: kind_tree, p)" rule: kind_tree_get.cases) auto

lemma kind_tree_get_Cons:
  "kind_tree_get m (k # r) =
     (case map_of m k of
        None \<Rightarrow> None
      | Some (Leaf l) \<Rightarrow> if r = [] then Some l else None
      | Some (Branch i) \<Rightarrow> kind_tree_get i r)"
  by (cases r) (auto split: option.splits kind_tree_node.splits)

lemma fits_Cons:
  "fits m (k # r) =
     (case map_of m k of
        None \<Rightarrow> True | Some (Leaf l) \<Rightarrow> r = [] | Some (Branch i) \<Rightarrow> fits i r)"
  by (cases r) (auto split: option.splits kind_tree_node.splits)

lemma kind_tree_insert_Cons:
  "fits m (k # r) \<Longrightarrow> kind_tree_insert m (k # r) l =
     bt_insert k (if r = [] then Leaf l
        else Branch (kind_tree_insert (case map_of m k of Some (Branch i) \<Rightarrow> i | _ \<Rightarrow> []) r l)) m"
  by (cases r) (auto split: option.splits kind_tree_node.splits)

lemma kind_tree_get_insert:
  "fits m p \<Longrightarrow> kind_tree_get (kind_tree_insert m p l) q = (if q = p then Some l else kind_tree_get m q)"
proof (induction p arbitrary: m q)
  case (Cons k r)
  show ?case
  proof (cases q)
    case (Cons k' r')
    show ?thesis
    proof (cases "r = []")
      case True
      with Cons Cons.prems show ?thesis
        by (auto simp: kind_tree_get_Cons map_simps split: option.splits kind_tree_node.splits)
    next
      case False
      let ?i = "case map_of m k of Some (Branch i) \<Rightarrow> i | _ \<Rightarrow> []"
      have "fits ?i r" using Cons.prems False
        by (auto simp: fits_Cons fits_Nil split: option.splits kind_tree_node.splits)
      from Cons.IH[OF this, of r'] Cons False Cons.prems show ?thesis
        by (auto simp: kind_tree_insert_Cons kind_tree_get_Cons[of _ k'] map_simps fits_Cons[of m k]
            split: option.splits kind_tree_node.splits)
    qed
  qed simp
qed simp

lemma fits_insert:
  "fits m p \<Longrightarrow> fits m q \<Longrightarrow> path_compat p q \<Longrightarrow> fits (kind_tree_insert m p l) q"
proof (induction p arbitrary: m q)
  case (Cons k r)
  obtain k' r' where q: "q = k' # r'" using Cons.prems(2) by (cases q) auto
  show ?case
  proof (cases "k' = k \<and> r \<noteq> []")
    case False
    with Cons.prems q show ?thesis
      by (cases r') (auto simp: kind_tree_insert_Cons fits_Cons map_simps path_compat_def
          split: option.splits kind_tree_node.splits)
  next
    case True
    let ?i = "case map_of m k of Some (Branch i) \<Rightarrow> i | _ \<Rightarrow> []"
    have "r' \<noteq> []" using Cons.prems(3) True q by (cases r) (auto simp: path_compat_def)
    moreover from this have "fits ?i r" "fits ?i r'" using Cons.prems True q
      by (auto simp: fits_Cons fits_Nil split: option.splits kind_tree_node.splits)
    moreover have "path_compat r r'" using Cons.prems(3) True q by (auto simp: path_compat_def)
    ultimately have "fits (kind_tree_insert ?i r l) r'" using Cons.IH by blast
    with Cons.prems True q show ?thesis by (simp add: kind_tree_insert_Cons fits_Cons map_simps)
  qed
qed simp

interpretation kt: path_map "\<lambda>p l t. kind_tree_insert t p l" kind_tree_get fits path_compat
  by unfold_locales (simp_all add: kind_tree_get_insert fits_insert)

section \<open>Removal\<close>

lemma kind_tree_remove_Cons:
  "kind_tree_remove m (k # r) =
     (if r = [] then (bt_remove k m, map_of m k \<noteq> None)
      else (case map_of m k of
              Some (Branch i) \<Rightarrow>
                (let (i', removed) = kind_tree_remove i r
                 in (if i' = [] then bt_remove k m else bt_insert k (Branch i') m, removed))
            | _ \<Rightarrow> (m, False)))"
  by (cases r) (auto split: option.splits kind_tree_node.splits)

lemma kind_tree_get_remove:
  "bt_inv m \<Longrightarrow> level_ok m \<Longrightarrow> p \<noteq> [] \<Longrightarrow>
     kind_tree_get (fst (kind_tree_remove m p)) q = (if prefix p q then None else kind_tree_get m q)"
proof (induction p arbitrary: m q)
  case (Cons k r)
  show ?case
  proof (cases q)
    case (Cons k' r')
    show ?thesis
    proof (cases "\<exists>i. r \<noteq> [] \<and> map_of m k = Some (Branch i)")
      case True
      then obtain i where r: "r \<noteq> []" and i: "map_of m k = Some (Branch i)" by blast
      obtain i' b where rem: "kind_tree_remove i r = (i', b)" by fastforce
      have "bt_inv i" "level_ok i" using level_ok_map_of[OF Cons.prems(2) i] by auto
      from Cons.IH[OF this r, of r'] rem
      have ih: "kind_tree_get i' r' = (if prefix r r' then None else kind_tree_get i r')" by simp
      show ?thesis using r i rem ih Cons Cons.prems(1)
        by (auto simp: kind_tree_remove_Cons kind_tree_get_Cons map_of_bt_remove map_simps
            split: option.splits kind_tree_node.splits)
    next
      case False
      with Cons Cons.prems(1) show ?thesis
        by (cases "r = []")
           (auto simp: kind_tree_remove_Cons kind_tree_get_Cons map_of_bt_remove prefix_def
              split: option.splits kind_tree_node.splits)
    qed
  qed simp
qed simp

lemma bt_remove_insert: "map_of m k = None \<Longrightarrow> bt_remove k (bt_insert k v m) = m"
  by (induction k v m rule: bt_insert.induct) (auto split: if_splits)

lemma bt_insert_insert: "bt_insert k v (bt_insert k v' m) = bt_insert k v m"
  by (induction k v' m rule: bt_insert.induct) auto

lemma bt_insert_same: "bt_inv m \<Longrightarrow> map_of m k = Some v \<Longrightarrow> bt_insert k v m = m"
proof (induction k v m rule: bt_insert.induct)
  case (2 k v k' v' m)
  have "\<not> k < k'" if "map_of m k = Some v"
  proof -
    have "k' < k" using 2(2) map_of_SomeD[OF that] by (auto simp: bt_inv_Cons)
    then show ?thesis by simp
  qed
  with 2 show ?case by (auto simp: bt_inv_Cons split: if_splits)
qed simp

lemma kind_tree_remove_insert:
  "bt_inv m \<Longrightarrow> level_ok m \<Longrightarrow> fits m p \<Longrightarrow> kind_tree_get m p = None \<Longrightarrow>
     kind_tree_remove (kind_tree_insert m p l) p = (m, True)"
proof (induction p arbitrary: m)
  case (Cons k r)
  show ?case
  proof (cases "r = []")
    case True
    with Cons.prems have "map_of m k = None"
      by (auto split: option.splits kind_tree_node.splits)
    with True show ?thesis by (simp add: bt_remove_insert map_simps)
  next
    case False
    show ?thesis
    proof (cases "map_of m k")
      case None
      with Cons.IH[of "[]"] False show ?thesis
        by (simp add: kind_tree_insert_Cons fits_Cons kind_tree_remove_Cons map_simps fits_Nil
            bt_remove_insert)
    next
      case (Some n)
      with Cons.prems(3) False obtain i where n: "n = Branch i"
        by (cases n) (auto simp: fits_Cons)
      then have i: "bt_inv i" "level_ok i" "i \<noteq> []"
        using level_ok_map_of[OF Cons.prems(2), of k n] Some by auto
      with Cons.IH[OF i(1,2)] Cons.prems Some n False show ?thesis
        by (simp add: kind_tree_insert_Cons fits_Cons kind_tree_remove_Cons kind_tree_get_Cons
            map_simps bt_insert_insert bt_insert_same)
    qed
  qed
qed simp

section \<open>Enumeration\<close>

definition slashed :: "string list \<Rightarrow> string" where
  "slashed p = concat (map (\<lambda>k. CHR ''/'' # k) p)"

lemma slashed_join: "p \<noteq> [] \<Longrightarrow> slashed p = ''/'' @ join_with ''/'' p"
  by (induction "''/''" p rule: join_with.induct) (auto simp: slashed_def)

lemma set_collect_ids:
  "bt_inv m \<Longrightarrow> level_ok m \<Longrightarrow>
     set (kind_tree_collect_ids m pre) = {pre @ slashed p | p l. kind_tree_get m p = Some l}"
proof (induction m pre rule: kind_tree_collect_ids.induct)
  case (2 key link m pre)
  have fresh: "map_of m key = None"
    using "2.prems"(1) by (auto simp: bt_inv_Cons map_of_eq_None_iff)
  have split: "kind_tree_get ((key, Leaf link) # m) p = Some l \<longleftrightarrow>
      (p = [key] \<and> l = link) \<or> kind_tree_get m p = Some l" for p l
    using fresh by (cases p) (auto simp: kind_tree_get_Cons)
  have ok: "bt_inv m" "level_ok m" using "2.prems" by (auto simp: bt_inv_Cons)
  have "{pre @ slashed p | p l. kind_tree_get ((key, Leaf link) # m) p = Some l}
      = insert (pre @ slashed [key]) {pre @ slashed p | p l. kind_tree_get m p = Some l}"
    unfolding split by blast
  with "2.IH"[OF ok] show ?case by (simp add: slashed_def)
next
  case (3 key inner m pre)
  have fresh: "map_of m key = None"
    using "3.prems"(1) by (auto simp: bt_inv_Cons map_of_eq_None_iff)
  have split: "kind_tree_get ((key, Branch inner) # m) p = Some l \<longleftrightarrow>
      (\<exists>r. p = key # r \<and> kind_tree_get inner r = Some l) \<or> kind_tree_get m p = Some l" for p l
    using fresh by (cases p) (auto simp: kind_tree_get_Cons)
  have ok: "bt_inv m" "level_ok m" "bt_inv inner" "level_ok inner"
    using "3.prems" by (auto simp: bt_inv_Cons)
  have "{pre @ slashed p | p l. kind_tree_get ((key, Branch inner) # m) p = Some l}
      = {(pre @ ''/'' @ key) @ slashed r | r l. kind_tree_get inner r = Some l}
        \<union> {pre @ slashed p | p l. kind_tree_get m p = Some l}"
    unfolding split by (auto simp: slashed_def) (metis append_Cons concat.simps(2) list.simps(9))
  with "3.IH"(1)[OF ok(3,4)] "3.IH"(2)[OF ok(1,2)] show ?case by auto
qed simp

lemma kind_tree_get_keys:
  "level_ok m \<Longrightarrow> kind_tree_get m p = Some l \<Longrightarrow> p \<noteq> [] \<and> (\<forall>k\<in>set p. CHR ''/'' \<notin> set k)"
proof (induction p arbitrary: m)
  case (Cons k r)
  then obtain n where n: "map_of m k = Some n"
    by (auto simp: kind_tree_get_Cons split: option.splits)
  from level_ok_map_of[OF Cons.prems(1) n] Cons n show ?case
    by (cases n) (auto simp: kind_tree_get_Cons split: if_splits)
qed simp

lemma segments_slashed:
  assumes "p \<noteq> []" "\<forall>k\<in>set p. CHR ''/'' \<notin> set k" "p = [[]] \<or> hd p \<noteq> []"
  shows "segments (slashed p) = p"
proof -
  obtain k r where p: "p = k # r" using assms(1) by (cases p) auto
  have "trim_start_matches (CHR ''/'') (slashed p) = join_with ''/'' p"
  proof (cases k)
    case Nil
    with assms(3) p show ?thesis by (simp add: slashed_def trim_start_matches_def)
  next
    case (Cons c cs)
    with assms(2) p have "c \<noteq> CHR ''/''" by auto
    moreover obtain xs where "join_with ''/'' p = c # xs" using Cons p by (cases r) auto
    ultimately show ?thesis using assms(1) by (simp add: slashed_join trim_start_matches_def)
  qed
  then show ?thesis using assms(1,2) by (simp add: segments_def split_on_join)
qed

lemma tree_ok_path:
  assumes "tree_ok t" and "kind_tree_get t p = Some l"
  shows "p \<noteq> [] \<and> (\<forall>k\<in>set p. CHR ''/'' \<notin> set k) \<and> (p = [[]] \<or> hd p \<noteq> [])"
proof -
  have keys: "p \<noteq> [] \<and> (\<forall>k\<in>set p. CHR ''/'' \<notin> set k)"
    using assms kind_tree_get_keys by (auto simp: tree_ok_def)
  moreover have "p = [[]]" if "hd p = []"
    using assms keys that
    by (cases p) (auto simp: tree_ok_def kind_tree_get_Cons split: option.splits kind_tree_node.splits if_splits)
  ultimately show ?thesis by blast
qed

lemma set_protocol_ids:
  "tree_ok t \<Longrightarrow> set (protocol_ids t) = {slashed p | p l. kind_tree_get t p = Some l}"
  by (simp add: protocol_ids_def tree_ok_def set_collect_ids)

lemma set_iter_protocols:
  assumes "tree_ok t"
  shows "set (iter_protocols t) = {(slashed p, l) | p l. kind_tree_get t p = Some l}"
proof -
  have "get_protocol t (slashed p) = kind_tree_get t p" if "kind_tree_get t p = Some l" for p l
    using tree_ok_path[OF assms that] by (simp add: get_protocol_def segments_slashed)
  note get = this
  have "(i, l) \<in> set (iter_protocols t) \<longleftrightarrow> i \<in> set (protocol_ids t) \<and> get_protocol t i = Some l" for i l
    by (auto simp: iter_protocols_def List.map_filter_def) force
  then have "(i, l) \<in> set (iter_protocols t) \<longleftrightarrow> (\<exists>p. i = slashed p \<and> kind_tree_get t p = Some l)" for i l
    unfolding set_protocol_ids[OF assms] by (auto simp: get)
  then show ?thesis by auto
qed

lemma iter_protocols_iff:
  assumes "tree_ok t"
  shows "(i, l) \<in> set (iter_protocols t) \<longleftrightarrow>
           get_protocol t i = Some l \<and> i = ''/'' @ join_with ''/'' (segments i)"
proof
  assume "(i, l) \<in> set (iter_protocols t)"
  then obtain p where p: "i = slashed p" "kind_tree_get t p = Some l"
    by (auto simp: set_iter_protocols[OF assms])
  from tree_ok_path[OF assms p(2)] have path: "p \<noteq> []" "segments i = p"
    using p(1) by (simp_all add: segments_slashed)
  then show "get_protocol t i = Some l \<and> i = ''/'' @ join_with ''/'' (segments i)"
    using p slashed_join[OF path(1)] by (simp add: get_protocol_def)
next
  assume r: "get_protocol t i = Some l \<and> i = ''/'' @ join_with ''/'' (segments i)"
  then have "i = slashed (segments i)" by (simp add: slashed_join segments_def)
  with r show "(i, l) \<in> set (iter_protocols t)"
    unfolding set_iter_protocols[OF assms] get_protocol_def by blast
qed

section \<open>Insertion keeps a tree well formed\<close>

lemma split_on_hd_nonempty: "s \<noteq> [] \<Longrightarrow> hd s \<noteq> c \<Longrightarrow> hd (split_on c s) \<noteq> []"
  by (cases s) (auto split: list.splits)

lemma hd_trim_start_matches: "trim_start_matches c s \<noteq> [] \<Longrightarrow> hd (trim_start_matches c s) \<noteq> c"
  using hd_dropWhile[of "\<lambda>x. x = c" s] by (simp add: trim_start_matches_def)

lemma segments_path:
  "segments q \<noteq> []" "\<forall>k\<in>set (segments q). CHR ''/'' \<notin> set k" "segments q = [[]] \<or> hd (segments q) \<noteq> []"
proof -
  show "segments q \<noteq> []" "\<forall>k\<in>set (segments q). CHR ''/'' \<notin> set k"
    by (auto simp: segments_def split_on_not_Nil dest: split_on_elem)
  show "segments q = [[]] \<or> hd (segments q) \<noteq> []"
    using split_on_hd_nonempty[OF _ hd_trim_start_matches, of "CHR ''/''" q]
    by (cases "trim_start_matches (CHR ''/'') q = []") (simp_all add: segments_def)
qed

lemma root_not_branch_insert:
  assumes "map_of t [] \<noteq> Some (Branch inner)" "p = [[]] \<or> hd p \<noteq> []" "p \<noteq> []"
  shows "map_of (kind_tree_insert t p l) [] \<noteq> Some (Branch inner)"
proof (cases p)
  case (Cons k r)
  with assms show ?thesis
    by (cases r) (auto simp: map_simps split: option.splits kind_tree_node.splits)
qed (use assms in simp)

lemma tree_ok_insert_protocol: "tree_ok t \<Longrightarrow> tree_ok (insert_protocol q l t)"
  using kind_tree_insert_ok[of t "segments q" l] segments_path[of q] root_not_branch_insert[of t _ "segments q" l]
  by (simp add: tree_ok_def insert_protocol_def)

lemma tree_ok_Nil: "tree_ok []"
  by (simp add: tree_ok_def)

lemma tree_ok_fold: "tree_ok t \<Longrightarrow> tree_ok (fold (\<lambda>(q, l). insert_protocol q l) ls t)"
  by (induction ls arbitrary: t) (auto simp: tree_ok_insert_protocol)

section \<open>Insertions through a leaf\<close>

lemma kind_tree_insert_Cons_Cons:
  "r \<noteq> [] \<Longrightarrow> kind_tree_insert m (k # r) l =
     (case map_of m k of
        None \<Rightarrow> bt_insert k (Branch (kind_tree_insert [] r l)) m
      | Some (Branch i) \<Rightarrow> bt_insert k (Branch (kind_tree_insert i r l)) m
      | Some (Leaf _) \<Rightarrow> m)"
  by (cases r) auto

lemma blocked_insert:
  "kind_tree_get m ks = Some l' \<Longrightarrow> bt_inv m \<Longrightarrow> level_ok m \<Longrightarrow>
     kind_tree_insert m (ks @ k # rest) l = m"
proof (induction ks arbitrary: m)
  case (Cons k' ks)
  then obtain n where n: "map_of m k' = Some n"
    by (auto simp: kind_tree_get_Cons split: option.splits)
  from level_ok_map_of[OF Cons.prems(3) n] have "node_ok n" by simp
  with Cons n show ?case
    by (cases n) (auto simp: kind_tree_get_Cons kind_tree_insert_Cons_Cons bt_insert_same)
qed simp

lemma blocked_get:
  "kind_tree_get m ks = Some l' \<Longrightarrow> kind_tree_get m (ks @ k # rest) = None"
proof (induction ks arbitrary: m)
  case (Cons k' ks)
  then show ?case
    by (auto simp: kind_tree_get_Cons split: option.splits kind_tree_node.splits if_splits)
qed simp

section \<open>Insertion without a condition\<close>

text \<open>A path below a leaf cannot be inserted or found.\<close>

definition shadowed :: "kind_tree \<Rightarrow> string list \<Rightarrow> bool" where
  "shadowed t s \<longleftrightarrow> (\<exists>p. strict_prefix p s \<and> kind_tree_get t p \<noteq> None)"

lemma shadowed_simps [simp]:
  "\<not> shadowed t []"
  "shadowed t (k # r) \<longleftrightarrow> r \<noteq> [] \<and> (case map_of t k of None \<Rightarrow> False | Some (Leaf _) \<Rightarrow> True | Some (Branch i) \<Rightarrow> shadowed i r)"
proof -
  show "\<not> shadowed t []" by (simp add: shadowed_def)
  have "shadowed t (k # r) \<longleftrightarrow> (\<exists>p. strict_prefix p r \<and> kind_tree_get t (k # p) \<noteq> None)"
  proof
    assume "shadowed t (k # r)"
    then obtain p where p: "strict_prefix p (k # r)" "kind_tree_get t p \<noteq> None" by (auto simp: shadowed_def)
    then show "\<exists>p. strict_prefix p r \<and> kind_tree_get t (k # p) \<noteq> None" by (cases p) auto
  next
    assume "\<exists>p. strict_prefix p r \<and> kind_tree_get t (k # p) \<noteq> None"
    then show "shadowed t (k # r)" unfolding shadowed_def by (metis strict_prefix_simps(3))
  qed
  moreover have "strict_prefix [] r \<longleftrightarrow> r \<noteq> []" by (cases r) auto
  moreover have "kind_tree_get i [] = None" for i by simp
  ultimately show "shadowed t (k # r) \<longleftrightarrow> r \<noteq> [] \<and> (case map_of t k of None \<Rightarrow> False | Some (Leaf _) \<Rightarrow> True | Some (Branch i) \<Rightarrow> shadowed i r)"
    by (auto simp: kind_tree_get_Cons shadowed_def split: option.splits kind_tree_node.splits)
qed

lemma shadowed_get: "shadowed t s \<Longrightarrow> kind_tree_get t s = None"
  by (auto simp: shadowed_def elim!: strict_prefixE' intro: blocked_get)

text \<open>Insertion without a condition: a path below a leaf is ignored, a path onto a branch discards the branch.\<close>

lemma kind_tree_get_insert_any:
  "p \<noteq> [] \<Longrightarrow> kind_tree_get (kind_tree_insert t p l) q =
     (if shadowed t p then kind_tree_get t q
      else if q = p then Some l
      else if strict_prefix p q then None
      else kind_tree_get t q)"
proof (induction p arbitrary: t q)
  case (Cons k r)
  show ?case
  proof (cases q)
    case (Cons k' r')
    show ?thesis
    proof (cases r)
      case Nil
      moreover have "strict_prefix [] r' \<longleftrightarrow> r' \<noteq> []" by (cases r') auto
      ultimately show ?thesis using Cons
        by (auto simp: kind_tree_get_Cons map_simps split: option.splits kind_tree_node.splits)
    next
      case (Cons a as)
      have step: "kind_tree_insert t (k # r) l =
         (case map_of t k of Some (Leaf _) \<Rightarrow> t
          | Some (Branch i) \<Rightarrow> bt_insert k (Branch (kind_tree_insert i r l)) t
          | None \<Rightarrow> bt_insert k (Branch (kind_tree_insert [] r l)) t)"
        using Cons by (simp split: option.split kind_tree_node.split)
      have ne: "r \<noteq> []" using Cons by simp
      have "\<not> shadowed [] r" by (simp add: shadowed_def)
      with Cons.IH[OF ne, of "[]" r'] have none: "kind_tree_get (kind_tree_insert [] r l) r' = (if r' = r then Some l else None)" by simp
      show ?thesis
        using \<open>q = k' # r'\<close> ne none Cons.IH[OF ne, of _ r'] unfolding step
        by (auto simp: kind_tree_get_Cons map_simps split: option.splits kind_tree_node.splits)
    qed
  qed simp
qed simp

lemma shadowed_insert:
  assumes "p \<noteq> []" and "path_compat p q"
  shows "shadowed (kind_tree_insert t p l) q = shadowed t q"
proof -
  have "kind_tree_get (kind_tree_insert t p l) x = kind_tree_get t x" if "strict_prefix x q" for x
    using that assms(2) unfolding kind_tree_get_insert_any[OF assms(1)] path_compat_def by (auto dest: prefix_order.less_trans)
  then show ?thesis by (auto simp: shadowed_def)
qed

text \<open>A batch of mutually compatible entries: what is above an old leaf or below a new one is not found.\<close>

lemma kind_tree_get_fold:
  assumes "\<forall>p\<in>fst ` set xs. p \<noteq> []"
    and "\<forall>p\<in>fst ` set xs. \<forall>q\<in>fst ` set xs. path_compat p q" and "\<forall>p l l'. (p, l) \<in> set xs \<longrightarrow> (p, l') \<in> set xs \<longrightarrow> l = l'"
  shows "kind_tree_get (fold (\<lambda>(p, l) t. kind_tree_insert t p l) xs t) q
       = (if \<exists>p\<in>fst ` set xs. strict_prefix p q then None
          else case map_of xs q of Some l \<Rightarrow> if shadowed t q then None else Some l | None \<Rightarrow> kind_tree_get t q)"
  using assms
proof (induction xs arbitrary: t)
  case (Cons x xs)
  obtain p l where x: "x = (p, l)" by (cases x)
  have p: "p \<noteq> []" using Cons.prems(1) x by simp
  let ?t = "kind_tree_insert t p l"
  have IH: "kind_tree_get (fold (\<lambda>(p, l) t. kind_tree_insert t p l) xs ?t) q
     = (if \<exists>p\<in>fst ` set xs. strict_prefix p q then None
          else case map_of xs q of Some l \<Rightarrow> if shadowed ?t q then None else Some l | None \<Rightarrow> kind_tree_get ?t q)"
    by (rule Cons.IH) (use Cons.prems in auto)
  have sh: "shadowed ?t q = shadowed t q" if "map_of xs q = Some l'" for l'
    using shadowed_insert[OF p, of q t l] Cons.prems(2) x map_of_SomeD[OF that] by force
  have same: "l' = l" if "map_of xs p = Some l'" for l'
    using Cons.prems(3) x map_of_SomeD[OF that] by (metis list.set_intros)
  have below: "kind_tree_get t q = None" if "strict_prefix p q" "shadowed t p"
    using that by (intro shadowed_get) (auto simp: shadowed_def dest: prefix_order.less_trans)
  have not_in: "map_of xs q = None" if "strict_prefix p q"
  proof (cases "map_of xs q")
    case (Some l')
    then show ?thesis using Cons.prems(2) x that map_of_SomeD[OF Some] by (force simp: path_compat_def)
  qed
  show ?case
    using IH x sh same below not_in
    by (cases "map_of xs q") (auto simp: kind_tree_get_insert_any[OF p] shadowed_get)
qed simp

section \<open>Properties\<close>

text \<open>
  The nested tree refines a map from protocol IDs to links: inserting a protocol whose
  path fits makes it the answer for every spelling of that protocol and leaves every other
  protocol's link alone.
\<close>

theorem kind_insert_lookup:
  assumes "fits t (segments p)"
  shows "get_protocol (insert_protocol p l t) q =
           (if segments q = segments p then Some l else get_protocol t q)"
  using kt.get_ins[OF assms] by (simp add: get_protocol_def insert_protocol_def)

theorem kind_insert_lookup_witness:
  "get_protocol (insert_protocol ''/ma/room/0.0.1'' ''bafyA'' []) ''ma/room/0.0.1'' = Some ''bafyA''"
proof -
  have "fits [] (segments ''/ma/room/0.0.1'')"
    by (simp add: segments_def trim_start_matches_def)
  from kind_insert_lookup[OF this] show ?thesis
    by (simp add: segments_def trim_start_matches_def)
qed

text \<open>
  C4 (kind tree). Removing a protocol from a well-formed tree removes exactly the entries at or below its path
  and nothing else; a freshly inserted protocol is removed without trace, the branches
  created for it included.
\<close>

theorem kind_remove_spec:
  assumes "tree_ok t"
  shows "get_protocol (fst (remove_protocol p t)) q =
           (if prefix (segments p) (segments q) then None else get_protocol t q)
         \<and> (fits t (segments p) \<longrightarrow> get_protocol t p = None
              \<longrightarrow> remove_protocol p (insert_protocol p l t) = (t, True))"
  using assms kind_tree_get_remove[of t "segments p" "segments q"]
    kind_tree_remove_insert[of t "segments p" l]
  by (simp add: get_protocol_def remove_protocol_def insert_protocol_def tree_ok_def segments_def)

theorem kind_remove_spec_witness:
  "remove_protocol ''/ma/a'' (insert_protocol ''/ma/a'' ''bafyA'' [(''x'', Leaf ''bafyX'')])
     = ([(''x'', Leaf ''bafyX'')], True)
   \<and> get_protocol (fst (remove_protocol ''/x'' [(''x'', Leaf ''bafyX'')])) ''x'' = None"
proof -
  have ok: "tree_ok [(''x'', Leaf ''bafyX'')]" by (simp add: tree_ok_def bt_inv_def)
  have seg: "segments ''/ma/a'' = [''ma'', ''a'']" "segments ''x'' = [''x'']" "segments ''/x'' = [''x'']"
    by (simp_all add: segments_def trim_start_matches_def)
  show ?thesis
    using kind_remove_spec[OF ok, of "''/x''" "''x''"] kind_remove_spec[OF ok, of "''/ma/a''"]
    by (simp add: seg get_protocol_def)
qed

text \<open>
  C5 (kind tree). Enumeration and lookup agree on well-formed trees: \<open>iter_protocols\<close> lists exactly the pairs of a canonically
  spelled protocol ID and the link that looking it up returns.
\<close>

theorem iter_protocols_spec:
  assumes "tree_ok t"
  shows "(i, l) \<in> set (iter_protocols t) \<longleftrightarrow>
           get_protocol t i = Some l \<and> i = ''/'' @ join_with ''/'' (segments i)"
  using assms by (rule iter_protocols_iff)

theorem iter_protocols_spec_witness:
  "(''/ma/a'', ''bafyA'') \<in> set (iter_protocols [(''ma'', Branch [(''a'', Leaf ''bafyA'')])])"
  by (subst iter_protocols_spec)
     (simp_all add: tree_ok_def bt_inv_def get_protocol_def segments_def trim_start_matches_def)

text \<open>
  An insertion whose path runs through an existing leaf is silently lost: the tree is
  returned unchanged, so the protocol that was "set" cannot be looked up afterwards.
\<close>

theorem kind_insert_blocked:
  assumes "tree_ok t" and "kind_tree_get t ks = Some l'" and "segments p = ks @ k # rest"
  shows "insert_protocol p l t = t \<and> get_protocol (insert_protocol p l t) p = None"
  using assms blocked_insert[of t ks l'] blocked_get[of t ks l']
  by (simp add: insert_protocol_def get_protocol_def tree_ok_def)

theorem kind_insert_blocked_witness:
  "insert_protocol ''/ma/a'' ''bafyNew'' [(''ma'', Leaf ''bafyX'')] = [(''ma'', Leaf ''bafyX'')]"
  using kind_insert_blocked[of "[(''ma'', Leaf ''bafyX'')]" "[''ma'']" "''bafyX''" "''/ma/a''" "''a''" "[]"]
  by (simp add: tree_ok_def bt_inv_def segments_def trim_start_matches_def)

end
