(* ===== verification/Acl.thy ===== *)
theory Acl
  imports Prelude
begin

text \<open>
  Access control (\<open>src/acl.rs\<close>): the uniform check \<open>check_full\<close> with group expansion, the owner
  test, and the gates built on it (\<open>enforce_entity_acl\<close> in \<open>src/dispatch.rs\<close>,
  \<open>check_entity_management_cap\<close> in \<open>src/crud/entities.rs\<close>, the CRUD transport gate in
  \<open>src/crud/mod.rs\<close>).  \<open>normalize_principal\<close> and \<open>check_cap\<close> come from \<open>ma_core\<close> and are the
  fields of the parameter \<open>acl_core\<close>; an \<open>AclMap\<close> is iterated by the code, so it is an
  association list in iteration order.
\<close>

section \<open>Model\<close>

text \<open>\<open>CapabilityEntry\<close>, as the code matches on it.\<close>

datatype cap_entry = Deny | Allow "string set"

type_synonym acl_map = "cap_entry hash_map"
type_synonym group_cache = "string list hash_map"
type_synonym acl_cache = "acl_map hash_map"

record acl_core =
  normalize_principal :: "string \<Rightarrow> string"
  check_cap :: "acl_map \<Rightarrow> string \<Rightarrow> string \<Rightarrow> bool"

text \<open>Which of the five refusals of \<open>check_full\<close> was returned.\<close>

datatype acl_error =
    DeniedDirect string
  | DeniedWildcard string
  | DeniedGroup string string
  | NonePermitted string "string list"

definition is_owner :: "acl_core \<Rightarrow> string list \<Rightarrow> string \<Rightarrow> bool" where
  "is_owner A owners caller =
     (let normalized = normalize_principal A caller
      in list_ex (\<lambda>o'. normalize_principal A o' = normalized) owners)"

definition group_prefix :: string where "group_prefix = ''+''"

definition in_group :: "acl_core \<Rightarrow> (string \<Rightarrow> string list option) \<Rightarrow> string \<Rightarrow> string \<Rightarrow> bool" where
  "in_group A resolve normalized key =
     (let members = (case resolve key of None \<Rightarrow> [] | Some ms \<Rightarrow> ms)
      in list_ex (\<lambda>m. normalize_principal A m = normalized) members)"

text \<open>Step 3a: the first deny group, in iteration order, that the caller is a member of.\<close>

fun deny_group :: "acl_core \<Rightarrow> (string \<Rightarrow> string list option) \<Rightarrow> string \<Rightarrow> acl_map \<Rightarrow> string option" where
  "deny_group A resolve n [] = None"
| "deny_group A resolve n ((key, entry) # rest) =
     (if \<not> starts_with group_prefix key \<or> entry \<noteq> Deny then deny_group A resolve n rest
      else if in_group A resolve n key then Some key
      else deny_group A resolve n rest)"

text \<open>Step 3b: whether some allow group contains the caller and grants one of the capabilities.\<close>

fun allow_group :: "acl_core \<Rightarrow> (string \<Rightarrow> string list option) \<Rightarrow> string \<Rightarrow> string list \<Rightarrow> acl_map \<Rightarrow> bool" where
  "allow_group A resolve n caps [] = False"
| "allow_group A resolve n caps ((key, entry) # rest) =
     (if \<not> starts_with group_prefix key then allow_group A resolve n caps rest
      else (case entry of
              Allow cap_set \<Rightarrow>
                if in_group A resolve n key \<and> list_ex (\<lambda>c. c \<in> cap_set \<or> ''*'' \<in> cap_set) caps
                then True
                else allow_group A resolve n caps rest
            | Deny \<Rightarrow> allow_group A resolve n caps rest))"

definition check_full ::
  "acl_core \<Rightarrow> acl_map \<Rightarrow> string \<Rightarrow> string list \<Rightarrow> (string \<Rightarrow> string list option) \<Rightarrow> acl_error + unit" where
  "check_full A acl caller caps resolve =
     (let normalized = normalize_principal A caller in
      if map_of acl normalized = Some Deny then Inl (DeniedDirect caller)
      else if map_of acl ''*'' = Some Deny then Inl (DeniedWildcard caller)
      else if list_ex (\<lambda>cap. check_cap A acl caller cap) caps then Inr ()
      else (case deny_group A resolve normalized acl of
              Some key \<Rightarrow> Inl (DeniedGroup caller key)
            | None \<Rightarrow>
                if allow_group A resolve normalized caps acl then Inr ()
                else Inl (NonePermitted caller caps)))"

text \<open>
  The resolver every caller passes: strip the \<open>+\<close> and look the name up in the group cache,
  a missing group being empty.
\<close>

definition resolve_in_cache :: "group_cache \<Rightarrow> string \<Rightarrow> string list option" where
  "resolve_in_cache cache key =
     (let name = (case strip_prefix ''+'' key of None \<Rightarrow> key | Some n \<Rightarrow> n)
      in Some (case map_of cache name of None \<Rightarrow> [] | Some ms \<Rightarrow> ms))"

definition check_entity_management_cap ::
  "acl_core \<Rightarrow> acl_map \<Rightarrow> group_cache \<Rightarrow> string \<Rightarrow> string list \<Rightarrow> acl_error + unit" where
  "check_entity_management_cap A root_acl groups from caps =
     check_full A root_acl from caps (resolve_in_cache groups)"

definition cap_crud :: string where "cap_crud = ''crud''"

text \<open>The gate at the head of \<open>handle_crud_message\<close>: owners pass, others need \<open>crud\<close>.\<close>

definition crud_gate ::
  "acl_core \<Rightarrow> string list \<Rightarrow> acl_map \<Rightarrow> group_cache \<Rightarrow> string \<Rightarrow> acl_error + unit" where
  "crud_gate A owners acl groups from =
     (if \<not> is_owner A owners from then check_full A acl from [cap_crud] (resolve_in_cache groups)
      else Inr ())"

text \<open>
  \<open>enforce_entity_acl\<close>: fail closed on an empty or unknown ACL name, rewrite callers of this
  runtime to \<open>#fragment\<close>, then require the verb or \<open>*\<close>.
\<close>

datatype entity_acl_error =
    NoAclConfigured
  | AclNotCached string
  | VerbDenied acl_error

definition local_caller :: "string \<Rightarrow> string \<Rightarrow> string" where
  "local_caller our_did from =
     (case strip_prefix (our_did @ ''#'') from of None \<Rightarrow> from | Some frag \<Rightarrow> ''#'' @ frag)"

definition enforce_entity_acl ::
  "acl_core \<Rightarrow> string \<Rightarrow> acl_cache \<Rightarrow> group_cache \<Rightarrow> string \<Rightarrow> string \<Rightarrow> string option
     \<Rightarrow> entity_acl_error + unit" where
  "enforce_entity_acl A our_did acls groups entity_acl from verb =
     (if entity_acl = [] then Inl NoAclConfigured
      else (case map_of acls (''acls.'' @ entity_acl) of
              None \<Rightarrow> Inl (AclNotCached entity_acl)
            | Some acl \<Rightarrow>
                (case check_full A acl (local_caller our_did from)
                        [(case verb of None \<Rightarrow> ''*'' | Some v \<Rightarrow> v), ''*''] (resolve_in_cache groups) of
                   Inl e \<Rightarrow> Inl (VerbDenied e)
                 | Inr u \<Rightarrow> Inr u)))"

section \<open>Lemmas\<close>

lemma starts_with_group_prefix: "starts_with group_prefix key \<longleftrightarrow> (\<exists>n. key = ''+'' @ n)"
  by (simp add: group_prefix_def starts_with_iff prefix_def)

lemma deny_group_None_iff:
  "deny_group A resolve n acl = None \<longleftrightarrow>
     (\<forall>key. (key, Deny) \<in> set acl \<longrightarrow> starts_with group_prefix key \<longrightarrow> \<not> in_group A resolve n key)"
  by (induction A resolve n acl rule: deny_group.induct) (auto split: if_splits)

lemma deny_group_SomeD:
  "deny_group A resolve n acl = Some key \<Longrightarrow>
     (key, Deny) \<in> set acl \<and> starts_with group_prefix key \<and> in_group A resolve n key"
  by (induction A resolve n acl rule: deny_group.induct) (auto split: if_splits)

lemma allow_group_iff:
  "allow_group A resolve n caps acl \<longleftrightarrow>
     (\<exists>key cs. (key, Allow cs) \<in> set acl \<and> starts_with group_prefix key \<and> in_group A resolve n key
          \<and> (\<exists>c\<in>set caps. c \<in> cs \<or> ''*'' \<in> cs))"
proof -
  define P where "P = (\<lambda>(key, entry). \<exists>cs. entry = Allow cs \<and> starts_with group_prefix key
     \<and> in_group A resolve n key \<and> (\<exists>c\<in>set caps. c \<in> cs \<or> ''*'' \<in> cs))"
  have "allow_group A resolve n caps acl \<longleftrightarrow> (\<exists>p\<in>set acl. P p)"
  proof (induction acl)
    case (Cons p acl)
    obtain key entry where p: "p = (key, entry)" by (cases p)
    have "allow_group A resolve n caps (p # acl) \<longleftrightarrow> P p \<or> allow_group A resolve n caps acl"
      unfolding p P_def by (cases entry) (auto simp: list_ex_iff)
    with Cons.IH show ?case by simp
  qed simp
  then show ?thesis by (fastforce simp: P_def)
qed

text \<open>The denial cases of \<open>check_full\<close> in order, as one rule for case analysis.\<close>

lemma check_full_Inr_iff:
  "check_full A acl caller caps resolve = Inr () \<longleftrightarrow>
     map_of acl (normalize_principal A caller) \<noteq> Some Deny \<and>
     map_of acl ''*'' \<noteq> Some Deny \<and>
     ((\<exists>cap\<in>set caps. check_cap A acl caller cap)
      \<or> deny_group A resolve (normalize_principal A caller) acl = None
        \<and> allow_group A resolve (normalize_principal A caller) caps acl)"
  by (auto simp: check_full_def Let_def list_ex_iff split: option.splits)

lemma check_full_Inl_cases:
  assumes "check_full A acl caller caps resolve = Inl e"
  obtains "e = DeniedDirect caller" | "e = DeniedWildcard caller"
    | key where "e = DeniedGroup caller key" | "e = NonePermitted caller caps"
  using assms by (auto simp: check_full_def Let_def split: if_splits option.splits)

lemma is_owner_iff:
  "is_owner A owners caller \<longleftrightarrow> normalize_principal A caller \<in> normalize_principal A ` set owners"
  unfolding is_owner_def Let_def list_ex_iff image_iff by metis

section \<open>Instances for the witnesses\<close>

text \<open>
  A concrete \<open>acl_core\<close> with the behaviour the tests of \<open>src/acl.rs\<close> document: fragments are
  stripped from DIDs, an exact entry shadows \<open>*\<close>, no entry means no access.
\<close>

definition strip_fragment :: "string \<Rightarrow> string" where
  "strip_fragment s =
     (case split_once (CHR ''#'') s of Some (b, f) \<Rightarrow> if b = [] then s else b | None \<Rightarrow> s)"

definition entry_allows :: "cap_entry option \<Rightarrow> string \<Rightarrow> bool" where
  "entry_allows e cap = (case e of Some (Allow cs) \<Rightarrow> cap \<in> cs \<or> ''*'' \<in> cs | _ \<Rightarrow> False)"

definition sample_core :: acl_core where
  "sample_core = \<lparr>normalize_principal = strip_fragment,
     check_cap = (\<lambda>acl caller cap.
       case map_of acl (strip_fragment caller) of
         Some e \<Rightarrow> entry_allows (Some e) cap
       | None \<Rightarrow> entry_allows (map_of acl ''*'') cap)\<rparr>"

lemmas sample_defs = sample_core_def strip_fragment_def entry_allows_def

section \<open>Properties\<close>

text \<open>
  C1 (access control). \<open>check_full\<close> grants access exactly when there is no explicit deny entry for the
  caller or the wildcard and either \<open>check_cap\<close> grants one of the capabilities directly, or
  no deny group contains the caller while some allow group containing it grants one of
  them.
\<close>

theorem check_full_spec:
  assumes "hm_inv acl"
  shows "check_full A acl caller caps resolve = Inr () \<longleftrightarrow>
     map_of acl (normalize_principal A caller) \<noteq> Some Deny \<and> map_of acl ''*'' \<noteq> Some Deny \<and>
     ((\<exists>cap\<in>set caps. check_cap A acl caller cap)
      \<or> (\<forall>g. map_of acl (''+'' @ g) = Some Deny \<longrightarrow>
              \<not> in_group A resolve (normalize_principal A caller) (''+'' @ g))
        \<and> (\<exists>g cs. map_of acl (''+'' @ g) = Some (Allow cs)
              \<and> in_group A resolve (normalize_principal A caller) (''+'' @ g)
              \<and> (\<exists>c\<in>set caps. c \<in> cs \<or> ''*'' \<in> cs)))"
proof -
  have look: "(k, v) \<in> set acl \<longleftrightarrow> map_of acl k = Some v" for k v
    using assms by (simp add: hm_inv_def)
  show ?thesis
    unfolding check_full_Inr_iff deny_group_None_iff allow_group_iff starts_with_group_prefix look
    by blast
qed

theorem check_full_spec_witness:
  "check_full sample_core [(''+friends'', Allow {''fortune''})] ''did:ma:alice#home'' [''fortune'']
     (\<lambda>g. Some [''did:ma:alice'']) = Inr ()"
  by (subst check_full_spec)
     (auto simp: hm_inv_def sample_defs in_group_def intro!: exI[of _ "''friends''"])

text \<open>
  Deny always wins where it names the caller itself or everybody: with an explicit deny
  entry for the normalised caller or for \<open>*\<close>, no capability list, group table or
  \<open>check_cap\<close> answer makes \<open>check_full\<close> succeed, and the refusal says which entry it was.
\<close>

theorem direct_deny_wins:
  "(map_of acl (normalize_principal A caller) = Some Deny
      \<longrightarrow> check_full A acl caller caps resolve = Inl (DeniedDirect caller)) \<and>
   (map_of acl ''*'' = Some Deny
      \<longrightarrow> check_full A acl caller caps resolve \<in> {Inl (DeniedDirect caller), Inl (DeniedWildcard caller)})"
  by (simp add: check_full_def Let_def)

theorem direct_deny_wins_witness:
  "check_full sample_core [(''did:ma:eve'', Deny), (''*'', Allow {''*''})] ''did:ma:eve#x'' [''rpc'']
     (\<lambda>_. None) = Inl (DeniedDirect ''did:ma:eve#x'')"
  using direct_deny_wins [of "[(''did:ma:eve'', Deny), (''*'', Allow {''*''})]" sample_core "''did:ma:eve#x''" "[''rpc'']" "\<lambda>_. None"]
  by (simp add: sample_defs)

text \<open>
  Deny through a group does not win: a caller who is a member of a denied group still
  passes whenever \<open>check_cap\<close> grants a capability directly (for instance through the
  wildcard entry), because the groups are only looked at afterwards.
\<close>

theorem group_deny_bypassed:
  assumes "map_of acl (''+'' @ g) = Some Deny" and "resolve (''+'' @ g) = Some [caller]"
    and "map_of acl (normalize_principal A caller) \<noteq> Some Deny" and "map_of acl ''*'' \<noteq> Some Deny"
    and "cap \<in> set caps" and "check_cap A acl caller cap"
  shows "in_group A resolve (normalize_principal A caller) (''+'' @ g)
         \<and> check_full A acl caller caps resolve = Inr ()"
  using assms by (auto simp: check_full_Inr_iff in_group_def)

theorem group_deny_bypassed_witness:
  "check_full sample_core [(''*'', Allow {''rpc''}), (''+banned'', Deny)] ''did:ma:eve'' [''rpc'']
     (\<lambda>_. Some [''did:ma:eve'']) = Inr ()"
  using group_deny_bypassed
    [of "[(''*'', Allow {''rpc''}), (''+banned'', Deny)]" "''banned''" "\<lambda>_. Some [''did:ma:eve'']"
        "''did:ma:eve''" sample_core "''rpc''" "[''rpc'']"]
  by (simp add: sample_defs)

text \<open>
  The entity verb gate fails closed: a message reaches an entity's plugin only if the
  entity names an ACL, that ACL is in the cache, and it grants the caller (rewritten to
  \<open>#fragment\<close> when it is an actor of this runtime) the verb or the wildcard.
\<close>

theorem entity_acl_fail_closed:
  "enforce_entity_acl A our acls groups name from verb = Inr () \<longleftrightarrow>
     name \<noteq> [] \<and>
     (\<exists>acl. map_of acls (''acls.'' @ name) = Some acl \<and>
        check_full A acl (local_caller our from)
          [(case verb of None \<Rightarrow> ''*'' | Some v \<Rightarrow> v), ''*''] (resolve_in_cache groups) = Inr ())"
  by (auto simp: enforce_entity_acl_def split: option.splits sum.splits)

text \<open>
  The capability list has OR semantics, and deleting an entity asks for
  \<open>delete\<close> and \<open>entities\<close>: a caller whose ACL entry holds \<open>entities\<close> only, and not
  \<open>delete\<close>, passes the management gate of entity deletion.
\<close>

theorem delete_gate_needs_only_one_cap:
  assumes "map_of acl (normalize_principal A caller) \<noteq> Some Deny" and "map_of acl ''*'' \<noteq> Some Deny"
    and "\<not> check_cap A acl caller ''delete''" and "check_cap A acl caller ''entities''"
  shows "check_entity_management_cap A acl groups caller [''delete'', ''entities''] = Inr ()"
  using assms by (simp add: check_entity_management_cap_def check_full_Inr_iff)

theorem delete_gate_needs_only_one_cap_witness:
  "check_entity_management_cap sample_core [(''did:ma:bob'', Allow {''entities''})] [] ''did:ma:bob''
     [''delete'', ''entities''] = Inr ()"
  by (rule delete_gate_needs_only_one_cap) (simp_all add: sample_defs)

end
