(* ===== verification/Documents.thy ===== *)
theory Documents
  imports KindTree Acl
begin

text \<open>
  The IPLD documents of the runtime (\<open>src/entity.rs\<close>): \<open>KindNode\<close>, \<open>EntityNode\<close>,
  \<open>RuntimeManifest\<close>, with the operations that read them, and the interface of the Kubo node that
  stores them (\<open>src/kubo.rs\<close>).  The HTTP client is not modelled: its calls are the fields of the
  record \<open>kubo\<close>, a parameter of every operation that talks to IPFS, over an abstract world
  \<open>'w\<close> (the state of the node).  What the runtime relies on is the predicate \<open>kubo_ok\<close>.
\<close>

section \<open>Values\<close>

text \<open>\<open>serde_json::Value\<close> and \<open>serde_yaml::Value\<close>; a YAML float is kept as its bits.\<close>

datatype json = JNull | JBool bool | JNumber string | JString string | JArray "json list"
  | JObject "(string \<times> json) list"

datatype yaml = YNull | YBool bool | YInt int | YReal u64 | YString string
  | YSeq "yaml list" | YMap "(yaml \<times> yaml) list"

fun json_as_bool :: "json \<Rightarrow> bool option" where
  "json_as_bool (JBool b) = Some b"
| "json_as_bool _ = None"

section \<open>Kinds and entities\<close>

datatype evaluator = Extism | Native | Bash | Lua

datatype plugin_kind = Stateless | Stateful

datatype lifecycle = Running | Error

record kind_node =
  kn_protocol :: string
  kn_cid :: "ipld_link option"
  kn_type :: evaluator
  kn_behaviour :: "ipld_link option"
  kn_behaviour_chain :: "ipld_link list"
  kn_host_functions :: "string list"
  kn_attributes :: "json btree_map"
  kn_extends :: "string option"

record entity_node =
  en_kind :: string
  en_behaviour :: "ipld_link option"
  en_acl :: string
  en_state :: "ipld_link option"
  en_parent :: "string option"
  en_label :: "string option"
  en_attributes :: "json btree_map"
  en_init :: "string option"
  en_initialised :: bool
  en_reload_error :: "string option"

record runtime_manifest =
  rm_acl :: "ipld_link option"
  rm_acls :: "ipld_link hash_map"
  rm_protocol :: string
  rm_kinds :: kind_tree
  rm_entities :: "ipld_link hash_map"
  rm_i18n :: "ipld_link hash_map"
  rm_grp :: "ipld_link hash_map"
  rm_config :: "yaml btree_map"

definition bool_attribute :: "json option \<Rightarrow> bool" where
  "bool_attribute a = (case Option.bind a json_as_bool of None \<Rightarrow> False | Some b \<Rightarrow> b)"

definition wasi :: "kind_node \<Rightarrow> bool" where
  "wasi k = bool_attribute (map_of (kn_attributes k) ''wasi'')"

definition plugin_kind :: "kind_node \<Rightarrow> plugin_kind" where
  "plugin_kind k =
     (if bool_attribute (map_of (kn_attributes k) ''stateful'') then Stateful else Stateless)"

definition effective_attribute :: "kind_node \<Rightarrow> entity_node \<Rightarrow> string \<Rightarrow> json option" where
  "effective_attribute kind entity key =
     (case map_of (en_attributes entity) key of
        Some v \<Rightarrow> Some v
      | None \<Rightarrow> map_of (kn_attributes kind) key)"

definition is_genesis_entity :: "kind_node \<Rightarrow> entity_node \<Rightarrow> bool" where
  "is_genesis_entity kind entity = bool_attribute (effective_attribute kind entity ''genesis'')"

definition RESERVED_ENTITY_NAMES :: "string list" where
  "RESERVED_ENTITY_NAMES = [''root'', ''acl'', ''scheduler'', ''runtime'', ''genesis'']"

datatype cid_error = CidEmpty | CidMissing | CidIpns

definition normalize_behaviour_cid :: "string \<Rightarrow> cid_error + cid" where
  "normalize_behaviour_cid value =
     (let trimmed = trim value in
      if trimmed = [] then Inl CidEmpty
      else (case strip_prefix ''/ipfs/'' trimmed of
              Some c \<Rightarrow> if c = [] then Inl CidMissing else Inr c
            | None \<Rightarrow> if starts_with ''/ipns/'' trimmed then Inl CidIpns else Inr trimmed))"

section \<open>Messages\<close>

record local_message =
  lm_id :: string
  lm_from :: string
  lm_to :: string
  lm_created_at :: u64
  lm_exp :: u64
  lm_reply_to :: "string option"
  lm_message_type :: string
  lm_content_type :: string
  lm_content :: bytes

record send_envelope =
  se_to :: string
  se_content_type :: string
  se_message_type :: "string option"
  se_content :: bytes
  se_reply_to :: "string option"

record create_entity_request =
  cr_fragment :: string
  cr_kind_protocol :: string
  cr_behaviour_cid :: "string option"
  cr_init_payload :: "bytes option"
  cr_parent :: string

record set_behaviour_request =
  sb_fragment :: string
  sb_behaviour_cid :: "string option"

section \<open>The Kubo interface\<close>

text \<open>
  Reads return \<open>None\<close> when the request or the decoding fails; a write returns the CID when it
  succeeds.  \<open>pin_update\<close> only answers whether it succeeded.
\<close>

record 'w kubo =
  dag_get_manifest :: "'w \<Rightarrow> cid \<Rightarrow> runtime_manifest option"
  dag_put_manifest :: "'w \<Rightarrow> runtime_manifest \<Rightarrow> 'w \<times> cid option"
  dag_get_entity :: "'w \<Rightarrow> cid \<Rightarrow> entity_node option"
  dag_put_entity :: "'w \<Rightarrow> entity_node \<Rightarrow> 'w \<times> cid option"
  dag_get_kind :: "'w \<Rightarrow> cid \<Rightarrow> kind_node option"
  dag_get_kinds :: "'w \<Rightarrow> cid \<Rightarrow> kind_tree option"
  dag_get_acl :: "'w \<Rightarrow> cid \<Rightarrow> acl_map option"
  dag_get_strings :: "'w \<Rightarrow> cid \<Rightarrow> string list option"
  dag_put_strings :: "'w \<Rightarrow> string list \<Rightarrow> 'w \<times> cid option"
  resolve_path :: "'w \<Rightarrow> string \<Rightarrow> cid option"
  add_bytes_unpinned :: "'w \<Rightarrow> bytes \<Rightarrow> 'w \<times> cid option"
  cat_bytes :: "'w \<Rightarrow> cid \<Rightarrow> bytes option"
  pin_update :: "'w \<Rightarrow> cid \<Rightarrow> cid \<Rightarrow> 'w \<times> bool"

text \<open>\<open>dag_resolve\<close> asks the node only for paths; a bare CID is its own resolution.\<close>

definition dag_resolve :: "'w kubo \<Rightarrow> 'w \<Rightarrow> string \<Rightarrow> cid option" where
  "dag_resolve K w path = (if \<not> starts_with ''/'' path then Some path else resolve_path K w path)"

text \<open>A later state of the node answers every read an earlier one answered, with the same document.\<close>

definition node_keeps :: "'w kubo \<Rightarrow> 'w \<Rightarrow> 'w \<Rightarrow> bool" where
  "node_keeps K w w' =
     ((\<forall>c m. dag_get_manifest K w c = Some m \<longrightarrow> dag_get_manifest K w' c = Some m) \<and>
      (\<forall>c e. dag_get_entity K w c = Some e \<longrightarrow> dag_get_entity K w' c = Some e) \<and>
      (\<forall>c a. dag_get_acl K w c = Some a \<longrightarrow> dag_get_acl K w' c = Some a) \<and>
      (\<forall>c ss. dag_get_strings K w c = Some ss \<longrightarrow> dag_get_strings K w' c = Some ss) \<and>
      (\<forall>c b. cat_bytes K w c = Some b \<longrightarrow> cat_bytes K w' c = Some b))"

text \<open>
  Documented behaviour of a content-addressed store: what was put can be read back under the
  returned CID, and no request changes or loses a stored document.
\<close>

definition kubo_ok :: "'w kubo \<Rightarrow> bool" where
  "kubo_ok K =
     ((\<forall>w m. node_keeps K w (fst (dag_put_manifest K w m))) \<and>
      (\<forall>w m c. snd (dag_put_manifest K w m) = Some c
         \<longrightarrow> dag_get_manifest K (fst (dag_put_manifest K w m)) c = Some m) \<and>
      (\<forall>w e. node_keeps K w (fst (dag_put_entity K w e))) \<and>
      (\<forall>w e c. snd (dag_put_entity K w e) = Some c
         \<longrightarrow> dag_get_entity K (fst (dag_put_entity K w e)) c = Some e) \<and>
      (\<forall>w b. node_keeps K w (fst (add_bytes_unpinned K w b))) \<and>
      (\<forall>w b c. snd (add_bytes_unpinned K w b) = Some c
         \<longrightarrow> cat_bytes K (fst (add_bytes_unpinned K w b)) c = Some b) \<and>
      (\<forall>w ss. node_keeps K w (fst (dag_put_strings K w ss))) \<and>
      (\<forall>w old new. node_keeps K w (fst (pin_update K w old new))))"

lemma node_keeps_refl [simp]: "node_keeps K w w"
  by (simp add: node_keeps_def)

lemma node_keeps_trans [trans]: "node_keeps K w w' \<Longrightarrow> node_keeps K w' w'' \<Longrightarrow> node_keeps K w w''"
  by (simp add: node_keeps_def)

lemma node_keeps_manifest:
  "node_keeps K w w' \<Longrightarrow> dag_get_manifest K w c = Some m \<Longrightarrow> dag_get_manifest K w' c = Some m"
  by (simp add: node_keeps_def)

lemma node_keeps_entity:
  "node_keeps K w w' \<Longrightarrow> dag_get_entity K w c = Some e \<Longrightarrow> dag_get_entity K w' c = Some e"
  by (simp add: node_keeps_def)

lemma node_keeps_acl:
  "node_keeps K w w' \<Longrightarrow> dag_get_acl K w c = Some a \<Longrightarrow> dag_get_acl K w' c = Some a"
  by (simp add: node_keeps_def)

lemma node_keeps_strings:
  "node_keeps K w w' \<Longrightarrow> dag_get_strings K w c = Some ss \<Longrightarrow> dag_get_strings K w' c = Some ss"
  by (simp add: node_keeps_def)

lemma node_keeps_bytes:
  "node_keeps K w w' \<Longrightarrow> cat_bytes K w c = Some b \<Longrightarrow> cat_bytes K w' c = Some b"
  by (simp add: node_keeps_def)

lemma kubo_okD:
  assumes "kubo_ok K"
  shows "dag_put_manifest K w m = (w', r) \<Longrightarrow> node_keeps K w w'"
    and "dag_put_manifest K w m = (w', Some c) \<Longrightarrow> dag_get_manifest K w' c = Some m"
    and "dag_put_entity K w e = (w', r) \<Longrightarrow> node_keeps K w w'"
    and "dag_put_entity K w e = (w', Some c) \<Longrightarrow> dag_get_entity K w' c = Some e"
    and "pin_update K w old new = (w', b) \<Longrightarrow> node_keeps K w w'"
    and "add_bytes_unpinned K w bs = (w', r) \<Longrightarrow> node_keeps K w w'"
    and "dag_put_strings K w ss = (w', r) \<Longrightarrow> node_keeps K w w'"
    and "add_bytes_unpinned K w bs = (w', Some c) \<Longrightarrow> cat_bytes K w' c = Some bs"
  using assms unfolding kubo_ok_def by (metis fst_conv snd_conv)+

subsection \<open>A concrete node for the witnesses\<close>

text \<open>
  The node of the witnesses keeps its documents in a list; the CID of a document is the position
  at which it was put, in unary.
\<close>

datatype doc = ManifestDoc runtime_manifest | EntityDoc entity_node | KindDoc kind_node
  | StringsDoc "string list" | BytesDoc bytes | AclDoc acl_map | KindsDoc kind_tree

definition mem_cid :: "nat \<Rightarrow> cid" where
  "mem_cid n = ''bafy'' @ replicate n (CHR ''a'')"

definition mem_get :: "doc list \<Rightarrow> cid \<Rightarrow> doc option" where
  "mem_get ds c =
     (let n = length c - 4 in if c = mem_cid n \<and> n < length ds then Some (ds ! n) else None)"

definition mem_put :: "doc list \<Rightarrow> doc \<Rightarrow> doc list \<times> cid option" where
  "mem_put ds d = (ds @ [d], Some (mem_cid (length ds)))"

definition mem_kubo :: "doc list kubo" where
  "mem_kubo = \<lparr>
     dag_get_manifest = (\<lambda>w c. case mem_get w c of Some (ManifestDoc m) \<Rightarrow> Some m | _ \<Rightarrow> None),
     dag_put_manifest = (\<lambda>w m. mem_put w (ManifestDoc m)),
     dag_get_entity = (\<lambda>w c. case mem_get w c of Some (EntityDoc e) \<Rightarrow> Some e | _ \<Rightarrow> None),
     dag_put_entity = (\<lambda>w e. mem_put w (EntityDoc e)),
     dag_get_kind = (\<lambda>w c. case mem_get w c of Some (KindDoc k) \<Rightarrow> Some k | _ \<Rightarrow> None),
     dag_get_kinds = (\<lambda>w c. case mem_get w c of Some (KindsDoc t) \<Rightarrow> Some t | _ \<Rightarrow> None),
     dag_get_acl = (\<lambda>w c. case mem_get w c of Some (AclDoc a) \<Rightarrow> Some a | _ \<Rightarrow> None),
     dag_get_strings = (\<lambda>w c. case mem_get w c of Some (StringsDoc s) \<Rightarrow> Some s | _ \<Rightarrow> None),
     dag_put_strings = (\<lambda>w s. mem_put w (StringsDoc s)),
     resolve_path = (\<lambda>w p. case strip_prefix ''/ipfs/'' p of Some c \<Rightarrow> Some c | None \<Rightarrow> Some p),
     add_bytes_unpinned = (\<lambda>w b. mem_put w (BytesDoc b)),
     cat_bytes = (\<lambda>w c. case mem_get w c of Some (BytesDoc b) \<Rightarrow> Some b | _ \<Rightarrow> None),
     pin_update = (\<lambda>w old new. (w, True))\<rparr>"

lemma mem_cid_length [simp]: "length (mem_cid n) = n + 4"
  by (simp add: mem_cid_def)

lemma mem_get_put: "mem_get (ds @ [d]) (mem_cid (length ds)) = Some d"
  by (simp add: mem_get_def)

lemma mem_get_keeps: "mem_get ds c = Some d \<Longrightarrow> mem_get (ds @ [d']) c = Some d"
  by (auto simp: mem_get_def Let_def nth_append split: if_splits)

lemma mem_kubo_keeps: "node_keeps mem_kubo ds (ds @ [d])"
  by (auto simp: node_keeps_def mem_kubo_def mem_get_keeps split: option.splits doc.splits)

lemma mem_kubo_ok: "kubo_ok mem_kubo"
  using mem_kubo_keeps
  by (simp add: kubo_ok_def) (simp add: mem_kubo_def mem_put_def mem_get_put)

end
