(* ===== verification/CrudConfig.thy ===== *)
theory CrudConfig
  imports Documents
begin

text \<open>
  The configuration side of CRUD (\<open>src/crud/config.rs\<close>): the key tables, typed readers of
  settings, the daemon keys of \<open>ma_core::Config\<close>, the conversion of CBOR to YAML and the public
  configuration handed to plugins.  The renderings of \<open>serde_yaml\<close> (text of a float, of a
  structure, the \<open>Debug\<close> text) are the record \<open>yaml_fmt\<close>.
\<close>

section \<open>Settings\<close>

record yaml_fmt =
  real_text :: "u64 \<Rightarrow> string"
  yaml_text :: "yaml \<Rightarrow> string option"
  debug_text :: "yaml \<Rightarrow> string"

text \<open>The fields of \<open>ma_core::Config\<close> that the runtime reads and writes; \<open>extra\<close> is a YAML mapping.\<close>

record daemon_config =
  dc_kubo_rpc_url :: string
  dc_kubo_key_alias :: string
  dc_log_level :: string
  dc_log_level_stdout :: string
  dc_positive_ttl :: u64
  dc_negative_ttl :: u64
  dc_log_file :: "string option"
  dc_extra :: "yaml hash_map"

fun yaml_as_u64 :: "yaml \<Rightarrow> u64 option" where
  "yaml_as_u64 (YInt n) = (if 0 \<le> n \<and> n < 2 ^ 64 then Some (word_of_int n) else None)"
| "yaml_as_u64 _ = None"

fun yaml_as_bool :: "yaml \<Rightarrow> bool option" where
  "yaml_as_bool (YBool b) = Some b"
| "yaml_as_bool _ = None"

fun yaml_as_str :: "yaml \<Rightarrow> string option" where
  "yaml_as_str (YString s) = Some s"
| "yaml_as_str _ = None"

definition yaml_u64 :: "u64 \<Rightarrow> yaml" where
  "yaml_u64 n = YInt (uint n)"

definition DAEMON_CONFIG_KEYS :: "string list" where
  "DAEMON_CONFIG_KEYS =
     [''root_cid'', ''kubo_rpc_url'', ''kubo_key_alias'', ''log_level'', ''log_level_stdout'',
      ''did_resolver_positive_ttl_secs'', ''did_resolver_negative_ttl_secs'',
      ''did_refresh_interval_secs'', ''log_file'', ''outbox_backoff_attempts'', ''ipv6_enable'',
      ''wasm_reload_shutdown_timeout_ms'']"

definition MANIFEST_CONFIG_KEYS :: "string list" where
  "MANIFEST_CONFIG_KEYS =
     [''root'', ''start'', ''operator'', ''name'', ''description'', ''i18n'',
      ''did_resolve_attempts'', ''did_resolve_attempt_timeout_secs'',
      ''did_document_publishing_interval_secs'', ''did_publish_cache_warm_secs'',
      ''did_document_publishing_timeout_secs'', ''did_document_publishing_lifetime_hours'',
      ''ipns_publish_lifetime_hours'', ''ipns_publish_timeout_secs'', ''ipns_publish_resolve'',
      ''ipns_publish_allow_offline'', ''plugin_envelope_queue_capacity'']"

definition PROTECTED_CONFIG_KEYS :: "string list" where
  "PROTECTED_CONFIG_KEYS = [''slug'', ''secret_bundle'', ''secret_bundle_passphrase'', ''config_path'']"

definition is_protected_config_key :: "string \<Rightarrow> bool" where
  "is_protected_config_key key = (key \<in> set PROTECTED_CONFIG_KEYS \<or> starts_with ''secret'' key)"

definition DEFAULT_OPERATOR_SOURCE :: string where
  "DEFAULT_OPERATOR_SOURCE = ''/ipns/k51qzi5uqu5djnoah9igllgb3zsn0sfy75glxdjf8glaozybubkm13nuqbfvpm''"

text \<open>The ideograph U+9593 in UTF-8.\<close>

definition ma_char :: string where
  "ma_char = map char_of [233::nat, 150, 147]"

definition DEFAULT_RUNTIME_NAME :: string where
  "DEFAULT_RUNTIME_NAME = ma_char @ ''trix''"

definition DEFAULT_RUNTIME_DESCRIPTION :: string where
  "DEFAULT_RUNTIME_DESCRIPTION = ''A '' @ ma_char @ '' runtime with a lazy owner.''"

definition DEFAULT_WASM_RELOAD_SHUTDOWN_TIMEOUT_MS :: u64 where
  "DEFAULT_WASM_RELOAD_SHUTDOWN_TIMEOUT_MS = 250"

definition DEFAULT_PLUGIN_ENVELOPE_QUEUE_CAPACITY :: u64 where
  "DEFAULT_PLUGIN_ENVELOPE_QUEUE_CAPACITY = 1024"

definition DEFAULT_DID_REFRESH_INTERVAL_SECS :: u64 where
  "DEFAULT_DID_REFRESH_INTERVAL_SECS = 86400"

definition DEFAULT_OUTBOX_BACKOFF_ATTEMPTS :: u64 where
  "DEFAULT_OUTBOX_BACKOFF_ATTEMPTS = 30"

datatype setting_error = NotInteger string | IsZero string

definition did_refresh_interval_secs :: "yaml option \<Rightarrow> setting_error + u64" where
  "did_refresh_interval_secs value =
     (case value of
        None \<Rightarrow> Inr DEFAULT_DID_REFRESH_INTERVAL_SECS
      | Some v \<Rightarrow> (case yaml_as_u64 v of
                    None \<Rightarrow> Inl (NotInteger ''did_refresh_interval_secs'') | Some n \<Rightarrow> Inr n))"

text \<open>\<open>usize\<close> is 64 bits wide on the supported platforms, so the conversion from \<open>u64\<close> succeeds.\<close>

definition positive_setting :: "string \<Rightarrow> u64 \<Rightarrow> yaml option \<Rightarrow> setting_error + u64" where
  "positive_setting name dflt value =
     (case value of
        None \<Rightarrow> Inr dflt
      | Some v \<Rightarrow> (case yaml_as_u64 v of
                    None \<Rightarrow> Inl (NotInteger name)
                  | Some n \<Rightarrow> if n = 0 then Inl (IsZero name) else Inr n))"

definition outbox_backoff_attempts :: "yaml option \<Rightarrow> setting_error + u64" where
  "outbox_backoff_attempts = positive_setting ''outbox_backoff_attempts'' DEFAULT_OUTBOX_BACKOFF_ATTEMPTS"

definition plugin_envelope_queue_capacity :: "yaml option \<Rightarrow> setting_error + u64" where
  "plugin_envelope_queue_capacity =
     positive_setting ''plugin_envelope_queue_capacity'' DEFAULT_PLUGIN_ENVELOPE_QUEUE_CAPACITY"

definition result_or :: "'b \<Rightarrow> 'a + 'b \<Rightarrow> 'b" where
  "result_or d r = (case r of Inl _ \<Rightarrow> d | Inr x \<Rightarrow> x)"

definition wasm_reload_shutdown_timeout :: "daemon_config \<Rightarrow> u64" where
  "wasm_reload_shutdown_timeout cfg =
     (case Option.bind (map_of (dc_extra cfg) ''wasm_reload_shutdown_timeout_ms'') yaml_as_u64 of
        None \<Rightarrow> DEFAULT_WASM_RELOAD_SHUTDOWN_TIMEOUT_MS | Some n \<Rightarrow> n)"

definition default_manifest_config_value :: "string \<Rightarrow> yaml option" where
  "default_manifest_config_value key =
     (if key = ''operator'' then Some (YString DEFAULT_OPERATOR_SOURCE)
      else if key = ''name'' then Some (YString DEFAULT_RUNTIME_NAME)
      else if key = ''description'' then Some (YString DEFAULT_RUNTIME_DESCRIPTION)
      else if key = ''plugin_envelope_queue_capacity'' then
        Some (yaml_u64 DEFAULT_PLUGIN_ENVELOPE_QUEUE_CAPACITY)
      else None)"

section \<open>Daemon keys\<close>

definition daemon_config_key_value :: "daemon_config \<Rightarrow> string \<Rightarrow> yaml" where
  "daemon_config_key_value cfg key =
     (if key = ''root_cid'' then
        (case map_of (dc_extra cfg) ''root_cid'' of None \<Rightarrow> YNull | Some v \<Rightarrow> v)
      else if key = ''kubo_rpc_url'' then YString (dc_kubo_rpc_url cfg)
      else if key = ''kubo_key_alias'' then YString (dc_kubo_key_alias cfg)
      else if key = ''log_level'' then YString (dc_log_level cfg)
      else if key = ''log_level_stdout'' then YString (dc_log_level_stdout cfg)
      else if key = ''did_resolver_positive_ttl_secs'' then yaml_u64 (dc_positive_ttl cfg)
      else if key = ''did_resolver_negative_ttl_secs'' then yaml_u64 (dc_negative_ttl cfg)
      else if key = ''did_refresh_interval_secs'' then
        yaml_u64 (result_or DEFAULT_DID_REFRESH_INTERVAL_SECS
          (did_refresh_interval_secs (map_of (dc_extra cfg) ''did_refresh_interval_secs'')))
      else if key = ''log_file'' then (case dc_log_file cfg of None \<Rightarrow> YNull | Some p \<Rightarrow> YString p)
      else if key = ''outbox_backoff_attempts'' then
        yaml_u64 (result_or DEFAULT_OUTBOX_BACKOFF_ATTEMPTS
          (outbox_backoff_attempts (map_of (dc_extra cfg) ''outbox_backoff_attempts'')))
      else if key = ''ipv6_enable'' then
        YBool (case Option.bind (map_of (dc_extra cfg) ''ipv6_enable'') yaml_as_bool of
                 None \<Rightarrow> True | Some b \<Rightarrow> b)
      else if key = ''wasm_reload_shutdown_timeout_ms'' then
        yaml_u64 (wasm_reload_shutdown_timeout cfg)
      else YNull)"

definition put_extra :: "string \<Rightarrow> yaml \<Rightarrow> daemon_config \<Rightarrow> daemon_config" where
  "put_extra key v cfg = cfg\<lparr>dc_extra := AList.update key v (dc_extra cfg)\<rparr>"

definition set_daemon_config_key :: "string \<Rightarrow> yaml \<Rightarrow> daemon_config \<Rightarrow> daemon_config" where
  "set_daemon_config_key key val cfg =
     (if key = ''kubo_rpc_url'' then
        (case yaml_as_str val of Some s \<Rightarrow> cfg\<lparr>dc_kubo_rpc_url := s\<rparr> | None \<Rightarrow> cfg)
      else if key = ''kubo_key_alias'' then
        (case yaml_as_str val of Some s \<Rightarrow> cfg\<lparr>dc_kubo_key_alias := s\<rparr> | None \<Rightarrow> cfg)
      else if key = ''log_level'' then
        (case yaml_as_str val of Some s \<Rightarrow> cfg\<lparr>dc_log_level := s\<rparr> | None \<Rightarrow> cfg)
      else if key = ''log_level_stdout'' then
        (case yaml_as_str val of Some s \<Rightarrow> cfg\<lparr>dc_log_level_stdout := s\<rparr> | None \<Rightarrow> cfg)
      else if key = ''did_resolver_positive_ttl_secs'' then
        (case yaml_as_u64 val of Some n \<Rightarrow> cfg\<lparr>dc_positive_ttl := n\<rparr> | None \<Rightarrow> cfg)
      else if key = ''did_resolver_negative_ttl_secs'' then
        (case yaml_as_u64 val of Some n \<Rightarrow> cfg\<lparr>dc_negative_ttl := n\<rparr> | None \<Rightarrow> cfg)
      else if key = ''log_file'' then cfg\<lparr>dc_log_file := yaml_as_str val\<rparr>
      else if key \<in> {''did_refresh_interval_secs'', ''outbox_backoff_attempts'', ''wasm_reload_shutdown_timeout_ms''} then
        (case yaml_as_u64 val of Some n \<Rightarrow> put_extra key (yaml_u64 n) cfg | None \<Rightarrow> cfg)
      else if key = ''ipv6_enable'' then
        (case yaml_as_bool val of Some b \<Rightarrow> put_extra key (YBool b) cfg | None \<Rightarrow> cfg)
      else if key = ''root_cid'' then
        (case yaml_as_str val of Some s \<Rightarrow> put_extra key (YString s) cfg | None \<Rightarrow> cfg)
      else cfg)"

section \<open>Public plugin configuration\<close>

definition int_to_string :: "int \<Rightarrow> string" where
  "int_to_string n = (if n < 0 then ''-'' @ nat_digits (nat (- n)) else nat_digits (nat n))"

definition bool_to_string :: "bool \<Rightarrow> string" where
  "bool_to_string b = (if b then ''true'' else ''false'')"

fun yaml_config_value_to_string :: "yaml_fmt \<Rightarrow> yaml \<Rightarrow> string option" where
  "yaml_config_value_to_string fmt YNull = None"
| "yaml_config_value_to_string fmt (YBool b) = Some (bool_to_string b)"
| "yaml_config_value_to_string fmt (YInt n) = Some (int_to_string n)"
| "yaml_config_value_to_string fmt (YReal r) = Some (real_text fmt r)"
| "yaml_config_value_to_string fmt (YString s) = Some s"
| "yaml_config_value_to_string fmt v = map_option trim_end (yaml_text fmt v)"

definition put_config :: "yaml_fmt \<Rightarrow> string \<Rightarrow> yaml \<Rightarrow> string btree_map \<Rightarrow> string btree_map" where
  "put_config fmt key value out =
     (case yaml_config_value_to_string fmt value of None \<Rightarrow> out | Some s \<Rightarrow> bt_insert key s out)"

definition public_plugin_config ::
  "yaml_fmt \<Rightarrow> runtime_manifest \<Rightarrow> daemon_config \<Rightarrow> string btree_map" where
  "public_plugin_config fmt manifest cfg =
     (let out = fold (\<lambda>(key, value). put_config fmt key value) (rm_config manifest) [];
          out = fold (\<lambda>key. put_config fmt key (daemon_config_key_value cfg key)) DAEMON_CONFIG_KEYS out
      in fold (\<lambda>key out. if map_of out key = None
                 then (case default_manifest_config_value key of
                         None \<Rightarrow> out | Some v \<Rightarrow> put_config fmt key v out)
                 else out)
           [''name'', ''description''] out)"

section \<open>CBOR to YAML\<close>

definition hex_digit :: "nat \<Rightarrow> char" where
  "hex_digit n = (if n < 10 then char_of (48 + n) else char_of (87 + n))"

definition hex_bytes :: "bytes \<Rightarrow> string" where
  "hex_bytes bs = concat (map (\<lambda>b. [hex_digit (unat b div 16), hex_digit (unat b mod 16)]) bs)"

definition dedup_key :: "yaml_fmt \<Rightarrow> yaml \<Rightarrow> string" where
  "dedup_key fmt item = (case item of YString s \<Rightarrow> s | _ \<Rightarrow> debug_text fmt item)"

fun dedup_items :: "yaml_fmt \<Rightarrow> string set \<Rightarrow> yaml list \<Rightarrow> yaml list" where
  "dedup_items fmt seen [] = []"
| "dedup_items fmt seen (x # xs) =
     (if dedup_key fmt x \<in> seen then dedup_items fmt seen xs
      else x # dedup_items fmt (insert (dedup_key fmt x) seen) xs)"

text \<open>\<open>Mapping::insert\<close> replaces the value of an existing key in place.\<close>

fun cbor_to_yaml :: "yaml_fmt \<Rightarrow> cbor \<Rightarrow> yaml" where
  "cbor_to_yaml fmt (CBool b) = YBool b"
| "cbor_to_yaml fmt (CInteger n) =
     (if - (2 ^ 63) \<le> n \<and> n < 2 ^ 64 then YInt n else YNull)"
| "cbor_to_yaml fmt (CFloat f) = YReal f"
| "cbor_to_yaml fmt (CText s) = YString s"
| "cbor_to_yaml fmt (CBytes b) = YString (hex_bytes b)"
| "cbor_to_yaml fmt (CArray xs) = YSeq (dedup_items fmt {} (map (cbor_to_yaml fmt) xs))"
| "cbor_to_yaml fmt (CMap pairs) =
     YMap (fold (\<lambda>(k, v) m. case k of CText key \<Rightarrow> AList.update (YString key) v m | _ \<Rightarrow> m)
             (map (\<lambda>(k, v). (k, cbor_to_yaml fmt v)) pairs) [])"
| "cbor_to_yaml fmt (CTag t inner) = cbor_to_yaml fmt inner"
| "cbor_to_yaml fmt CNull = YNull"

section \<open>Lemmas\<close>

lemma yaml_u64_roundtrip [simp]: "yaml_as_u64 (yaml_u64 n) = Some n"
  by (simp add: yaml_u64_def uint_lt2p[where 'a = 64, simplified])

lemma dedup_items_keys:
  "distinct (map (dedup_key fmt) (dedup_items fmt seen xs))
   \<and> set (map (dedup_key fmt) (dedup_items fmt seen xs)) = set (map (dedup_key fmt) xs) - seen"
  by (induction fmt seen xs rule: dedup_items.induct) auto

lemma put_extra_lookup:
  "map_of (dc_extra (put_extra key v cfg)) k = (if k = key then Some v else map_of (dc_extra cfg) k)"
  by (simp add: put_extra_def map_of_update)

text \<open>Which values a daemon key accepts.\<close>

definition daemon_key_accepts :: "string \<Rightarrow> yaml \<Rightarrow> bool" where
  "daemon_key_accepts key val =
     (if key \<in> {''did_resolver_positive_ttl_secs'', ''did_resolver_negative_ttl_secs'',
                 ''did_refresh_interval_secs'', ''wasm_reload_shutdown_timeout_ms''}
      then yaml_as_u64 val \<noteq> None
      else if key = ''outbox_backoff_attempts''
      then yaml_as_u64 val \<noteq> None \<and> yaml_as_u64 val \<noteq> Some 0
      else if key = ''ipv6_enable'' then yaml_as_bool val \<noteq> None
      else yaml_as_str val \<noteq> None)"

lemma yaml_as_u64_YInt: "yaml_as_u64 v = Some n \<Longrightarrow> v = yaml_u64 n"
  by (cases v) (auto simp: yaml_u64_def uint_word_of_int_eq take_bit_int_eq_self split: if_splits)

lemma yaml_as_bool_YBool: "yaml_as_bool v = Some b \<Longrightarrow> v = YBool b"
  by (cases v) auto

lemma yaml_as_str_YString: "yaml_as_str v = Some s \<Longrightarrow> v = YString s"
  by (cases v) auto

lemma daemon_value_put_extra:
  "key' \<noteq> key \<Longrightarrow> daemon_config_key_value (put_extra key v cfg) key' = daemon_config_key_value cfg key'"
  by (simp add: daemon_config_key_value_def wasm_reload_shutdown_timeout_def put_extra_lookup)
     (simp add: put_extra_def)

lemma daemon_value_field_other:
  "key' \<noteq> ''kubo_rpc_url'' \<Longrightarrow>
     daemon_config_key_value (cfg\<lparr>dc_kubo_rpc_url := s\<rparr>) key' = daemon_config_key_value cfg key'"
  "key' \<noteq> ''kubo_key_alias'' \<Longrightarrow>
     daemon_config_key_value (cfg\<lparr>dc_kubo_key_alias := s\<rparr>) key' = daemon_config_key_value cfg key'"
  "key' \<noteq> ''log_level'' \<Longrightarrow>
     daemon_config_key_value (cfg\<lparr>dc_log_level := s\<rparr>) key' = daemon_config_key_value cfg key'"
  "key' \<noteq> ''log_level_stdout'' \<Longrightarrow>
     daemon_config_key_value (cfg\<lparr>dc_log_level_stdout := s\<rparr>) key' = daemon_config_key_value cfg key'"
  "key' \<noteq> ''did_resolver_positive_ttl_secs'' \<Longrightarrow>
     daemon_config_key_value (cfg\<lparr>dc_positive_ttl := n\<rparr>) key' = daemon_config_key_value cfg key'"
  "key' \<noteq> ''did_resolver_negative_ttl_secs'' \<Longrightarrow>
     daemon_config_key_value (cfg\<lparr>dc_negative_ttl := n\<rparr>) key' = daemon_config_key_value cfg key'"
  "key' \<noteq> ''log_file'' \<Longrightarrow>
     daemon_config_key_value (cfg\<lparr>dc_log_file := p\<rparr>) key' = daemon_config_key_value cfg key'"
  by (simp_all add: daemon_config_key_value_def wasm_reload_shutdown_timeout_def)

lemma set_daemon_key_other:
  "key' \<noteq> key \<Longrightarrow>
     daemon_config_key_value (set_daemon_config_key key val cfg) key' = daemon_config_key_value cfg key'"
  by (simp add: set_daemon_config_key_def daemon_value_put_extra daemon_value_field_other split: option.split)

lemma daemon_value_put_extra_same:
  "daemon_config_key_value (put_extra ''root_cid'' (YString s) cfg) ''root_cid'' = YString s"
  "daemon_config_key_value (put_extra ''did_refresh_interval_secs'' (yaml_u64 n) cfg) ''did_refresh_interval_secs'' = yaml_u64 n"
  "n \<noteq> 0 \<Longrightarrow> daemon_config_key_value (put_extra ''outbox_backoff_attempts'' (yaml_u64 n) cfg) ''outbox_backoff_attempts'' = yaml_u64 n"
  "daemon_config_key_value (put_extra ''wasm_reload_shutdown_timeout_ms'' (yaml_u64 n) cfg) ''wasm_reload_shutdown_timeout_ms'' = yaml_u64 n"
  "daemon_config_key_value (put_extra ''ipv6_enable'' (YBool b) cfg) ''ipv6_enable'' = YBool b"
  by (simp_all add: daemon_config_key_value_def put_extra_lookup did_refresh_interval_secs_def
      outbox_backoff_attempts_def positive_setting_def wasm_reload_shutdown_timeout_def result_or_def)

lemma daemon_value_field_same:
  "daemon_config_key_value (cfg\<lparr>dc_kubo_rpc_url := s\<rparr>) ''kubo_rpc_url'' = YString s"
  "daemon_config_key_value (cfg\<lparr>dc_kubo_key_alias := s\<rparr>) ''kubo_key_alias'' = YString s"
  "daemon_config_key_value (cfg\<lparr>dc_log_level := s\<rparr>) ''log_level'' = YString s"
  "daemon_config_key_value (cfg\<lparr>dc_log_level_stdout := s\<rparr>) ''log_level_stdout'' = YString s"
  "daemon_config_key_value (cfg\<lparr>dc_positive_ttl := n\<rparr>) ''did_resolver_positive_ttl_secs'' = yaml_u64 n"
  "daemon_config_key_value (cfg\<lparr>dc_negative_ttl := n\<rparr>) ''did_resolver_negative_ttl_secs'' = yaml_u64 n"
  "daemon_config_key_value (cfg\<lparr>dc_log_file := Some p\<rparr>) ''log_file'' = YString p"
  by (simp_all add: daemon_config_key_value_def)

lemma set_daemon_key_same:
  assumes "key \<in> set DAEMON_CONFIG_KEYS" and "daemon_key_accepts key val"
  shows "daemon_config_key_value (set_daemon_config_key key val cfg) key = val"
proof -
  note acc = assms(2)[unfolded daemon_key_accepts_def]
  have str: ?thesis if "key \<in> {''root_cid'', ''kubo_rpc_url'', ''kubo_key_alias'', ''log_level'', ''log_level_stdout'', ''log_file''}"
  proof -
    from that acc obtain s where "yaml_as_str val = Some s" by auto
    then have "val = YString s" by (rule yaml_as_str_YString)
    with that show ?thesis
      by (elim insertE emptyE; hypsubst; simp add: set_daemon_config_key_def daemon_value_field_same
          daemon_value_put_extra_same)
  qed
  have number: ?thesis if k: "key \<in> {''did_resolver_positive_ttl_secs'', ''did_resolver_negative_ttl_secs'',
      ''did_refresh_interval_secs'', ''outbox_backoff_attempts'', ''wasm_reload_shutdown_timeout_ms''}"
  proof -
    from k acc obtain n where n: "yaml_as_u64 val = Some n" "key = ''outbox_backoff_attempts'' \<longrightarrow> n \<noteq> 0"
      by (auto split: if_splits)
    from n(1) have "val = yaml_u64 n" by (rule yaml_as_u64_YInt)
    with k n show ?thesis
      by (elim insertE emptyE; hypsubst; simp add: set_daemon_config_key_def daemon_value_field_same
          daemon_value_put_extra_same)
  qed
  have bool: ?thesis if k: "key = ''ipv6_enable''"
  proof -
    from k acc obtain b where "yaml_as_bool val = Some b" by auto
    then have "val = YBool b" by (rule yaml_as_bool_YBool)
    with k show ?thesis by (simp add: set_daemon_config_key_def daemon_value_put_extra_same)
  qed
  show ?thesis using assms(1) unfolding DAEMON_CONFIG_KEYS_def list.set
    by (elim insertE emptyE)
       ((rule str, simp; fail) | (rule number, simp; fail) | (rule bool, assumption))+
qed

section \<open>Properties\<close>

text \<open>
  Daemon settings are typed registers: writing a value of the key's type makes exactly that
  value the answer for the key and leaves every other key's answer alone.
\<close>

theorem daemon_key_roundtrip:
  assumes "key \<in> set DAEMON_CONFIG_KEYS" and "daemon_key_accepts key val"
  shows "daemon_config_key_value (set_daemon_config_key key val cfg) key' =
           (if key' = key then val else daemon_config_key_value cfg key')"
  using set_daemon_key_same[OF assms] set_daemon_key_other by auto

definition sample_config :: daemon_config where
  "sample_config = \<lparr>dc_kubo_rpc_url = ''http://127.0.0.1:5001'', dc_kubo_key_alias = ''ma'', dc_log_level = ''info'',
     dc_log_level_stdout = ''warn'', dc_positive_ttl = 60, dc_negative_ttl = 5, dc_log_file = None,
     dc_extra = []\<rparr>"

theorem daemon_key_roundtrip_witness:
  "daemon_config_key_value (set_daemon_config_key ''outbox_backoff_attempts'' (YInt 3) sample_config)
     ''outbox_backoff_attempts'' = YInt 3"
  by (subst daemon_key_roundtrip) (simp_all add: DAEMON_CONFIG_KEYS_def daemon_key_accepts_def)

end
