(* ===== verification/Kinds.thy ===== *)
theory Kinds
  imports Documents
begin

text \<open>
  Kind inheritance: \<open>resolve_kind_extends\<close> and \<open>merge_kind_over_base\<close> (\<open>src/entity.rs\<close>), the
  dependency set of a kind update (\<open>kind_depends_on\<close>, \<open>affected_kind_protocols_for\<close> in
  \<open>src/crud/helpers.rs\<close>) and the kinds overlay (\<open>apply_kinds_tree_overlay\<close> in
  \<open>src/bootstrap.rs\<close>).  \<open>fetch\<close> stands for \<open>kubo::dag_get::<KindNode>\<close>.
\<close>

section \<open>Merging and resolution\<close>

definition union_functions :: "string list \<Rightarrow> string list \<Rightarrow> string list" where
  "union_functions base derived =
     fold (\<lambda>f acc. if f \<in> set acc then acc else acc @ [f]) derived base"

definition merge_chain :: "kind_node \<Rightarrow> kind_node \<Rightarrow> ipld_link list" where
  "merge_chain base derived =
     (let chain = (if kn_behaviour_chain base = []
                   then (case kn_behaviour base of None \<Rightarrow> [] | Some l \<Rightarrow> [l])
                   else kn_behaviour_chain base)
      in if kn_behaviour_chain derived = []
         then (case kn_behaviour derived of Some l \<Rightarrow> chain @ [l] | None \<Rightarrow> chain)
         else chain @ kn_behaviour_chain derived)"

definition option_or :: "'a option \<Rightarrow> 'a option \<Rightarrow> 'a option" where
  "option_or a b = (case a of Some x \<Rightarrow> Some x | None \<Rightarrow> b)"

definition merge_kind_over_base :: "kind_node \<Rightarrow> kind_node \<Rightarrow> kind_node" where
  "merge_kind_over_base base derived = \<lparr>
     kn_protocol = kn_protocol derived,
     kn_cid = option_or (kn_cid derived) (kn_cid base),
     kn_type = kn_type derived,
     kn_behaviour = option_or (kn_behaviour derived) (kn_behaviour base),
     kn_behaviour_chain = merge_chain base derived,
     kn_host_functions = union_functions (kn_host_functions base) (kn_host_functions derived),
     kn_attributes = fold (\<lambda>(k, v). bt_insert k v) (kn_attributes derived) (kn_attributes base),
     kn_extends = None\<rparr>"

datatype kind_error =
    ChainTooLong string string
  | UnknownBase string string
  | FetchFailed cid
  | ProtocolMismatch string string

definition MAX_DEPTH :: nat where "MAX_DEPTH = 8"

text \<open>The loop; the first argument is the number of hops left.\<close>

fun resolve_loop :: "nat \<Rightarrow> (cid \<Rightarrow> kind_node option) \<Rightarrow> kind_tree \<Rightarrow> kind_node \<Rightarrow> kind_error + kind_node" where
  "resolve_loop hops fetch kinds kind =
     (case kn_extends kind of
        None \<Rightarrow> Inr kind
      | Some base_protocol \<Rightarrow>
          (case hops of
             0 \<Rightarrow> Inl (ChainTooLong (kn_protocol kind) base_protocol)
           | Suc hops' \<Rightarrow>
               (case get_protocol kinds base_protocol of
                  None \<Rightarrow> Inl (UnknownBase (kn_protocol kind) base_protocol)
                | Some base_link \<Rightarrow>
                    (case fetch base_link of
                       None \<Rightarrow> Inl (FetchFailed base_link)
                     | Some base \<Rightarrow>
                         resolve_loop hops' fetch kinds
                           ((merge_kind_over_base base kind)\<lparr>kn_extends := kn_extends base\<rparr>)))))"

declare resolve_loop.simps [simp del]

definition resolve_kind_extends ::
  "(cid \<Rightarrow> kind_node option) \<Rightarrow> kind_tree \<Rightarrow> kind_node \<Rightarrow> kind_error + kind_node" where
  "resolve_kind_extends fetch kinds kind = resolve_loop MAX_DEPTH fetch kinds kind"

section \<open>The dependency set of an update\<close>

text \<open>The \<open>for _ in 0..MAX_DEPTH\<close> loop of \<open>kind_depends_on\<close>.\<close>

fun depends_loop :: "nat \<Rightarrow> string set \<Rightarrow> string option \<Rightarrow> string \<Rightarrow> kind_node hash_map \<Rightarrow> bool" where
  "depends_loop 0 seen current updated raw = False"
| "depends_loop (Suc n) seen current updated raw =
     (case current of
        None \<Rightarrow> False
      | Some base \<Rightarrow>
          if base = updated then True
          else if base \<in> seen then False
          else depends_loop n (insert base seen)
                 (Option.bind (map_of raw base) kn_extends) updated raw)"

definition kind_depends_on :: "string \<Rightarrow> string \<Rightarrow> kind_node hash_map \<Rightarrow> bool" where
  "kind_depends_on protocol updated raw =
     (if protocol = updated then True
      else depends_loop MAX_DEPTH {} (Option.bind (map_of raw protocol) kn_extends) updated raw)"

definition affected_kind_protocols_for :: "string list \<Rightarrow> kind_node hash_map \<Rightarrow> string set" where
  "affected_kind_protocols_for updated raw =
     fold (\<lambda>u acc. acc \<union> {u} \<union> set (filter (\<lambda>p. kind_depends_on p u raw) (map fst raw))) updated {}"

text \<open>\<open>load_raw_kind_nodes\<close>: kinds that cannot be fetched are skipped with a warning.\<close>

definition load_raw_kind_nodes :: "(cid \<Rightarrow> kind_node option) \<Rightarrow> kind_tree \<Rightarrow> kind_node hash_map" where
  "load_raw_kind_nodes fetch kinds =
     fold (\<lambda>(protocol, link) raw.
        case fetch link of Some kind \<Rightarrow> AList.update protocol kind raw | None \<Rightarrow> raw)
       (iter_protocols kinds) []"

section \<open>The kinds overlay\<close>

fun overlay_candidate ::
  "(cid \<Rightarrow> kind_node option) \<Rightarrow> (string \<times> ipld_link) list \<Rightarrow> kind_tree
     \<Rightarrow> kind_error + (kind_tree \<times> (string \<times> ipld_link \<times> kind_node) list)" where
  "overlay_candidate fetch [] cand = Inr (cand, [])"
| "overlay_candidate fetch ((protocol, link) # xs) cand =
     (case fetch link of
        None \<Rightarrow> Inl (FetchFailed link)
      | Some raw_kind \<Rightarrow>
          if kn_protocol raw_kind \<noteq> protocol
          then Inl (ProtocolMismatch protocol (kn_protocol raw_kind))
          else (case overlay_candidate fetch xs (insert_protocol protocol link cand) of
                  Inl e \<Rightarrow> Inl e
                | Inr (cand', ks) \<Rightarrow> Inr (cand', (protocol, link, raw_kind) # ks)))"

fun overlay_check ::
  "(cid \<Rightarrow> kind_node option) \<Rightarrow> kind_tree \<Rightarrow> (string \<times> ipld_link \<times> kind_node) list \<Rightarrow> kind_error + unit" where
  "overlay_check fetch cand [] = Inr ()"
| "overlay_check fetch cand ((protocol, link, raw_kind) # ks) =
     (if kn_extends raw_kind \<noteq> None
      then (case resolve_kind_extends fetch cand raw_kind of
              Inl e \<Rightarrow> Inl e
            | Inr r \<Rightarrow> overlay_check fetch cand ks)
      else overlay_check fetch cand ks)"

fun overlay_commit ::
  "(string \<times> ipld_link \<times> kind_node) list \<Rightarrow> kind_tree \<Rightarrow> kind_tree \<times> string list" where
  "overlay_commit [] kinds = (kinds, [])"
| "overlay_commit ((protocol, link, raw_kind) # ks) kinds =
     (let changed = (case get_protocol kinds protocol of None \<Rightarrow> True | Some old \<Rightarrow> old \<noteq> link);
          (kinds', rest) = overlay_commit ks (insert_protocol protocol link kinds)
      in (kinds', (if changed then [protocol] else []) @ rest))"

definition apply_kinds_tree_overlay ::
  "(cid \<Rightarrow> kind_node option) \<Rightarrow> kind_tree \<Rightarrow> runtime_manifest
     \<Rightarrow> kind_error + (runtime_manifest \<times> string list)" where
  "apply_kinds_tree_overlay fetch overlay manifest =
     (case overlay_candidate fetch (iter_protocols overlay) (rm_kinds manifest) of
        Inl e \<Rightarrow> Inl e
      | Inr (cand, ks) \<Rightarrow>
          (case overlay_check fetch cand ks of
             Inl e \<Rightarrow> Inl e
           | Inr u \<Rightarrow>
               (let (kinds', changed) = overlay_commit ks (rm_kinds manifest)
                in Inr (manifest\<lparr>rm_kinds := kinds'\<rparr>, changed))))"

section \<open>Specification of resolution\<close>

text \<open>
  \<open>extends_chain fetch kinds k bs\<close>: following \<open>extends\<close> from \<open>k\<close> visits exactly the base kinds
  \<open>bs\<close>, nearest first, and then stops.
\<close>

fun extends_chain ::
  "(cid \<Rightarrow> kind_node option) \<Rightarrow> kind_tree \<Rightarrow> kind_node \<Rightarrow> kind_node list \<Rightarrow> bool" where
  "extends_chain fetch kinds k [] = (kn_extends k = None)"
| "extends_chain fetch kinds k (b # bs) =
     ((case kn_extends k of
         None \<Rightarrow> False
       | Some p \<Rightarrow> (case get_protocol kinds p of None \<Rightarrow> False | Some l \<Rightarrow> fetch l = Some b))
      \<and> extends_chain fetch kinds b bs)"

text \<open>The first defined value along a list of kinds, the most derived one first.\<close>

fun first_some :: "('a \<Rightarrow> 'b option) \<Rightarrow> 'a list \<Rightarrow> 'b option" where
  "first_some f [] = None"
| "first_some f (x # xs) = option_or (f x) (first_some f xs)"

definition own_behaviours :: "kind_node list \<Rightarrow> ipld_link list" where
  "own_behaviours ks = List.map_filter kn_behaviour (rev ks)"

text \<open>What a kind inherits from the bases of its chain.\<close>

definition inherits :: "kind_node \<Rightarrow> kind_node list \<Rightarrow> kind_node \<Rightarrow> bool" where
  "inherits k bs r =
     (kn_protocol r = kn_protocol k \<and> kn_type r = kn_type k \<and> kn_extends r = None \<and>
      kn_cid r = first_some kn_cid (k # bs) \<and>
      kn_behaviour r = first_some kn_behaviour (k # bs) \<and>
      (bs \<noteq> [] \<longrightarrow> kn_behaviour_chain r = own_behaviours (k # bs)) \<and>
      set (kn_host_functions r) = \<Union> (set (map (set \<circ> kn_host_functions) (k # bs))) \<and>
      (\<forall>a. map_of (kn_attributes r) a = first_some (\<lambda>x. map_of (kn_attributes x) a) (k # bs)))"

text \<open>Fetched nodes carry no chain (the field is never deserialised) and ordered attribute maps.\<close>

definition raw_kind :: "kind_node \<Rightarrow> bool" where
  "raw_kind k = (kn_behaviour_chain k = [] \<and> bt_inv (kn_attributes k))"

lemma set_union_functions [simp]: "set (union_functions base derived) = set base \<union> set derived"
  by (induction derived arbitrary: base) (auto simp: union_functions_def)

lemma union_functions_distinct: "distinct base \<Longrightarrow> distinct (union_functions base derived)"
  by (induction derived arbitrary: base) (auto simp: union_functions_def)

lemma fold_bt_insert_lookup:
  "distinct (map fst xs) \<Longrightarrow>
     map_of (fold (\<lambda>(k, v). bt_insert k v) xs m) a = option_or (map_of xs a) (map_of m a)"
proof (induction xs arbitrary: m)
  case (Cons x xs)
  obtain k v where x: "x = (k, v)" by (cases x)
  have "map_of xs k = None" using Cons.prems x by (simp add: map_of_eq_None_iff)
  with Cons x show ?case by (auto simp: map_of_bt_insert option_or_def split: option.split)
qed (simp add: option_or_def)

lemma bt_inv_distinct: "bt_inv m \<Longrightarrow> distinct (map fst m)"
  by (induction m) (force simp: bt_inv_Cons)+

lemma fold_bt_insert_inv: "bt_inv m \<Longrightarrow> bt_inv (fold (\<lambda>(k, v). bt_insert k v) xs m)"
  by (induction xs arbitrary: m) (auto simp: bt_insert_inv)

lemma option_or_simps [simp]: "option_or (Some x) b = Some x" "option_or None b = b"
  by (simp_all add: option_or_def)

lemma option_or_assoc: "option_or (option_or a b) c = option_or a (option_or b c)"
  by (cases a) auto

lemma own_behaviours_Cons:
  "own_behaviours (k # ks) = own_behaviours ks @ (case kn_behaviour k of None \<Rightarrow> [] | Some l \<Rightarrow> [l])"
  by (auto simp: own_behaviours_def List.map_filter_def split: option.splits)

lemma own_behaviours_Nil [simp]: "own_behaviours [] = []"
  by (simp add: own_behaviours_def List.map_filter_def)

lemma own_behaviours_Nil_iff: "own_behaviours ks = [] \<longleftrightarrow> first_some kn_behaviour ks = None"
  by (induction ks) (auto simp: own_behaviours_Cons own_behaviours_def[of "[]"] List.map_filter_def split: option.splits)

section \<open>Lemmas on resolution\<close>

text \<open>\<open>merged ds acc\<close>: the loop has merged the kinds \<open>ds\<close>, most derived first, into \<open>acc\<close>.\<close>

definition merged :: "kind_node list \<Rightarrow> kind_node \<Rightarrow> bool" where
  "merged ds acc =
     (kn_protocol acc = kn_protocol (hd ds) \<and> kn_type acc = kn_type (hd ds) \<and>
      kn_extends acc = kn_extends (last ds) \<and>
      kn_cid acc = first_some kn_cid ds \<and> kn_behaviour acc = first_some kn_behaviour ds \<and>
      kn_behaviour_chain acc = (if tl ds = [] then [] else own_behaviours ds) \<and>
      set (kn_host_functions acc) = \<Union> (set (map (set \<circ> kn_host_functions) ds)) \<and>
      bt_inv (kn_attributes acc) \<and>
      (\<forall>a. map_of (kn_attributes acc) a = first_some (\<lambda>x. map_of (kn_attributes x) a) ds))"

lemma first_some_append: "first_some f (xs @ ys) = option_or (first_some f xs) (first_some f ys)"
  by (induction xs) (auto simp: option_or_assoc)

lemma own_behaviours_append: "own_behaviours (xs @ ys) = own_behaviours ys @ own_behaviours xs"
  by (simp add: own_behaviours_def List.map_filter_def)

lemma own_behaviours_single:
  "own_behaviours [k] = (case kn_behaviour k of None \<Rightarrow> [] | Some l \<Rightarrow> [l])"
  by (auto simp: own_behaviours_def List.map_filter_def split: option.splits)

lemma merged_single: "raw_kind k \<Longrightarrow> merged [k] k"
  by (simp add: merged_def raw_kind_def option_or_def split: option.splits)

lemma merged_step:
  assumes "merged ds acc" "ds \<noteq> []" "raw_kind b"
  shows "merged (ds @ [b]) ((merge_kind_over_base b acc)\<lparr>kn_extends := kn_extends b\<rparr>)"
proof -
  have "merge_chain b acc = own_behaviours (ds @ [b])"
  proof (cases "tl ds = []")
    case True
    with assms(2) obtain d where "ds = [d]" by (cases ds) auto
    with assms(1) have "kn_behaviour_chain acc = []" "kn_behaviour acc = kn_behaviour d"
      by (simp_all add: merged_def option_or_def split: option.splits)
    with assms(3) \<open>ds = [d]\<close> show ?thesis
      by (auto simp: merge_chain_def raw_kind_def own_behaviours_Cons own_behaviours_single
          split: option.splits)
  next
    case False
    with assms(1) have acc: "kn_behaviour_chain acc = own_behaviours ds"
      "kn_behaviour acc = first_some kn_behaviour ds" by (simp_all add: merged_def)
    with assms(3) own_behaviours_Nil_iff[of ds] show ?thesis
      by (auto simp: merge_chain_def raw_kind_def own_behaviours_append own_behaviours_single
          split: option.splits)
  qed
  moreover have "map_of (fold (\<lambda>(k, v). bt_insert k v) (kn_attributes acc) (kn_attributes b)) a
      = first_some (\<lambda>x. map_of (kn_attributes x) a) (ds @ [b])" for a
    using assms(1) by (simp add: fold_bt_insert_lookup bt_inv_distinct merged_def first_some_append option_or_def
        split: option.splits)
  ultimately show ?thesis
    using assms by (auto simp: merged_def merge_kind_over_base_def raw_kind_def first_some_append
        fold_bt_insert_inv option_or_def hd_append split: option.splits)
qed

lemma resolve_loop_chain:
  assumes "\<forall>l b. fetch l = Some b \<longrightarrow> raw_kind b"
  shows "merged ds acc \<Longrightarrow> ds \<noteq> [] \<Longrightarrow> extends_chain fetch kinds (last ds) bs \<Longrightarrow> length bs \<le> n
     \<Longrightarrow> \<exists>r. resolve_loop n fetch kinds acc = Inr r \<and> merged (ds @ bs) r"
proof (induction bs arbitrary: ds acc n)
  case Nil
  then have "kn_extends acc = None" by (simp add: merged_def)
  with Nil show ?case by (simp add: resolve_loop.simps)
next
  case (Cons b bs)
  then obtain p l where p: "kn_extends acc = Some p" "get_protocol kinds p = Some l" "fetch l = Some b"
    by (auto simp: merged_def split: option.splits)
  obtain n' where n: "n = Suc n'" using Cons.prems by (cases n) auto
  let ?acc = "(merge_kind_over_base b acc)\<lparr>kn_extends := kn_extends b\<rparr>"
  have "merged (ds @ [b]) ?acc" using merged_step Cons.prems p assms by blast
  with Cons.IH[of "ds @ [b]" ?acc n'] Cons.prems n
  have "\<exists>r. resolve_loop n' fetch kinds ?acc = Inr r \<and> merged (ds @ b # bs) r" by simp
  with p n show ?case by (simp add: resolve_loop.simps[of "Suc n'"])
qed

lemma resolve_loop_Inr:
  "resolve_loop n fetch kinds acc = Inr r \<Longrightarrow> kn_extends acc = kn_extends k
     \<Longrightarrow> \<exists>bs. length bs \<le> n \<and> extends_chain fetch kinds k bs"
proof (induction n arbitrary: acc k)
  case 0
  then show ?case by (intro exI[of _ "[]"]) (simp add: resolve_loop.simps split: option.splits)
next
  case (Suc n)
  show ?case
  proof (cases "kn_extends k")
    case None
    then show ?thesis by (intro exI[of _ "[]"]) simp
  next
    case (Some p)
    with Suc.prems obtain l b where lb: "get_protocol kinds p = Some l" "fetch l = Some b"
      "resolve_loop n fetch kinds ((merge_kind_over_base b acc)\<lparr>kn_extends := kn_extends b\<rparr>) = Inr r"
      by (auto simp: resolve_loop.simps[of "Suc n"] split: option.splits)
    from Suc.IH[OF lb(3), of b] obtain bs where "length bs \<le> n" "extends_chain fetch kinds b bs" by auto
    with Some lb show ?thesis by (intro exI[of _ "b # bs"]) simp
  qed
qed

lemma extends_chain_unique:
  "extends_chain fetch kinds k bs \<Longrightarrow> extends_chain fetch kinds k bs' \<Longrightarrow> bs = bs'"
proof (induction bs arbitrary: k bs')
  case Nil
  then show ?case by (cases bs') auto
next
  case (Cons b bs)
  then show ?case by (cases bs') (auto split: option.splits)
qed

section \<open>Lemmas on the dependency set\<close>

text \<open>The protocol a chain names at each hop.\<close>

definition chain_protocols :: "kind_node \<Rightarrow> kind_node list \<Rightarrow> string list" where
  "chain_protocols k bs = List.map_filter kn_extends (k # bs)"

definition canonical :: "string \<Rightarrow> bool" where
  "canonical p = (p = ''/'' @ join_with ''/'' (segments p))"

lemma chain_protocols_Cons:
  "kn_extends k = Some p \<Longrightarrow> chain_protocols k (b # bs) = p # chain_protocols b bs"
  by (simp add: chain_protocols_def List.map_filter_def)

lemma chain_protocols_Nil: "kn_extends k = None \<Longrightarrow> chain_protocols k [] = []"
  by (simp add: chain_protocols_def List.map_filter_def)

lemma load_raw_lookup:
  assumes "\<forall>p l l'. (p, l) \<in> set xs \<longrightarrow> (p, l') \<in> set xs \<longrightarrow> l = l'"
  shows "map_of (fold (\<lambda>(p, l) raw. case fetch l of Some k \<Rightarrow> AList.update p k raw | None \<Rightarrow> raw) xs m) q
       = (case map_of xs q of
            Some l \<Rightarrow> (case fetch l of Some k \<Rightarrow> Some k | None \<Rightarrow> map_of m q)
          | None \<Rightarrow> map_of m q)"
  using assms
proof (induction xs arbitrary: m)
  case (Cons x xs)
  obtain p l where x: "x = (p, l)" by (cases x)
  have same: "l' = l" if "map_of xs p = Some l'" for l'
    using Cons.prems x map_of_SomeD[OF that] by (metis list.set_intros)
  from Cons.IH Cons.prems show ?case
    unfolding x by (auto simp: map_simps dest: same split: option.splits)
qed simp

lemma load_raw_kind_nodes_lookup:
  assumes "tree_ok kinds"
  shows "map_of (load_raw_kind_nodes fetch kinds) p =
     (if canonical p then Option.bind (get_protocol kinds p) fetch else None)"
proof -
  have "map_of (iter_protocols kinds) p = (if canonical p then get_protocol kinds p else None)"
  proof (cases "canonical p \<and> get_protocol kinds p \<noteq> None")
    case True
    then obtain l where l: "get_protocol kinds p = Some l" by blast
    with True have "(p, l) \<in> set (iter_protocols kinds)"
      by (simp add: iter_protocols_iff[OF assms] canonical_def)
    then have "p \<in> fst ` set (iter_protocols kinds)" by force
    then have "map_of (iter_protocols kinds) p \<noteq> None" by (simp add: map_of_eq_None_iff)
    then obtain l' where l': "map_of (iter_protocols kinds) p = Some l'" by blast
    with map_of_SomeD[OF l'] l True show ?thesis by (simp add: iter_protocols_iff[OF assms])
  next
    case False
    then have "(p, l) \<notin> set (iter_protocols kinds)" for l
      by (auto simp: iter_protocols_iff[OF assms] canonical_def)
    then have "map_of (iter_protocols kinds) p = None" by (auto simp: map_of_eq_None_iff)
    with False show ?thesis by auto
  qed
  then show ?thesis
    unfolding load_raw_kind_nodes_def
    by (subst load_raw_lookup) (auto simp: iter_protocols_iff[OF assms] split: option.splits)
qed

lemma chain_protocols_suffix:
  "extends_chain fetch kinds k bs \<Longrightarrow> u \<in> set (chain_protocols k bs) \<Longrightarrow>
     \<exists>b bs'. suffix (b # bs') bs \<and> Option.bind (get_protocol kinds u) fetch = Some b
       \<and> extends_chain fetch kinds b bs'"
proof (induction bs arbitrary: k)
  case Nil
  then show ?case by (simp add: chain_protocols_Nil)
next
  case (Cons b bs)
  then obtain p l where p: "kn_extends k = Some p" "get_protocol kinds p = Some l" "fetch l = Some b"
    by (auto split: option.splits)
  show ?case
  proof (cases "u = p")
    case True
    with p Cons.prems show ?thesis by (intro exI[of _ b] exI[of _ bs]) (simp add: suffix_def)
  next
    case False
    with Cons.prems p Cons.IH[of b] show ?thesis
      by (auto simp: chain_protocols_Cons) (meson suffix_ConsI)
  qed
qed

lemma chain_protocols_hd_fresh:
  assumes "extends_chain fetch kinds k (b # bs)" "kn_extends k = Some p"
  shows "p \<notin> set (chain_protocols b bs)"
proof
  assume "p \<in> set (chain_protocols b bs)"
  with assms chain_protocols_suffix[of fetch kinds b bs p] obtain b' bs' where
    s: "suffix (b' # bs') bs" "Option.bind (get_protocol kinds p) fetch = Some b'"
      "extends_chain fetch kinds b' bs'" by auto
  with assms have "b' = b" by (auto split: option.splits)
  with s(3) assms(1) have "bs' = bs" using extends_chain_unique[of fetch kinds b bs' bs] by simp
  with s(1) show False by (metis length_Cons not_less_eq_eq order_refl suffix_length_le)
qed

lemma depends_loop_chain:
  assumes "\<forall>p. get_protocol kinds p \<noteq> None \<longrightarrow> canonical p \<longrightarrow>
             map_of raw p = Option.bind (get_protocol kinds p) fetch"
  shows "extends_chain fetch kinds k bs \<Longrightarrow> length bs \<le> n \<Longrightarrow>
     \<forall>p\<in>set (chain_protocols k bs). canonical p \<Longrightarrow> u \<in> set (chain_protocols k bs) \<Longrightarrow>
     seen \<inter> set (chain_protocols k bs) = {} \<Longrightarrow> depends_loop n seen (kn_extends k) u raw"
proof (induction bs arbitrary: k n seen)
  case Nil
  then show ?case by (simp add: chain_protocols_Nil)
next
  case (Cons b bs)
  then obtain p l where p: "kn_extends k = Some p" "get_protocol kinds p = Some l" "fetch l = Some b"
    by (auto split: option.splits)
  obtain n' where n: "n = Suc n'" using Cons.prems by (cases n) auto
  note cp = chain_protocols_Cons[OF p(1), of b bs]
  have raw: "map_of raw p = Some b" using assms p Cons.prems(3) cp by simp
  have fresh: "p \<notin> set (chain_protocols b bs)" using chain_protocols_hd_fresh[OF Cons.prems(1) p(1)] .
  show ?case
  proof (cases "u = p")
    case True
    with n p show ?thesis by simp
  next
    case False
    have "depends_loop n' (insert p seen) (kn_extends b) u raw"
      using Cons.prems cp fresh n False by (intro Cons.IH) auto
    with n p raw False Cons.prems(5) cp show ?thesis by auto
  qed
qed

lemma depends_loop_unregistered:
  "map_of raw q = None \<Longrightarrow> q \<noteq> u \<Longrightarrow> \<not> depends_loop n seen (Some q) u raw"
  by (cases n; cases "n - 1") auto

lemma affected_kind_protocols_for_iff:
  "p \<in> affected_kind_protocols_for us raw \<longleftrightarrow>
     p \<in> set us \<or> (\<exists>u\<in>set us. p \<in> fst ` set raw \<and> kind_depends_on p u raw)"
proof -
  let ?f = "\<lambda>u acc. acc \<union> {u} \<union> set (filter (\<lambda>p. kind_depends_on p u raw) (map fst raw))"
  have "fold ?f us A = A \<union> (\<Union>u\<in>set us. {u} \<union> {p \<in> fst ` set raw. kind_depends_on p u raw})" for A
    by (induction us arbitrary: A) auto
  then show ?thesis unfolding affected_kind_protocols_for_def by auto
qed

section \<open>Lemmas on the overlay\<close>

abbreviation insert_all :: "(string \<times> ipld_link) list \<Rightarrow> kind_tree \<Rightarrow> kind_tree" where
  "insert_all \<equiv> fold (\<lambda>(p, l). insert_protocol p l)"

lemma overlay_candidate_Inr:
  "overlay_candidate fetch xs c = Inr (c', ks) \<Longrightarrow>
     c' = insert_all xs c \<and> map (\<lambda>(p, l, k). (p, l)) ks = xs
     \<and> (\<forall>(p, l, k)\<in>set ks. fetch l = Some k \<and> kn_protocol k = p)"
proof (induction fetch xs c arbitrary: c' ks rule: overlay_candidate.induct)
  case (2 fetch protocol link xs cand)
  then obtain k ks' where k: "fetch link = Some k" "kn_protocol k = protocol"
    "overlay_candidate fetch xs (insert_protocol protocol link cand) = Inr (c', ks')"
    "ks = (protocol, link, k) # ks'"
    by (auto split: option.splits if_splits sum.splits prod.splits)
  with 2(1)[OF k(1) _ k(3)] show ?case by auto
qed auto

lemma overlay_check_Inr:
  "overlay_check fetch c ks = Inr u \<Longrightarrow> (p, l, k) \<in> set ks \<Longrightarrow>
     \<exists>r. resolve_kind_extends fetch c k = Inr r"
proof (induction fetch c ks rule: overlay_check.induct)
  case (2 fetch c protocol link raw_kind ks)
  then show ?case
    by (cases "kn_extends raw_kind")
       (auto simp: resolve_kind_extends_def resolve_loop.simps[of MAX_DEPTH] split: sum.splits)
qed simp

lemma overlay_candidate_Inl:
  "overlay_candidate fetch xs c = Inl e \<Longrightarrow>
     \<exists>p l. (p, l) \<in> set xs \<and> \<not> (\<exists>k. fetch l = Some k \<and> kn_protocol k = p)"
proof (induction fetch xs c rule: overlay_candidate.induct)
  case (2 fetch protocol link xs cand)
  show ?case
  proof (cases "\<exists>k. fetch link = Some k \<and> kn_protocol k = protocol")
    case True
    then obtain k where k: "fetch link = Some k" "kn_protocol k = protocol" by blast
    with 2(2) have "overlay_candidate fetch xs (insert_protocol protocol link cand) = Inl e"
      by (auto split: sum.splits prod.splits)
    from 2(1)[OF k(1) _ this] k(2) show ?thesis by auto
  qed auto
qed simp

lemma overlay_check_Inl:
  "overlay_check fetch c ks = Inl e \<Longrightarrow> \<exists>p l k. (p, l, k) \<in> set ks \<and> (\<forall>r. resolve_kind_extends fetch c k \<noteq> Inr r)"
proof (induction fetch c ks rule: overlay_check.induct)
  case (2 fetch c protocol link raw_kind ks)
  show ?case
  proof (cases "resolve_kind_extends fetch c raw_kind")
    case (Inr r)
    with 2(3) have "overlay_check fetch c ks = Inl e" by (auto split: if_splits)
    with 2(1,2) Inr show ?thesis by (cases "kn_extends raw_kind") auto
  next
    case (Inl a)
    then show ?thesis by (intro exI[of _ protocol] exI[of _ link] exI[of _ raw_kind]) simp
  qed
qed simp

lemma insert_all_map:
  "insert_all xs t = fold (\<lambda>(p, l) t. kind_tree_insert t p l) (map (\<lambda>(p, l). (segments p, l)) xs) t"
  by (induction xs arbitrary: t) (auto simp: insert_protocol_def)

lemma overlay_commit_tree:
  "fst (overlay_commit ks t) = insert_all (map (\<lambda>(p, l, k). (p, l)) ks) t"
  by (induction ks t rule: overlay_commit.induct) (auto simp: Let_def split: prod.splits)

lemma overlay_commit_changed:
  "\<forall>x\<in>set ks. segments (fst x) \<noteq> [] \<Longrightarrow>
   \<forall>x\<in>set ks. \<forall>y\<in>set ks. path_compat (segments (fst x)) (segments (fst y))
      \<and> (segments (fst x) = segments (fst y) \<longrightarrow> fst x = fst y \<and> fst (snd x) = fst (snd y)) \<Longrightarrow>
   set (snd (overlay_commit ks t)) = fst ` {x \<in> set ks. get_protocol t (fst x) \<noteq> Some (fst (snd x))}"
proof (induction ks arbitrary: t)
  case (Cons x ks)
  obtain protocol link k where x: "x = (protocol, link, k)" by (cases x)
  let ?t = "insert_protocol protocol link t"
  have ne: "segments protocol \<noteq> []" using Cons.prems(1) x by simp
  have IH: "set (snd (overlay_commit ks ?t)) =
      fst ` {y \<in> set ks. get_protocol ?t (fst y) \<noteq> Some (fst (snd y))}"
  proof (rule Cons.IH, goal_cases)
    case 1
    show ?case using Cons.prems(1) by simp
  next
    case 2
    show ?case by (intro ballI bspec[OF bspec[OF Cons.prems(2)]]) simp_all
  qed
  have same: "segments protocol = segments (fst y) \<Longrightarrow> protocol = fst y \<and> link = fst (snd y)"
    and compat: "path_compat (segments protocol) (segments (fst y))" if "y \<in> set ks" for y
  proof -
    have "path_compat (segments (fst x)) (segments (fst y))
      \<and> (segments (fst x) = segments (fst y) \<longrightarrow> fst x = fst y \<and> fst (snd x) = fst (snd y))"
      using that by (intro bspec[OF bspec[OF Cons.prems(2)]]) simp_all
    then show "segments protocol = segments (fst y) \<Longrightarrow> protocol = fst y \<and> link = fst (snd y)"
      and "path_compat (segments protocol) (segments (fst y))" unfolding x by simp_all
  qed
  have get: "get_protocol ?t (fst y) =
      (if fst y = protocol \<and> \<not> shadowed t (segments protocol) then Some (fst (snd y)) else get_protocol t (fst y))"
    if "y \<in> set ks" for y
    using same[OF that] compat[OF that]
    by (auto simp: get_protocol_def insert_protocol_def kind_tree_get_insert_any[OF ne] path_compat_def)
  have new: "get_protocol ?t (fst y) \<noteq> Some (fst (snd y)) \<longrightarrow> get_protocol t (fst y) \<noteq> Some (fst (snd y))"
    and other: "fst y \<noteq> protocol \<longrightarrow> get_protocol ?t (fst y) = get_protocol t (fst y)"
    and link: "fst y = protocol \<longrightarrow> fst (snd y) = link" if "y \<in> set ks" for y
    using get[OF that] same[OF that] by auto
  have "fst ` {y \<in> set (x # ks). get_protocol t (fst y) \<noteq> Some (fst (snd y))}
    = (if get_protocol t protocol = Some link then {} else {protocol})
      \<union> fst ` {y \<in> set ks. get_protocol ?t (fst y) \<noteq> Some (fst (snd y))}" (is "?L = ?A \<union> ?B")
  proof
    have "fst y \<in> ?A \<union> ?B" if "y \<in> set (x # ks)" "get_protocol t (fst y) \<noteq> Some (fst (snd y))" for y
    proof (cases "fst y = protocol")
      case True
      have "fst (snd y) = link"
      proof (cases "y = x")
        case False
        with that(1) True link[of y] show ?thesis by simp
      qed (simp add: x)
      with that(2) True show ?thesis by simp
    next
      case False
      with that x other[of y] show ?thesis by auto
    qed
    then show "?L \<subseteq> ?A \<union> ?B" by blast
    have "?B \<subseteq> ?L" using new by auto
    moreover have "?A \<subseteq> ?L" unfolding x by (auto intro!: image_eqI[of _ _ "(protocol, link, k)"])
    ultimately show "?A \<union> ?B \<subseteq> ?L" by blast
  qed
  moreover have "set (snd (overlay_commit (x # ks) t)) =
      (if get_protocol t protocol = Some link then {} else {protocol}) \<union> set (snd (overlay_commit ks ?t))"
    unfolding x by (cases "overlay_commit ks ?t"; cases "get_protocol t protocol") simp_all
  ultimately show ?case using IH by simp
qed simp

lemma leaves_compat:
  assumes "kind_tree_get t p = Some l" and "kind_tree_get t q = Some l'"
  shows "path_compat p q"
proof -
  have "\<not> strict_prefix a b" if "kind_tree_get t a = Some x" "kind_tree_get t b = Some y" for a b x y
  proof
    assume "strict_prefix a b"
    then obtain k r where "b = a @ k # r" by (metis strict_prefixE')
    with blocked_get[OF that(1), of k r] that(2) show False by simp
  qed
  with assms show ?thesis unfolding path_compat_def by blast
qed

text \<open>
  What a path leads to once an overlay has been inserted: nothing below an entry of the overlay; an entry of the overlay,
  unless the tree has a leaf above it, which stays; otherwise what it led to.
\<close>

definition overlaid :: "kind_tree \<Rightarrow> kind_tree \<Rightarrow> string list \<Rightarrow> ipld_link option" where
  "overlaid overlay t s =
     (if shadowed overlay s then None
      else case kind_tree_get overlay s of
             Some l \<Rightarrow> if shadowed t s then None else Some l
           | None \<Rightarrow> kind_tree_get t s)"

lemma iter_canonical:
  "tree_ok overlay \<Longrightarrow> (p, l) \<in> set (iter_protocols overlay) \<longleftrightarrow> get_protocol overlay p = Some l \<and> canonical p"
  by (simp add: iter_protocols_iff canonical_def)

lemma canonical_path: "canonical p \<Longrightarrow> get_protocol overlay p = Some l \<Longrightarrow> segments p \<noteq> []"
  by (auto simp: get_protocol_def)

lemma insert_all_overlaid:
  assumes ok: "tree_ok overlay"
  shows "get_protocol (insert_all (iter_protocols overlay) t) q = overlaid overlay t (segments q)"
proof -
  let ?xs = "iter_protocols overlay"
  let ?ys = "map (\<lambda>(p, l). (segments p, l)) ?xs"
  note mem = iter_canonical[OF ok]
  have ys: "(s, l) \<in> set ?ys \<longleftrightarrow> kind_tree_get overlay s = Some l" for s l
  proof
    assume r: "kind_tree_get overlay s = Some l"
    note path = tree_ok_path[OF ok r]
    have "segments (slashed s) = s" using path by (simp add: segments_slashed)
    then have "(slashed s, l) \<in> set ?xs"
      using r path by (auto simp: mem get_protocol_def canonical_def slashed_join)
    then show "(s, l) \<in> set ?ys" using \<open>segments (slashed s) = s\<close> by force
  qed (auto simp: mem get_protocol_def)
  have keys: "s \<in> fst ` set ?ys \<longleftrightarrow> kind_tree_get overlay s \<noteq> None" for s
    using ys[of s] by (force simp: image_def)
  have map_ys: "map_of ?ys s = kind_tree_get overlay s" for s
  proof (cases "map_of ?ys s")
    case None
    then have "(s, l) \<notin> set ?ys" for l by (metis map_of_eq_None_iff fst_conv image_eqI)
    with None ys[of s] show ?thesis by (cases "kind_tree_get overlay s") auto
  next
    case (Some l)
    with map_of_SomeD[OF Some] ys show ?thesis by simp
  qed
  have "p \<noteq> []" if "p \<in> fst ` set ?ys" for p using that unfolding keys by auto
  then have "\<forall>p\<in>fst ` set ?ys. p \<noteq> []" by blast
  moreover have "\<forall>p\<in>fst ` set ?ys. \<forall>q\<in>fst ` set ?ys. path_compat p q" using keys leaves_compat by blast
  moreover have "\<forall>p l l'. (p, l) \<in> set ?ys \<longrightarrow> (p, l') \<in> set ?ys \<longrightarrow> l = l'" unfolding ys by auto
  ultimately have "kind_tree_get (fold (\<lambda>(p, l) t. kind_tree_insert t p l) ?ys t) (segments q)
      = (if \<exists>p\<in>fst ` set ?ys. strict_prefix p (segments q) then None
         else case map_of ?ys (segments q) of Some l \<Rightarrow> if shadowed t (segments q) then None else Some l
              | None \<Rightarrow> kind_tree_get t (segments q))" by (rule kind_tree_get_fold)
  moreover have "(\<exists>p\<in>fst ` set ?ys. strict_prefix p (segments q)) \<longleftrightarrow> shadowed overlay (segments q)"
    unfolding shadowed_def Bex_def keys by auto
  ultimately show ?thesis unfolding get_protocol_def[of _ q] insert_all_map map_ys overlaid_def by simp
qed

lemma overlay_changed:
  assumes ok: "tree_ok overlay" and ks: "map (\<lambda>(p, l, k). (p, l)) ks = iter_protocols overlay"
  shows "set (snd (overlay_commit ks t))
    = {p. canonical p \<and> (\<exists>l. get_protocol overlay p = Some l \<and> get_protocol t p \<noteq> Some l)}"
proof -
  note mem = iter_canonical[OF ok]
  have set_xs: "set (iter_protocols overlay) = (\<lambda>(p, l, k). (p, l)) ` set ks" using ks by (metis list.set_map)
  have x: "canonical (fst x)" "get_protocol overlay (fst x) = Some (fst (snd x))" if "x \<in> set ks" for x
  proof -
    have "(fst x, fst (snd x)) \<in> set (iter_protocols overlay)"
      unfolding set_xs using that by (intro image_eqI[of _ _ x]) (auto simp: case_prod_beta)
    then show "canonical (fst x)" "get_protocol overlay (fst x) = Some (fst (snd x))" using mem by blast+
  qed
  have ne: "\<forall>x\<in>set ks. segments (fst x) \<noteq> []" using x canonical_path by blast
  have pairs: "\<forall>x\<in>set ks. \<forall>y\<in>set ks. path_compat (segments (fst x)) (segments (fst y))
      \<and> (segments (fst x) = segments (fst y) \<longrightarrow> fst x = fst y \<and> fst (snd x) = fst (snd y))"
  proof (intro ballI)
    fix x y assume xy: "x \<in> set ks" "y \<in> set ks"
    have "path_compat (segments (fst x)) (segments (fst y))"
      using x(2)[OF xy(1)] x(2)[OF xy(2)] leaves_compat unfolding get_protocol_def by blast
    moreover have "fst x = fst y" if "segments (fst x) = segments (fst y)"
      using that x(1)[OF xy(1)] x(1)[OF xy(2)] by (metis canonical_def)
    ultimately show "path_compat (segments (fst x)) (segments (fst y))
      \<and> (segments (fst x) = segments (fst y) \<longrightarrow> fst x = fst y \<and> fst (snd x) = fst (snd y))"
      using x(2)[OF xy(1)] x(2)[OF xy(2)] by auto
  qed
  have "(\<exists>k. (p, l, k) \<in> set ks) \<longleftrightarrow> canonical p \<and> get_protocol overlay p = Some l" for p l
    using mem[of p l] unfolding set_xs by force
  then show ?thesis unfolding overlay_commit_changed[OF ne pairs] by (force simp: image_def)
qed

lemma merged_inherits: "merged (k # bs) r \<Longrightarrow> extends_chain fetch kinds k bs \<Longrightarrow> inherits k bs r"
proof -
  have "kn_extends (last (k # bs)) = None" if "extends_chain fetch kinds k bs" for k bs
    using that by (induction bs arbitrary: k) auto
  then show "merged (k # bs) r \<Longrightarrow> extends_chain fetch kinds k bs \<Longrightarrow> inherits k bs r"
    by (simp add: merged_def inherits_def)
qed

section \<open>Properties\<close>

text \<open>Two kinds for the witnesses: a genesis kind that extends an actor kind.\<close>

definition sample_base :: kind_node where
  "sample_base = \<lparr>kn_protocol = ''/ma/actor'', kn_cid = Some ''bafyWasm'', kn_type = Extism,
     kn_behaviour = Some ''bafyStd'', kn_behaviour_chain = [], kn_host_functions = [''ma_send''],
     kn_attributes = [(''stateful'', JBool True)], kn_extends = None\<rparr>"

definition sample_derived :: kind_node where
  "sample_derived = \<lparr>kn_protocol = ''/ma/genesis'', kn_cid = None, kn_type = Extism,
     kn_behaviour = Some ''bafyRoom'', kn_behaviour_chain = [], kn_host_functions = [''ma_reply''],
     kn_attributes = [(''genesis'', JBool True)], kn_extends = Some ''/ma/actor''\<rparr>"

definition sample_kinds :: kind_tree where
  "sample_kinds = [(''ma'', Branch [(''actor'', Leaf ''bafyBase''), (''genesis'', Leaf ''bafyDerived'')])]"

definition sample_fetch :: "cid \<Rightarrow> kind_node option" where
  "sample_fetch c = (if c = ''bafyBase'' then Some sample_base
                     else if c = ''bafyDerived'' then Some sample_derived else None)"

lemmas sample_kind_defs = sample_base_def sample_derived_def sample_kinds_def sample_fetch_def
lemmas path_defs = get_protocol_def segments_def trim_start_matches_def

lemma sample_raw: "\<forall>l b. sample_fetch l = Some b \<longrightarrow> raw_kind b"
  by (simp add: sample_fetch_def raw_kind_def sample_base_def sample_derived_def bt_inv_def)

lemma sample_kinds_ok: "tree_ok sample_kinds"
proof -
  have "bt_inv [(''actor'', Leaf ''bafyBase''), (''genesis'', Leaf ''bafyDerived'')]"
    by (simp add: bt_inv_def less_char_def)
  then show ?thesis by (simp add: tree_ok_def sample_kinds_def bt_inv_def)
qed

text \<open>
  C6 (kinds). Resolving a kind whose chain of bases has at most eight hops succeeds, and the result is the
  declared inheritance: protocol and evaluator are the kind's own, CID and behaviour come
  from the nearest kind that has one, the behaviour chain lists the own behaviours base
  first, host functions are united, attributes are overridden key by key, and nothing is left
  to extend.  Without such a chain (too long, cyclic, unknown or unfetchable base) it fails.
\<close>

theorem resolve_kind_spec:
  assumes "raw_kind k" and "\<forall>l b. fetch l = Some b \<longrightarrow> raw_kind b"
  shows "(extends_chain fetch kinds k bs \<and> length bs \<le> 8 \<longrightarrow>
            (\<exists>r. resolve_kind_extends fetch kinds k = Inr r \<and> inherits k bs r)) \<and>
         ((\<nexists>bs. extends_chain fetch kinds k bs \<and> length bs \<le> 8) \<longrightarrow>
            (\<exists>e. resolve_kind_extends fetch kinds k = Inl e))"
proof (intro conjI impI)
  assume "extends_chain fetch kinds k bs \<and> length bs \<le> 8"
  then show "\<exists>r. resolve_kind_extends fetch kinds k = Inr r \<and> inherits k bs r"
    using resolve_loop_chain[OF assms(2) merged_single[OF assms(1)], of kinds bs 8]
    by (auto simp: resolve_kind_extends_def MAX_DEPTH_def intro: merged_inherits)
next
  assume none: "\<nexists>bs. extends_chain fetch kinds k bs \<and> length bs \<le> 8"
  show "\<exists>e. resolve_kind_extends fetch kinds k = Inl e"
  proof (cases "resolve_kind_extends fetch kinds k")
    case (Inr r)
    with none resolve_loop_Inr[of 8 fetch kinds k r k] show ?thesis
      by (auto simp: resolve_kind_extends_def MAX_DEPTH_def)
  qed simp
qed

theorem resolve_kind_spec_witness:
  "\<exists>r. resolve_kind_extends sample_fetch sample_kinds sample_derived = Inr r
     \<and> inherits sample_derived [sample_base] r"
proof -
  have "raw_kind sample_derived" by (simp add: raw_kind_def sample_derived_def bt_inv_def)
  moreover have "extends_chain sample_fetch sample_kinds sample_derived [sample_base]"
    by (simp add: path_defs sample_kind_defs)
  ultimately show ?thesis
    using resolve_kind_spec[OF _ sample_raw, of sample_derived sample_kinds "[sample_base]"] by simp
qed

text \<open>
  C7 (kinds). No dependent is missed when a kind changes: if all protocol references are canonically
  spelled, every registered kind whose resolution reads the updated protocol, at whatever
  depth of its chain, is in the set of kinds to reload.
\<close>

theorem affected_covers_resolution:
  assumes "tree_ok kinds" and "canonical p" and "Option.bind (get_protocol kinds p) fetch = Some k"
    and "extends_chain fetch kinds k bs" and "length bs \<le> 8"
    and "\<forall>q\<in>set (chain_protocols k bs). canonical q" and "u \<in> set (chain_protocols k bs)"
    and "u \<in> set us"
  shows "p \<in> affected_kind_protocols_for us (load_raw_kind_nodes fetch kinds)"
proof -
  let ?raw = "load_raw_kind_nodes fetch kinds"
  have raw: "map_of ?raw p = Some k"
    using load_raw_kind_nodes_lookup[OF assms(1)] assms(2,3) by simp
  have "depends_loop 8 {} (kn_extends k) u ?raw"
    using assms(4-7) load_raw_kind_nodes_lookup[OF assms(1)]
    by (intro depends_loop_chain[of kinds]) auto
  with raw have "kind_depends_on p u ?raw" by (simp add: kind_depends_on_def MAX_DEPTH_def)
  moreover have "p \<in> fst ` set ?raw" using map_of_SomeD[OF raw] by force
  ultimately show ?thesis using assms(8) by (auto simp: affected_kind_protocols_for_iff)
qed

theorem affected_covers_resolution_witness:
  "''/ma/genesis'' \<in> affected_kind_protocols_for [''/ma/actor'']
     (load_raw_kind_nodes sample_fetch sample_kinds)"
  by (rule affected_covers_resolution
        [where k = sample_derived and bs = "[sample_base]" and u = "''/ma/actor''", OF sample_kinds_ok])
     (simp_all add: canonical_def path_defs chain_protocols_def List.map_filter_def sample_kind_defs)

text \<open>
  The spelling matters: a kind that names its base without the leading slash resolves
  against that base, but an update of the base does not put it in the reload set.
\<close>

theorem dependency_missed_by_spelling:
  assumes "tree_ok kinds" and "kn_extends k = Some q" and "\<not> canonical q"
    and "Option.bind (get_protocol kinds q) fetch = Some b" and "kn_extends b = None"
    and "p \<noteq> u" and "canonical u" and "map_of (load_raw_kind_nodes fetch kinds) p = Some k"
  shows "(\<exists>r. resolve_kind_extends fetch kinds k = Inr r)
         \<and> p \<notin> affected_kind_protocols_for [u] (load_raw_kind_nodes fetch kinds)"
proof
  let ?raw = "load_raw_kind_nodes fetch kinds"
  have eight: "MAX_DEPTH = Suc (Suc 6)" by (simp add: MAX_DEPTH_def)
  show "\<exists>r. resolve_kind_extends fetch kinds k = Inr r"
    using assms by (auto simp: resolve_kind_extends_def eight resolve_loop.simps split: option.splits bind_splits)
  have "q \<noteq> u" using assms(3,7) by blast
  moreover have "map_of ?raw q = None" using load_raw_kind_nodes_lookup[OF assms(1)] assms(3) by simp
  ultimately have "\<not> kind_depends_on p u ?raw"
    using assms(2,6,8) by (simp add: kind_depends_on_def depends_loop_unregistered)
  with assms(6) show "p \<notin> affected_kind_protocols_for [u] ?raw"
    by (simp add: affected_kind_protocols_for_iff)
qed

theorem dependency_missed_by_spelling_witness:
  "let k = sample_derived\<lparr>kn_extends := Some ''ma/actor''\<rparr>;
       fetch = sample_fetch(''bafyDerived'' := Some k)
   in ''/ma/genesis'' \<notin> affected_kind_protocols_for [''/ma/actor''] (load_raw_kind_nodes fetch sample_kinds)"
proof -
  let ?k = "sample_derived\<lparr>kn_extends := Some ''ma/actor''\<rparr>"
  let ?fetch = "sample_fetch(''bafyDerived'' := Some ?k)"
  have "map_of (load_raw_kind_nodes ?fetch sample_kinds) ''/ma/genesis'' = Some ?k"
    unfolding load_raw_kind_nodes_lookup[OF sample_kinds_ok]
    by (simp add: canonical_def path_defs sample_kinds_def)
  then have "(\<exists>r. resolve_kind_extends ?fetch sample_kinds ?k = Inr r)
     \<and> ''/ma/genesis'' \<notin> affected_kind_protocols_for [''/ma/actor''] (load_raw_kind_nodes ?fetch sample_kinds)"
    by - (rule dependency_missed_by_spelling[where q = "''ma/actor''" and b = sample_base, OF sample_kinds_ok],
        simp_all add: canonical_def path_defs sample_kind_defs)
  then show ?thesis by (simp add: Let_def)
qed

text \<open>
  C8 (kinds). Applying a kinds overlay is all or nothing, whatever the registry is.  It fails exactly if some entry of the overlay cannot be
  fetched, names another protocol than its place, or does not resolve in the registry with the overlay inserted; then there is no
  new manifest.  Otherwise only the kinds of the manifest change, into those of \<open>overlaid\<close>: every entry of the overlay wins, unless
  the registry has a leaf above its path, and every other protocol that is not below an entry keeps its link; exactly the protocols whose
  link differs are reported as changed.  The tree of the overlay is one with ordered levels, keys without separators and no empty branch.
\<close>

theorem overlay_spec:
  assumes "tree_ok overlay"
  shows "\<exists>t. (\<forall>q. get_protocol t q = overlaid overlay (rm_kinds m) (segments q))
    \<and> (case apply_kinds_tree_overlay fetch overlay m of
         Inl e \<Rightarrow>
           (\<exists>p l. canonical p \<and> get_protocol overlay p = Some l
              \<and> \<not> (\<exists>k r. fetch l = Some k \<and> kn_protocol k = p \<and> resolve_kind_extends fetch t k = Inr r))
       | Inr (m', changed) \<Rightarrow>
           m' = m\<lparr>rm_kinds := t\<rparr>
         \<and> set changed = {p. canonical p \<and> (\<exists>l. get_protocol overlay p = Some l \<and> get_protocol (rm_kinds m) p \<noteq> Some l)}
         \<and> (\<forall>p l. canonical p \<longrightarrow> get_protocol overlay p = Some l \<longrightarrow>
              (\<exists>k r. fetch l = Some k \<and> kn_protocol k = p \<and> resolve_kind_extends fetch t k = Inr r)))"
proof (intro exI conjI allI)
  let ?xs = "iter_protocols overlay"
  let ?t = "insert_all ?xs (rm_kinds m)"
  note mem = iter_canonical[OF assms]
  show "get_protocol ?t q = overlaid overlay (rm_kinds m) (segments q)" for q by (rule insert_all_overlaid[OF assms])
  show "case apply_kinds_tree_overlay fetch overlay m of
         Inl e \<Rightarrow>
           (\<exists>p l. canonical p \<and> get_protocol overlay p = Some l
              \<and> \<not> (\<exists>k r. fetch l = Some k \<and> kn_protocol k = p \<and> resolve_kind_extends fetch ?t k = Inr r))
       | Inr (m', changed) \<Rightarrow>
           m' = m\<lparr>rm_kinds := ?t\<rparr>
         \<and> set changed = {p. canonical p \<and> (\<exists>l. get_protocol overlay p = Some l \<and> get_protocol (rm_kinds m) p \<noteq> Some l)}
         \<and> (\<forall>p l. canonical p \<longrightarrow> get_protocol overlay p = Some l \<longrightarrow>
              (\<exists>k r. fetch l = Some k \<and> kn_protocol k = p \<and> resolve_kind_extends fetch ?t k = Inr r))"
  proof (cases "overlay_candidate fetch ?xs (rm_kinds m)")
    case (Inl e)
    from overlay_candidate_Inl[OF this] show ?thesis unfolding mem using Inl by (auto simp: apply_kinds_tree_overlay_def)
  next
    case (Inr r)
    obtain cand ks where r: "r = (cand, ks)" by fastforce
    have cand: "cand = ?t" "map (\<lambda>(p, l, k). (p, l)) ks = ?xs" "\<forall>(p, l, k)\<in>set ks. fetch l = Some k \<and> kn_protocol k = p"
      using overlay_candidate_Inr[of fetch ?xs "rm_kinds m" cand ks] Inr r by simp_all
    have set_xs: "set ?xs = (\<lambda>(p, l, k). (p, l)) ` set ks" using cand(2) by (metis list.set_map)
    have ks: "(\<exists>k. (p, l, k) \<in> set ks) \<longleftrightarrow> canonical p \<and> get_protocol overlay p = Some l" for p l
      using mem[of p l] unfolding set_xs by force
    have node: "fetch l = Some k" "kn_protocol k = p" if "(p, l, k) \<in> set ks" for p l k using cand(3) that by auto
    show ?thesis
    proof (cases "overlay_check fetch cand ks")
      case (Inl e)
      from overlay_check_Inl[OF this] obtain p l k where
        k: "(p, l, k) \<in> set ks" "\<forall>r. resolve_kind_extends fetch ?t k \<noteq> Inr r" unfolding cand(1) by blast
      have "canonical p \<and> get_protocol overlay p = Some l" using k(1) ks by blast
      moreover have "\<not> (\<exists>k r. fetch l = Some k \<and> kn_protocol k = p \<and> resolve_kind_extends fetch ?t k = Inr r)"
        using k node[OF k(1)] by auto
      ultimately show ?thesis using Inr r Inl by (auto simp: apply_kinds_tree_overlay_def)
    next
      case check: (Inr u)
      have "\<exists>k r. fetch l = Some k \<and> kn_protocol k = p \<and> resolve_kind_extends fetch ?t k = Inr r"
        if "canonical p" "get_protocol overlay p = Some l" for p l
      proof -
        from that ks obtain k where "(p, l, k) \<in> set ks" by blast
        with node overlay_check_Inr[OF check] show ?thesis unfolding cand(1) by blast
      qed
      then show ?thesis
        using Inr r check overlay_commit_tree[of ks "rm_kinds m"] overlay_changed[OF assms cand(2), of "rm_kinds m"]
        unfolding cand(2) by (auto simp: apply_kinds_tree_overlay_def split: prod.split)
    qed
  qed
qed

definition empty_manifest :: runtime_manifest where
  "empty_manifest = \<lparr>rm_acl = None, rm_acls = [], rm_protocol = [], rm_kinds = [], rm_entities = [],
     rm_i18n = [], rm_grp = [], rm_config = []\<rparr>"

definition room_manifest :: runtime_manifest where
  "room_manifest = empty_manifest\<lparr>rm_kinds := [(''ma'', Branch [(''room'', Leaf ''bafyRoom'')])]\<rparr>"

theorem overlay_spec_witness:
  "\<exists>m' changed. apply_kinds_tree_overlay sample_fetch sample_kinds room_manifest = Inr (m', changed)
     \<and> get_protocol (rm_kinds m') ''ma/genesis'' = Some ''bafyDerived'' \<and> get_protocol (rm_kinds m') ''ma/room'' = Some ''bafyRoom''"
proof -
  have iter: "iter_protocols sample_kinds = [(''/ma/actor'', ''bafyBase''), (''/ma/genesis'', ''bafyDerived'')]"
    by (simp add: iter_protocols_def protocol_ids_def sample_kinds_def List.map_filter_def path_defs)
  have "\<exists>m' changed. apply_kinds_tree_overlay sample_fetch sample_kinds room_manifest = Inr (m', changed)"
    by (simp add: apply_kinds_tree_overlay_def iter sample_fetch_def sample_base_def sample_derived_def
        resolve_kind_extends_def MAX_DEPTH_def resolve_loop.simps room_manifest_def empty_manifest_def insert_protocol_def
        path_defs merge_kind_over_base_def less_char_def split: prod.splits)
  then obtain m' changed where run: "apply_kinds_tree_overlay sample_fetch sample_kinds room_manifest = Inr (m', changed)"
    by blast
  have "overlaid sample_kinds (rm_kinds room_manifest) (segments ''ma/genesis'') = Some ''bafyDerived''"
    "overlaid sample_kinds (rm_kinds room_manifest) (segments ''ma/room'') = Some ''bafyRoom''"
    by (simp_all add: overlaid_def sample_kinds_def room_manifest_def path_defs)
  with overlay_spec[OF sample_kinds_ok, of room_manifest sample_fetch] run show ?thesis by auto
qed

end
