(* ===== verification/Manifest.thy ===== *)
theory Manifest
  imports Kinds
begin

text \<open>
  The serialised manifest writer (\<open>src/manifest.rs\<close>).  \<open>CachedState\<close> is the record \<open>writer\<close>
  (with the root CID mirrored into the shared statistics); every operation runs under the
  writer's mutex, so it is one function from the world of the Kubo node and the writer to the
  next world, writer and result.  The contract of such a cell, under interference by other users of
  the node, is the locale \<open>doc_cell\<close>.
\<close>

section \<open>Model\<close>

record writer =
  mw_cid :: cid
  mw_manifest :: "runtime_manifest option"
  mw_root_cid :: "cid option"

datatype writer_error =
    WFetch
  | WMutation string
  | WPut
  | WNoEntity string
  | WEntityFetch
  | WEntityPut

definition writer_new :: "cid \<Rightarrow> cid option \<Rightarrow> writer" where
  "writer_new initial_cid root = \<lparr>mw_cid = initial_cid, mw_manifest = None, mw_root_cid = root\<rparr>"

text \<open>A failing \<open>pin_update\<close> is only logged.\<close>

definition publish_manifest_update ::
  "'w kubo \<Rightarrow> cid \<Rightarrow> runtime_manifest \<Rightarrow> 'w \<Rightarrow> writer \<Rightarrow> 'w \<times> writer \<times> (writer_error + cid)" where
  "publish_manifest_update K old_cid manifest w s =
     (case dag_put_manifest K w manifest of
        (w1, None) \<Rightarrow> (w1, s, Inl WPut)
      | (w1, Some new_cid) \<Rightarrow>
          (let (w2, pinned) = pin_update K w1 old_cid new_cid
           in (w2, s\<lparr>mw_cid := new_cid, mw_manifest := Some manifest, mw_root_cid := Some new_cid\<rparr>,
               Inr new_cid)))"

text \<open>\<open>take()\<close> empties the cache; it is filled again by a publish.\<close>

definition fetch_or_cached ::
  "'w kubo \<Rightarrow> 'w \<Rightarrow> writer \<Rightarrow> writer \<times> runtime_manifest option" where
  "fetch_or_cached K w s =
     (case mw_manifest s of
        Some m \<Rightarrow> (s\<lparr>mw_manifest := None\<rparr>, Some m)
      | None \<Rightarrow> (s, dag_get_manifest K w (mw_cid s)))"

definition mutate_async ::
  "'w kubo \<Rightarrow> ('w \<Rightarrow> runtime_manifest \<Rightarrow> string + runtime_manifest \<times> 't) \<Rightarrow> 'w \<Rightarrow> writer
     \<Rightarrow> 'w \<times> writer \<times> (writer_error + cid \<times> 't)" where
  "mutate_async K f w s =
     (let old_cid = mw_cid s in
      case fetch_or_cached K w s of
        (s1, None) \<Rightarrow> (w, s1, Inl WFetch)
      | (s1, Some manifest) \<Rightarrow>
          (case f w manifest of
             Inl e \<Rightarrow> (w, s1, Inl (WMutation e))
           | Inr (manifest', value) \<Rightarrow>
               (case publish_manifest_update K old_cid manifest' w s1 of
                  (w2, s2, Inl e) \<Rightarrow> (w2, s2, Inl e)
                | (w2, s2, Inr new_cid) \<Rightarrow> (w2, s2, Inr (new_cid, value)))))"

definition mutate ::
  "'w kubo \<Rightarrow> (runtime_manifest \<Rightarrow> string + runtime_manifest) \<Rightarrow> 'w \<Rightarrow> writer
     \<Rightarrow> 'w \<times> writer \<times> (writer_error + cid)" where
  "mutate K f w s =
     (let old_cid = mw_cid s in
      case fetch_or_cached K w s of
        (s1, None) \<Rightarrow> (w, s1, Inl WFetch)
      | (s1, Some manifest) \<Rightarrow>
          (case f manifest of
             Inl e \<Rightarrow> (w, s1, Inl (WMutation e))
           | Inr manifest' \<Rightarrow> publish_manifest_update K old_cid manifest' w s1))"

text \<open>\<open>entity_node\<close> copies the state under the lock and reads the network after releasing it.\<close>

definition writer_entity_node :: "'w kubo \<Rightarrow> string \<Rightarrow> 'w \<Rightarrow> writer \<Rightarrow> writer_error + entity_node" where
  "writer_entity_node K fragment w s =
     (case (case mw_manifest s of Some m \<Rightarrow> Some m | None \<Rightarrow> dag_get_manifest K w (mw_cid s)) of
        None \<Rightarrow> Inl WFetch
      | Some manifest \<Rightarrow>
          (case map_of (rm_entities manifest) fragment of
             None \<Rightarrow> Inl (WNoEntity fragment)
           | Some link \<Rightarrow>
               (case dag_get_entity K w link of None \<Rightarrow> Inl WEntityFetch | Some e \<Rightarrow> Inr e)))"

definition update_entity_node ::
  "'w kubo \<Rightarrow> string \<Rightarrow> (entity_node \<Rightarrow> entity_node \<times> bool) \<Rightarrow> 'w \<Rightarrow> writer
     \<Rightarrow> 'w \<times> writer \<times> (writer_error + cid)" where
  "update_entity_node K fragment f w s =
     (let old_cid = mw_cid s in
      case fetch_or_cached K w s of
        (s1, None) \<Rightarrow> (w, s1, Inl WFetch)
      | (s1, Some manifest) \<Rightarrow>
          (case map_of (rm_entities manifest) fragment of
             None \<Rightarrow> (w, s1, Inl (WNoEntity fragment))
           | Some link \<Rightarrow>
               (case dag_get_entity K w link of
                  None \<Rightarrow> (w, s1, Inl WEntityFetch)
                | Some node \<Rightarrow>
                    (let (node', changed) = f node in
                     if \<not> changed then (w, s1\<lparr>mw_manifest := Some manifest\<rparr>, Inr old_cid)
                     else (case dag_put_entity K w node' of
                             (w1, None) \<Rightarrow> (w1, s1, Inl WEntityPut)
                           | (w1, Some entity_cid) \<Rightarrow>
                               publish_manifest_update K old_cid
                                 (manifest\<lparr>rm_entities :=
                                    AList.update fragment entity_cid (rm_entities manifest)\<rparr>)
                                 w1 s1)))))"

definition set_entity_state where
  "set_entity_state K fragment state_cid =
     update_entity_node K fragment (\<lambda>node. (node\<lparr>en_state := Some state_cid\<rparr>, True))"

definition complete_reload_fields :: "cid option \<Rightarrow> entity_node \<Rightarrow> entity_node" where
  "complete_reload_fields state_cid node =
     (case state_cid of None \<Rightarrow> node | Some c \<Rightarrow> node\<lparr>en_state := Some c\<rparr>)
       \<lparr>en_initialised := True, en_reload_error := None\<rparr>"

definition complete_entity_reload where
  "complete_entity_reload K fragment state_cid =
     update_entity_node K fragment (\<lambda>node. (complete_reload_fields state_cid node, True))"

definition set_entity_behaviour where
  "set_entity_behaviour K fragment behaviour_cid =
     update_entity_node K fragment
       (\<lambda>node. (node\<lparr>en_behaviour := behaviour_cid, en_initialised := True\<rparr>, True))"

definition reload_error_fields :: "string option \<Rightarrow> entity_node \<Rightarrow> entity_node \<times> bool" where
  "reload_error_fields reason node =
     (if en_reload_error node = reason then (node, False)
      else (node\<lparr>en_reload_error := reason\<rparr>, True))"

definition set_entity_reload_error where
  "set_entity_reload_error K fragment reason =
     update_entity_node K fragment (reload_error_fields reason)"

definition insert_entry :: "string \<Rightarrow> cid \<Rightarrow> runtime_manifest \<Rightarrow> string + runtime_manifest" where
  "insert_entry fragment entity_cid m =
     Inr (m\<lparr>rm_entities := AList.update fragment entity_cid (rm_entities m)\<rparr>)"

definition insert_entity ::
  "'w kubo \<Rightarrow> string \<Rightarrow> entity_node \<Rightarrow> 'w \<Rightarrow> writer \<Rightarrow> 'w \<times> writer \<times> (writer_error + unit)" where
  "insert_entity K fragment node w s =
     (case dag_put_entity K w node of
        (w1, None) \<Rightarrow> (w1, s, Inl WEntityPut)
      | (w1, Some entity_cid) \<Rightarrow>
          (case mutate K (insert_entry fragment entity_cid) w1 s of
             (w2, s2, Inl e) \<Rightarrow> (w2, s2, Inl e)
           | (w2, s2, Inr c) \<Rightarrow> (w2, s2, Inr ())))"

text \<open>The writer's two kinds of critical section, as one operation on world and writer.\<close>

datatype writer_op =
    OpMutate "runtime_manifest \<Rightarrow> string + runtime_manifest"
  | OpEntity string "entity_node \<Rightarrow> entity_node \<times> bool"

fun writer_exec :: "'w kubo \<Rightarrow> writer_op \<Rightarrow> 'w \<times> writer \<Rightarrow> ('w \<times> writer) \<times> (writer_error + cid)" where
  "writer_exec K (OpMutate f) (w, s) = (let (w', s', r) = mutate K f w s in ((w', s'), r))"
| "writer_exec K (OpEntity fragment f) (w, s) =
     (let (w', s', r) = update_entity_node K fragment f w s in ((w', s'), r))"

section \<open>The contract of a published cell\<close>

text \<open>
  A trace of a shared cell: operations of its clients with their results, interleaved with
  steps of the environment.
\<close>

inductive cell_trace ::
  "('f \<Rightarrow> 's \<Rightarrow> 's \<times> ('e + 'r)) \<Rightarrow> ('s \<Rightarrow> 's \<Rightarrow> bool) \<Rightarrow> 's \<Rightarrow> ('f \<times> ('e + 'r)) list \<Rightarrow> 's \<Rightarrow> bool"
  for exec :: "'f \<Rightarrow> 's \<Rightarrow> 's \<times> ('e + 'r)" and env :: "'s \<Rightarrow> 's \<Rightarrow> bool" and s :: 's where
  start: "cell_trace exec env s [] s"
| other: "cell_trace exec env s tr s1 \<Longrightarrow> env s1 s2 \<Longrightarrow> cell_trace exec env s tr s2"
| operation: "cell_trace exec env s tr s1 \<Longrightarrow> exec f s1 = (s2, r) \<Longrightarrow>
     cell_trace exec env s (tr @ [(f, r)]) s2"

locale doc_cell =
  fixes exec :: "'f \<Rightarrow> 's \<Rightarrow> 's \<times> ('e + 'r)"
    and env :: "'s \<Rightarrow> 's \<Rightarrow> bool"
    and read :: "'s \<Rightarrow> 'd option"
    and inv :: "'s \<Rightarrow> bool"
    and eff :: "'f \<Rightarrow> 'd \<Rightarrow> 'd \<Rightarrow> bool"
  assumes inv_exec: "inv s \<Longrightarrow> exec f s = (s', r) \<Longrightarrow> inv s'"
    and inv_env: "inv s \<Longrightarrow> env s s' \<Longrightarrow> inv s'"
    and exec_ok: "inv s \<Longrightarrow> exec f s = (s', Inr c) \<Longrightarrow>
          \<exists>d d'. read s = Some d \<and> eff f d d' \<and> read s' = Some d'"
    and exec_err: "inv s \<Longrightarrow> exec f s = (s', Inl e) \<Longrightarrow> read s = Some d \<Longrightarrow> read s' = Some d"
    and read_env: "inv s \<Longrightarrow> env s s' \<Longrightarrow> read s = Some d \<Longrightarrow> read s' = Some d"
begin

lemma trace_inv: "cell_trace exec env s tr s' \<Longrightarrow> inv s \<Longrightarrow> inv s'"
  by (induction rule: cell_trace.induct) (auto intro: inv_exec inv_env)

text \<open>Whatever all operations of a trace preserve holds of the document at its end.\<close>

lemma trace_preserves:
  "cell_trace exec env s tr s' \<Longrightarrow> inv s \<Longrightarrow> read s = Some d \<Longrightarrow> Q d \<Longrightarrow>
     (\<forall>(f, r)\<in>set tr. \<forall>d d'. eff f d d' \<longrightarrow> Q d \<longrightarrow> Q d') \<Longrightarrow> \<exists>d'. read s' = Some d' \<and> Q d'"
proof (induction rule: cell_trace.induct)
  case (other tr s1 s2)
  then show ?case using read_env trace_inv by meson
next
  case (operation tr s1 f s2 r)
  then obtain d1 where d1: "read s1 = Some d1" "Q d1" by auto
  have inv1: "inv s1" using operation trace_inv by blast
  show ?case
  proof (cases r)
    case (Inl e)
    with exec_err[OF inv1, of f s2 e d1] operation(2) d1 show ?thesis by blast
  next
    case (Inr c)
    with exec_ok[OF inv1, of f s2 c] operation(2) d1
    obtain d' where d': "eff f d1 d'" "read s2 = Some d'" by auto
    with operation.prems(4) d1(2) have "Q d'" by fastforce
    with d' show ?thesis by blast
  qed
qed auto

lemma trace_split:
  "cell_trace exec env s tr s' \<Longrightarrow> tr = tr1 @ (f, r) # tr2 \<Longrightarrow>
     \<exists>s1 s2. cell_trace exec env s tr1 s1 \<and> exec f s1 = (s2, r) \<and> cell_trace exec env s2 tr2 s'"
proof (induction arbitrary: tr2 rule: cell_trace.induct)
  case (other tr s1 s2)
  from other.IH[OF other.prems] obtain sa sb where
    "cell_trace exec env s tr1 sa" "exec f sa = (sb, r)" "cell_trace exec env sb tr2 s1" by blast
  with other.hyps show ?case by (blast intro: cell_trace.other)
next
  case (operation tr s1 g s2 r')
  show ?case
  proof (cases tr2 rule: rev_cases)
    case Nil
    with operation show ?thesis using cell_trace.start by fastforce
  next
    case (snoc tr2' x)
    with operation.prems have "tr = tr1 @ (f, r) # tr2'" "x = (g, r')" by auto
    from operation.IH[OF \<open>tr = tr1 @ (f, r) # tr2'\<close>] obtain sa sb where
      "cell_trace exec env s tr1 sa" "exec f sa = (sb, r)" "cell_trace exec env sb tr2' s1" by blast
    with cell_trace.operation[of exec env sb tr2' s1 g s2 r'] operation.hyps(2) snoc \<open>x = (g, r')\<close>
    show ?thesis by blast
  qed
qed simp

text \<open>
  No lost update: what a successful operation establishes and all later operations preserve
  holds of the document at the end.
\<close>

lemma no_lost:
  assumes "cell_trace exec env s (tr1 @ (f, Inr c) # tr2) s'" and "inv s"
    and est: "\<And>d d'. eff f d d' \<Longrightarrow> Q d'"
    and keep: "\<forall>(g, r)\<in>set tr2. \<forall>d d'. eff g d d' \<longrightarrow> Q d \<longrightarrow> Q d'"
  shows "\<exists>d. read s' = Some d \<and> Q d"
proof -
  obtain s1 s2 where s: "cell_trace exec env s tr1 s1" "exec f s1 = (s2, Inr c)"
    "cell_trace exec env s2 tr2 s'" using trace_split[OF assms(1) refl] by blast
  have "inv s1" using trace_inv[OF s(1) assms(2)] .
  with s(2) obtain d where "read s2 = Some d" "Q d" using exec_ok est by blast
  with trace_preserves[OF s(3), of d Q] inv_exec[OF \<open>inv s1\<close> s(2)] keep show ?thesis by blast
qed

end

section \<open>The writer is such a cell\<close>

text \<open>The manifest the writer stands for, and the invariant that ties cache, CID and statistics.\<close>

definition current :: "'w kubo \<Rightarrow> 'w \<times> writer \<Rightarrow> runtime_manifest option" where
  "current K ws = dag_get_manifest K (fst ws) (mw_cid (snd ws))"

definition coherent :: "'w kubo \<Rightarrow> 'w \<times> writer \<Rightarrow> bool" where
  "coherent K ws =
     (kubo_ok K \<and> mw_root_cid (snd ws) = Some (mw_cid (snd ws)) \<and>
      (\<forall>m. mw_manifest (snd ws) = Some m \<longrightarrow> current K ws = Some m))"

text \<open>Other users of the node only add documents; nobody else touches the writer.\<close>

definition writer_env :: "'w kubo \<Rightarrow> 'w \<times> writer \<Rightarrow> 'w \<times> writer \<Rightarrow> bool" where
  "writer_env K ws ws' = (node_keeps K (fst ws) (fst ws') \<and> snd ws' = snd ws)"

fun writer_effect :: "writer_op \<Rightarrow> runtime_manifest \<Rightarrow> runtime_manifest \<Rightarrow> bool" where
  "writer_effect (OpMutate f) m m' = (f m = Inr m')"
| "writer_effect (OpEntity fragment f) m m' =
     (m' = m \<or> (\<exists>c. m' = m\<lparr>rm_entities := AList.update fragment c (rm_entities m)\<rparr>))"

lemma fetch_or_cached_coherent:
  assumes "coherent K (w, s)" and "fetch_or_cached K w s = (s1, r)"
  shows "r = current K (w, s)" and "mw_cid s1 = mw_cid s" and "mw_root_cid s1 = mw_root_cid s"
    and "mw_manifest s1 = None"
  using assms by (auto simp: fetch_or_cached_def coherent_def current_def split: option.splits)

lemma publish_ok:
  assumes "kubo_ok K" and "publish_manifest_update K old m w s = (w', s', Inr c)"
  shows "current K (w', s') = Some m" and "coherent K (w', s')" and "mw_cid s' = c"
    and "node_keeps K w w'"
proof -
  obtain w1 b where p: "dag_put_manifest K w m = (w1, Some c)" "pin_update K w1 old c = (w', b)"
    "s' = s\<lparr>mw_cid := c, mw_manifest := Some m, mw_root_cid := Some c\<rparr>"
    using assms(2) by (auto simp: publish_manifest_update_def split: prod.splits option.splits)
  have "dag_get_manifest K w' c = Some m"
    using kubo_okD(2,5)[OF assms(1)] p node_keeps_manifest by metis
  then show "current K (w', s') = Some m" "coherent K (w', s')" "mw_cid s' = c"
    using assms(1) p(3) by (simp_all add: current_def coherent_def)
  show "node_keeps K w w'" using kubo_okD(1,5)[OF assms(1)] p node_keeps_trans by metis
qed

lemma publish_err:
  assumes "kubo_ok K" and "publish_manifest_update K old m w s = (w', s', Inl e)"
  shows "s' = s" and "node_keeps K w w'" and "e = WPut"
  using assms(2) kubo_okD(1)[OF assms(1)]
  by (auto simp: publish_manifest_update_def split: prod.splits option.splits)

lemma keeps_current:
  "node_keeps K w w' \<Longrightarrow> mw_cid s' = mw_cid s \<Longrightarrow> current K (w, s) = Some m \<Longrightarrow> current K (w', s') = Some m"
  by (simp add: current_def node_keeps_manifest)

lemma keeps_coherent:
  assumes "coherent K (w, s)" "node_keeps K w w'" "mw_cid s' = mw_cid s" "mw_root_cid s' = mw_root_cid s"
    and "mw_manifest s' = mw_manifest s \<or> mw_manifest s' = None"
  shows "coherent K (w', s')"
  using assms keeps_current[OF assms(2,3)] by (auto simp: coherent_def)

lemma mutate_ok:
  assumes "coherent K (w, s)" and "mutate K f w s = (w', s', Inr c)"
  shows "\<exists>m m'. current K (w, s) = Some m \<and> f m = Inr m' \<and> current K (w', s') = Some m'
     \<and> coherent K (w', s') \<and> mw_cid s' = c \<and> node_keeps K w w'"
proof -
  obtain s1 m m' where f: "fetch_or_cached K w s = (s1, Some m)" "f m = Inr m'"
    "publish_manifest_update K (mw_cid s) m' w s1 = (w', s', Inr c)"
    using assms(2) by (auto simp: mutate_def Let_def split: prod.splits option.splits sum.splits)
  have "kubo_ok K" using assms(1) by (simp add: coherent_def)
  moreover have "current K (w, s) = Some m" using fetch_or_cached_coherent(1)[OF assms(1) f(1)] by simp
  ultimately show ?thesis using publish_ok[OF _ f(3)] f(2)
    by (intro exI[of _ m] exI[of _ m']) blast
qed

lemma mutate_err:
  assumes "coherent K (w, s)" and "mutate K f w s = (w', s', Inl e)"
  shows "mw_cid s' = mw_cid s \<and> mw_root_cid s' = mw_root_cid s \<and> node_keeps K w w' \<and> coherent K (w', s')"
proof -
  obtain s1 r where f: "fetch_or_cached K w s = (s1, r)" by fastforce
  note fc = fetch_or_cached_coherent[OF assms(1) f]
  have ok: "kubo_ok K" using assms(1) by (simp add: coherent_def)
  have "s' = s1 \<and> node_keeps K w w'"
    using assms(2) f publish_err[OF ok, of "mw_cid s" _ w s1 w' s']
    by (auto simp: mutate_def Let_def split: prod.splits option.splits sum.splits)
  with fc keeps_coherent[OF assms(1)] show ?thesis by auto
qed

lemma update_entity_ok:
  assumes "coherent K (w, s)" and "update_entity_node K fragment f w s = (w', s', Inr c)"
  shows "\<exists>m link node. current K (w, s) = Some m \<and> map_of (rm_entities m) fragment = Some link
     \<and> dag_get_entity K w link = Some node \<and> coherent K (w', s') \<and> mw_cid s' = c \<and> node_keeps K w w'
     \<and> (if snd (f node)
        then \<exists>ec. current K (w', s') = Some (m\<lparr>rm_entities := AList.update fragment ec (rm_entities m)\<rparr>)
                  \<and> dag_get_entity K w' ec = Some (fst (f node))
        else w' = w \<and> mw_cid s' = mw_cid s \<and> current K (w', s') = Some m)"
proof -
  obtain s1 m link node where f: "fetch_or_cached K w s = (s1, Some m)"
    "map_of (rm_entities m) fragment = Some link" "dag_get_entity K w link = Some node"
    using assms(2) by (auto simp: update_entity_node_def Let_def split: prod.splits option.splits)
  note fc = fetch_or_cached_coherent[OF assms(1) f(1)]
  have cur: "current K (w, s) = Some m" using fc(1) by simp
  have ok: "kubo_ok K" using assms(1) by (simp add: coherent_def)
  obtain node' b where fn: "f node = (node', b)" by fastforce
  show ?thesis
  proof (cases b)
    case False
    then have s': "w' = w" "s' = s1\<lparr>mw_manifest := Some m\<rparr>" "c = mw_cid s"
      using assms(2) f fn by (simp_all add: update_entity_node_def)
    then have "current K (w', s') = Some m" using fc cur by (simp add: current_def)
    moreover have "coherent K (w', s')"
      using assms(1) s' fc cur by (simp add: coherent_def current_def)
    ultimately show ?thesis using f fc(2) s' fn False cur
      by (intro exI[of _ m] exI[of _ link] exI[of _ node]) simp
  next
    case True
    then obtain w1 ec where p: "dag_put_entity K w node' = (w1, Some ec)"
      "publish_manifest_update K (mw_cid s)
         (m\<lparr>rm_entities := AList.update fragment ec (rm_entities m)\<rparr>) w1 s1 = (w', s', Inr c)"
      using assms(2) f fn by (auto simp: update_entity_node_def split: prod.splits option.splits)
    note pub = publish_ok[OF ok p(2)]
    have got: "dag_get_entity K w' ec = Some node'"
      using node_keeps_entity[OF pub(4)] kubo_okD(4)[OF ok p(1)] by blast
    have keeps: "node_keeps K w w'" using kubo_okD(3)[OF ok p(1)] pub(4) by (rule node_keeps_trans)
    have res: "if snd (f node) then \<exists>ec. current K (w', s') =
          Some (m\<lparr>rm_entities := AList.update fragment ec (rm_entities m)\<rparr>)
          \<and> dag_get_entity K w' ec = Some (fst (f node))
        else w' = w \<and> mw_cid s' = mw_cid s \<and> current K (w', s') = Some m"
      using fn True pub(1) got by (simp, intro exI[of _ ec], simp)
    show ?thesis
      by (intro exI conjI) (rule cur f(2) f(3) pub(2) pub(3) keeps res)+
  qed
qed

lemma update_entity_err:
  assumes "coherent K (w, s)" and "update_entity_node K fragment f w s = (w', s', Inl e)"
  shows "mw_cid s' = mw_cid s \<and> mw_root_cid s' = mw_root_cid s \<and> node_keeps K w w' \<and> coherent K (w', s')"
proof -
  obtain s1 r where f: "fetch_or_cached K w s = (s1, r)" by fastforce
  note fc = fetch_or_cached_coherent[OF assms(1) f]
  have ok: "kubo_ok K" using assms(1) by (simp add: coherent_def)
  have put: "node_keeps K w w1" if "dag_put_entity K w node = (w1, x)" for node w1 x
    using kubo_okD(3)[OF ok that] .
  have pub: "s' = s1 \<and> node_keeps K w1 w'"
    if "publish_manifest_update K c m w1 s1 = (w', s', Inl e)" for c m w1
    using publish_err[OF ok that] by blast
  have "s' = s1 \<and> node_keeps K w w'"
    using assms(2) f put
    by (auto simp: update_entity_node_def Let_def dest!: pub intro: node_keeps_trans
        split: prod.splits option.splits if_splits)
  with fc keeps_coherent[OF assms(1)] show ?thesis by auto
qed

lemma writer_exec_ok:
  assumes "coherent K ws" and "writer_exec K f ws = (ws', Inr c)"
  shows "coherent K ws' \<and> (\<exists>d d'. current K ws = Some d \<and> writer_effect f d d' \<and> current K ws' = Some d')"
proof (cases ws; cases ws'; cases f)
  fix w s w' s' g assume *: "ws = (w, s)" "ws' = (w', s')" "f = OpMutate g"
  then have "mutate K g w s = (w', s', Inr c)" using assms(2) by (simp split: prod.splits)
  with mutate_ok[of K w s g w' s' c] assms(1) * show ?thesis by auto
next
  fix w s w' s' fragment g assume *: "ws = (w, s)" "ws' = (w', s')" "f = OpEntity fragment g"
  then have "update_entity_node K fragment g w s = (w', s', Inr c)" using assms(2) by (simp split: prod.splits)
  with update_entity_ok[of K w s fragment g w' s' c] assms(1) * show ?thesis
    by (auto split: if_splits)
qed

lemma writer_exec_err:
  assumes "coherent K ws" and "writer_exec K f ws = (ws', Inl e)"
  shows "coherent K ws' \<and> mw_cid (snd ws') = mw_cid (snd ws) \<and> node_keeps K (fst ws) (fst ws')"
proof (cases ws; cases ws'; cases f)
  fix w s w' s' g assume *: "ws = (w, s)" "ws' = (w', s')" "f = OpMutate g"
  then have "mutate K g w s = (w', s', Inl e)" using assms(2) by (simp split: prod.splits)
  with mutate_err[of K w s g w' s' e] assms(1) * show ?thesis by auto
next
  fix w s w' s' fragment g assume *: "ws = (w, s)" "ws' = (w', s')" "f = OpEntity fragment g"
  then have "update_entity_node K fragment g w s = (w', s', Inl e)" using assms(2) by (simp split: prod.splits)
  with update_entity_err[of K w s fragment g w' s' e] assms(1) * show ?thesis by auto
qed

interpretation mw: doc_cell "writer_exec K" "writer_env K" "current K" "coherent K" writer_effect
  for K :: "'w kubo"
proof unfold_locales
  fix ws :: "'w \<times> writer" and ws' f r
  assume inv: "coherent K ws"
  show "coherent K ws'" if "writer_exec K f ws = (ws', r)"
    using that inv writer_exec_ok writer_exec_err by (cases r) blast+
  show "coherent K ws'" if "writer_env K ws ws'"
    using that inv keeps_coherent[of K "fst ws" "snd ws" "fst ws'" "snd ws'"]
    by (cases ws') (simp add: writer_env_def)
  show "\<exists>d d'. current K ws = Some d \<and> writer_effect f d d' \<and> current K ws' = Some d'"
    if "writer_exec K f ws = (ws', Inr c)" for c
    using that inv writer_exec_ok by blast
  show "current K ws' = Some d" if "writer_exec K f ws = (ws', Inl e)" "current K ws = Some d" for d e
    using writer_exec_err[OF inv that(1)] that(2) by (auto simp: current_def intro: node_keeps_manifest)
  show "current K ws' = Some d" if "writer_env K ws ws'" "current K ws = Some d" for d
    using that by (auto simp: writer_env_def current_def intro: node_keeps_manifest)
qed

lemma entity_node_current:
  assumes "coherent K (w, s)" and "current K (w, s) = Some m"
  shows "writer_entity_node K frag w s =
     (case map_of (rm_entities m) frag of
        None \<Rightarrow> Inl (WNoEntity frag)
      | Some link \<Rightarrow> (case dag_get_entity K w link of None \<Rightarrow> Inl WEntityFetch | Some e \<Rightarrow> Inr e))"
  using assms by (auto simp: writer_entity_node_def coherent_def current_def split: option.splits)

lemma entity_node_kept:
  assumes "coherent K (w, s)" and "mw_cid s' = mw_cid s" and "node_keeps K w w'" and "coherent K (w', s')"
    and "writer_entity_node K frag w s = Inr e"
  shows "writer_entity_node K frag w' s' = Inr e"
proof -
  obtain m where m: "current K (w, s) = Some m"
    using assms(1,5) by (cases "current K (w, s)") (auto simp: writer_entity_node_def coherent_def current_def split: option.splits)
  have m': "current K (w', s') = Some m" using keeps_current[OF assms(3,2) m] .
  show ?thesis
    using assms(5) entity_node_current[OF assms(1) m] entity_node_current[OF assms(4) m'] node_keeps_entity[OF assms(3)]
    by (auto split: option.splits)
qed

lemma entity_node_update:
  assumes "coherent K (w, s)" and "update_entity_node K frag f w s = (w', s', Inr c)"
  shows "\<exists>node. writer_entity_node K frag w s = Inr node
      \<and> writer_entity_node K frag w' s' = Inr (if snd (f node) then fst (f node) else node)
      \<and> (\<forall>other e. other \<noteq> frag \<longrightarrow> writer_entity_node K other w s = Inr e \<longrightarrow> writer_entity_node K other w' s' = Inr e)"
proof -
  obtain m link node where u: "current K (w, s) = Some m" "map_of (rm_entities m) frag = Some link"
    "dag_get_entity K w link = Some node" "coherent K (w', s')" "node_keeps K w w'"
    "if snd (f node)
        then \<exists>ec. current K (w', s') = Some (m\<lparr>rm_entities := AList.update frag ec (rm_entities m)\<rparr>)
                  \<and> dag_get_entity K w' ec = Some (fst (f node))
        else w' = w \<and> mw_cid s' = mw_cid s \<and> current K (w', s') = Some m"
    using update_entity_ok[OF assms] by blast
  have pre: "writer_entity_node K frag w s = Inr node" using entity_node_current[OF assms(1) u(1)] u(2,3) by simp
  have old: "\<exists>l. map_of (rm_entities m) other = Some l \<and> dag_get_entity K w' l = Some e"
    if "writer_entity_node K other w s = Inr e" for other e
    using that entity_node_current[OF assms(1) u(1), of other] node_keeps_entity[OF u(5)]
    by (auto split: option.splits)
  show ?thesis
  proof (cases "snd (f node)")
    case True
    then obtain ec where ec: "current K (w', s') = Some (m\<lparr>rm_entities := AList.update frag ec (rm_entities m)\<rparr>)"
      "dag_get_entity K w' ec = Some (fst (f node))" using u(6) by auto
    show ?thesis
      using pre True ec entity_node_current[OF u(4) ec(1)] old
      by (intro exI[of _ node]) (fastforce simp: map_of_update)
  next
    case False
    then have "w' = w" "current K (w', s') = Some m" using u(6) by auto
    with pre False entity_node_current[OF u(4), of m] old show ?thesis
      by (intro exI[of _ node]) (fastforce simp: u(2,3))
  qed
qed

section \<open>Properties\<close>

definition sample_entity :: entity_node where
  "sample_entity = \<lparr>en_kind = ''/ma/actor'', en_behaviour = None, en_acl = ''room'', en_state = None,
     en_parent = None, en_label = None, en_attributes = [], en_init = None, en_initialised = False,
     en_reload_error = Some ''boom''\<rparr>"

definition sample_world :: "doc list" where
  "sample_world = [EntityDoc sample_entity,
     ManifestDoc (empty_manifest\<lparr>rm_entities := [(''fortune'', mem_cid 0)]\<rparr>)]"

definition sample_writer :: writer where
  "sample_writer = writer_new (mem_cid 1) (Some (mem_cid 1))"

lemma mem_cid_inj [simp]: "mem_cid i = mem_cid j \<longleftrightarrow> i = j"
  by (metis add_right_cancel mem_cid_length)

lemma mem_get_cid [simp]: "mem_get ds (mem_cid n) = (if n < length ds then Some (ds ! n) else None)"
  by (simp add: mem_get_def)

lemma sample_coherent: "coherent mem_kubo (sample_world, sample_writer)"
  by (simp add: coherent_def mem_kubo_ok sample_writer_def writer_new_def)

lemma mem_kubo_simps [simp]:
  "dag_get_manifest mem_kubo ds c = (case mem_get ds c of Some (ManifestDoc m) \<Rightarrow> Some m | _ \<Rightarrow> None)"
  "dag_put_manifest mem_kubo ds m = (ds @ [ManifestDoc m], Some (mem_cid (length ds)))"
  "dag_get_entity mem_kubo ds c = (case mem_get ds c of Some (EntityDoc e) \<Rightarrow> Some e | _ \<Rightarrow> None)"
  "dag_put_entity mem_kubo ds e = (ds @ [EntityDoc e], Some (mem_cid (length ds)))"
  "pin_update mem_kubo ds old new = (ds, True)"
  "dag_get_strings mem_kubo ds c = (case mem_get ds c of Some (StringsDoc ss) \<Rightarrow> Some ss | _ \<Rightarrow> None)"
  "dag_get_acl mem_kubo ds c = (case mem_get ds c of Some (AclDoc a) \<Rightarrow> Some a | _ \<Rightarrow> None)"
  "add_bytes_unpinned mem_kubo ds b = (ds @ [BytesDoc b], Some (mem_cid (length ds)))"
  "cat_bytes mem_kubo ds c = (case mem_get ds c of Some (BytesDoc b) \<Rightarrow> Some b | _ \<Rightarrow> None)"
  "dag_get_kind mem_kubo ds c = (case mem_get ds c of Some (KindDoc k) \<Rightarrow> Some k | _ \<Rightarrow> None)"
  by (simp_all add: mem_kubo_def mem_put_def)

lemmas writer_defs = mutate_def update_entity_node_def publish_manifest_update_def fetch_or_cached_def

text \<open>
  C9 (manifest). No update is lost: in every interleaving of the writer's operations with each other and
  with other users of the Kubo node, an entity insertion that was answered with success is in
  the published manifest at the end, unless a later operation changed that very entry.
\<close>

theorem no_lost_updates:
  assumes "coherent K ws"
    and "cell_trace (writer_exec K) (writer_env K) ws
           (tr1 @ (OpMutate (insert_entry fragment entity_cid), Inr c) # tr2) ws'"
    and "\<forall>(g, r)\<in>set tr2. \<forall>m m'. writer_effect g m m' \<longrightarrow>
           map_of (rm_entities m) fragment = Some entity_cid \<longrightarrow>
           map_of (rm_entities m') fragment = Some entity_cid"
  shows "\<exists>m. dag_get_manifest K (fst ws') (mw_cid (snd ws')) = Some m
             \<and> mw_root_cid (snd ws') = Some (mw_cid (snd ws'))
             \<and> map_of (rm_entities m) fragment = Some entity_cid"
proof -
  have "\<exists>m. current K ws' = Some m \<and> map_of (rm_entities m) fragment = Some entity_cid"
    using assms(3) by (intro mw.no_lost[OF assms(2,1)]) (auto simp: insert_entry_def map_of_update)
  moreover have "coherent K ws'" using mw.trace_inv[OF assms(2,1)] .
  ultimately show ?thesis by (auto simp: current_def coherent_def)
qed

theorem no_lost_updates_witness:
  "\<exists>ws' m. dag_get_manifest mem_kubo (fst ws') (mw_cid (snd ws')) = Some m
     \<and> map_of (rm_entities m) ''ping'' = Some ''bafyPing''
     \<and> cell_trace (writer_exec mem_kubo) (writer_env mem_kubo) (sample_world, sample_writer)
         [(OpMutate (insert_entry ''ping'' ''bafyPing''), Inr (mem_cid 2)),
          (OpMutate (insert_entry ''rms'' ''bafyRms''), Inr (mem_cid 3))] ws'"
proof -
  let ?op = "\<lambda>f c. OpMutate (insert_entry f c)"
  let ?s = "(sample_world, sample_writer)"
  obtain s1 where s1: "writer_exec mem_kubo (?op ''ping'' ''bafyPing'') ?s = (s1, Inr (mem_cid 2))"
    by (simp add: writer_defs sample_world_def sample_writer_def writer_new_def insert_entry_def)
  then obtain s2 where s2: "writer_exec mem_kubo (?op ''rms'' ''bafyRms'') s1 = (s2, Inr (mem_cid 3))"
    by (simp add: writer_defs sample_world_def sample_writer_def writer_new_def insert_entry_def)
       (auto simp: writer_defs insert_entry_def)
  let ?tr = "[(?op ''rms'' ''bafyRms'', Inr (mem_cid 3))]"
  have "cell_trace (writer_exec mem_kubo) (writer_env mem_kubo) ?s
          ([] @ (?op ''ping'' ''bafyPing'', Inr (mem_cid 2)) # ?tr) s2"
  proof -
    have "cell_trace (writer_exec mem_kubo) (writer_env mem_kubo) ?s
            ([] @ [(?op ''ping'' ''bafyPing'', Inr (mem_cid 2))]) s1"
      by (rule cell_trace.operation) (rule cell_trace.start, rule s1)
    then have "cell_trace (writer_exec mem_kubo) (writer_env mem_kubo) ?s
            (([] @ [(?op ''ping'' ''bafyPing'', Inr (mem_cid 2))]) @ ?tr) s2"
      by (rule cell_trace.operation) (rule s2)
    then show ?thesis by simp
  qed
  moreover from no_lost_updates[OF sample_coherent this]
  obtain m where "dag_get_manifest mem_kubo (fst s2) (mw_cid (snd s2)) = Some m"
    "map_of (rm_entities m) ''ping'' = Some ''bafyPing''"
    by (auto simp: insert_entry_def map_of_update simp del: mem_kubo_simps)
  ultimately show ?thesis
    by (intro exI[of _ s2] exI[of _ m]) (simp del: mem_kubo_simps)
qed

text \<open>
  A node update reads its own write: after a successful \<open>update_entity_node\<close> the entity
  document is the latest one with exactly the update applied, and every other entity reads as
  before.
\<close>

theorem entity_update_spec:
  assumes "coherent K (w, s)" and "update_entity_node K frag f w s = (w', s', Inr c)"
  shows "\<exists>node. writer_entity_node K frag w s = Inr node
      \<and> writer_entity_node K frag w' s' = Inr (if snd (f node) then fst (f node) else node)
      \<and> (\<forall>other e. other \<noteq> frag \<longrightarrow> writer_entity_node K other w s = Inr e \<longrightarrow> writer_entity_node K other w' s' = Inr e)"
  using entity_node_update[OF assms] .

theorem entity_update_spec_witness:
  "\<exists>w' s'. set_entity_reload_error mem_kubo ''fortune'' None sample_world sample_writer = (w', s', Inr (mem_cid 3))
     \<and> writer_entity_node mem_kubo ''fortune'' w' s' = Inr (sample_entity\<lparr>en_reload_error := None\<rparr>)"
proof -
  obtain w' s' where r: "update_entity_node mem_kubo ''fortune'' (reload_error_fields None) sample_world sample_writer
      = (w', s', Inr (mem_cid 3))"
    by (simp add: writer_defs sample_world_def sample_writer_def writer_new_def
        reload_error_fields_def sample_entity_def empty_manifest_def)
  have "writer_entity_node mem_kubo ''fortune'' sample_world sample_writer = Inr sample_entity"
    by (simp add: writer_entity_node_def sample_world_def sample_writer_def writer_new_def)
  with entity_update_spec[OF sample_coherent r] r show ?thesis
    by (auto simp: set_entity_reload_error_def reload_error_fields_def sample_entity_def)
qed

text \<open>
  C10 (manifest). A reload that finishes late does not undo what happened meanwhile: when the behaviour of
  an entity was set before the reload completes, whatever other users of the node stored in
  between, the entity has the new behaviour and the reload's state, is initialised and
  carries no reload error.
\<close>

theorem reload_keeps_behaviour:
  assumes "coherent K (w, s)"
    and "set_entity_behaviour K frag b w s = (w1, s1, Inr c1)"
    and "node_keeps K w1 w2"
    and "complete_entity_reload K frag (Some st) w2 s1 = (w3, s3, Inr c3)"
  shows "\<exists>node. writer_entity_node K frag w3 s3 = Inr node \<and> en_behaviour node = b
           \<and> en_state node = Some st \<and> en_initialised node \<and> en_reload_error node = None"
proof -
  have u1: "update_entity_node K frag (\<lambda>node. (node\<lparr>en_behaviour := b, en_initialised := True\<rparr>, True)) w s = (w1, s1, Inr c1)"
    using assms(2) by (simp add: set_entity_behaviour_def)
  have u2: "update_entity_node K frag (\<lambda>node. (complete_reload_fields (Some st) node, True)) w2 s1 = (w3, s3, Inr c3)"
    using assms(4) by (simp add: complete_entity_reload_def)
  have c1: "coherent K (w1, s1)" using update_entity_ok[OF assms(1) u1] by blast
  have c2: "coherent K (w2, s1)" using keeps_coherent[OF c1 assms(3)] by simp
  obtain n1 where n1: "writer_entity_node K frag w1 s1 = Inr (n1\<lparr>en_behaviour := b, en_initialised := True\<rparr>)"
    using entity_node_update[OF assms(1) u1] by auto
  obtain m where "current K (w1, s1) = Some m" using update_entity_ok[OF assms(1) u1] by (auto split: if_splits)
  with n1 entity_node_current[OF c1] entity_node_current[OF c2] keeps_current[OF assms(3)]
    node_keeps_entity[OF assms(3)]
  have "writer_entity_node K frag w2 s1 = Inr (n1\<lparr>en_behaviour := b, en_initialised := True\<rparr>)"
    by (auto split: option.splits)
  with entity_node_update[OF c2 u2] show ?thesis by (auto simp: complete_reload_fields_def)
qed

theorem reload_keeps_behaviour_witness:
  "\<exists>w1 s1 c1 w3 s3 c3 node.
     set_entity_behaviour mem_kubo ''fortune'' (Some ''bafyNew'') sample_world sample_writer = (w1, s1, Inr c1)
   \<and> complete_entity_reload mem_kubo ''fortune'' (Some ''bafyState'') w1 s1 = (w3, s3, Inr c3)
   \<and> writer_entity_node mem_kubo ''fortune'' w3 s3 = Inr node \<and> en_behaviour node = Some ''bafyNew''
   \<and> en_state node = Some ''bafyState''"
proof -
  obtain w1 s1 c1 where r1: "set_entity_behaviour mem_kubo ''fortune'' (Some ''bafyNew'') sample_world sample_writer = (w1, s1, Inr c1)"
    and s1: "w1 = sample_world @ [EntityDoc (sample_entity\<lparr>en_behaviour := Some ''bafyNew'', en_initialised := True\<rparr>),
                ManifestDoc (empty_manifest\<lparr>rm_entities := [(''fortune'', mem_cid 2)]\<rparr>)]"
      "s1 = \<lparr>mw_cid = mem_cid 3, mw_manifest = Some (empty_manifest\<lparr>rm_entities := [(''fortune'', mem_cid 2)]\<rparr>),
              mw_root_cid = Some (mem_cid 3)\<rparr>"
    by (simp add: set_entity_behaviour_def writer_defs sample_world_def sample_writer_def writer_new_def empty_manifest_def)
  obtain w3 s3 c3 where r3: "complete_entity_reload mem_kubo ''fortune'' (Some ''bafyState'') w1 s1 = (w3, s3, Inr c3)"
    unfolding s1 by (simp add: complete_entity_reload_def writer_defs sample_world_def nth_append)
  from reload_keeps_behaviour[OF sample_coherent r1 node_keeps_refl r3] r1 r3 show ?thesis by blast
qed

text \<open>
  A failed operation changes nothing that is visible: the root CID and its copy in the
  statistics stay, the published manifest reads as before, and the invariant is kept, so the
  next operation starts from the same manifest.
\<close>

theorem failed_operation_is_invisible:
  assumes "coherent K ws" and "writer_exec K op ws = (ws', Inl e)"
  shows "mw_cid (snd ws') = mw_cid (snd ws) \<and> mw_root_cid (snd ws') = mw_root_cid (snd ws)
     \<and> (\<forall>m. current K ws = Some m \<longrightarrow> current K ws' = Some m) \<and> coherent K ws'"
  using writer_exec_err[OF assms] mw.exec_err[OF assms] assms(1)
  by (simp add: coherent_def)

theorem failed_operation_is_invisible_witness:
  "mw_cid (snd (fst (writer_exec mem_kubo (OpEntity ''nosuch'' (\<lambda>n. (n, True))) (sample_world, sample_writer))))
     = mem_cid 1"
proof -
  obtain ws' where r: "writer_exec mem_kubo (OpEntity ''nosuch'' (\<lambda>n. (n, True))) (sample_world, sample_writer)
      = (ws', Inl (WNoEntity ''nosuch''))"
    by (simp add: writer_defs sample_world_def sample_writer_def writer_new_def)
  from failed_operation_is_invisible[OF sample_coherent r] r show ?thesis
    by (simp add: sample_writer_def writer_new_def)
qed

end
