(* ===== verification/Owners.thy ===== *)
theory Owners
  imports Acl
begin

text \<open>
  Runtime ownership: \<open>POST /claim\<close> (\<open>handle_claim\<close>, \<open>persist_owners_to_config\<close>,
  \<open>grant_owners_in_acl\<close> in \<open>src/status.rs\<close>) and the reconciliation of owners at start-up
  (\<open>resolve_and_seed_owners\<close> in \<open>src/boot.rs\<close>).  \<open>handle_claim\<close> takes and releases its locks
  several times, so besides the sequential function there is a step relation in which each
  critical section of a concurrent request is one step.
\<close>

section \<open>Granting owners\<close>

definition grant_owners_in_acl :: "acl_map \<Rightarrow> string list \<Rightarrow> acl_map" where
  "grant_owners_in_acl acl owners = fold (\<lambda>o'. AList.update o' (Allow {''*''})) owners acl"

lemma grant_owners_lookup:
  "hm_inv acl \<Longrightarrow>
     map_of (grant_owners_in_acl acl owners) k = (if k \<in> set owners then Some (Allow {''*''}) else map_of acl k)"
  unfolding grant_owners_in_acl_def by (rule hm.fold_ins [THEN conjunct2])

lemma grant_owners_inv: "hm_inv acl \<Longrightarrow> hm_inv (grant_owners_in_acl acl owners)"
  unfolding grant_owners_in_acl_def by (rule hm.fold_ins [THEN conjunct1])

section \<open>Start-up reconciliation\<close>

text \<open>The \<open>owners\<close> entry of \<open>config.extra\<close>: a sequence (non-strings are skipped), a string, or other.\<close>

datatype owners_setting = OwnersSeq "string option list" | OwnersString string | OwnersOther

fun owners_from_config :: "owners_setting option \<Rightarrow> string list" where
  "owners_from_config (Some (OwnersSeq vs)) = map the (filter (\<lambda>v. v \<noteq> None) vs)"
| "owners_from_config (Some (OwnersString s)) = [s]"
| "owners_from_config _ = []"

definition push_missing :: "string list \<Rightarrow> string list \<Rightarrow> string list" where
  "push_missing = fold (\<lambda>o' acc. if o' \<in> set acc then acc else acc @ [o'])"

record resolved_owners =
  ro_owners :: "string list"
  ro_needs_manifest_sync :: bool
  ro_persist :: bool
  ro_acl :: acl_map

text \<open>
  The third component says whether the merged list is written back to \<open>config.yaml\<close> (it
  differs from the configured one and there is a path); the fourth is the seeded ACL.
\<close>

definition resolve_and_seed_owners ::
  "owners_setting option \<Rightarrow> string option \<Rightarrow> string list \<Rightarrow> string list \<Rightarrow> acl_map \<Rightarrow> resolved_owners" where
  "resolve_and_seed_owners setting config_path cli_owners manifest_owners acl =
     (let configured = owners_from_config setting;
          resolved = push_missing manifest_owners (push_missing cli_owners configured);
          needs = list_ex (\<lambda>o'. o' \<notin> set manifest_owners) resolved
      in \<lparr>ro_owners = resolved, ro_needs_manifest_sync = needs,
          ro_persist = (resolved \<noteq> configured \<and> config_path \<noteq> None),
          ro_acl = (if resolved \<noteq> [] then grant_owners_in_acl acl resolved else acl)\<rparr>)"

lemma set_push_missing [simp]: "set (push_missing xs acc) = set acc \<union> set xs"
  by (induction xs arbitrary: acc) (auto simp: push_missing_def)

lemma push_missing_prefix: "\<exists>ys. push_missing xs acc = acc @ ys"
proof (induction xs arbitrary: acc)
  case (Cons x xs)
  have "push_missing (x # xs) acc = push_missing xs (if x \<in> set acc then acc else acc @ [x])"
    by (simp add: push_missing_def)
  with Cons.IH[of acc] Cons.IH[of "acc @ [x]"] show ?case by auto
qed (simp add: push_missing_def)

lemma push_missing_subset: "set xs \<subseteq> set acc \<Longrightarrow> push_missing xs acc = acc"
  by (induction xs) (auto simp: push_missing_def)

section \<open>Claiming\<close>

record claim_state =
  cs_owners :: "string list"
  cs_acl :: acl_map
  cs_config_path :: "string option"
  cs_saved :: "(string \<times> string list) list"  \<comment> \<open>successful writes of \<open>config.yaml\<close>, newest first\<close>

datatype claim_reply = AlreadyClaimed "string list" | Conflict "string list" | Claimed "string list"

text \<open>The two early returns of \<open>handle_claim\<close>, decided on the snapshot of the owners.\<close>

definition claim_decide :: "string list \<Rightarrow> string \<Rightarrow> claim_reply option" where
  "claim_decide owners body =
     (if list_ex (\<lambda>o'. o' = body) owners then Some (AlreadyClaimed owners)
      else if owners \<noteq> [] then Some (Conflict owners)
      else None)"

definition claim_write :: "string \<Rightarrow> claim_state \<Rightarrow> claim_state" where
  "claim_write body s = s\<lparr>cs_owners := [body]\<rparr>"

definition claim_grant :: "string \<Rightarrow> claim_state \<Rightarrow> claim_state" where
  "claim_grant body s = s\<lparr>cs_acl := grant_owners_in_acl (cs_acl s) [body]\<rparr>"

text \<open>\<open>save_ok\<close> says whether writing the config file succeeds; a failure is only logged.\<close>

definition persist_owners_to_config ::
  "(string \<Rightarrow> bool) \<Rightarrow> string option \<Rightarrow> string \<Rightarrow> claim_state \<Rightarrow> claim_state" where
  "persist_owners_to_config save_ok path body s =
     (case path of
        None \<Rightarrow> s
      | Some p \<Rightarrow> if save_ok p then s\<lparr>cs_saved := (p, [body]) # cs_saved s\<rparr> else s)"

definition handle_claim ::
  "(string \<Rightarrow> bool) \<Rightarrow> string \<Rightarrow> claim_state \<Rightarrow> claim_reply \<times> claim_state" where
  "handle_claim save_ok body s =
     (case claim_decide (cs_owners s) body of
        Some r \<Rightarrow> (r, s)
      | None \<Rightarrow> (Claimed [body],
                 persist_owners_to_config save_ok (cs_config_path s) body
                   (claim_grant body (claim_write body s))))"

fun run_claims :: "(string \<Rightarrow> bool) \<Rightarrow> string list \<Rightarrow> claim_state \<Rightarrow> claim_reply list \<times> claim_state" where
  "run_claims save_ok [] s = ([], s)"
| "run_claims save_ok (b # bs) s =
     (let (r, s') = handle_claim save_ok b s; (rs, s'') = run_claims save_ok bs s' in (r # rs, s''))"

text \<open>
  Concurrent requests.  Request \<open>i\<close> has the body \<open>body i\<close>; it first copies the owners under
  the read lock, then answers from the copy or takes the write lock, then the ACL lock, then
  saves the file.
\<close>

datatype claim_pc =
    CStart
  | CRead "string list" "string option"
  | CWritten "string option"
  | CGranted "string option"
  | CDone claim_reply

record claim_sys =
  sys_state :: claim_state
  sys_pc :: "nat \<Rightarrow> claim_pc"

inductive claim_step :: "(string \<Rightarrow> bool) \<Rightarrow> (nat \<Rightarrow> string) \<Rightarrow> claim_sys \<Rightarrow> claim_sys \<Rightarrow> bool"
  for save_ok :: "string \<Rightarrow> bool" and body :: "nat \<Rightarrow> string" where
  read: "sys_pc c i = CStart \<Longrightarrow>
     claim_step save_ok body c
       (c\<lparr>sys_pc := (sys_pc c)(i := CRead (cs_owners (sys_state c)) (cs_config_path (sys_state c)))\<rparr>)"
| reply: "sys_pc c i = CRead owners path \<Longrightarrow> claim_decide owners (body i) = Some r \<Longrightarrow>
     claim_step save_ok body c (c\<lparr>sys_pc := (sys_pc c)(i := CDone r)\<rparr>)"
| record_owner: "sys_pc c i = CRead owners path \<Longrightarrow> claim_decide owners (body i) = None \<Longrightarrow>
     claim_step save_ok body c
       (c\<lparr>sys_state := claim_write (body i) (sys_state c), sys_pc := (sys_pc c)(i := CWritten path)\<rparr>)"
| grant: "sys_pc c i = CWritten path \<Longrightarrow>
     claim_step save_ok body c
       (c\<lparr>sys_state := claim_grant (body i) (sys_state c), sys_pc := (sys_pc c)(i := CGranted path)\<rparr>)"
| persist: "sys_pc c i = CGranted path \<Longrightarrow>
     claim_step save_ok body c
       (c\<lparr>sys_state := persist_owners_to_config save_ok path (body i) (sys_state c),
          sys_pc := (sys_pc c)(i := CDone (Claimed [body i]))\<rparr>)"

inductive_cases claim_step_elim: "claim_step save_ok body c d"

definition claim_init :: "claim_state \<Rightarrow> claim_sys" where
  "claim_init s = \<lparr>sys_state = s, sys_pc = (\<lambda>_. CStart)\<rparr>"

abbreviation claim_reaches :: "(string \<Rightarrow> bool) \<Rightarrow> (nat \<Rightarrow> string) \<Rightarrow> claim_sys \<Rightarrow> claim_sys \<Rightarrow> bool" where
  "claim_reaches save_ok body \<equiv> (claim_step save_ok body)\<^sup>*\<^sup>*"

section \<open>Lemmas\<close>

lemmas claim_defs = claim_write_def claim_grant_def persist_owners_to_config_def

lemma persist_owners_frame [simp]:
  "cs_owners (persist_owners_to_config ok p b s) = cs_owners s"
  "cs_acl (persist_owners_to_config ok p b s) = cs_acl s"
  "cs_config_path (persist_owners_to_config ok p b s) = cs_config_path s"
  by (auto simp: persist_owners_to_config_def split: option.splits)

lemma handle_claim_owned:
  assumes "cs_owners s \<noteq> []"
  shows "snd (handle_claim ok b s) = s"
    and "fst (handle_claim ok b s) =
           (if b \<in> set (cs_owners s) then AlreadyClaimed (cs_owners s) else Conflict (cs_owners s))"
  using assms by (auto simp: handle_claim_def claim_decide_def list_ex_iff)

lemma handle_claim_fresh:
  assumes "cs_owners s = []"
  shows "fst (handle_claim ok b s) = Claimed [b]" and "cs_owners (snd (handle_claim ok b s)) = [b]"
    and "cs_acl (snd (handle_claim ok b s)) = grant_owners_in_acl (cs_acl s) [b]"
  using assms by (simp_all add: handle_claim_def claim_decide_def claim_defs split: option.splits)

lemma handle_claim_file:
  assumes "cs_owners s = []"
  shows "cs_config_path (snd (handle_claim ok b s)) = cs_config_path s"
    and "cs_saved (snd (handle_claim ok b s)) =
      (case cs_config_path s of Some p \<Rightarrow> if ok p then [(p, [b])] else [] | None \<Rightarrow> []) @ cs_saved s"
  using assms by (simp_all add: handle_claim_def claim_decide_def claim_defs split: option.splits)

lemma run_claims_owned:
  "cs_owners s \<noteq> [] \<Longrightarrow> snd (run_claims ok bs s) = s
     \<and> fst (run_claims ok bs s)
       = map (\<lambda>x. if x \<in> set (cs_owners s) then AlreadyClaimed (cs_owners s) else Conflict (cs_owners s)) bs"
proof (induction bs)
  case (Cons b bs)
  have "handle_claim ok b s = (if b \<in> set (cs_owners s) then AlreadyClaimed (cs_owners s) else Conflict (cs_owners s), s)"
    using handle_claim_owned[OF Cons.prems, of ok b] by (cases "handle_claim ok b s") simp
  with Cons show ?case by (simp add: case_prod_beta Let_def)
qed simp

lemma claim_step_owners_nonempty:
  "claim_step ok body c d \<Longrightarrow> cs_owners (sys_state c) \<noteq> [] \<Longrightarrow> cs_owners (sys_state d) \<noteq> []"
  by (induction rule: claim_step.induct) (auto simp: claim_write_def claim_grant_def)

section \<open>Properties\<close>

text \<open>
  C2 (ownership). Requests that arrive one after the other elect the first claimant: it becomes the only
  owner and gets every capability in the live ACL, it is written to the configuration file once if there is one that can
  be written, and every later claim is answered as its claimant being the owner or not, and changes nothing: neither owners
  nor ACL nor the file.
\<close>

theorem first_claim_wins:
  assumes "cs_owners s = []" and "hm_inv (cs_acl s)"
  shows "case run_claims ok (b # bs) s of (replies, s') \<Rightarrow>
           replies = Claimed [b] # map (\<lambda>x. if x = b then AlreadyClaimed [b] else Conflict [b]) bs
         \<and> cs_owners s' = [b]
         \<and> map_of (cs_acl s') = (map_of (cs_acl s))(b \<mapsto> Allow {''*''})
         \<and> cs_config_path s' = cs_config_path s
         \<and> cs_saved s' = (case cs_config_path s of Some p \<Rightarrow> if ok p then [(p, [b])] else [] | None \<Rightarrow> []) @ cs_saved s"
proof -
  obtain r s1 where h: "handle_claim ok b s = (r, s1)" by fastforce
  have s1: "r = Claimed [b]" "cs_owners s1 = [b]" "cs_acl s1 = grant_owners_in_acl (cs_acl s) [b]"
    using handle_claim_fresh[OF assms(1), of ok b] h by simp_all
  have kept: "cs_config_path s1 = cs_config_path s"
    "cs_saved s1 = (case cs_config_path s of Some p \<Rightarrow> if ok p then [(p, [b])] else [] | None \<Rightarrow> []) @ cs_saved s"
    using handle_claim_file[OF assms(1), of ok b] h by simp_all
  have "snd (run_claims ok bs s1) = s1"
    and "fst (run_claims ok bs s1) = map (\<lambda>x. if x = b then AlreadyClaimed [b] else Conflict [b]) bs"
    using run_claims_owned[of s1 ok bs] s1(2) by simp_all
  moreover have "map_of (cs_acl s1) = (map_of (cs_acl s))(b \<mapsto> Allow {''*''})"
    using grant_owners_lookup[OF assms(2)] s1(3) by (auto simp: fun_eq_iff)
  ultimately show ?thesis using h s1 kept by (simp add: case_prod_beta Let_def)
qed

theorem first_claim_wins_witness:
  "case run_claims (\<lambda>_. True) [''did:ma:a'', ''did:ma:b'', ''did:ma:a'']
     \<lparr>cs_owners = [], cs_acl = [(''did:ma:c'', Deny)], cs_config_path = Some ''/c'', cs_saved = []\<rparr> of (replies, s') \<Rightarrow>
       replies = [Claimed [''did:ma:a''], Conflict [''did:ma:a''], AlreadyClaimed [''did:ma:a'']]
     \<and> cs_owners s' = [''did:ma:a''] \<and> map_of (cs_acl s') ''did:ma:a'' = Some (Allow {''*''})
     \<and> map_of (cs_acl s') ''did:ma:b'' = None \<and> cs_saved s' = [(''/c'', [''did:ma:a''])]"
  using first_claim_wins
    [where s = "\<lparr>cs_owners = [], cs_acl = [(''did:ma:c'', Deny)], cs_config_path = Some ''/c'', cs_saved = []\<rparr>"
       and ok = "\<lambda>_. True" and b = "''did:ma:a''" and bs = "[''did:ma:b'', ''did:ma:a'']"]
  by (simp add: hm_inv_def case_prod_beta)

text \<open>
  Concurrent claims are not exclusive: the owners are read under one lock and written under
  another, so from any unclaimed state two requests with different DIDs can both be answered
  "claimed" and both end with every capability in the live transport ACL, while only one of
  them is recorded as owner.
\<close>

theorem claim_race:
  assumes "cs_owners s = []" and "hm_inv (cs_acl s)" and "a \<noteq> b"
  shows "\<exists>body c. body 0 = a \<and> body 1 = b \<and> claim_reaches ok body (claim_init s) c
     \<and> sys_pc c 0 = CDone (Claimed [a]) \<and> sys_pc c 1 = CDone (Claimed [b])
     \<and> cs_owners (sys_state c) = [b]
     \<and> map_of (cs_acl (sys_state c)) a = Some (Allow {''*''})
     \<and> map_of (cs_acl (sys_state c)) b = Some (Allow {''*''})"
proof -
  let ?body = "\<lambda>i::nat. if i = 0 then a else b"
  let ?R = "claim_step ok ?body"
  let ?p = "cs_config_path s"
  let ?s1 = "claim_write a s"
  let ?s2 = "claim_write b ?s1"
  let ?s3 = "claim_grant a ?s2"
  let ?s4 = "claim_grant b ?s3"
  let ?s5 = "persist_owners_to_config ok ?p a ?s4"
  let ?s6 = "persist_owners_to_config ok ?p b ?s5"
  let ?c = "\<lambda>st p0 p1. \<lparr>sys_state = st, sys_pc = ((\<lambda>_. CStart)(0 := p0))(1 := p1)\<rparr>"
  have swap: "((\<lambda>_::nat. CStart)(0 := p0, Suc 0 := p1))(0 := q) = (\<lambda>_. CStart)(0 := q, Suc 0 := p1)" for p0 p1 q
    by (auto simp: fun_eq_iff)
  have none: "claim_decide [] x = None" for x by (simp add: claim_decide_def)
  have "?R (?c s CStart CStart) (?c s (CRead [] ?p) CStart)"
    using claim_step.read[of "?c s CStart CStart" 0 ok ?body] assms(1) swap by simp
  moreover have "?R (?c s (CRead [] ?p) CStart) (?c s (CRead [] ?p) (CRead [] ?p))"
    using claim_step.read[of "?c s (CRead [] ?p) CStart" 1 ok ?body] assms(1) by simp
  moreover have "?R (?c s (CRead [] ?p) (CRead [] ?p)) (?c ?s1 (CWritten ?p) (CRead [] ?p))"
    using claim_step.record_owner[of "?c s (CRead [] ?p) (CRead [] ?p)" 0 "[]" ?p ?body ok] none swap by simp
  moreover have "?R (?c ?s1 (CWritten ?p) (CRead [] ?p)) (?c ?s2 (CWritten ?p) (CWritten ?p))"
    using claim_step.record_owner[of "?c ?s1 (CWritten ?p) (CRead [] ?p)" 1 "[]" ?p ?body ok] none by simp
  moreover have "?R (?c ?s2 (CWritten ?p) (CWritten ?p)) (?c ?s3 (CGranted ?p) (CWritten ?p))"
    using claim_step.grant[of "?c ?s2 (CWritten ?p) (CWritten ?p)" 0 ?p ok ?body] swap by simp
  moreover have "?R (?c ?s3 (CGranted ?p) (CWritten ?p)) (?c ?s4 (CGranted ?p) (CGranted ?p))"
    using claim_step.grant[of "?c ?s3 (CGranted ?p) (CWritten ?p)" 1 ?p ok ?body] by simp
  moreover have "?R (?c ?s4 (CGranted ?p) (CGranted ?p)) (?c ?s5 (CDone (Claimed [a])) (CGranted ?p))"
    using claim_step.persist[of "?c ?s4 (CGranted ?p) (CGranted ?p)" 0 ?p ok ?body] swap by simp
  moreover have "?R (?c ?s5 (CDone (Claimed [a])) (CGranted ?p)) (?c ?s6 (CDone (Claimed [a])) (CDone (Claimed [b])))"
    using claim_step.persist[of "?c ?s5 (CDone (Claimed [a])) (CGranted ?p)" 1 ?p ok ?body] by simp
  ultimately have "claim_reaches ok ?body (?c s CStart CStart) (?c ?s6 (CDone (Claimed [a])) (CDone (Claimed [b])))"
    by (meson converse_rtranclp_into_rtranclp rtranclp.rtrancl_refl)
  moreover have "?c s CStart CStart = claim_init s"
    by (auto simp: claim_init_def fun_eq_iff)
  moreover have "cs_owners ?s6 = [b]" by (simp add: claim_write_def claim_grant_def)
  moreover have "map_of (cs_acl ?s6) a = Some (Allow {''*''})" "map_of (cs_acl ?s6) b = Some (Allow {''*''})"
    using assms(2,3) grant_owners_inv[OF assms(2), of "[a]"]
    by (simp_all add: claim_write_def claim_grant_def grant_owners_lookup)
  ultimately show ?thesis by (intro exI[of _ ?body]) (auto intro!: exI)
qed

theorem claim_race_witness:
  "\<exists>body c. claim_reaches (\<lambda>_. True) body
       (claim_init \<lparr>cs_owners = [], cs_acl = [], cs_config_path = None, cs_saved = []\<rparr>) c
     \<and> sys_pc c 0 = CDone (Claimed [''did:ma:a'']) \<and> sys_pc c 1 = CDone (Claimed [''did:ma:b''])"
  using claim_race
    [of "\<lparr>cs_owners = [], cs_acl = [], cs_config_path = None, cs_saved = []\<rparr>" "''did:ma:a''" "''did:ma:b''" "\<lambda>_. True"]
  by (auto simp: hm_inv_def)

text \<open>
  C3 (ownership). Start-up reconciliation is a union that keeps the configured owners first and in order, asks for a manifest update exactly
  when some owner is missing from the manifest group, rewrites the configuration only if the command
  line or the manifest added an owner, and gives every owner (and nobody else) a new wildcard grant.
\<close>

theorem reconcile_owners_spec:
  assumes "hm_inv acl"
  shows "let r = resolve_and_seed_owners setting path cli mf acl; cfg = owners_from_config setting in
     set (ro_owners r) = set cfg \<union> set cli \<union> set mf
   \<and> (\<exists>ys. ro_owners r = cfg @ ys)
   \<and> (ro_needs_manifest_sync r \<longleftrightarrow> \<not> set cfg \<union> set cli \<subseteq> set mf)
   \<and> (ro_persist r \<longleftrightarrow> path \<noteq> None \<and> \<not> set cli \<union> set mf \<subseteq> set cfg)
   \<and> map_of (ro_acl r) = (\<lambda>k. if k \<in> set (ro_owners r) then Some (Allow {''*''}) else map_of acl k)"
proof -
  let ?cfg = "owners_from_config setting"
  let ?r = "push_missing mf (push_missing cli ?cfg)"
  obtain ys where ys: "?r = ?cfg @ ys"
    using push_missing_prefix[of cli ?cfg] push_missing_prefix[of mf "push_missing cli ?cfg"]
    by (metis append.assoc)
  have same: "?r = ?cfg \<longleftrightarrow> set cli \<union> set mf \<subseteq> set ?cfg"
  proof
    assume "?r = ?cfg"
    then have "set ?cfg = set ?cfg \<union> set cli \<union> set mf" by (metis set_push_missing)
    then show "set cli \<union> set mf \<subseteq> set ?cfg" by blast
  next
    assume "set cli \<union> set mf \<subseteq> set ?cfg"
    then show "?r = ?cfg" by (simp add: push_missing_subset)
  qed
  have acl: "map_of (if ?r \<noteq> [] then grant_owners_in_acl acl ?r else acl)
      = (\<lambda>k. if k \<in> set ?r then Some (Allow {''*''}) else map_of acl k)"
  proof (cases "?r = []")
    case False
    then show ?thesis using grant_owners_lookup[OF assms] by (simp only: if_True fun_eq_iff) simp
  qed simp
  have sync: "list_ex (\<lambda>o'. o' \<notin> set mf) ?r \<longleftrightarrow> \<not> set ?cfg \<union> set cli \<subseteq> set mf"
    by (simp only: list_ex_iff set_push_missing) blast
  show ?thesis
    unfolding resolve_and_seed_owners_def Let_def resolved_owners.simps
    by (intro conjI acl sync exI[of _ ys] ys) (use same in auto)
qed

theorem reconcile_owners_spec_witness:
  "ro_needs_manifest_sync (resolve_and_seed_owners (Some (OwnersString ''did:ma:a'')) None [] [''did:ma:b''] [])"
  using reconcile_owners_spec [of "[]" "Some (OwnersString ''did:ma:a'')" None "[]" "[''did:ma:b'']"]
  by (simp add: hm_inv_def Let_def)

end
