(* ===== verification/Crud.thy ===== *)
theory Crud
  imports CrudConfig Manifest Owners
begin

text \<open>
  The CRUD service (\<open>src/crud/\<close>): decoding of requests, the shared state the handlers work on,
  one definition per handler, and the dispatcher.  A handler is a computation on the world of
  the Kubo node and the shared state that ends in an error (the \<open>Err\<close> of the Rust function) or in
  the reply it sends; sending (\<open>send_crud_reply_raw\<close>) is its last action, so the reply is its
  result.  Handlers are atomic here.  The CID parser, \<open>serde\<close> encodings and \<open>ma_core\<close>'s ACL core are
  the fields of \<open>crud_env\<close>.
\<close>

section \<open>State and computations\<close>

record 'w crud_env =
  ce_kubo :: "'w kubo"
  ce_core :: acl_core
  ce_fmt :: yaml_fmt
  ce_cidv1 :: "string \<Rightarrow> bool"
  ce_entity_cbor :: "entity_node \<Rightarrow> cbor option"
  ce_decode :: "bytes \<Rightarrow> cbor option"

text \<open>
  The entity registry maps names to handles of running plugins.  \<open>ct_saved\<close>, \<open>ct_langs\<close>,
  \<open>ct_terminated\<close> and \<open>ct_reloads\<close> record effects: writes of \<open>config.yaml\<close>, language switches,
  terminated workers and spawned reload tasks, newest first.
\<close>

record crud_state =
  ct_writer :: writer
  ct_owners :: "string list"
  ct_entity_names :: "string list"
  ct_plugins :: "nat hash_map"
  ct_kinds :: "kind_node hash_map"
  ct_config :: daemon_config
  ct_acl_cache :: acl_cache
  ct_group_cache :: group_cache
  ct_root_acl :: acl_map
  ct_backoff :: "u64 option"
  ct_refresh :: "u64 option"
  ct_saved :: "daemon_config list"
  ct_langs :: "string list"
  ct_terminated :: "nat list"
  ct_reloads :: "(string \<times> entity_node) list"

datatype crud_error =
    CeBadPayload string | CeBadPath string | CeUnknownOp string | CeNoRoot | CeFetch cid
  | CeWriter writer_error | CeDenied acl_error | CeKind kind_error | CeSetting setting_error
  | CeEntityMissing string | CeFieldMissing string | CeAclMissing string | CePublish

datatype crud_reply =
    ROk | ROkPath string | ROkCid cid | RError string | RI18n string
  | RI18nf string "(string \<times> string) list"
  | RCbor cbor | RData cbor | RStrings "string list" | REntity entity_node | RKind kind_node
  | RYaml yaml | RYamlMap "yaml btree_map"

type_synonym ('w, 'a) crud = "'w \<times> crud_state \<Rightarrow> ('w \<times> crud_state) \<times> (crud_error + 'a)"

definition ret :: "'a \<Rightarrow> ('w, 'a) crud" where "ret x = (\<lambda>s. (s, Inr x))"

definition fail :: "crud_error \<Rightarrow> ('w, 'a) crud" where "fail e = (\<lambda>s. (s, Inl e))"

definition and_then :: "('w, 'a) crud \<Rightarrow> ('a \<Rightarrow> ('w, 'b) crud) \<Rightarrow> ('w, 'b) crud" where
  "and_then m f = (\<lambda>s. case m s of (s', Inl e) \<Rightarrow> (s', Inl e) | (s', Inr x) \<Rightarrow> f x s')"

definition gets :: "(crud_state \<Rightarrow> 'a) \<Rightarrow> ('w, 'a) crud" where
  "gets f = (\<lambda>(w, s). ((w, s), Inr (f s)))"

definition asks :: "('w \<Rightarrow> crud_state \<Rightarrow> crud_error + 'a) \<Rightarrow> ('w, 'a) crud" where
  "asks f = (\<lambda>(w, s). ((w, s), f w s))"

definition modify :: "(crud_state \<Rightarrow> crud_state) \<Rightarrow> ('w, unit) crud" where
  "modify f = (\<lambda>(w, s). ((w, f s), Inr ()))"

lemmas crud_monad_defs = ret_def fail_def and_then_def gets_def asks_def modify_def

section \<open>Requests\<close>

definition parse_path :: "string \<Rightarrow> crud_error + string \<times> string list" where
  "parse_path path =
     (case strip_prefix ''/'' path of
        None \<Rightarrow> Inl (CeBadPath path)
      | Some body \<Rightarrow>
          (let (ns, rest) = (case split_once (CHR ''/'') body of Some p \<Rightarrow> p | None \<Rightarrow> (body, []))
           in if ns = [] then Inl (CeBadPath path)
              else Inr (ns, filter (\<lambda>s. s \<noteq> []) (split_on (CHR ''/'') rest))))"

datatype crud_op = OGet string | OSet string cbor | ODelete string

definition decode_crud_payload :: "(bytes \<Rightarrow> cbor option) \<Rightarrow> bytes \<Rightarrow> crud_error + crud_op" where
  "decode_crud_payload dec content =
     (case dec content of
        None \<Rightarrow> Inl (CeBadPayload ''invalid CBOR'')
      | Some (CArray items) \<Rightarrow>
          (case items of
             [CText path] \<Rightarrow> Inr (OGet path)
           | [_] \<Rightarrow> Inl (CeBadPayload ''path must be text'')
           | [CText path, value] \<Rightarrow>
               (if value = CText [] then Inr (ODelete path) else Inr (OSet path value))
           | [_, _] \<Rightarrow> Inl (CeBadPayload ''path must be text'')
           | _ \<Rightarrow> Inl (CeBadPayload ''wrong length''))
      | Some _ \<Rightarrow> Inl (CeBadPayload ''not an array''))"

definition is_cidv1_ref :: "'w crud_env \<Rightarrow> string \<Rightarrow> bool" where
  "is_cidv1_ref E s = (starts_with ''b'' s \<and> ce_cidv1 E s)"

definition cidv1_ref :: "'w crud_env \<Rightarrow> string \<Rightarrow> cid option" where
  "cidv1_ref E s = (if \<not> is_cidv1_ref E s then None else Some s)"

section \<open>Manifest access\<close>

definition update_stats_entities :: "crud_state \<Rightarrow> crud_state" where
  "update_stats_entities s = s\<lparr>ct_entity_names := map fst (ct_plugins s)\<rparr>"

definition with_manifest_crud ::
  "'w crud_env \<Rightarrow> (runtime_manifest \<Rightarrow> runtime_manifest) \<Rightarrow> ('w, cid) crud" where
  "with_manifest_crud E f = (\<lambda>(w, s).
     case mutate (ce_kubo E) (\<lambda>m. Inr (f m)) w (ct_writer s) of
       (w', wr, Inl e) \<Rightarrow> ((w', s\<lparr>ct_writer := wr\<rparr>), Inl (CeWriter e))
     | (w', wr, Inr c) \<Rightarrow> ((w', update_stats_entities (s\<lparr>ct_writer := wr\<rparr>)), Inr c))"

definition load_manifest :: "'w crud_env \<Rightarrow> ('w, runtime_manifest) crud" where
  "load_manifest E = asks (\<lambda>w s.
     case mw_root_cid (ct_writer s) of
       None \<Rightarrow> Inl CeNoRoot
     | Some c \<Rightarrow> (case dag_get_manifest (ce_kubo E) w c of None \<Rightarrow> Inl (CeFetch c) | Some m \<Rightarrow> Inr m))"

definition fetch_entity :: "'w crud_env \<Rightarrow> cid \<Rightarrow> ('w, entity_node) crud" where
  "fetch_entity E c = asks (\<lambda>w s.
     case dag_get_entity (ce_kubo E) w c of None \<Rightarrow> Inl (CeFetch c) | Some e \<Rightarrow> Inr e)"

definition fetch_kind :: "'w crud_env \<Rightarrow> cid \<Rightarrow> ('w, kind_node) crud" where
  "fetch_kind E c = asks (\<lambda>w s.
     case dag_get_kind (ce_kubo E) w c of None \<Rightarrow> Inl (CeFetch c) | Some k \<Rightarrow> Inr k)"

text \<open>\<open>load_acl_from_cid\<close> of \<open>src/acl.rs\<close>.\<close>

definition load_acl_from_cid :: "'w crud_env \<Rightarrow> cid \<Rightarrow> ('w, acl_map) crud" where
  "load_acl_from_cid E c = asks (\<lambda>w s.
     case dag_get_acl (ce_kubo E) w c of None \<Rightarrow> Inl (CeFetch c) | Some a \<Rightarrow> Inr a)"

definition runtime_config_snapshot :: "'w crud_env \<Rightarrow> ('w, string btree_map) crud" where
  "runtime_config_snapshot E =
     and_then (load_manifest E) (\<lambda>m. gets (\<lambda>s. public_plugin_config (ce_fmt E) m (ct_config s)))"

text \<open>A group that fails to load leaves the cache as it is.\<close>

definition group_cache_update :: "'w crud_env \<Rightarrow> string \<Rightarrow> cid \<Rightarrow> ('w, unit) crud" where
  "group_cache_update E name c = (\<lambda>(w, s).
     case dag_get_strings (ce_kubo E) w c of
       Some members \<Rightarrow> ((w, s\<lparr>ct_group_cache := AList.update name members (ct_group_cache s)\<rparr>), Inr ())
     | None \<Rightarrow> ((w, s), Inr ()))"

section \<open>ACLs and groups\<close>

definition names_reply :: "string list \<Rightarrow> crud_reply" where
  "names_reply names = RCbor (CArray [CText '':ok'', CArray (map CText names)])"

definition acl_cache_key :: "string \<Rightarrow> string" where
  "acl_cache_key name = ''acls.'' @ name"

fun handle_root_acls ::
  "'w crud_env \<Rightarrow> string list \<Rightarrow> string option \<Rightarrow> cbor list \<Rightarrow> ('w, crud_reply) crud" where
  "handle_root_acls E [] None [] =
     and_then (load_manifest E) (\<lambda>m. ret (names_reply (map fst (rm_acls m))))"
| "handle_root_acls E [name] None [] =
     and_then (load_manifest E) (\<lambda>m.
       case map_of (rm_acls m) name of
         None \<Rightarrow> ret (RError ''acl-not-found'')
       | Some link \<Rightarrow> ret (RCbor (CText link)))"
| "handle_root_acls E [name] (Some []) [CText raw] =
     (case cidv1_ref E raw of
        None \<Rightarrow> ret (RI18n ''cidv1-required'')
      | Some c \<Rightarrow>
          and_then (load_acl_from_cid E c) (\<lambda>acl.
          and_then (with_manifest_crud E (\<lambda>m. m\<lparr>rm_acls := AList.update name c (rm_acls m)\<rparr>)) (\<lambda>_.
          and_then (modify (\<lambda>s. s\<lparr>ct_acl_cache := AList.update (acl_cache_key name) acl (ct_acl_cache s)\<rparr>)) (\<lambda>_.
          ret (ROkCid c)))))"
| "handle_root_acls E [name] (Some []) [] =
     and_then (load_manifest E) (\<lambda>m.
       if map_of (rm_acls m) name = None then ret (RError ''acl-not-found'')
       else
         and_then (with_manifest_crud E (\<lambda>m. m\<lparr>rm_acls := AList.delete name (rm_acls m)\<rparr>)) (\<lambda>new_root.
         and_then (modify (\<lambda>s. s\<lparr>ct_acl_cache := AList.delete (acl_cache_key name) (ct_acl_cache s)\<rparr>)) (\<lambda>_.
         ret (ROkCid new_root))))"
| "handle_root_acls E rest tail args = fail (CeUnknownOp ''acls'')"

fun handle_root_acl ::
  "'w crud_env \<Rightarrow> string option \<Rightarrow> cbor list \<Rightarrow> ('w, crud_reply) crud" where
  "handle_root_acl E None [] =
     and_then (load_manifest E) (\<lambda>m.
       ret (RCbor (CText (case rm_acl m of None \<Rightarrow> [] | Some link \<Rightarrow> link))))"
| "handle_root_acl E (Some []) [CText raw] =
     (case cidv1_ref E raw of
        None \<Rightarrow> ret (RI18n ''cidv1-required'')
      | Some c \<Rightarrow>
          and_then (load_acl_from_cid E c) (\<lambda>acl.
          and_then (with_manifest_crud E (\<lambda>m. m\<lparr>rm_acl := Some c\<rparr>)) (\<lambda>_.
          and_then (modify (\<lambda>s. s\<lparr>ct_root_acl := acl\<rparr>)) (\<lambda>_.
          ret (ROkCid c)))))"
| "handle_root_acl E (Some []) [] = ret (RI18n ''refuse-delete-root'')"
| "handle_root_acl E tail args = fail (CeUnknownOp ''acl'')"

definition OWNERS_GROUP :: string where "OWNERS_GROUP = ''owners''"

text \<open>The fast path of the owner test follows the group immediately.\<close>

definition sync_owners :: "crud_state \<Rightarrow> crud_state" where
  "sync_owners s =
     (let members = (case map_of (ct_group_cache s) OWNERS_GROUP of None \<Rightarrow> [] | Some ms \<Rightarrow> ms)
      in s\<lparr>ct_root_acl := grant_owners_in_acl (ct_root_acl s) members, ct_owners := members\<rparr>)"

fun handle_root_grp ::
  "'w crud_env \<Rightarrow> string list \<Rightarrow> string option \<Rightarrow> cbor list \<Rightarrow> ('w, crud_reply) crud" where
  "handle_root_grp E [] None [] =
     and_then (load_manifest E) (\<lambda>m. ret (names_reply (map fst (rm_grp m))))"
| "handle_root_grp E [name] None [] =
     and_then (load_manifest E) (\<lambda>m.
       case map_of (rm_grp m) name of
         None \<Rightarrow> ret (RError ''group-not-found'')
       | Some link \<Rightarrow> ret (RCbor (CText link)))"
| "handle_root_grp E [name] (Some []) [CText raw] =
     (case cidv1_ref E raw of
        None \<Rightarrow> ret (RI18n ''cidv1-required'')
      | Some c \<Rightarrow>
          and_then (with_manifest_crud E (\<lambda>m. m\<lparr>rm_grp := AList.update name c (rm_grp m)\<rparr>)) (\<lambda>_.
          and_then (group_cache_update E name c) (\<lambda>_.
          and_then (modify (\<lambda>s. if name = OWNERS_GROUP then sync_owners s else s)) (\<lambda>_.
          ret (ROkCid c)))))"
| "handle_root_grp E [name] (Some []) [] =
     (if name = OWNERS_GROUP then ret (RI18n ''refuse-delete-root'')
      else
        and_then (load_manifest E) (\<lambda>m.
          if map_of (rm_grp m) name = None then ret (RError ''group-not-found'')
          else
            and_then (with_manifest_crud E (\<lambda>m. m\<lparr>rm_grp := AList.delete name (rm_grp m)\<rparr>)) (\<lambda>new_root.
            and_then (modify (\<lambda>s. s\<lparr>ct_group_cache := AList.delete name (ct_group_cache s)\<rparr>)) (\<lambda>_.
            ret (ROkCid new_root)))))"
| "handle_root_grp E rest tail args = fail (CeUnknownOp ''grp'')"

section \<open>Kinds\<close>

definition resolve_if_extends ::
  "'w crud_env \<Rightarrow> runtime_manifest \<Rightarrow> kind_node \<Rightarrow> ('w, kind_node) crud" where
  "resolve_if_extends E m raw =
     (if kn_extends raw \<noteq> None
      then asks (\<lambda>w s. case resolve_kind_extends (dag_get_kind (ce_kubo E) w) (rm_kinds m) raw of
                           Inl e \<Rightarrow> Inl (CeKind e) | Inr k \<Rightarrow> Inr k)
      else ret raw)"

text \<open>\<open>hydrate_affected_kind_registry\<close>: a kind that cannot be resolved keeps its old entry.\<close>

definition hydrate_kind ::
  "'w crud_env \<Rightarrow> 'w \<Rightarrow> runtime_manifest \<Rightarrow> kind_node hash_map \<Rightarrow> string \<Rightarrow> kind_node hash_map \<Rightarrow> kind_node hash_map" where
  "hydrate_kind E w m raw_kinds protocol reg =
     (case map_of raw_kinds protocol of
        None \<Rightarrow> reg
      | Some raw \<Rightarrow>
          if kn_extends raw \<noteq> None
          then (case resolve_kind_extends (dag_get_kind (ce_kubo E) w) (rm_kinds m) raw of
                  Inl e \<Rightarrow> reg | Inr k \<Rightarrow> AList.update protocol k reg)
          else AList.update protocol raw reg)"

text \<open>
  \<open>spawn_kind_dependency_reloads_for\<close>.  The affected set is ordered (a \<open>BTreeSet\<close>); the order is
  irrelevant since every protocol writes only its own entry, so it is the argument \<open>order\<close>.
\<close>

definition spawn_kind_dependency_reloads_for ::
  "'w crud_env \<Rightarrow> (string set \<Rightarrow> string list) \<Rightarrow> string list \<Rightarrow> ('w, nat) crud" where
  "spawn_kind_dependency_reloads_for E order updated =
     and_then (load_manifest E) (\<lambda>m. \<lambda>(w, s).
       let raw_kinds = load_raw_kind_nodes (dag_get_kind (ce_kubo E) w) (rm_kinds m);
           affected = affected_kind_protocols_for updated raw_kinds;
           kinds' = fold (hydrate_kind E w m raw_kinds) (order affected) (ct_kinds s);
           spawned = List.map_filter (\<lambda>(name, link).
              case dag_get_entity (ce_kubo E) w link of
                None \<Rightarrow> None
              | Some node \<Rightarrow> if en_kind node \<in> affected then Some (name, node) else None) (rm_entities m)
       in ((w, s\<lparr>ct_kinds := kinds', ct_reloads := rev spawned @ ct_reloads s\<rparr>), Inr (length spawned)))"

text \<open>Reload scheduling after a kind update is best effort: its errors are only logged.\<close>

definition schedule_reloads ::
  "'w crud_env \<Rightarrow> (string set \<Rightarrow> string list) \<Rightarrow> string list \<Rightarrow> ('w, unit) crud" where
  "schedule_reloads E order updated = (\<lambda>ws.
     case runtime_config_snapshot E ws of
       (ws', Inl e) \<Rightarrow> (ws', Inr ())
     | (ws', Inr cfg) \<Rightarrow>
         (case spawn_kind_dependency_reloads_for E order updated ws' of (ws'', r) \<Rightarrow> (ws'', Inr ())))"

definition apply_kinds_tree ::
  "'w crud_env \<Rightarrow> (string set \<Rightarrow> string list) \<Rightarrow> string \<Rightarrow> ('w, crud_reply) crud" where
  "apply_kinds_tree E order raw =
     and_then (asks (\<lambda>w s. case dag_resolve (ce_kubo E) w raw of None \<Rightarrow> Inl (CeFetch raw) | Some c \<Rightarrow> Inr c)) (\<lambda>c.
     and_then (asks (\<lambda>w s. case dag_get_kinds (ce_kubo E) w c of None \<Rightarrow> Inl (CeFetch c) | Some t \<Rightarrow> Inr t)) (\<lambda>overlay.
     and_then (\<lambda>(w, s).
         case mutate_async (ce_kubo E) (\<lambda>w m.
                case apply_kinds_tree_overlay (dag_get_kind (ce_kubo E) w) overlay m of
                  Inl e \<Rightarrow> Inl ''overlay'' | Inr r \<Rightarrow> Inr r) w (ct_writer s) of
           (w', wr, Inl e) \<Rightarrow> ((w', s\<lparr>ct_writer := wr\<rparr>), Inl (CeWriter e))
         | (w', wr, Inr (root, changed)) \<Rightarrow>
             ((w', update_stats_entities (s\<lparr>ct_writer := wr\<rparr>)), Inr changed)) (\<lambda>changed.
     and_then (if changed = [] then ret () else schedule_reloads E order changed) (\<lambda>_.
     ret (ROkCid c)))))"

definition kind_protocol_id :: "string list \<Rightarrow> string" where
  "kind_protocol_id rest = ''/'' @ join_with ''/'' rest"

fun handle_kinds_root ::
  "'w crud_env \<Rightarrow> (string set \<Rightarrow> string list) \<Rightarrow> string option \<Rightarrow> cbor list \<Rightarrow> ('w, crud_reply) crud" where
  "handle_kinds_root E order None [] =
     and_then (load_manifest E) (\<lambda>m. ret (RStrings (protocol_ids (rm_kinds m))))"
| "handle_kinds_root E order (Some []) [] = ret (RI18n ''refuse-delete-root'')"
| "handle_kinds_root E order (Some []) [CText raw] = apply_kinds_tree E order raw"
| "handle_kinds_root E order tail args = fail (CeUnknownOp ''kinds'')"

fun handle_kind ::
  "'w crud_env \<Rightarrow> (string set \<Rightarrow> string list) \<Rightarrow> string \<Rightarrow> string option \<Rightarrow> cbor list \<Rightarrow> ('w, crud_reply) crud" where
  "handle_kind E order protocol None [] =
     and_then (load_manifest E) (\<lambda>m.
       case get_protocol (rm_kinds m) protocol of
         Some link \<Rightarrow> and_then (fetch_kind E link) (\<lambda>k. ret (RKind k))
       | None \<Rightarrow> ret (RError ''kind-not-found''))"
| "handle_kind E order protocol (Some []) [CText raw] =
     and_then (asks (\<lambda>w s. case dag_resolve (ce_kubo E) w raw of None \<Rightarrow> Inl (CeFetch raw) | Some c \<Rightarrow> Inr c)) (\<lambda>c.
     and_then (fetch_kind E c) (\<lambda>raw_kind.
     and_then (load_manifest E) (\<lambda>m.
     and_then (resolve_if_extends E m raw_kind) (\<lambda>k.
     and_then (with_manifest_crud E (\<lambda>m. m\<lparr>rm_kinds := insert_protocol protocol c (rm_kinds m)\<rparr>)) (\<lambda>_.
     and_then (modify (\<lambda>s. s\<lparr>ct_kinds := AList.update protocol k (ct_kinds s)\<rparr>)) (\<lambda>_.
     and_then (schedule_reloads E order [protocol]) (\<lambda>_.
     ret (ROkCid c))))))))"
| "handle_kind E order protocol (Some []) [] =
     and_then (load_manifest E) (\<lambda>m.
       if get_protocol (rm_kinds m) protocol = None then ret (RError ''kind-not-found'')
       else
         and_then (with_manifest_crud E (\<lambda>m. m\<lparr>rm_kinds := fst (remove_protocol protocol (rm_kinds m))\<rparr>)) (\<lambda>_.
         and_then (modify (\<lambda>s. s\<lparr>ct_kinds := AList.delete protocol (ct_kinds s)\<rparr>)) (\<lambda>_.
         ret ROk)))"
| "handle_kind E order protocol tail args = fail (CeUnknownOp ''kinds'')"

definition handle_kinds_ns ::
  "'w crud_env \<Rightarrow> (string set \<Rightarrow> string list) \<Rightarrow> string list \<Rightarrow> string option \<Rightarrow> cbor list \<Rightarrow> ('w, crud_reply) crud" where
  "handle_kinds_ns E order rest tail args =
     (if rest = [] then handle_kinds_root E order tail args
      else handle_kind E order (kind_protocol_id rest) tail args)"

end
