(* ===== verification/CrudDispatch.thy ===== *)
theory CrudDispatch
  imports Crud
begin

text \<open>
  The entity and configuration handlers of CRUD (\<open>src/crud/entities.rs\<close>, \<open>src/crud/config.rs\<close>), the
  dispatcher (\<open>src/crud/mod.rs\<close>) and the properties of the service.
\<close>

section \<open>Entities\<close>

definition check_management :: "'w crud_env \<Rightarrow> string \<Rightarrow> string list \<Rightarrow> ('w, unit) crud" where
  "check_management E from caps = asks (\<lambda>w s.
     case check_entity_management_cap (ce_core E) (ct_root_acl s) (ct_group_cache s) from caps of
       Inl e \<Rightarrow> Inl (CeDenied e) | Inr u \<Rightarrow> Inr u)"

definition spawn_reload :: "string \<Rightarrow> entity_node \<Rightarrow> ('w, unit) crud" where
  "spawn_reload name node = modify (\<lambda>s. s\<lparr>ct_reloads := (name, node) # ct_reloads s\<rparr>)"

definition handle_entity_get :: "'w crud_env \<Rightarrow> string \<Rightarrow> ('w, crud_reply) crud" where
  "handle_entity_get E name =
     and_then (load_manifest E) (\<lambda>m.
       case map_of (rm_entities m) name of
         None \<Rightarrow> ret (RError ''entity-not-found'')
       | Some link \<Rightarrow> and_then (fetch_entity E link) (\<lambda>node. ret (REntity node)))"

definition stop_entity :: "string \<Rightarrow> crud_state \<Rightarrow> crud_state" where
  "stop_entity name s =
     (case map_of (ct_plugins s) name of
        None \<Rightarrow> s
      | Some h \<Rightarrow> s\<lparr>ct_plugins := AList.delete name (ct_plugins s), ct_terminated := h # ct_terminated s\<rparr>)"

definition handle_entity_delete :: "'w crud_env \<Rightarrow> string \<Rightarrow> string \<Rightarrow> ('w, crud_reply) crud" where
  "handle_entity_delete E from name =
     and_then (check_management E from [''delete'', ''entities'']) (\<lambda>_.
     and_then (load_manifest E) (\<lambda>m.
       if map_of (rm_entities m) name = None then ret (RError ''entity-not-found'')
       else
         and_then (modify (stop_entity name)) (\<lambda>_.
         and_then (with_manifest_crud E (\<lambda>m. m\<lparr>rm_entities := AList.delete name (rm_entities m)\<rparr>)) (\<lambda>_.
         ret ROk))))"

definition resolve_kind_node_for_upsert :: "'w crud_env \<Rightarrow> string \<Rightarrow> ('w, kind_node option) crud" where
  "resolve_kind_node_for_upsert E kind =
     and_then (gets (\<lambda>s. map_of (ct_kinds s) kind)) (\<lambda>cached.
       case cached of
         Some k \<Rightarrow> ret (Some k)
       | None \<Rightarrow>
           and_then (load_manifest E) (\<lambda>m.
             case get_protocol (rm_kinds m) kind of
               None \<Rightarrow> ret None
             | Some link \<Rightarrow>
                 and_then (fetch_kind E link) (\<lambda>raw.
                 and_then (resolve_if_extends E m raw) (\<lambda>k. ret (Some k)))))"

definition finish_upsert :: "'w crud_env \<Rightarrow> string \<Rightarrow> cid \<Rightarrow> entity_node \<Rightarrow> ('w, crud_reply) crud" where
  "finish_upsert E name c node =
     and_then (with_manifest_crud E (\<lambda>m. m\<lparr>rm_entities := AList.update name c (rm_entities m)\<rparr>)) (\<lambda>_.
     and_then (runtime_config_snapshot E) (\<lambda>_.
     and_then (spawn_reload name node) (\<lambda>_.
     ret (ROkCid c))))"

definition apply_genesis_rule ::
  "'w crud_env \<Rightarrow> string \<Rightarrow> string list \<Rightarrow> string \<Rightarrow> cid \<Rightarrow> entity_node \<Rightarrow> kind_node option \<Rightarrow> ('w, crud_reply) crud" where
  "apply_genesis_rule E from owners name c node kind =
     (case kind of
        None \<Rightarrow> finish_upsert E name c node
      | Some k \<Rightarrow>
          if is_genesis_entity k node
          then (if \<not> is_owner (ce_core E) owners from
                then ret (RI18n ''genesis-kind-owner-only'')
                else finish_upsert E name c (node\<lparr>en_parent := None\<rparr>))
          else finish_upsert E name c node)"

definition handle_entity_upsert ::
  "'w crud_env \<Rightarrow> string \<Rightarrow> string \<Rightarrow> string \<Rightarrow> ('w, crud_reply) crud" where
  "handle_entity_upsert E from name raw =
     (if has_control name then ret (RI18n ''entity-name-invalid'')
      else if name \<in> set RESERVED_ENTITY_NAMES then ret (RI18nf ''reserved-entity-name'' [(''name'', name)])
      else (case cidv1_ref E raw of
              None \<Rightarrow> ret (RI18n ''cidv1-required'')
            | Some c \<Rightarrow>
                and_then (fetch_entity E c) (\<lambda>node.
                and_then (check_management E from [en_kind node]) (\<lambda>_.
                and_then (resolve_kind_node_for_upsert E (en_kind node)) (\<lambda>kind.
                and_then (gets ct_owners) (\<lambda>owners.
                apply_genesis_rule E from owners name c node kind))))))"

fun handle_single_entity ::
  "'w crud_env \<Rightarrow> string \<Rightarrow> string \<Rightarrow> string option \<Rightarrow> cbor list \<Rightarrow> ('w, crud_reply) crud" where
  "handle_single_entity E from name None [] = handle_entity_get E name"
| "handle_single_entity E from name (Some []) [] = handle_entity_delete E from name"
| "handle_single_entity E from name (Some []) [CText raw] = handle_entity_upsert E from name raw"
| "handle_single_entity E from name tail args = fail (CeUnknownOp ''entities'')"

definition fetch_entity_node :: "'w crud_env \<Rightarrow> string \<Rightarrow> ('w, entity_node) crud" where
  "fetch_entity_node E name =
     and_then (load_manifest E) (\<lambda>m.
       case map_of (rm_entities m) name of
         None \<Rightarrow> fail (CeEntityMissing name)
       | Some link \<Rightarrow> fetch_entity E link)"

definition publish_entity_node :: "'w crud_env \<Rightarrow> string \<Rightarrow> entity_node \<Rightarrow> ('w, cid) crud" where
  "publish_entity_node E name node =
     and_then (\<lambda>(w, s). case dag_put_entity (ce_kubo E) w node of
                  (w', None) \<Rightarrow> ((w', s), Inl CePublish) | (w', Some c) \<Rightarrow> ((w', s), Inr c)) (\<lambda>c.
     and_then (with_manifest_crud E (\<lambda>m. m\<lparr>rm_entities := AList.update name c (rm_entities m)\<rparr>)) (\<lambda>_.
     ret c))"

definition write_entity_acl :: "'w crud_env \<Rightarrow> string \<Rightarrow> string \<Rightarrow> ('w, crud_reply) crud" where
  "write_entity_acl E name acl_name =
     and_then (fetch_entity_node E name) (\<lambda>node.
     (let node' = node\<lparr>en_acl := acl_name\<rparr> in
      and_then (publish_entity_node E name node') (\<lambda>c.
      and_then (runtime_config_snapshot E) (\<lambda>_.
      and_then (spawn_reload name node') (\<lambda>_.
      ret (ROkCid c))))))"

fun handle_entity_acl_field ::
  "'w crud_env \<Rightarrow> string \<Rightarrow> string list \<Rightarrow> string option \<Rightarrow> cbor list \<Rightarrow> ('w, crud_reply) crud" where
  "handle_entity_acl_field E name (x # xs) tail args = fail (CeUnknownOp ''acl'')"
| "handle_entity_acl_field E name [] None [] =
     and_then (fetch_entity_node E name) (\<lambda>node. ret (RCbor (CText (en_acl node))))"
| "handle_entity_acl_field E name [] (Some []) [CText acl_name] =
     and_then (load_manifest E) (\<lambda>m.
       if map_of (rm_acls m) acl_name = None then fail (CeAclMissing acl_name)
       else write_entity_acl E name acl_name)"
| "handle_entity_acl_field E name [] (Some []) [] = write_entity_acl E name []"
| "handle_entity_acl_field E name [] tail args = fail (CeUnknownOp ''acl'')"

text \<open>The generic GET serialises the node and looks the field up in the resulting map.\<close>

definition entity_field_get :: "'w crud_env \<Rightarrow> string \<Rightarrow> string \<Rightarrow> ('w, crud_reply) crud" where
  "entity_field_get E name field =
     and_then (fetch_entity_node E name) (\<lambda>node.
       case ce_entity_cbor E node of
         Some (CMap entries) \<Rightarrow>
           (case find (\<lambda>(k, v). k = CText field) entries of
              Some (_, value) \<Rightarrow> ret (RData value)
            | None \<Rightarrow> fail (CeFieldMissing field))
       | _ \<Rightarrow> fail (CeFieldMissing field))"

fun handle_entity_field ::
  "'w crud_env \<Rightarrow> string \<Rightarrow> string list \<Rightarrow> string option \<Rightarrow> cbor list \<Rightarrow> ('w, crud_reply) crud" where
  "handle_entity_field E name [] tail args = fail (CeFieldMissing [])"
| "handle_entity_field E name (field # sub_path) tail args =
     (if tail = None \<and> args = [] \<and> sub_path = [] then entity_field_get E name field
      else if field = ''acl'' then handle_entity_acl_field E name sub_path tail args
      else fail (CeUnknownOp field))"

fun handle_entities_ns ::
  "'w crud_env \<Rightarrow> string \<Rightarrow> string list \<Rightarrow> string option \<Rightarrow> cbor list \<Rightarrow> ('w, crud_reply) crud" where
  "handle_entities_ns E from [] None [] = and_then (gets (\<lambda>s. map fst (ct_plugins s))) (\<lambda>names. ret (RData (CArray (map CText names))))"
| "handle_entities_ns E from [] (Some []) args = ret (RI18n ''refuse-delete-root'')"
| "handle_entities_ns E from [] tail args = fail (CeUnknownOp ''entities'')"
| "handle_entities_ns E from [name] tail args = handle_single_entity E from name tail args"
| "handle_entities_ns E from (name # f # fs) tail args = handle_entity_field E name (f # fs) tail args"

section \<open>Configuration\<close>

definition combined_config :: "daemon_config \<Rightarrow> yaml btree_map \<Rightarrow> yaml btree_map" where
  "combined_config cfg manifest_config =
     (let c = fold (\<lambda>key c. case default_manifest_config_value key of
                      Some d \<Rightarrow> if map_of c key = None then bt_insert key d c else c
                    | None \<Rightarrow> c)
                [''operator'', ''name'', ''description'', ''plugin_envelope_queue_capacity''] manifest_config
      in fold (\<lambda>key c. let v = daemon_config_key_value cfg key
                        in if v = YNull then c else bt_insert key v c) DAEMON_CONFIG_KEYS c)"

fun handle_config_root ::
  "'w crud_env \<Rightarrow> string option \<Rightarrow> cbor list \<Rightarrow> ('w, crud_reply) crud" where
  "handle_config_root E None [] =
     and_then (load_manifest E) (\<lambda>m.
     and_then (gets ct_config) (\<lambda>cfg. ret (RYamlMap (combined_config cfg (rm_config m)))))"
| "handle_config_root E (Some []) args = ret (RI18n ''refuse-delete-root'')"
| "handle_config_root E tail args = fail (CeUnknownOp ''config'')"

definition config_value_reply :: "'w crud_env \<Rightarrow> yaml \<Rightarrow> crud_reply" where
  "config_value_reply E val =
     (case val of
        YString s \<Rightarrow> (case cidv1_ref E s of Some c \<Rightarrow> RCbor (CText c) | None \<Rightarrow> RYaml val)
      | _ \<Rightarrow> RYaml val)"

definition handle_config_key_get :: "'w crud_env \<Rightarrow> string \<Rightarrow> ('w, crud_reply) crud" where
  "handle_config_key_get E key =
     (if key \<in> set DAEMON_CONFIG_KEYS
      then and_then (gets (\<lambda>s. daemon_config_key_value (ct_config s) key)) (\<lambda>v. ret (config_value_reply E v))
      else
        and_then (load_manifest E) (\<lambda>m.
          case map_of (rm_config m) key of
            Some v \<Rightarrow> ret (config_value_reply E v)
          | None \<Rightarrow>
              (case default_manifest_config_value key of
                 Some v \<Rightarrow> ret (config_value_reply E v)
               | None \<Rightarrow> ret (RError ''config-not-found''))))"

definition handle_config_key_delete :: "'w crud_env \<Rightarrow> string \<Rightarrow> ('w, crud_reply) crud" where
  "handle_config_key_delete E key =
     (if key \<in> set DAEMON_CONFIG_KEYS then ret (RI18nf ''config-key-no-delete'' [(''key'', key)])
      else
        and_then (load_manifest E) (\<lambda>m.
          if map_of (rm_config m) key = None then ret (RError ''config-not-found'')
          else
            and_then (with_manifest_crud E (\<lambda>m. m\<lparr>rm_config := bt_remove key (rm_config m)\<rparr>)) (\<lambda>_. ret ROk)))"

text \<open>Saving \<open>config.yaml\<close> is best effort, so it is recorded and never fails.\<close>

definition write_daemon_key :: "string \<Rightarrow> yaml \<Rightarrow> ('w, unit) crud" where
  "write_daemon_key key val = modify (\<lambda>s.
     let cfg = set_daemon_config_key key val (ct_config s)
     in s\<lparr>ct_config := cfg, ct_saved := cfg # ct_saved s\<rparr>)"

definition lift_setting :: "setting_error + 'a \<Rightarrow> ('w, 'a) crud" where
  "lift_setting r = (case r of Inl e \<Rightarrow> fail (CeSetting e) | Inr x \<Rightarrow> ret x)"

definition ipv6_value :: "yaml option \<Rightarrow> bool" where
  "ipv6_value v = (case Option.bind v yaml_as_bool of None \<Rightarrow> True | Some b \<Rightarrow> b)"

definition set_ipv6 :: "yaml \<Rightarrow> ('w, crud_reply) crud" where
  "set_ipv6 val =
     and_then (gets (\<lambda>s. ipv6_value (map_of (dc_extra (ct_config s)) ''ipv6_enable''))) (\<lambda>current.
       if ipv6_value (Some val) = current then ret (ROkPath ''ipv6-enable-unchanged'')
       else and_then (write_daemon_key ''ipv6_enable'' val) (\<lambda>_. ret (ROkPath ''ipv6-enable-restart-required'')))"

definition set_daemon_key :: "string \<Rightarrow> yaml \<Rightarrow> ('w, crud_reply) crud" where
  "set_daemon_key key val =
     and_then (if key = ''did_refresh_interval_secs''
               then and_then (lift_setting (did_refresh_interval_secs (Some val))) (\<lambda>n. ret (Some n))
               else ret None) (\<lambda>interval.
     and_then (if key = ''outbox_backoff_attempts''
               then and_then (lift_setting (outbox_backoff_attempts (Some val))) (\<lambda>n.
                      modify (\<lambda>s. s\<lparr>ct_backoff := map_option (\<lambda>_. n) (ct_backoff s)\<rparr>))
               else ret ()) (\<lambda>_.
     and_then (write_daemon_key key val) (\<lambda>_.
     and_then (modify (\<lambda>s. case interval of None \<Rightarrow> s | Some n \<Rightarrow> s\<lparr>ct_refresh := map_option (\<lambda>_. n) (ct_refresh s)\<rparr>)) (\<lambda>_.
     ret ROk))))"

definition set_manifest_key :: "'w crud_env \<Rightarrow> string \<Rightarrow> yaml \<Rightarrow> ('w, crud_reply) crud" where
  "set_manifest_key E key val =
     (if key \<notin> set MANIFEST_CONFIG_KEYS then ret (RI18nf ''config-key-not-manifest'' [(''key'', key)])
      else
        and_then (if key = ''plugin_envelope_queue_capacity''
                  then and_then (lift_setting (plugin_envelope_queue_capacity (Some val))) (\<lambda>_. ret ())
                  else ret ()) (\<lambda>_.
        and_then (with_manifest_crud E (\<lambda>m. m\<lparr>rm_config := bt_insert key val (rm_config m)\<rparr>)) (\<lambda>new_root.
        and_then (modify (\<lambda>s. if key = ''i18n''
                              then (case val of YString lang \<Rightarrow> s\<lparr>ct_langs := lang # ct_langs s\<rparr> | _ \<Rightarrow> s)
                              else s)) (\<lambda>_.
        ret (ROkCid (case val of
               YString str \<Rightarrow> (case cidv1_ref E str of Some c \<Rightarrow> c | None \<Rightarrow> new_root)
             | _ \<Rightarrow> new_root))))))"

definition handle_config_key_set :: "'w crud_env \<Rightarrow> string \<Rightarrow> yaml \<Rightarrow> ('w, crud_reply) crud" where
  "handle_config_key_set E key val =
     (if key = ''ipv6_enable'' then set_ipv6 val
      else if key \<in> set DAEMON_CONFIG_KEYS then set_daemon_key key val
      else set_manifest_key E key val)"

fun handle_config_key ::
  "'w crud_env \<Rightarrow> string \<Rightarrow> string option \<Rightarrow> cbor list \<Rightarrow> ('w, crud_reply) crud" where
  "handle_config_key E key None [] = handle_config_key_get E key"
| "handle_config_key E key (Some []) [] = handle_config_key_delete E key"
| "handle_config_key E key (Some []) [v] = handle_config_key_set E key (cbor_to_yaml (ce_fmt E) v)"
| "handle_config_key E key tail args = fail (CeUnknownOp ''config'')"

fun handle_config_ns ::
  "'w crud_env \<Rightarrow> string list \<Rightarrow> string option \<Rightarrow> cbor list \<Rightarrow> ('w, crud_reply) crud" where
  "handle_config_ns E [] tail args = handle_config_root E tail args"
| "handle_config_ns E [key] tail args =
     (if is_protected_config_key key then ret (RI18nf ''config-key-protected'' [(''key'', key)])
      else handle_config_key E key tail args)"
| "handle_config_ns E (k # k' # ks) tail args = fail (CeUnknownOp ''config'')"

section \<open>Dispatch\<close>

record crud_message =
  cm_from :: string
  cm_type :: string
  cm_payload :: bytes

definition MESSAGE_TYPE_CRUD :: string where
  "MESSAGE_TYPE_CRUD = ''application/vnd.ma.crud.request''"

definition route_op ::
  "'w crud_env \<Rightarrow> (string set \<Rightarrow> string list) \<Rightarrow> string \<Rightarrow> string \<Rightarrow> string list \<Rightarrow> string option \<Rightarrow> cbor list
     \<Rightarrow> ('w, crud_reply) crud" where
  "route_op E order from ns rest tail args =
     (if ns = ''entities'' then handle_entities_ns E from rest tail args
      else if ns = ''kinds'' then handle_kinds_ns E order rest tail args
      else if ns = ''config'' then handle_config_ns E rest tail args
      else if ns = ''acl'' then handle_root_acl E tail args
      else if ns = ''acls'' then handle_root_acls E rest tail args
      else if ns = ''grp'' then handle_root_grp E rest tail args
      else handle_config_ns E (ns # rest) tail args)"

fun op_parts :: "crud_op \<Rightarrow> string \<times> string option \<times> cbor list" where
  "op_parts (OGet path) = (path, None, [])"
| "op_parts (OSet path value) = (path, Some [], [value])"
| "op_parts (ODelete path) = (path, Some [], [])"

definition dispatch_management ::
  "'w crud_env \<Rightarrow> (string set \<Rightarrow> string list) \<Rightarrow> crud_message \<Rightarrow> ('w, crud_reply) crud" where
  "dispatch_management E order msg =
     (if cm_type msg \<noteq> MESSAGE_TYPE_CRUD
      then ret (RI18nf ''wrong-crud-protocol'' [(''type'', cm_type msg)])
      else if cm_payload msg = [] then ret (RError ''empty CRUD payload'')
      else (case decode_crud_payload (ce_decode E) (cm_payload msg) of
              Inl e \<Rightarrow> fail e
            | Inr op \<Rightarrow>
                (case op_parts op of (path, tail, args) \<Rightarrow>
                   (case parse_path path of
                      Inl e \<Rightarrow> fail e
                    | Inr (ns, rest) \<Rightarrow> route_op E order (cm_from msg) ns rest tail args))))"

text \<open>The transport ACL is a snapshot the caller passes.\<close>

definition handle_crud_message ::
  "'w crud_env \<Rightarrow> (string set \<Rightarrow> string list) \<Rightarrow> acl_map \<Rightarrow> crud_message \<Rightarrow> ('w, crud_reply) crud" where
  "handle_crud_message E order acl msg = (\<lambda>(w, s).
     case crud_gate (ce_core E) (ct_owners s) acl (ct_group_cache s) (cm_from msg) of
       Inl e \<Rightarrow> ((w, s), Inl (CeDenied e))
     | Inr _ \<Rightarrow> dispatch_management E order msg (w, s))"

section \<open>Lemmas\<close>

abbreviation state_manifest :: "'w crud_env \<Rightarrow> 'w \<times> crud_state \<Rightarrow> runtime_manifest option" where
  "state_manifest E ws \<equiv> current (ce_kubo E) (fst ws, ct_writer (snd ws))"

abbreviation state_coherent :: "'w crud_env \<Rightarrow> 'w \<times> crud_state \<Rightarrow> bool" where
  "state_coherent E ws \<equiv> coherent (ce_kubo E) (fst ws, ct_writer (snd ws))"

lemma update_stats_frame [simp]:
  "ct_writer (update_stats_entities s) = ct_writer s" "ct_owners (update_stats_entities s) = ct_owners s"
  "ct_plugins (update_stats_entities s) = ct_plugins s" "ct_kinds (update_stats_entities s) = ct_kinds s"
  "ct_acl_cache (update_stats_entities s) = ct_acl_cache s"
  "ct_group_cache (update_stats_entities s) = ct_group_cache s"
  "ct_root_acl (update_stats_entities s) = ct_root_acl s" "ct_config (update_stats_entities s) = ct_config s"
  "ct_reloads (update_stats_entities s) = ct_reloads s"
  by (simp_all add: update_stats_entities_def)

lemma and_then_Inr:
  "and_then m f ws = (ws', Inr y) \<longleftrightarrow> (\<exists>ws1 x. m ws = (ws1, Inr x) \<and> f x ws1 = (ws', Inr y))"
  by (auto simp: and_then_def split: prod.splits sum.splits)

lemma monad_Inr:
  "ret x ws = (ws', Inr y) \<longleftrightarrow> ws' = ws \<and> y = x"
  "fail e ws = (ws', Inr y) \<longleftrightarrow> False"
  "gets g ws = (ws', Inr z) \<longleftrightarrow> ws' = ws \<and> z = g (snd ws)"
  "modify h ws = (ws', Inr u) \<longleftrightarrow> ws' = (fst ws, h (snd ws))"
  "asks k ws = (ws', Inr v) \<longleftrightarrow> ws' = ws \<and> k (fst ws) (snd ws) = Inr v"
  by (auto simp: crud_monad_defs split: prod.splits)

lemmas crud_run = and_then_Inr monad_Inr

lemma load_manifest_coherent:
  assumes "state_coherent E ws" and "load_manifest E ws = (ws', Inr m)"
  shows "ws' = ws \<and> state_manifest E ws = Some m"
  using assms by (auto simp: load_manifest_def monad_Inr coherent_def current_def split: option.splits)

lemma with_manifest_Inr:
  assumes "state_coherent E ws" and "with_manifest_crud E f ws = (ws', Inr c)"
  shows "\<exists>m. state_manifest E ws = Some m \<and> state_manifest E ws' = Some (f m)"
    and "state_coherent E ws'" and "node_keeps (ce_kubo E) (fst ws) (fst ws')"
    and "snd ws' = update_stats_entities ((snd ws)\<lparr>ct_writer := ct_writer (snd ws')\<rparr>)"
proof -
  obtain w s where ws: "ws = (w, s)" by (cases ws)
  obtain w' wr where m: "mutate (ce_kubo E) (\<lambda>m. Inr (f m)) w (ct_writer s) = (w', wr, Inr c)"
    and ws': "ws' = (w', update_stats_entities (s\<lparr>ct_writer := wr\<rparr>))"
    using assms(2) by (auto simp: with_manifest_crud_def ws split: prod.splits sum.splits)
  note ok = mutate_ok[OF _ m] 
  show "\<exists>m. state_manifest E ws = Some m \<and> state_manifest E ws' = Some (f m)"
    "state_coherent E ws'" "node_keeps (ce_kubo E) (fst ws) (fst ws')"
    using ok assms(1) ws ws' by auto
  show "snd ws' = update_stats_entities ((snd ws)\<lparr>ct_writer := ct_writer (snd ws')\<rparr>)"
    using ws ws' by (simp add: update_stats_entities_def)
qed

lemma runtime_config_snapshot_Inr:
  "runtime_config_snapshot E ws = (ws', Inr cfg) \<Longrightarrow> ws' = ws"
  by (auto simp: runtime_config_snapshot_def load_manifest_def crud_run)

lemma cidv1_ref_Some: "cidv1_ref E raw = Some c \<Longrightarrow> c = raw \<and> is_cidv1_ref E raw"
  by (auto simp: cidv1_ref_def split: if_splits)

lemma finish_upsert_Inr:
  assumes "state_coherent E ws" and "finish_upsert E name c node ws = (ws', Inr r)"
  shows "r = ROkCid c
     \<and> (\<exists>m. state_manifest E ws = Some m
          \<and> state_manifest E ws' = Some (m\<lparr>rm_entities := AList.update name c (rm_entities m)\<rparr>))
     \<and> state_coherent E ws' \<and> node_keeps (ce_kubo E) (fst ws) (fst ws')
     \<and> ct_reloads (snd ws') = (name, node) # ct_reloads (snd ws)"
proof -
  obtain ws1 root ws2 cfg where w: "with_manifest_crud E (\<lambda>m. m\<lparr>rm_entities := AList.update name c (rm_entities m)\<rparr>) ws = (ws1, Inr root)"
    "runtime_config_snapshot E ws1 = (ws2, Inr cfg)" "ws' = (fst ws2, (snd ws2)\<lparr>ct_reloads := (name, node) # ct_reloads (snd ws2)\<rparr>)"
    "r = ROkCid c"
    using assms(2) by (auto simp: finish_upsert_def spawn_reload_def crud_run)
  note m = with_manifest_Inr[OF assms(1) w(1)]
  have "ct_reloads (snd ws1) = ct_reloads (snd ws)" by (subst m(4)) simp
  with m w runtime_config_snapshot_Inr[OF w(2)] show ?thesis by simp
qed

text \<open>The shape of a successful upsert.\<close>

lemma handle_entity_upsert_Inr:
  assumes "handle_entity_upsert E from name raw ws = (ws', Inr (ROkCid c))"
  shows "\<exists>node kind. \<not> has_control name \<and> name \<notin> set RESERVED_ENTITY_NAMES \<and> cidv1_ref E raw = Some c
     \<and> dag_get_entity (ce_kubo E) (fst ws) c = Some node
     \<and> check_entity_management_cap (ce_core E) (ct_root_acl (snd ws)) (ct_group_cache (snd ws)) from [en_kind node] = Inr ()
     \<and> resolve_kind_node_for_upsert E (en_kind node) ws = (ws, Inr kind)
     \<and> (if (\<exists>k. kind = Some k \<and> is_genesis_entity k node)
        then is_owner (ce_core E) (ct_owners (snd ws)) from
             \<and> finish_upsert E name c (node\<lparr>en_parent := None\<rparr>) ws = (ws', Inr (ROkCid c))
        else finish_upsert E name c node ws = (ws', Inr (ROkCid c)))"
proof -
  obtain c' where guards: "\<not> has_control name" "name \<notin> set RESERVED_ENTITY_NAMES" "cidv1_ref E raw = Some c'"
    using assms by (auto simp: handle_entity_upsert_def monad_Inr split: if_splits option.splits)
  from assms guards obtain node kind ws1 where
    n: "dag_get_entity (ce_kubo E) (fst ws) c' = Some node"
      "check_entity_management_cap (ce_core E) (ct_root_acl (snd ws)) (ct_group_cache (snd ws)) from [en_kind node] = Inr ()"
      "resolve_kind_node_for_upsert E (en_kind node) ws = (ws1, Inr kind)"
    and rest: "apply_genesis_rule E from (ct_owners (snd ws1)) name c' node kind ws1 = (ws', Inr (ROkCid c))"
    by (auto simp: handle_entity_upsert_def crud_run fetch_entity_def check_management_def
        split: option.splits sum.splits)
  have ws1: "ws1 = ws"
    using n(3) by (auto simp: resolve_kind_node_for_upsert_def crud_run load_manifest_def fetch_kind_def
        resolve_if_extends_def split: option.splits if_splits sum.splits)
  have "c' = c"
    using rest by (auto simp: apply_genesis_rule_def finish_upsert_def crud_run split: option.splits if_splits)
  with guards n ws1 rest show ?thesis
    by (intro exI[of _ node] exI[of _ kind])
       (auto simp: apply_genesis_rule_def monad_Inr split: option.splits if_splits)
qed

section \<open>An environment for the witnesses\<close>

definition sample_env :: "doc list crud_env" where
  "sample_env = \<lparr>ce_kubo = mem_kubo, ce_core = sample_core,
     ce_fmt = \<lparr>real_text = (\<lambda>_. []), yaml_text = (\<lambda>_. None), debug_text = (\<lambda>_. [])\<rparr>,
     ce_cidv1 = (\<lambda>_. True), ce_entity_cbor = (\<lambda>_. None),
     ce_decode = (\<lambda>b. if b = [1] then Some (CArray [CText ''/grp/owners'', CText (mem_cid 2)]) else None)\<rparr>"

definition sample_docs :: "doc list" where
  "sample_docs = [EntityDoc (sample_entity\<lparr>en_parent := Some ''did:ma:x#lobby'', en_attributes := [(''genesis'', JBool True)]\<rparr>),
     ManifestDoc empty_manifest, StringsDoc [''did:ma:eve''], AclDoc [(''*'', Allow {'':help''})]]"

definition sample_crud :: crud_state where
  "sample_crud = \<lparr>ct_writer = sample_writer, ct_owners = [''did:ma:alice''], ct_entity_names = [], ct_plugins = [],
     ct_kinds = [(''/ma/actor'', sample_base)], ct_config = sample_config, ct_acl_cache = [], ct_group_cache = [],
     ct_root_acl = [(''did:ma:alice'', Allow {''*''})], ct_backoff = None,
     ct_refresh = None, ct_saved = [], ct_langs = [], ct_terminated = [], ct_reloads = []\<rparr>"

lemma sample_env_simps [simp]:
  "ce_kubo sample_env = mem_kubo" "ce_core sample_env = sample_core"
  "is_cidv1_ref sample_env (mem_cid n) = True" "cidv1_ref sample_env (mem_cid n) = Some (mem_cid n)"
  "ce_decode sample_env [1] = Some (CArray [CText ''/grp/owners'', CText (mem_cid 2)])"
  by (simp_all add: sample_env_def is_cidv1_ref_def cidv1_ref_def mem_cid_def starts_with_def)

lemma sample_crud_coherent: "state_coherent sample_env (sample_docs, sample_crud)"
  by (simp add: coherent_def mem_kubo_ok sample_crud_def sample_writer_def writer_new_def)

lemmas crud_eval = crud_monad_defs load_manifest_def with_manifest_crud_def group_cache_update_def
  load_acl_from_cid_def fetch_entity_def writer_defs sample_docs_def sample_crud_def sample_writer_def
  writer_new_def update_stats_entities_def

section \<open>Properties\<close>

text \<open>
  Secrets are out of reach: for a protected key every operation, whatever its arguments and
  whether addressed as \<open>/config/key\<close> or directly, is refused with the same answer and leaves
  world and state untouched, and a refused caller changes nothing at all.
\<close>

theorem protected_config_unreachable:
  assumes "is_protected_config_key key"
  shows "route_op E order from ''config'' [key] tail args ws = (ws, Inr (RI18nf ''config-key-protected'' [(''key'', key)]))
     \<and> route_op E order from key [] tail args ws = (ws, Inr (RI18nf ''config-key-protected'' [(''key'', key)]))
     \<and> (crud_gate (ce_core E) (ct_owners (snd ws)) acl (ct_group_cache (snd ws)) (cm_from msg) = Inl e
          \<longrightarrow> handle_crud_message E order acl msg ws = (ws, Inl (CeDenied e)))"
proof -
  have "key \<notin> {''entities'', ''kinds'', ''config'', ''acl'', ''acls'', ''grp''}"
    using assms by (auto simp: is_protected_config_key_def PROTECTED_CONFIG_KEYS_def starts_with_def)
  then show ?thesis
    using assms by (cases ws) (auto simp: route_op_def ret_def handle_crud_message_def)
qed

theorem protected_config_unreachable_witness:
  "route_op sample_env sorted_list_of_set ''did:ma:alice'' ''secret_bundle'' [] None [] (sample_docs, sample_crud)
     = ((sample_docs, sample_crud), Inr (RI18nf ''config-key-protected'' [(''key'', ''secret_bundle'')]))"
  using protected_config_unreachable[of "''secret_bundle''" sample_env sorted_list_of_set "''did:ma:alice''"
      None "[]" "(sample_docs, sample_crud)"]
  by (simp add: is_protected_config_key_def PROTECTED_CONFIG_KEYS_def)

lemma owners_set_Inr:
  assumes "state_coherent E ws" and "hm_inv (ct_root_acl (snd ws))" and "hm_inv (ct_group_cache (snd ws))"
    and "dag_get_strings (ce_kubo E) (fst ws) c = Some members" and "cidv1_ref E raw = Some c"
    and "handle_root_grp E [''owners''] (Some []) [CText raw] ws = (ws', Inr r)"
  shows "ct_owners (snd ws') = members
     \<and> map_of (ct_root_acl (snd ws')) k = (if k \<in> set members then Some (Allow {''*''}) else map_of (ct_root_acl (snd ws)) k)
     \<and> (\<exists>m. state_manifest E ws' = Some m \<and> map_of (rm_grp m) ''owners'' = Some c)"
proof -
  obtain ws1 root ws2 where w: "with_manifest_crud E (\<lambda>m. m\<lparr>rm_grp := AList.update ''owners'' c (rm_grp m)\<rparr>) ws = (ws1, Inr root)"
    "group_cache_update E ''owners'' c ws1 = (ws2, Inr ())" "ws' = (fst ws2, sync_owners (snd ws2))"
    using assms(5,6) by (auto simp: crud_run OWNERS_GROUP_def)
  note m = with_manifest_Inr[OF assms(1) w(1)]
  have same: "ct_root_acl (snd ws1) = ct_root_acl (snd ws)" "ct_group_cache (snd ws1) = ct_group_cache (snd ws)"
    by (subst m(4), simp)+
  have "dag_get_strings (ce_kubo E) (fst ws1) c = Some members"
    using node_keeps_strings[OF m(3) assms(4)] .
  with w(2) same have ws2: "ws2 = (fst ws1, (snd ws1)\<lparr>ct_group_cache := AList.update ''owners'' members (ct_group_cache (snd ws1))\<rparr>)"
    by (cases ws1) (auto simp: group_cache_update_def)
  have own: "ct_owners (snd ws') = members \<and> ct_root_acl (snd ws') = grant_owners_in_acl (ct_root_acl (snd ws)) members"
    using w(3) ws2 same by (simp add: sync_owners_def Let_def OWNERS_GROUP_def map_of_update)
  moreover have "\<exists>m. state_manifest E ws' = Some m \<and> map_of (rm_grp m) ''owners'' = Some c"
    using m(1) w(3) ws2 by (auto simp: sync_owners_def Let_def map_of_update)
  ultimately show ?thesis using grant_owners_lookup[OF assms(2), of members k] by simp
qed

text \<open>
  C13 (CRUD). The capability \<open>crud\<close> is as good as ownership: any sender that passes the gate can point
  the group \<open>owners\<close> at a list of its own choice; when the message succeeds that list is the
  owner list of the runtime and every member holds every capability in the root ACL.
\<close>

theorem crud_capability_takes_ownership:
  assumes "state_coherent E ws" and "hm_inv (ct_root_acl (snd ws))" and "hm_inv (ct_group_cache (snd ws))"
    and "crud_gate (ce_core E) (ct_owners (snd ws)) acl (ct_group_cache (snd ws)) (cm_from msg) = Inr ()"
    and "cm_type msg = MESSAGE_TYPE_CRUD" and "cm_payload msg \<noteq> []"
    and "ce_decode E (cm_payload msg) = Some (CArray [CText ''/grp/owners'', CText raw])"
    and "raw \<noteq> []" and "cidv1_ref E raw = Some c" and "dag_get_strings (ce_kubo E) (fst ws) c = Some members"
    and "handle_crud_message E order acl msg ws = (ws', Inr r)"
  shows "ct_owners (snd ws') = members
     \<and> (\<forall>d\<in>set members. map_of (ct_root_acl (snd ws')) d = Some (Allow {''*''}))"
proof -
  have "handle_root_grp E [''owners''] (Some []) [CText raw] ws = (ws', Inr r)"
    using assms(4-8,11)
    by (cases ws) (simp add: handle_crud_message_def dispatch_management_def decode_crud_payload_def
        parse_path_def route_op_def)
  from owners_set_Inr[OF assms(1-3,10,9) this] show ?thesis by auto
qed

definition eve_message :: crud_message where
  "eve_message = \<lparr>cm_from = ''did:ma:eve'', cm_type = MESSAGE_TYPE_CRUD, cm_payload = [1]\<rparr>"

lemma eve_gate: "crud_gate sample_core [''did:ma:alice''] [(''did:ma:eve'', Allow {''crud''})] [] ''did:ma:eve'' = Inr ()"
  by (simp add: crud_gate_def is_owner_def check_full_Inr_iff sample_defs cap_crud_def)

lemma sample_owners_run:
  "\<exists>ws' r. handle_root_grp sample_env [''owners''] (Some []) [CText (mem_cid 2)] (sample_docs, sample_crud) = (ws', Inr r)"
  by (simp add: crud_eval OWNERS_GROUP_def sample_env_simps)

theorem crud_capability_takes_ownership_witness:
  "\<exists>ws' r. handle_crud_message sample_env sorted_list_of_set [(''did:ma:eve'', Allow {''crud''})] eve_message
      (sample_docs, sample_crud) = (ws', Inr r) \<and> ct_owners (snd ws') = [''did:ma:eve'']"
proof -
  have mem: "mem_cid 2 \<noteq> []" by (simp add: mem_cid_def)
  have gate: "crud_gate (ce_core sample_env) (ct_owners (snd (sample_docs, sample_crud))) [(''did:ma:eve'', Allow {''crud''})]
      (ct_group_cache (snd (sample_docs, sample_crud))) (cm_from eve_message) = Inr ()"
    using eve_gate by (simp add: sample_crud_def eve_message_def)
  from sample_owners_run obtain ws' r where
    "handle_root_grp sample_env [''owners''] (Some []) [CText (mem_cid 2)] (sample_docs, sample_crud) = (ws', Inr r)" by blast
  then have run: "handle_crud_message sample_env sorted_list_of_set [(''did:ma:eve'', Allow {''crud''})] eve_message
      (sample_docs, sample_crud) = (ws', Inr r)"
    using gate mem by (simp add: handle_crud_message_def dispatch_management_def decode_crud_payload_def
        parse_path_def route_op_def eve_message_def sample_env_simps(5))
  have "ct_owners (snd ws') = [''did:ma:eve'']"
    using crud_capability_takes_ownership[OF sample_crud_coherent _ _ gate _ _ _ mem _ _ run,
        of "mem_cid 2" "[''did:ma:eve'']"]
    by (simp add: sample_crud_def hm_inv_def eve_message_def sample_docs_def)
  with run show ?thesis by blast
qed

text \<open>
  Ownership is granted but not revoked in the live ACL: after the owners are replaced, a former
  owner is no longer in the owner list but keeps the entry with every capability that the
  earlier grant put into the root ACL.
\<close>

theorem former_owner_keeps_access:
  assumes "state_coherent E ws" and "hm_inv (ct_root_acl (snd ws))" and "hm_inv (ct_group_cache (snd ws))"
    and "dag_get_strings (ce_kubo E) (fst ws) c = Some members" and "cidv1_ref E raw = Some c"
    and "handle_root_grp E [''owners''] (Some []) [CText raw] ws = (ws', Inr r)"
    and "d \<in> set (ct_owners (snd ws))" and "d \<notin> set members"
    and "map_of (ct_root_acl (snd ws)) d = Some (Allow {''*''})"
  shows "d \<notin> set (ct_owners (snd ws')) \<and> map_of (ct_root_acl (snd ws')) d = Some (Allow {''*''})"
  using owners_set_Inr[OF assms(1-6), of d] assms(8,9) by simp

theorem former_owner_keeps_access_witness:
  "\<exists>ws' r. handle_root_grp sample_env [''owners''] (Some []) [CText (mem_cid 2)] (sample_docs, sample_crud) = (ws', Inr r)
     \<and> map_of (ct_root_acl (snd ws')) ''did:ma:alice'' = Some (Allow {''*''})"
proof -
  from sample_owners_run obtain ws' r where
    run: "handle_root_grp sample_env [''owners''] (Some []) [CText (mem_cid 2)] (sample_docs, sample_crud) = (ws', Inr r)" by blast
  have "map_of (ct_root_acl (snd ws')) ''did:ma:alice'' = Some (Allow {''*''})"
    using former_owner_keeps_access[OF sample_crud_coherent _ _ _ _ run, of "mem_cid 2" "[''did:ma:eve'']" "''did:ma:alice''"]
    by (simp add: sample_crud_def hm_inv_def sample_docs_def)
  with run show ?thesis by blast
qed

end
