(* ===== verification/EntityState.thy ===== *)
theory EntityState
  imports Manifest
begin

text \<open>
  The state an entity queues with \<open>ma_set_state\<close> and how it reaches IPFS: \<open>StateCtx\<close>
  (\<open>src/plugin/backend.rs\<close>) and the background persist loop (\<open>run_state_persist_loop\<close> in
  \<open>src/plugin/mod.rs\<close>).  The loop runs beside the entity's worker, so one round of it takes as
  argument what happened meanwhile: the states the entity queued, what others did to node and
  manifest, and whether the two messages of the round reached the worker.
\<close>

section \<open>State context\<close>

record state_ctx =
  sc_pending :: "bytes option"
  sc_persisted :: "bytes option"
  sc_dirty :: bool
  sc_generation :: u64

definition state_ctx_new :: "bytes \<Rightarrow> state_ctx" where
  "state_ctx_new persisted =
     \<lparr>sc_pending = None, sc_persisted = Some persisted, sc_dirty = False, sc_generation = 0\<rparr>"

definition mark_saved :: "bytes \<Rightarrow> state_ctx \<Rightarrow> state_ctx" where
  "mark_saved b c =
     (let c = c\<lparr>sc_persisted := Some b\<rparr>
      in if sc_pending c = Some b then c\<lparr>sc_pending := None, sc_dirty := False\<rparr>
         else c\<lparr>sc_dirty := (case sc_pending c of None \<Rightarrow> False | Some p \<Rightarrow> Some p \<noteq> sc_persisted c)\<rparr>)"

definition queue_state :: "bytes \<Rightarrow> state_ctx \<Rightarrow> state_ctx" where
  "queue_state b c =
     (if sc_persisted c \<noteq> Some b \<and> sc_pending c \<noteq> Some b
      then c\<lparr>sc_pending := Some b, sc_dirty := True, sc_generation := sc_generation c + 1\<rparr>
      else c)"

section \<open>The persist loop\<close>

record 'w persist_env =
  pe_others :: "'w \<times> writer \<Rightarrow> 'w \<times> writer"
  pe_before :: "bytes list"
  pe_delivered :: bool
  pe_after :: "bytes list"
  pe_answered :: bool

record 'w persist_state =
  ps_shared :: "'w \<times> writer"
  ps_ctx :: state_ctx
  ps_bytes :: bytes
  ps_backoff :: nat

datatype 'w persist_result = Next "'w persist_state" | Drained "'w persist_state" | Lost "'w persist_state"

definition next_backoff :: "nat \<Rightarrow> nat" where
  "next_backoff b = min (b * 2) 30"

text \<open>Upload and manifest update of one round; \<open>True\<close> when both succeeded.\<close>

definition publish_state :: "'w kubo \<Rightarrow> string \<Rightarrow> bytes \<Rightarrow> 'w \<times> writer \<Rightarrow> ('w \<times> writer) \<times> bool" where
  "publish_state K fragment b ws =
     (case add_bytes_unpinned K (fst ws) b of
        (w1, None) \<Rightarrow> ((w1, snd ws), False)
      | (w1, Some c) \<Rightarrow>
          (case set_entity_state K fragment c w1 (snd ws) of
             (w2, wr, Inl e) \<Rightarrow> ((w2, wr), False)
           | (w2, wr, Inr root) \<Rightarrow> ((w2, wr), True)))"

definition persist_round :: "'w kubo \<Rightarrow> string \<Rightarrow> 'w persist_env \<Rightarrow> 'w persist_state \<Rightarrow> 'w persist_result" where
  "persist_round K fragment env st =
     (let (ws, ok) = publish_state K fragment (ps_bytes st) (pe_others env (ps_shared st));
          c1 = fold queue_state (pe_before env) (ps_ctx st);
          c2 = (if ok \<and> pe_delivered env then mark_saved (ps_bytes st) c1 else c1);
          c3 = fold queue_state (pe_after env) c2;
          st' = st\<lparr>ps_shared := ws, ps_ctx := c3, ps_backoff := (if ok then 1 else next_backoff (ps_backoff st))\<rparr>
      in if \<not> pe_answered env then Lost st'
         else (case sc_pending c3 of None \<Rightarrow> Drained st' | Some b \<Rightarrow> Next (st'\<lparr>ps_bytes := b\<rparr>)))"

text \<open>
  \<open>run_state_persist_loop\<close>.  It may run as long as the node fails, so it consumes a list of round
  environments and answers \<open>None\<close> when they run out before the loop has ended.
\<close>

fun persist_loop ::
  "'w kubo \<Rightarrow> string \<Rightarrow> 'w persist_env list \<Rightarrow> 'w persist_state \<Rightarrow> (bool \<times> 'w persist_state) option" where
  "persist_loop K fragment [] st = None"
| "persist_loop K fragment (e # es) st =
     (case persist_round K fragment e st of
        Next st' \<Rightarrow> persist_loop K fragment es st'
      | Drained st' \<Rightarrow> Some (True, st')
      | Lost st' \<Rightarrow> Some (False, st'))"

definition persist_start :: "'w \<times> writer \<Rightarrow> state_ctx \<Rightarrow> bytes \<Rightarrow> 'w persist_state" where
  "persist_start ws c b = \<lparr>ps_shared = ws, ps_ctx = c, ps_bytes = b, ps_backoff = 1\<rparr>"

section \<open>Lemmas\<close>

text \<open>The state the entity last asked for, as the runtime sees it.\<close>

definition latest :: "state_ctx \<Rightarrow> bytes option" where
  "latest c = (case sc_pending c of None \<Rightarrow> sc_persisted c | Some p \<Rightarrow> Some p)"

definition state_inv :: "state_ctx \<Rightarrow> bool" where
  "state_inv c = (sc_persisted c \<noteq> None \<and> (sc_dirty c \<longleftrightarrow> sc_pending c \<noteq> None)
     \<and> (sc_pending c \<noteq> None \<longrightarrow> sc_pending c \<noteq> sc_persisted c))"

lemma state_inv_new [simp]: "state_inv (state_ctx_new b)"
  by (simp add: state_inv_def state_ctx_new_def)

lemma state_inv_queue: "state_inv c \<Longrightarrow> state_inv (queue_state b c)"
  by (auto simp: state_inv_def queue_state_def)

lemma state_inv_mark: "state_inv c \<Longrightarrow> state_inv (mark_saved b c)"
  by (auto simp: state_inv_def mark_saved_def Let_def split: option.splits)

lemma state_inv_fold: "state_inv c \<Longrightarrow> state_inv (fold queue_state bs c)"
  by (induction bs arbitrary: c) (auto intro: state_inv_queue)

lemma queue_persisted [simp]: "sc_persisted (queue_state b c) = sc_persisted c"
  by (simp add: queue_state_def)

lemma fold_queue_persisted [simp]: "sc_persisted (fold queue_state bs c) = sc_persisted c"
  by (induction bs arbitrary: c) auto

lemma queue_pending: "sc_pending c \<noteq> None \<Longrightarrow> sc_pending (queue_state b c) \<noteq> None"
  by (auto simp: queue_state_def)

lemma fold_queue_pending: "sc_pending c \<noteq> None \<Longrightarrow> sc_pending (fold queue_state bs c) \<noteq> None"
  by (induction bs arbitrary: c) (use queue_pending in \<open>auto simp del: not_None_eq\<close>)

lemma mark_saved_persisted [simp]: "sc_persisted (mark_saved b c) = Some b"
  by (simp add: mark_saved_def Let_def)

lemma latest_queue: "latest (queue_state b c) = (if sc_persisted c = Some b then latest c else Some b)"
  by (auto simp: latest_def queue_state_def split: option.splits)

lemma latest_mark: "sc_pending c \<noteq> None \<Longrightarrow> latest (mark_saved b c) = latest c"
  by (auto simp: latest_def mark_saved_def Let_def)

lemma publish_state_ok:
  assumes "coherent K ws" and "publish_state K fragment b ws = (ws', True)"
  shows "coherent K ws' \<and> (\<exists>node c. writer_entity_node K fragment (fst ws') (snd ws') = Inr node
     \<and> en_state node = Some c \<and> cat_bytes K (fst ws') c = Some b)"
proof -
  have ok: "kubo_ok K" using assms(1) by (simp add: coherent_def)
  obtain w1 c root where a: "add_bytes_unpinned K (fst ws) b = (w1, Some c)"
    "update_entity_node K fragment (\<lambda>node. (node\<lparr>en_state := Some c\<rparr>, True)) w1 (snd ws) = (fst ws', snd ws', Inr root)"
    using assms(2) by (cases ws') (auto simp: publish_state_def set_entity_state_def split: prod.splits option.splits sum.splits)
  have "coherent K (w1, snd ws)"
    using keeps_coherent[of K "fst ws" "snd ws" w1] assms(1) kubo_okD(6)[OF ok a(1)] by simp
  note u = update_entity_ok[OF this a(2)] and n = entity_node_update[OF this a(2)]
  have keep: "node_keeps K w1 (fst ws')" and coh: "coherent K ws'" using u by auto
  have "cat_bytes K (fst ws') c = Some b"
    using node_keeps_bytes[OF keep kubo_okD(8)[OF ok a(1)]] .
  with coh n show ?thesis by auto
qed

lemma publish_state_coherent:
  assumes "coherent K ws" and "publish_state K fragment b ws = (ws', ok)"
  shows "coherent K ws'"
proof (cases ok)
  case True
  with publish_state_ok[of K ws fragment b ws'] assms show ?thesis by simp
next
  case False
  have k: "kubo_ok K" using assms(1) by (simp add: coherent_def)
  obtain w1 r where a: "add_bytes_unpinned K (fst ws) b = (w1, r)" by fastforce
  have c1: "coherent K (w1, snd ws)"
    using keeps_coherent[of K "fst ws" "snd ws" w1] assms(1) kubo_okD(6)[OF k a] by simp
  with False assms(2) a update_entity_err[OF c1] show ?thesis
    by (auto simp: publish_state_def set_entity_state_def split: option.splits prod.splits sum.splits)
qed

lemma persist_round_cases:
  assumes "coherent K (pe_others e (ps_shared st))" and "sc_pending (ps_ctx st) \<noteq> None"
  shows "case persist_round K fragment e st of
      Next st' \<Rightarrow> coherent K (ps_shared st') \<and> sc_pending (ps_ctx st') = Some (ps_bytes st')
    | Lost st' \<Rightarrow> True
    | Drained st' \<Rightarrow> coherent K (ps_shared st') \<and> sc_pending (ps_ctx st') = None
        \<and> (\<exists>node c. writer_entity_node K fragment (fst (ps_shared st')) (snd (ps_shared st')) = Inr node
             \<and> en_state node = Some c \<and> cat_bytes K (fst (ps_shared st')) c = sc_persisted (ps_ctx st'))"
proof -
  obtain ws ok where p: "publish_state K fragment (ps_bytes st) (pe_others e (ps_shared st)) = (ws, ok)" by fastforce
  have coh: "coherent K ws" using publish_state_coherent[OF assms(1) p] .
  have drained: "ok \<and> pe_delivered e"
    if "sc_pending (fold queue_state (pe_after e)
          (if ok \<and> pe_delivered e then mark_saved (ps_bytes st) (fold queue_state (pe_before e) (ps_ctx st))
           else fold queue_state (pe_before e) (ps_ctx st))) = None"
  proof (rule ccontr)
    assume "\<not> (ok \<and> pe_delivered e)"
    then show False
      using that fold_queue_pending[OF fold_queue_pending[OF assms(2)], of "pe_after e" "pe_before e"]
      by (simp only: if_False simp_thms)
  qed
  have pub: "\<exists>node c. writer_entity_node K fragment (fst ws) (snd ws) = Inr node
      \<and> en_state node = Some c \<and> cat_bytes K (fst ws) c = Some (ps_bytes st)" if ok
    using publish_state_ok[OF assms(1), of fragment "ps_bytes st" ws] p that by simp
  show ?thesis
    using p coh pub drained by (auto simp: persist_round_def Let_def split: option.splits)
qed

lemma persist_loop_drained:
  assumes "persist_loop K fragment es st = Some (True, st')"
    and "coherent K (ps_shared st)" and "sc_pending (ps_ctx st) \<noteq> None"
    and "\<forall>e\<in>set es. \<forall>ws. coherent K ws \<longrightarrow> coherent K (pe_others e ws)"
  shows "sc_pending (ps_ctx st') = None
        \<and> (\<exists>node c. writer_entity_node K fragment (fst (ps_shared st')) (snd (ps_shared st')) = Inr node
             \<and> en_state node = Some c \<and> cat_bytes K (fst (ps_shared st')) c = sc_persisted (ps_ctx st'))"
  using assms
proof (induction es arbitrary: st)
  case (Cons e es)
  have "coherent K (pe_others e (ps_shared st))" using Cons.prems(2,4) by (meson list.set_intros(1))
  note r = persist_round_cases[OF this Cons.prems(3), of fragment]
  show ?case
  proof (cases "persist_round K fragment e st")
    case (Next st1)
    with r Cons.prems Cons.IH[of st1] show ?thesis by simp
  next
    case (Drained st1)
    with r Cons.prems(1) show ?thesis by simp
  next
    case (Lost st1)
    with Cons.prems(1) show ?thesis by simp
  qed
qed simp

section \<open>A run for the witness\<close>

definition idle_env :: "doc list persist_env" where
  "idle_env = \<lparr>pe_others = id, pe_before = [[3]], pe_delivered = True, pe_after = [], pe_answered = True\<rparr>"

definition sample_ctx :: state_ctx where
  "sample_ctx = queue_state [2] (state_ctx_new [1])"

section \<open>Properties\<close>



text \<open>
  Going back to the saved state is lost: if an entity queues a state and then, before that
  is uploaded, queues the state that is already saved, the second request is ignored and the
  first one becomes the saved state.  In every other situation the last queued state is what will be saved.
\<close>

theorem revert_is_lost:
  assumes "sc_persisted c = Some a" and "a \<noteq> b"
  shows "latest (queue_state a (queue_state b c)) = Some b
     \<and> sc_persisted (mark_saved b (queue_state a (queue_state b c))) = Some b
     \<and> sc_pending (mark_saved b (queue_state a (queue_state b c))) = None
     \<and> (d \<noteq> a \<longrightarrow> latest (queue_state d (queue_state b c)) = Some d)"
  using assms by (auto simp: latest_queue) (auto simp: queue_state_def mark_saved_def Let_def)

theorem revert_is_lost_witness:
  "latest (queue_state [1] (queue_state [2] (state_ctx_new [1]))) = Some [2]"
  using revert_is_lost[of "state_ctx_new [1]" "[1]" "[2]"] by (simp add: state_ctx_new_def)

end
