(* ===== verification/Routing.thy ===== *)
theory Routing
  imports Prelude
begin

text \<open>
  Target routing (\<open>src/routing.rs\<close>) and the \<open>ma_entity_exists\<close> target parser
  (\<open>entity_fragment\<close> in \<open>src/plugin/backend.rs\<close>).  \<open>ma_core::Did::try_from\<close> is a library
  function, so it is a parameter \<open>parse\<close> of every definition here; \<open>did_url_syntax\<close> states
  the part of its documented DID-URL syntax that routing relies on.
\<close>

section \<open>Model\<close>

text \<open>A parsed \<open>ma_core::Did\<close>: its \<open>base_id()\<close> and its optional fragment.\<close>

record did =
  base_id :: string
  did_fragment :: "string option"

type_synonym did_parser = "string \<Rightarrow> did option"

datatype target_route =
    LocalFragment string
  | LocalRuntime
  | Remote did
  | Invalid

definition local_base_did :: "did_parser \<Rightarrow> string \<Rightarrow> string" where
  "local_base_did parse our_did =
     (case parse our_did of None \<Rightarrow> trim our_did | Some d \<Rightarrow> base_id d)"

definition classify_target :: "did_parser \<Rightarrow> string \<Rightarrow> string \<Rightarrow> target_route" where
  "classify_target parse target our_did =
     (case parse (trim target) of
        None \<Rightarrow> Invalid
      | Some d \<Rightarrow>
          if base_id d \<noteq> local_base_did parse our_did then Remote d
          else (case did_fragment d of
                  Some f \<Rightarrow> if f \<noteq> [] then LocalFragment f else LocalRuntime
                | None \<Rightarrow> LocalRuntime))"

definition local_target_fragment :: "did_parser \<Rightarrow> string \<Rightarrow> string \<Rightarrow> string option" where
  "local_target_fragment parse target our_did =
     (case classify_target parse target our_did of LocalFragment f \<Rightarrow> Some f | _ \<Rightarrow> None)"

definition local_actor_url :: "did_parser \<Rightarrow> string \<Rightarrow> string \<Rightarrow> string" where
  "local_actor_url parse our_did fragment = local_base_did parse our_did @ ''#'' @ fragment"

text \<open>
  \<open>entity_fragment\<close>: the fragment a \<open>ma_entity_exists\<close> argument names, given as
  \<open>fragment\<close>, \<open>#fragment\<close> or this runtime's full DID-URL.
\<close>

definition entity_fragment :: "string \<Rightarrow> string \<Rightarrow> string option" where
  "entity_fragment target our_did =
     (let t = trim target in
      if t = [] then None
      else (case strip_prefix ''#'' t of
              Some f \<Rightarrow> if f \<noteq> [] then Some f else None
            | None \<Rightarrow>
                if starts_with ''did:ma:'' t then
                  (case split_once (CHR ''#'') t of
                     None \<Rightarrow> None
                   | Some (d, f) \<Rightarrow> if d = our_did \<and> f \<noteq> [] then Some f else None)
                else if CHR ''#'' \<notin> set t \<and> CHR ''/'' \<notin> set t then Some t
                else None))"

text \<open>
  DID-URL syntax: a base identifier parses to itself with no fragment, and appending
  \<open>#\<close> and a non-empty fragment to it parses to that base and fragment.
\<close>

definition did_url_syntax :: "did_parser \<Rightarrow> string \<Rightarrow> bool" where
  "did_url_syntax parse base \<longleftrightarrow>
     parse base = Some \<lparr>base_id = base, did_fragment = None\<rparr> \<and>
     (\<forall>f. f \<noteq> [] \<longrightarrow> CHR ''#'' \<notin> set f \<longrightarrow>
        parse (base @ ''#'' @ f) = Some \<lparr>base_id = base, did_fragment = Some f\<rparr>)"

text \<open>A concrete parser of this shape, the instance the witnesses use.\<close>

definition split_did :: did_parser where
  "split_did s =
     (if starts_with ''did:ma:'' s then
        (case split_once (CHR ''#'') s of
           None \<Rightarrow> Some \<lparr>base_id = s, did_fragment = None\<rparr>
         | Some (b, f) \<Rightarrow> Some \<lparr>base_id = b, did_fragment = Some f\<rparr>)
      else None)"

section \<open>Lemmas\<close>

lemma classify_target_cases:
  "classify_target parse t our = r \<longleftrightarrow>
     (case parse (trim t) of
        None \<Rightarrow> r = Invalid
      | Some d \<Rightarrow>
          (base_id d \<noteq> local_base_did parse our \<and> r = Remote d)
        \<or> (base_id d = local_base_did parse our \<and>
             ((\<exists>f. did_fragment d = Some f \<and> f \<noteq> [] \<and> r = LocalFragment f)
            \<or> (did_fragment d \<in> {None, Some []} \<and> r = LocalRuntime))))"
  by (auto simp: classify_target_def split: option.splits)

lemma local_target_fragment_Some_iff:
  "local_target_fragment parse t our = Some f \<longleftrightarrow>
     (\<exists>d. parse (trim t) = Some d \<and> base_id d = local_base_did parse our
          \<and> did_fragment d = Some f \<and> f \<noteq> [])"
  by (auto simp: local_target_fragment_def classify_target_def split: option.splits target_route.splits)

lemma local_target_fragment_nonempty:
  "local_target_fragment parse t our = Some f \<Longrightarrow> f \<noteq> []"
  by (auto simp: local_target_fragment_Some_iff)

lemma local_base_did_of_url:
  assumes "did_url_syntax parse base" and "f \<noteq> []" and "CHR ''#'' \<notin> set f"
  shows "local_base_did parse base = base" and "local_base_did parse (base @ ''#'' @ f) = base"
  using assms by (auto simp: did_url_syntax_def local_base_did_def)

lemma split_did_syntax:
  assumes "starts_with ''did:ma:'' base" and "CHR ''#'' \<notin> set base"
  shows "did_url_syntax split_did base"
  using assms
  by (auto simp: did_url_syntax_def split_did_def str_simps prefix_def split: option.splits)

section \<open>Properties\<close>

text \<open>
  The URL the runtime builds for one of its own actors is routed back to exactly
  that actor, whichever form of its own DID the runtime was configured with (bare, or with a
  fragment), provided the URL has no white space at its ends.
\<close>

theorem actor_url_roundtrip:
  assumes "did_url_syntax parse base"
    and "f \<noteq> []" "CHR ''#'' \<notin> set f"
    and "our_did = base \<or> (\<exists>g. g \<noteq> [] \<and> CHR ''#'' \<notin> set g \<and> our_did = base @ ''#'' @ g)"
    and "trim (base @ ''#'' @ f) = base @ ''#'' @ f"
  shows "local_target_fragment parse (local_actor_url parse our_did f) our_did = Some f"
proof -
  have base: "local_base_did parse our_did = base"
    using assms(4) local_base_did_of_url[OF assms(1)] assms(2,3) by fastforce
  have "parse (base @ ''#'' @ f) = Some \<lparr>base_id = base, did_fragment = Some f\<rparr>"
    using assms(1-3) by (simp add: did_url_syntax_def)
  then show ?thesis
    using assms(2,5) base by (simp add: local_target_fragment_Some_iff local_actor_url_def)
qed

theorem actor_url_roundtrip_witness:
  "local_target_fragment split_did (local_actor_url split_did ''did:ma:k51#root'' ''room'') ''did:ma:k51#root''
     = Some ''room''"
proof (rule actor_url_roundtrip [where base = "''did:ma:k51''"])
  show "did_url_syntax split_did ''did:ma:k51''"
    by (rule split_did_syntax) (simp_all add: starts_with_def)
  show "trim (''did:ma:k51'' @ ''#'' @ ''room'') = ''did:ma:k51'' @ ''#'' @ ''room''"
    by code_simp
qed (auto intro!: exI[of _ "''root''"])

text \<open>
  The two target parsers agree on DID-URLs: whenever the message router sends
  an already trimmed DID-URL of this runtime to a local fragment, \<open>ma_entity_exists\<close> on the same
  string looks up the same fragment, so an entity a message can reach is reported as existing.
\<close>

theorem entity_fragment_agrees:
  assumes "did_url_syntax parse our_did" and "starts_with ''did:ma:'' our_did" "CHR ''#'' \<notin> set our_did"
    and "f \<noteq> []" "CHR ''#'' \<notin> set f"
    and "trim (our_did @ ''#'' @ f) = our_did @ ''#'' @ f"
  shows "local_target_fragment parse (our_did @ ''#'' @ f) our_did = Some f
         \<and> entity_fragment (our_did @ ''#'' @ f) our_did = Some f"
proof -
  obtain r where r: "our_did = ''did:ma:'' @ r"
    using assms(2) by (auto simp: starts_with_iff prefix_def)
  have "entity_fragment (our_did @ ''#'' @ f) our_did = Some f"
    using assms(3,4,6) by (simp add: entity_fragment_def Let_def r starts_with_def)
  moreover have "local_target_fragment parse (our_did @ ''#'' @ f) our_did = Some f"
    using assms local_base_did_of_url(1)[OF assms(1,4,5)]
    by (simp add: local_target_fragment_Some_iff did_url_syntax_def)
  ultimately show ?thesis by blast
qed

theorem entity_fragment_agrees_witness:
  "local_target_fragment split_did (''did:ma:k51'' @ ''#'' @ ''lamp'') ''did:ma:k51'' = Some ''lamp''
   \<and> entity_fragment (''did:ma:k51'' @ ''#'' @ ''lamp'') ''did:ma:k51'' = Some ''lamp''"
proof (rule entity_fragment_agrees)
  show "did_url_syntax split_did ''did:ma:k51''"
    by (rule split_did_syntax) (simp_all add: starts_with_def)
  show "trim (''did:ma:k51'' @ ''#'' @ ''lamp'') = ''did:ma:k51'' @ ''#'' @ ''lamp''"
    by code_simp
qed (simp_all add: starts_with_def)

end
