(* ===== verification/Host.thy ===== *)
theory Host
  imports EntityState Routing
begin

text \<open>
  The host functions a Wasm plugin can call (\<open>src/plugin/backend.rs\<close>) and the contexts they
  write.  The guest is a parameter: what it does in one call of an export is a tree that
  returns, traps or calls a host function and goes on with the answer, so statements about all
  trees are statements about all plugins.  \<open>serde\<close> decoders, the CBOR encoder and the random
  sources are fields of \<open>host_env\<close>.
\<close>

section \<open>UTF-8 and numbers\<close>

definition utf8_cont :: "8 word \<Rightarrow> bool" where
  "utf8_cont b = (0x80 \<le> b \<and> b \<le> 0xBF)"

fun utf8_valid :: "bytes \<Rightarrow> bool" where
  "utf8_valid [] = True"
| "utf8_valid (a # bs) =
     (if a < 0x80 then utf8_valid bs
      else if 0xC2 \<le> a \<and> a \<le> 0xDF
        then (case bs of b # cs \<Rightarrow> utf8_cont b \<and> utf8_valid cs | _ \<Rightarrow> False)
      else if 0xE0 \<le> a \<and> a \<le> 0xEF
        then (case bs of b # c # cs \<Rightarrow>
                utf8_cont b \<and> utf8_cont c \<and> (a = 0xE0 \<longrightarrow> 0xA0 \<le> b) \<and> (a = 0xED \<longrightarrow> b \<le> 0x9F) \<and> utf8_valid cs
              | _ \<Rightarrow> False)
      else if 0xF0 \<le> a \<and> a \<le> 0xF4
        then (case bs of b # c # d # cs \<Rightarrow>
                utf8_cont b \<and> utf8_cont c \<and> utf8_cont d \<and> (a = 0xF0 \<longrightarrow> 0x90 \<le> b) \<and> (a = 0xF4 \<longrightarrow> b \<le> 0x8F)
                \<and> utf8_valid cs
              | _ \<Rightarrow> False)
      else False)"

definition from_utf8 :: "bytes \<Rightarrow> string option" where
  "from_utf8 bs = (if utf8_valid bs then Some (map (\<lambda>b. char_of (unat b)) bs) else None)"

text \<open>\<open>str::parse::<usize>\<close>: an optional plus sign and at least one digit, below two to the 64.\<close>

definition parse_usize :: "string \<Rightarrow> nat option" where
  "parse_usize s =
     (let ds = (case strip_prefix ''+'' s of Some r \<Rightarrow> r | None \<Rightarrow> s)
      in if ds \<noteq> [] \<and> list_all is_ascii_digit ds \<and> digits_value 0 ds < 2 ^ 64 then Some (digits_value 0 ds)
         else None)"

section \<open>Environment and contexts\<close>

record reply_request =
  rr_id :: string
  rr_from :: string
  rr_content_type :: string
  rr_content :: bytes

record create_entity_input =
  ci_kind :: string
  ci_behaviour :: "string option"
  ci_init :: "bytes option"
  ci_fragment :: "string option"

text \<open>The world holds the node and the operating system's entropy.\<close>

record 'w host_env =
  he_fragment :: string
  he_our_did :: string
  he_allowed :: "string list"
  he_capacity :: nat
  he_did :: did_parser
  he_kubo :: "'w kubo"
  he_envelope :: "bytes \<Rightarrow> send_envelope option"
  he_reply :: "bytes \<Rightarrow> reply_request option"
  he_create :: "bytes \<Rightarrow> create_entity_input option"
  he_text :: "bytes \<Rightarrow> string option"
  he_encode :: "cbor \<Rightarrow> bytes"
  he_random_range :: "nat \<Rightarrow> 'w \<Rightarrow> 'w \<times> nat"
  he_fill_bytes :: "nat \<Rightarrow> 'w \<Rightarrow> 'w \<times> bytes option"

text \<open>What all workers share: the world, the bounded plugin outbox and the registry's names.\<close>

record 'w host_shared =
  hs_world :: 'w
  hs_outbox :: "(string \<times> send_envelope) list"
  hs_closed :: bool
  hs_registry :: "string list"

text \<open>The \<open>UserData\<close> contexts of one plugin.\<close>

record host_ctx =
  hc_state :: state_ctx
  hc_create :: "create_entity_request list"
  hc_delete :: "string list"
  hc_self_terminate :: bool
  hc_behaviour :: "set_behaviour_request list"

definition host_ctx_new :: "bytes \<Rightarrow> host_ctx" where
  "host_ctx_new init_state = \<lparr>hc_state = state_ctx_new init_state, hc_create = [], hc_delete = [],
     hc_self_terminate = False, hc_behaviour = []\<rparr>"

datatype fragment_error = FragmentInvalid | FragmentHash | FragmentReserved string

datatype host_error =
    HeDecode | HeUtf8 | HeClosed | HeFragment fragment_error | HeBehaviour cid_error
  | HeLength | HeEntropy | HeReference | HeFetch | HeNotLinked

section \<open>Host functions\<close>

definition enqueue_envelope ::
  "nat \<Rightarrow> string \<Rightarrow> send_envelope \<Rightarrow> 'w host_shared \<Rightarrow> 'w host_shared \<times> (host_error + unit)" where
  "enqueue_envelope capacity fragment envelope sh =
     (if hs_closed sh then (sh, Inl HeClosed)
      else if length (hs_outbox sh) \<ge> capacity then (sh, Inr ())
      else (sh\<lparr>hs_outbox := hs_outbox sh @ [(fragment, envelope)]\<rparr>, Inr ()))"

definition MAX_RANDOM_BYTES :: nat where "MAX_RANDOM_BYTES = 256"

definition secure_random_bytes ::
  "'w host_env \<Rightarrow> bytes \<Rightarrow> 'w \<Rightarrow> 'w \<times> (host_error + bytes)" where
  "secure_random_bytes E input w =
     (case from_utf8 input of
        None \<Rightarrow> (w, Inl HeUtf8)
      | Some s \<Rightarrow>
          (case parse_usize s of
             None \<Rightarrow> (w, Inl HeLength)
           | Some requested \<Rightarrow>
               if requested < 1 \<or> MAX_RANDOM_BYTES < requested then (w, Inl HeLength)
               else (case he_fill_bytes E requested w of
                       (w', None) \<Rightarrow> (w', Inl HeEntropy)
                     | (w', Some bs) \<Rightarrow> (w', Inr bs))))"

definition ALPHABET :: string where
  "ALPHABET = ''0123456789abcdefghijklmnopqrstuvwxyzABCDEFGHIJKLMNOPQRSTUVWXYZ''"

fun generate_chars :: "(nat \<Rightarrow> 'w \<Rightarrow> 'w \<times> nat) \<Rightarrow> nat \<Rightarrow> 'w \<Rightarrow> 'w \<times> string" where
  "generate_chars draw 0 w = (w, [])"
| "generate_chars draw (Suc n) w =
     (let (w1, i) = draw (length ALPHABET) w; (w2, cs) = generate_chars draw n w1
      in (w2, ALPHABET ! i # cs))"

definition generate_fragment :: "'w host_env \<Rightarrow> 'w \<Rightarrow> 'w \<times> string" where
  "generate_fragment E w = generate_chars (he_random_range E) 8 w"

definition validate_entity_fragment :: "string \<Rightarrow> fragment_error + unit" where
  "validate_entity_fragment fragment =
     (if fragment = [] \<or> has_control fragment then Inl FragmentInvalid
      else if CHR ''#'' \<in> set fragment then Inl FragmentHash
      else if fragment \<in> set RESERVED_ENTITY_NAMES then Inl (FragmentReserved fragment)
      else Inr ())"

definition normalize_behaviour_ref :: "string \<Rightarrow> cid_error + cid option" where
  "normalize_behaviour_ref value =
     (let trimmed = trim value in
      if trimmed = [] \<or> trimmed = ''#f'' then Inr None
      else (case strip_prefix ''/ipfs/'' trimmed of
              Some c \<Rightarrow> if c = [] then Inl CidMissing else Inr (Some c)
            | None \<Rightarrow> if starts_with ''/ipns/'' trimmed then Inl CidIpns else Inr (Some trimmed)))"

text \<open>\<open>src/behaviour.rs\<close>: one flat fetch.\<close>

definition fetch_behaviour :: "'w kubo \<Rightarrow> 'w \<Rightarrow> cid \<Rightarrow> bytes option" where
  "fetch_behaviour K w c = cat_bytes K w c"

definition resolve_ipfs_include :: "'w kubo \<Rightarrow> 'w \<Rightarrow> string \<Rightarrow> host_error + bytes" where
  "resolve_ipfs_include K w reference =
     (case strip_prefix ''#!'' reference of
        None \<Rightarrow> Inl HeReference
      | Some path \<Rightarrow>
          if \<not> (starts_with ''/ipfs/'' path \<or> starts_with ''/ipns/'' path) then Inl HeReference
          else (case dag_resolve K w path of
                  None \<Rightarrow> Inl HeFetch
                | Some c \<Rightarrow> (case cat_bytes K w c of None \<Rightarrow> Inl HeFetch | Some b \<Rightarrow> Inr b)))"

datatype host_call =
    MaReply bytes | MaSetState bytes | MaSend bytes | MaRandomBytes bytes | MaEnd bytes
  | MaCreateEntity bytes | MaDeleteEntity bytes | MaSetBehaviour bytes | MaIpfsInclude bytes
  | MaEntityExists bytes

fun host_name :: "host_call \<Rightarrow> string" where
  "host_name (MaReply _) = ''ma_reply''"
| "host_name (MaSetState _) = ''ma_set_state''"
| "host_name (MaSend _) = ''ma_send''"
| "host_name (MaRandomBytes _) = ''ma_random_bytes''"
| "host_name (MaEnd _) = ''ma_end''"
| "host_name (MaCreateEntity _) = ''ma_create_entity''"
| "host_name (MaDeleteEntity _) = ''ma_delete_entity''"
| "host_name (MaSetBehaviour _) = ''ma_set_behaviour''"
| "host_name (MaIpfsInclude _) = ''ma_ipfs_include''"
| "host_name (MaEntityExists _) = ''ma_entity_exists''"

type_synonym 'w host_state = "'w host_shared \<times> host_ctx"

definition send_to_outbox ::
  "'w host_env \<Rightarrow> send_envelope \<Rightarrow> 'w host_state \<Rightarrow> 'w host_state \<times> (host_error + bytes)" where
  "send_to_outbox E envelope = (\<lambda>(sh, hc).
     case enqueue_envelope (he_capacity E) (he_fragment E) envelope sh of
       (sh', Inl e) \<Rightarrow> ((sh', hc), Inl e) | (sh', Inr _) \<Rightarrow> ((sh', hc), Inr []))"

definition ma_create_entity ::
  "'w host_env \<Rightarrow> bytes \<Rightarrow> 'w host_state \<Rightarrow> 'w host_state \<times> (host_error + bytes)" where
  "ma_create_entity E input = (\<lambda>(sh, hc).
     case he_create E input of
       None \<Rightarrow> ((sh, hc), Inl HeDecode)
     | Some req \<Rightarrow>
         (case (case ci_fragment req of
                  Some f \<Rightarrow> (case validate_entity_fragment f of
                               Inl e \<Rightarrow> (sh, Inl e) | Inr _ \<Rightarrow> (sh, Inr f))
                | None \<Rightarrow> (let (w', f) = generate_fragment E (hs_world sh)
                           in (sh\<lparr>hs_world := w'\<rparr>, Inr f))) of
            (sh', Inl e) \<Rightarrow> ((sh', hc), Inl (HeFragment e))
          | (sh', Inr f) \<Rightarrow>
              ((sh', hc\<lparr>hc_create := hc_create hc @
                  [\<lparr>cr_fragment = f, cr_kind_protocol = ci_kind req, cr_behaviour_cid = ci_behaviour req,
                    cr_init_payload = ci_init req, cr_parent = he_fragment E\<rparr>]\<rparr>),
               Inr (he_encode E (CText (local_actor_url (he_did E) (he_our_did E) f))))))"

definition ma_set_behaviour ::
  "'w host_env \<Rightarrow> bytes \<Rightarrow> 'w host_state \<Rightarrow> 'w host_state \<times> (host_error + bytes)" where
  "ma_set_behaviour E input = (\<lambda>(sh, hc).
     case from_utf8 input of
       None \<Rightarrow> ((sh, hc), Inl HeUtf8)
     | Some s \<Rightarrow>
         (case normalize_behaviour_ref s of
            Inl e \<Rightarrow> ((sh, hc), Inl (HeBehaviour e))
          | Inr b \<Rightarrow>
              ((sh, hc\<lparr>hc_behaviour := hc_behaviour hc @ [\<lparr>sb_fragment = he_fragment E, sb_behaviour_cid = b\<rparr>]\<rparr>),
               Inr [])))"

definition ma_entity_exists :: "'w host_env \<Rightarrow> bytes \<Rightarrow> 'w host_shared \<Rightarrow> host_error + bool" where
  "ma_entity_exists E input sh =
     (case from_utf8 input of
        None \<Rightarrow> Inl HeUtf8
      | Some target \<Rightarrow>
          (case entity_fragment target (he_our_did E) of
             None \<Rightarrow> Inr False | Some f \<Rightarrow> Inr (f \<in> set (hs_registry sh))))"

definition bytes_of :: "string \<Rightarrow> bytes" where
  "bytes_of s = map (\<lambda>c. of_nat (of_char c)) s"

text \<open>The host functions without contexts of their own, one definition each.\<close>

definition ma_send :: "'w host_env \<Rightarrow> bytes \<Rightarrow> 'w host_state \<Rightarrow> 'w host_state \<times> (host_error + bytes)" where
  "ma_send E input s =
     (case he_envelope E input of None \<Rightarrow> (s, Inl HeDecode) | Some env \<Rightarrow> send_to_outbox E env s)"

definition ma_reply :: "'w host_env \<Rightarrow> bytes \<Rightarrow> 'w host_state \<Rightarrow> 'w host_state \<times> (host_error + bytes)" where
  "ma_reply E input s =
     (case he_reply E input of
        None \<Rightarrow> (s, Inl HeDecode)
      | Some r \<Rightarrow> send_to_outbox E \<lparr>se_to = rr_from r, se_content_type = rr_content_type r,
                     se_message_type = None, se_content = rr_content r, se_reply_to = Some (rr_id r)\<rparr> s)"

definition ma_set_state :: "bytes \<Rightarrow> 'w host_state \<Rightarrow> 'w host_state \<times> (host_error + bytes)" where
  "ma_set_state input = (\<lambda>(sh, hc). ((sh, hc\<lparr>hc_state := queue_state input (hc_state hc)\<rparr>), Inr []))"

definition ma_random_bytes :: "'w host_env \<Rightarrow> bytes \<Rightarrow> 'w host_state \<Rightarrow> 'w host_state \<times> (host_error + bytes)" where
  "ma_random_bytes E input = (\<lambda>(sh, hc).
     case secure_random_bytes E input (hs_world sh) of (w', r) \<Rightarrow> ((sh\<lparr>hs_world := w'\<rparr>, hc), r))"

definition ma_end :: "'w host_env \<Rightarrow> 'w host_state \<Rightarrow> 'w host_state \<times> (host_error + bytes)" where
  "ma_end E = (\<lambda>(sh, hc). ((sh, hc\<lparr>hc_self_terminate := True\<rparr>), Inr (he_encode E (CText '':ok''))))"

definition ma_delete_entity :: "'w host_env \<Rightarrow> bytes \<Rightarrow> 'w host_state \<Rightarrow> 'w host_state \<times> (host_error + bytes)" where
  "ma_delete_entity E input = (\<lambda>(sh, hc).
     case he_text E input of
       None \<Rightarrow> ((sh, hc), Inl HeDecode)
     | Some target \<Rightarrow> ((sh, hc\<lparr>hc_delete := hc_delete hc @ [target]\<rparr>), Inr (he_encode E (CText '':queued''))))"

definition ma_ipfs_include :: "'w host_env \<Rightarrow> bytes \<Rightarrow> 'w host_state \<Rightarrow> 'w host_state \<times> (host_error + bytes)" where
  "ma_ipfs_include E input = (\<lambda>(sh, hc).
     case from_utf8 input of
       None \<Rightarrow> ((sh, hc), Inl HeUtf8)
     | Some reference \<Rightarrow> ((sh, hc), resolve_ipfs_include (he_kubo E) (hs_world sh) reference))"

lemmas host_fn_defs [simp] = ma_send_def ma_reply_def ma_set_state_def ma_random_bytes_def ma_end_def
  ma_delete_entity_def ma_ipfs_include_def

fun host_call_exec ::
  "'w host_env \<Rightarrow> host_call \<Rightarrow> 'w host_state \<Rightarrow> 'w host_state \<times> (host_error + bytes)" where
  "host_call_exec E (MaSend input) s = ma_send E input s"
| "host_call_exec E (MaReply input) s = ma_reply E input s"
| "host_call_exec E (MaSetState input) s = ma_set_state input s"
| "host_call_exec E (MaRandomBytes input) s = ma_random_bytes E input s"
| "host_call_exec E (MaEnd input) s = ma_end E s"
| "host_call_exec E (MaCreateEntity input) s = ma_create_entity E input s"
| "host_call_exec E (MaDeleteEntity input) s = ma_delete_entity E input s"
| "host_call_exec E (MaSetBehaviour input) s = ma_set_behaviour E input s"
| "host_call_exec E (MaIpfsInclude input) s = ma_ipfs_include E input s"
| "host_call_exec E (MaEntityExists input) (sh, hc) =
     ((sh, hc), (case ma_entity_exists E input sh of
        Inl e \<Rightarrow> Inl e | Inr b \<Rightarrow> Inr (bytes_of (if b then ''true'' else ''false''))))"

section \<open>Guests\<close>

text \<open>
  One call of an export.  The second argument of \<open>Call\<close> is the guest as the call finds it, which is what
  remains when the host function fails and the call traps.
\<close>

datatype 'g guest_run = Return 'g bytes | Trap 'g | Call host_call 'g "bytes \<Rightarrow> 'g guest_run"

text \<open>\<open>build_host_functions\<close> links only the functions the kind lists.\<close>

definition host_functions :: "'w host_env \<Rightarrow> string list" where
  "host_functions E = filter (\<lambda>n. n \<in> set (he_allowed E))
     [''ma_reply'', ''ma_set_state'', ''ma_send'', ''ma_random_bytes'', ''ma_end'', ''ma_create_entity'',
      ''ma_delete_entity'', ''ma_set_behaviour'', ''ma_ipfs_include'', ''ma_entity_exists'']"

definition linked_exec ::
  "'w host_env \<Rightarrow> host_call \<Rightarrow> 'w host_state \<Rightarrow> 'w host_state \<times> (host_error + bytes)" where
  "linked_exec E c s = (if host_name c \<in> set (host_functions E) then host_call_exec E c s else (s, Inl HeNotLinked))"

primrec run_guest :: "'w host_env \<Rightarrow> 'g guest_run \<Rightarrow> 'w host_state \<Rightarrow> 'w host_state \<times> 'g \<times> bytes option" where
  "run_guest E (Return g out) = (\<lambda>s. (s, g, Some out))"
| "run_guest E (Trap g) = (\<lambda>s. (s, g, None))"
| "run_guest E (Call c g k) = (\<lambda>s.
     case linked_exec E c s of
       (s', Inl e) \<Rightarrow> (s', g, None)
     | (s', Inr out) \<Rightarrow> run_guest E (k out) s')"

text \<open>The context of what a plugin can ask for: \<open>build_plugin_config\<close>.\<close>

record plugin_cfg =
  pc_runtime_config :: "string btree_map"
  pc_our_did :: string
  pc_fragment :: string
  pc_node_kind :: string
  pc_wasm_cid :: cid
  pc_behaviour :: "cid option"
  pc_node_id :: string
  pc_started_at :: u64
  pc_parent :: "string option"

definition insert_some :: "string \<Rightarrow> string option \<Rightarrow> string btree_map \<Rightarrow> string btree_map" where
  "insert_some k v m = (case v of None \<Rightarrow> m | Some x \<Rightarrow> bt_insert k x m)"

definition build_plugin_config :: "plugin_cfg \<Rightarrow> string btree_map" where
  "build_plugin_config c =
     insert_some ''parent'' (pc_parent c)
      (bt_insert ''started_at'' (nat_digits (unat (pc_started_at c)))
      (bt_insert ''iroh_node_id'' (pc_node_id c)
      (bt_insert ''runtime'' (pc_our_did c)
      (insert_some ''behaviour'' (pc_behaviour c)
      (bt_insert ''cid'' (pc_wasm_cid c)
      (bt_insert ''kind'' (pc_node_kind c)
      (bt_insert ''id'' (pc_fragment c)
      (bt_insert ''self'' (pc_our_did c @ ''#'' @ pc_fragment c) (pc_runtime_config c)))))))))"

section \<open>Lemmas\<close>

text \<open>
  What a worker's contexts hold: requests that name this entity as their origin, and fragments
  that passed validation.
\<close>

definition fragment_ok :: "string \<Rightarrow> bool" where
  "fragment_ok f = (f \<noteq> [] \<and> \<not> has_control f \<and> CHR ''#'' \<notin> set f \<and> f \<notin> set RESERVED_ENTITY_NAMES)"

definition ctx_ok :: "'w host_env \<Rightarrow> host_ctx \<Rightarrow> bool" where
  "ctx_ok E hc =
     (state_inv (hc_state hc)
      \<and> (\<forall>r\<in>set (hc_create hc). cr_parent r = he_fragment E \<and> fragment_ok (cr_fragment r))
      \<and> (\<forall>r\<in>set (hc_behaviour hc). sb_fragment r = he_fragment E))"

definition outbox_grows :: "'w host_env \<Rightarrow> 'w host_shared \<Rightarrow> 'w host_shared \<Rightarrow> bool" where
  "outbox_grows E sh sh' =
     ((\<exists>new. hs_outbox sh' = hs_outbox sh @ new \<and> (\<forall>(from, e)\<in>set new. from = he_fragment E))
      \<and> (length (hs_outbox sh) \<le> he_capacity E \<longrightarrow> length (hs_outbox sh') \<le> he_capacity E)
      \<and> hs_registry sh' = hs_registry sh \<and> hs_closed sh' = hs_closed sh)"

definition draws_in_range :: "'w host_env \<Rightarrow> bool" where
  "draws_in_range E = (\<forall>n w. 0 < n \<longrightarrow> snd (he_random_range E n w) < n)"

lemma validate_iff: "validate_entity_fragment f = Inr () \<longleftrightarrow> fragment_ok f"
  by (auto simp: validate_entity_fragment_def fragment_ok_def)

lemma generate_chars_length: "length (snd (generate_chars draw n w)) = n"
proof (induction n arbitrary: w)
  case (Suc n)
  obtain w1 i where "draw (length ALPHABET) w = (w1, i)" by fastforce
  with Suc[of w1] show ?case by (simp add: case_prod_beta)
qed simp

lemma generate_chars_set:
  assumes "\<forall>n w. 0 < n \<longrightarrow> snd (draw n w) < n"
  shows "set (snd (generate_chars draw n w)) \<subseteq> set ALPHABET"
proof (induction n arbitrary: w)
  case (Suc n)
  obtain w1 i where d: "draw (length ALPHABET) w = (w1, i)" by fastforce
  have "i < length ALPHABET" using assms[rule_format, of "length ALPHABET" w] d by (simp add: ALPHABET_def)
  with Suc[of w1] d show ?case by (auto split: prod.splits dest: nth_mem)
qed simp

lemma no_control_alphabet: "set s \<subseteq> set ALPHABET \<Longrightarrow> \<not> has_control s"
proof (induction s)
  case (Cons c s)
  then have "c \<in> set ALPHABET" "\<not> has_control s" by auto
  moreover have "\<forall>c\<in>set ALPHABET. \<not> (of_char c < (32::nat) \<or> of_char c = (127::nat) \<or> of_char c = (194::nat))"
    by (simp add: ALPHABET_def)
  ultimately show ?case by simp
qed simp

lemma generated_fragment_ok:
  assumes "draws_in_range E"
  shows "fragment_ok (snd (generate_fragment E w))"
proof -
  let ?f = "snd (generate_fragment E w)"
  have s: "set ?f \<subseteq> set ALPHABET"
    using generate_chars_set assms by (simp add: generate_fragment_def draws_in_range_def)
  have l: "length ?f = 8" by (simp add: generate_fragment_def generate_chars_length)
  have "CHR ''#'' \<notin> set ALPHABET" by (simp add: ALPHABET_def)
  moreover have "\<forall>n\<in>set RESERVED_ENTITY_NAMES. length n \<noteq> 8" by (simp add: RESERVED_ENTITY_NAMES_def)
  ultimately show ?thesis
    using s l no_control_alphabet[OF s] by (auto simp: fragment_ok_def)
qed

lemma outbox_grows_refl [simp]: "outbox_grows E sh sh"
  by (simp add: outbox_grows_def)

lemma outbox_grows_world [simp]: "outbox_grows E sh (sh\<lparr>hs_world := w\<rparr>)"
  by (simp add: outbox_grows_def)

lemma outbox_grows_trans:
  assumes "outbox_grows E a b" and "outbox_grows E b c"
  shows "outbox_grows E a c"
proof -
  obtain n1 n2 where n: "hs_outbox b = hs_outbox a @ n1" "hs_outbox c = hs_outbox b @ n2"
    "\<forall>(from, e)\<in>set n1. from = he_fragment E" "\<forall>(from, e)\<in>set n2. from = he_fragment E"
    using assms by (auto simp: outbox_grows_def)
  then have "hs_outbox c = hs_outbox a @ (n1 @ n2) \<and> (\<forall>(from, e)\<in>set (n1 @ n2). from = he_fragment E)"
    by auto
  then have "\<exists>new. hs_outbox c = hs_outbox a @ new \<and> (\<forall>(from, e)\<in>set new. from = he_fragment E)"
    by (rule exI)
  with assms show ?thesis by (simp add: outbox_grows_def)
qed

lemma send_to_outbox_ok:
  "send_to_outbox E env (sh, hc) = ((sh', hc'), r) \<Longrightarrow> hc' = hc \<and> outbox_grows E sh sh'"
  by (auto simp: send_to_outbox_def enqueue_envelope_def outbox_grows_def split: if_splits)

lemma ma_create_entity_ok:
  assumes "draws_in_range E" and "ctx_ok E hc" and "ma_create_entity E input (sh, hc) = ((sh', hc'), r)"
  shows "ctx_ok E hc' \<and> outbox_grows E sh sh'"
proof (cases "he_create E input")
  case None
  with assms(2,3) show ?thesis by (simp add: ma_create_entity_def)
next
  case (Some req)
  show ?thesis
  proof (cases "ci_fragment req")
    case None
    with Some assms(2,3) generated_fragment_ok[OF assms(1), of "hs_world sh"] show ?thesis
      by (auto simp: ma_create_entity_def ctx_ok_def split: prod.splits)
  next
    case (Some f)
    with \<open>he_create E input = Some req\<close> assms(2,3) validate_iff[of f] show ?thesis
      by (auto simp: ma_create_entity_def ctx_ok_def split: sum.splits)
  qed
qed

lemma host_call_exec_ok:
  assumes "draws_in_range E" and "ctx_ok E hc" and "host_call_exec E c (sh, hc) = ((sh', hc'), r)"
  shows "ctx_ok E hc' \<and> outbox_grows E sh sh'"
proof (cases c)
  case (MaCreateEntity input)
  with ma_create_entity_ok[OF assms(1,2)] assms(3) show ?thesis by simp
next
  case (MaSetState input)
  with assms(2,3) state_inv_queue show ?thesis by (auto simp: ctx_ok_def)
next
  case (MaSend input)
  with assms(2,3) send_to_outbox_ok show ?thesis by (fastforce split: option.splits)
next
  case (MaReply input)
  with assms(2,3) send_to_outbox_ok show ?thesis by (fastforce split: option.splits)
next
  case (MaSetBehaviour input)
  with assms(2,3) show ?thesis by (auto simp: ma_set_behaviour_def ctx_ok_def split: option.splits sum.splits)
next
  case (MaRandomBytes input)
  with assms(2,3) show ?thesis by (auto split: prod.splits)
next
  case (MaEnd input)
  with assms(2,3) show ?thesis by (auto simp: ctx_ok_def)
next
  case (MaDeleteEntity input)
  with assms(2,3) show ?thesis by (auto simp: ctx_ok_def split: option.splits)
next
  case (MaIpfsInclude input)
  with assms(2,3) show ?thesis by (auto split: option.splits)
next
  case (MaEntityExists input)
  with assms(2,3) show ?thesis by auto
qed

lemma linked_exec_ok:
  assumes "draws_in_range E" and "ctx_ok E hc" and "linked_exec E c (sh, hc) = ((sh', hc'), r)"
  shows "ctx_ok E hc' \<and> outbox_grows E sh sh'"
  using assms(2,3) host_call_exec_ok[OF assms(1,2)] by (auto simp: linked_exec_def split: if_splits)

lemma run_guest_ok:
  assumes "draws_in_range E"
  shows "ctx_ok E hc \<Longrightarrow> run_guest E t (sh, hc) = ((sh', hc'), g, out) \<Longrightarrow> ctx_ok E hc' \<and> outbox_grows E sh sh'"
proof (induction t arbitrary: sh hc)
  case (Call c g0 k)
  obtain sh1 hc1 r where l: "linked_exec E c (sh, hc) = ((sh1, hc1), r)" by (metis prod.collapse)
  note ok = linked_exec_ok[OF assms Call.prems(1) l]
  show ?case
  proof (cases r)
    case (Inl e)
    with Call.prems(2) l ok show ?thesis by simp
  next
    case (Inr o1)
    with Call.prems(2) l have "run_guest E (k o1) (sh1, hc1) = ((sh', hc'), g, out)" by simp
    from Call.IH[OF _ _ this] ok outbox_grows_trans show ?thesis by blast
  qed
qed auto

text \<open>The requests of a context only grow during a run.\<close>

definition requests_grow :: "host_ctx \<Rightarrow> host_ctx \<Rightarrow> bool" where
  "requests_grow a b = (prefix (hc_create a) (hc_create b) \<and> prefix (hc_delete a) (hc_delete b)
     \<and> prefix (hc_behaviour a) (hc_behaviour b) \<and> (hc_self_terminate a \<longrightarrow> hc_self_terminate b))"

lemma requests_grow_refl [simp]: "requests_grow a a"
  by (simp add: requests_grow_def)

lemma requests_grow_trans: "requests_grow a b \<Longrightarrow> requests_grow b c \<Longrightarrow> requests_grow a c"
  unfolding requests_grow_def by (meson prefix_order.trans)

lemma linked_exec_grow:
  assumes "linked_exec E c (sh, hc) = ((sh', hc'), r)"
  shows "requests_grow hc hc'"
  using assms
  by (cases c) (auto simp: linked_exec_def requests_grow_def send_to_outbox_def ma_create_entity_def
      ma_set_behaviour_def split: if_splits option.splits sum.splits prod.splits)

lemma run_guest_grow:
  "run_guest E t (sh, hc) = ((sh', hc'), g, out) \<Longrightarrow> requests_grow hc hc'"
proof (induction t arbitrary: sh hc)
  case (Call c g0 k)
  obtain sh1 hc1 r where l: "linked_exec E c (sh, hc) = ((sh1, hc1), r)" by (metis prod.collapse)
  with Call linked_exec_grow[OF l] requests_grow_trans show ?case
    by (cases r) (auto, blast)
qed auto

text \<open>What changes without a host function being linked: nothing that it is for.\<close>

definition only_granted :: "string list \<Rightarrow> 'w host_state \<Rightarrow> 'w host_state \<Rightarrow> bool" where
  "only_granted allowed s s' \<longleftrightarrow>
     (''ma_create_entity'' \<notin> set allowed \<longrightarrow> hc_create (snd s') = hc_create (snd s))
   \<and> (''ma_delete_entity'' \<notin> set allowed \<longrightarrow> hc_delete (snd s') = hc_delete (snd s))
   \<and> (''ma_end'' \<notin> set allowed \<longrightarrow> hc_self_terminate (snd s') = hc_self_terminate (snd s))
   \<and> (''ma_set_behaviour'' \<notin> set allowed \<longrightarrow> hc_behaviour (snd s') = hc_behaviour (snd s))
   \<and> (''ma_set_state'' \<notin> set allowed \<longrightarrow> hc_state (snd s') = hc_state (snd s))
   \<and> (''ma_send'' \<notin> set allowed \<and> ''ma_reply'' \<notin> set allowed \<longrightarrow> hs_outbox (fst s') = hs_outbox (fst s))"

lemma only_granted_refl [simp]: "only_granted allowed s s"
  by (simp add: only_granted_def)

lemma only_granted_trans: "only_granted allowed a b \<Longrightarrow> only_granted allowed b c \<Longrightarrow> only_granted allowed a c"
  by (simp add: only_granted_def)

lemma host_call_granted:
  assumes "host_call_exec E c (sh, hc) = (s', r)" and "host_name c \<in> set allowed"
  shows "only_granted allowed (sh, hc) s'"
proof (cases c)
  case (MaCreateEntity input)
  with assms show ?thesis
    by (auto simp: only_granted_def ma_create_entity_def split: option.splits sum.splits prod.splits)
next
  case (MaSetBehaviour input)
  with assms show ?thesis by (auto simp: only_granted_def ma_set_behaviour_def split: option.splits sum.splits)
next
  case (MaSend input)
  with assms show ?thesis
    by (auto simp: only_granted_def send_to_outbox_def enqueue_envelope_def split: option.splits if_splits)
next
  case (MaReply input)
  with assms show ?thesis
    by (auto simp: only_granted_def send_to_outbox_def enqueue_envelope_def split: option.splits if_splits)
qed (use assms in \<open>auto simp: only_granted_def split: option.splits prod.splits\<close>)

lemma linked_exec_granted:
  assumes "linked_exec E c (sh, hc) = (s', r)"
  shows "only_granted (he_allowed E) (sh, hc) s'"
proof (cases "host_name c \<in> set (host_functions E)")
  case True
  then have "host_name c \<in> set (he_allowed E)" unfolding host_functions_def set_filter by blast
  with True assms show ?thesis by (simp add: linked_exec_def host_call_granted)
qed (use assms in \<open>simp add: linked_exec_def\<close>)

lemma run_guest_granted: "run_guest E t s = (s', g, out) \<Longrightarrow> only_granted (he_allowed E) s s'"
proof (induction t arbitrary: s)
  case (Call c g0 k)
  obtain s1 r where l: "linked_exec E c s = (s1, r)" by fastforce
  then have g: "only_granted (he_allowed E) s s1" by (cases s) (auto dest: linked_exec_granted)
  show ?case
  proof (cases r)
    case (Inl e)
    with Call.prems l g show ?thesis by simp
  next
    case (Inr b)
    with Call.prems l have "run_guest E (k b) s1 = (s', g, out)" by simp
    from only_granted_trans[OF g Call.IH[OF _ this]] show ?thesis by simp
  qed
qed auto

end
