(* ===== verification/Worker.thy ===== *)
theory Worker
  imports Host
begin

text \<open>
  The worker thread of an entity (\<open>run_wasm_thread\<close>, \<open>run_native_thread\<close>, \<open>execute_dispatch\<close>,
  \<open>run_genesis_and_start\<close> in \<open>src/plugin/backend.rs\<close>), loading (\<open>EntityPlugin::load\<close>) and the operations
  of the handle that talk to the worker (\<open>src/plugin/mod.rs\<close>).  What both kinds of worker promise the
  handle is the locale \<open>worker_protocol\<close>.  A guest is a function from its memory, the export and
  the input to a run tree.
\<close>

section \<open>Wasm workers\<close>

type_synonym 'g guest = "'g \<Rightarrow> string \<Rightarrow> bytes \<Rightarrow> 'g guest_run"

record 'g worker =
  wk_guest :: 'g
  wk_ctx :: host_ctx
  wk_alive :: bool

record dispatch_result =
  dr_output :: bytes
  dr_pending :: "bytes option"
  dr_create :: "create_entity_request list"
  dr_delete :: "string list"
  dr_behaviour :: "set_behaviour_request list"

datatype dispatch_error = DeEncode | DeTrap | DeActor | DeQueue | DeReply

type_synonym ('g, 'w) worker_state = "'g worker \<times> 'w host_shared"

definition call_export ::
  "'w host_env \<Rightarrow> 'g guest \<Rightarrow> string \<Rightarrow> bytes \<Rightarrow> ('g, 'w) worker_state \<Rightarrow> ('g, 'w) worker_state \<times> bytes option" where
  "call_export E G export input = (\<lambda>(wk, sh).
     case run_guest E (G (wk_guest wk) export input) (sh, wk_ctx wk) of
       ((sh', hc'), g', out) \<Rightarrow> ((wk\<lparr>wk_guest := g', wk_ctx := hc'\<rparr>, sh'), out))"

definition drain_deletes :: "'w host_env \<Rightarrow> host_ctx \<Rightarrow> string list" where
  "drain_deletes E hc = hc_delete hc @ (if hc_self_terminate hc then [he_fragment E] else [])"

definition drain_ctx :: "host_ctx \<Rightarrow> host_ctx" where
  "drain_ctx hc = hc\<lparr>hc_create := [], hc_delete := [], hc_self_terminate := False, hc_behaviour := []\<rparr>"

definition execute_dispatch ::
  "'w host_env \<Rightarrow> 'g guest \<Rightarrow> (local_message \<Rightarrow> bytes option) \<Rightarrow> local_message \<Rightarrow> ('g, 'w) worker_state
     \<Rightarrow> ('g, 'w) worker_state \<times> (dispatch_error + dispatch_result)" where
  "execute_dispatch E G enc input = (\<lambda>s.
     case enc input of
       None \<Rightarrow> (s, Inl DeEncode)
     | Some input_bytes \<Rightarrow>
         (let generation_before = sc_generation (hc_state (wk_ctx (fst s))) in
          case call_export E G ''on_message'' input_bytes s of
            (s', None) \<Rightarrow> (s', Inl DeTrap)
          | ((wk, sh), Some out) \<Rightarrow>
              (let hc = wk_ctx wk; st = hc_state hc
               in ((wk\<lparr>wk_ctx := drain_ctx hc\<rparr>, sh),
                   Inr \<lparr>dr_output = out,
                        dr_pending = (if sc_dirty st \<and> sc_generation st \<noteq> generation_before
                                      then sc_pending st else None),
                        dr_create = hc_create hc, dr_delete = drain_deletes E hc,
                        dr_behaviour = hc_behaviour hc\<rparr>))))"

subsection \<open>Lifecycle signals\<close>

definition signal_atom :: "'w host_env \<Rightarrow> string \<Rightarrow> bytes" where
  "signal_atom E name = he_encode E (CText name)"

definition signal_with_data :: "'w host_env \<Rightarrow> string \<Rightarrow> bytes \<Rightarrow> bytes" where
  "signal_with_data E name data = he_encode E (CArray [CText name, CBytes data])"

definition parse_error_reason :: "(bytes \<Rightarrow> cbor option) \<Rightarrow> bytes \<Rightarrow> string option" where
  "parse_error_reason dec bs =
     (case dec bs of
        Some (CArray (CText t # vs)) \<Rightarrow>
          if t = '':error'' then Some (case vs of CText s # _ \<Rightarrow> s | _ \<Rightarrow> ''unknown'') else None
      | _ \<Rightarrow> None)"

datatype load_error =
    LeNative | LeUnsupported evaluator | LeNoBinary | LeFetchWasm cid | LeFetchBehaviour cid
  | LeBuild | LeSetState | LeSetBehaviour | LeInit | LeStart | LeTimeout

record wasm_cfg =
  wc_init_state :: bytes
  wc_is_genesis :: bool
  wc_init_payload :: "bytes option"
  wc_behaviour_text :: "bytes option"

definition send_signal ::
  "'w host_env \<Rightarrow> 'g guest \<Rightarrow> load_error \<Rightarrow> bytes \<Rightarrow> ('g, 'w) worker_state \<Rightarrow> ('g, 'w) worker_state \<times> (load_error + bytes)" where
  "send_signal E G e payload s =
     (case call_export E G ''on_signal'' payload s of (s', None) \<Rightarrow> (s', Inl e) | (s', Some out) \<Rightarrow> (s', Inr out))"

definition genesis_signal ::
  "'w host_env \<Rightarrow> 'g guest \<Rightarrow> (bytes \<Rightarrow> cbor option) \<Rightarrow> wasm_cfg \<Rightarrow> ('g, 'w) worker_state
     \<Rightarrow> ('g, 'w) worker_state \<times> (load_error + lifecycle)" where
  "genesis_signal E G dec cfg s =
     (if \<not> wc_is_genesis cfg then (s, Inr Running)
      else (case send_signal E G LeInit
                   (signal_with_data E '':init'' (case wc_init_payload cfg of None \<Rightarrow> [] | Some p \<Rightarrow> p)) s of
              (s', Inl e) \<Rightarrow> (s', Inl e)
            | (s', Inr out) \<Rightarrow> (s', Inr (if parse_error_reason dec out \<noteq> None then Error else Running))))"

definition run_genesis_and_start ::
  "'w host_env \<Rightarrow> 'g guest \<Rightarrow> (bytes \<Rightarrow> cbor option) \<Rightarrow> wasm_cfg \<Rightarrow> ('g, 'w) worker_state
     \<Rightarrow> ('g, 'w) worker_state \<times> (load_error + lifecycle)" where
  "run_genesis_and_start E G dec cfg s0 =
     (case (if wc_init_state cfg \<noteq> []
            then send_signal E G LeSetState (signal_with_data E '':set-state'' (wc_init_state cfg)) s0
            else (s0, Inr [])) of
        (s1, Inl e) \<Rightarrow> (s1, Inl e)
      | (s1, Inr _) \<Rightarrow>
          (case (case wc_behaviour_text cfg of
                   Some t \<Rightarrow> send_signal E G LeSetBehaviour (signal_with_data E '':set-behaviour'' t) s1
                 | None \<Rightarrow> (s1, Inr [])) of
             (s2, Inl e) \<Rightarrow> (s2, Inl e)
           | (s2, Inr _) \<Rightarrow>
               (case genesis_signal E G dec cfg s2 of
                  (s3, Inl e) \<Rightarrow> (s3, Inl e)
                | (s3, Inr lifecycle) \<Rightarrow>
                    (case send_signal E G LeStart (signal_atom E '':start'') s3 of
                       (s4, Inl e) \<Rightarrow> (s4, Inl e)
                     | (s4, Inr _) \<Rightarrow> (s4, Inr lifecycle)))))"

subsection \<open>The message loop\<close>

datatype worker_msg =
    MDispatch local_message | MTakePending | MMarkSaved bytes | MShutdown bool | MTerminate

datatype worker_reply =
    RDispatch "dispatch_error + dispatch_result" | RPending "bytes option"
  | RShutdown "bytes option option" | RNone

definition map_state :: "(state_ctx \<Rightarrow> state_ctx) \<Rightarrow> 'g worker \<Rightarrow> 'g worker" where
  "map_state f wk = wk\<lparr>wk_ctx := (wk_ctx wk)\<lparr>hc_state := f (hc_state (wk_ctx wk))\<rparr>\<rparr>"

definition shutdown_reply :: "bool \<Rightarrow> bool \<Rightarrow> bytes option \<Rightarrow> worker_reply" where
  "shutdown_reply require_signal_success signal_ok pending =
     (if \<not> signal_ok \<and> require_signal_success then RShutdown None else RShutdown (Some pending))"

fun worker_step ::
  "'w host_env \<Rightarrow> 'g guest \<Rightarrow> (local_message \<Rightarrow> bytes option) \<Rightarrow> worker_msg \<Rightarrow> ('g, 'w) worker_state
     \<Rightarrow> ('g, 'w) worker_state \<times> worker_reply" where
  "worker_step E G enc (MDispatch input) s = (case execute_dispatch E G enc input s of (s', r) \<Rightarrow> (s', RDispatch r))"
| "worker_step E G enc MTakePending (wk, sh) = ((wk, sh), RPending (sc_pending (hc_state (wk_ctx wk))))"
| "worker_step E G enc (MMarkSaved b) (wk, sh) = ((map_state (mark_saved b) wk, sh), RNone)"
| "worker_step E G enc (MShutdown require_signal_success) s =
     (case call_export E G ''on_signal'' (signal_atom E '':shutdown'') s of
        ((wk, sh), out) \<Rightarrow>
          ((wk, sh), shutdown_reply require_signal_success (out \<noteq> None) (sc_pending (hc_state (wk_ctx wk)))))"
| "worker_step E G enc MTerminate (wk, sh) = ((wk\<lparr>wk_alive := False\<rparr>, sh), RNone)"

text \<open>\<open>run_wasm_thread\<close> after start-up: messages behind a \<open>Terminate\<close> are dropped.\<close>

fun run_wasm_thread ::
  "'w host_env \<Rightarrow> 'g guest \<Rightarrow> (local_message \<Rightarrow> bytes option) \<Rightarrow> worker_msg list \<Rightarrow> ('g, 'w) worker_state
     \<Rightarrow> ('g, 'w) worker_state \<times> worker_reply list" where
  "run_wasm_thread E G enc [] s = (s, [])"
| "run_wasm_thread E G enc (m # ms) s =
     (case worker_step E G enc m s of
        (s', r) \<Rightarrow>
          if m = MTerminate then (s', [r])
          else (case run_wasm_thread E G enc ms s' of (s'', rs) \<Rightarrow> (s'', r # rs)))"

section \<open>Native workers\<close>

datatype native_signal = NSetState bytes | NInit bytes | NStart | NShutdown

record 'a native_actor =
  na_dispatch :: "'a \<Rightarrow> local_message \<Rightarrow> 'a \<times> (dispatch_error + dispatch_result)"
  na_signal :: "'a \<Rightarrow> native_signal \<Rightarrow> 'a \<times> bool"
  na_take_pending :: "'a \<Rightarrow> bytes option"
  na_mark_saved :: "'a \<Rightarrow> bytes \<Rightarrow> 'a"

text \<open>The world of a native worker is the pair of the outside world and the closure's own state.\<close>

fun native_step :: "'a native_actor \<Rightarrow> worker_msg \<Rightarrow> 'w \<times> 'a \<Rightarrow> ('w \<times> 'a) \<times> worker_reply" where
  "native_step A (MDispatch input) (w, a) = (case na_dispatch A a input of (a', r) \<Rightarrow> ((w, a'), RDispatch r))"
| "native_step A MTakePending (w, a) = ((w, a), RPending (na_take_pending A a))"
| "native_step A (MMarkSaved b) (w, a) = ((w, na_mark_saved A a b), RNone)"
| "native_step A (MShutdown require_signal_success) (w, a) =
     (case na_signal A a NShutdown of
        (a', ok) \<Rightarrow> ((w, a'), shutdown_reply require_signal_success ok (na_take_pending A a')))"
| "native_step A MTerminate (w, a) = ((w, a), RNone)"

definition run_native_lifecycle ::
  "'a native_actor \<Rightarrow> bool \<Rightarrow> bytes \<Rightarrow> bytes option \<Rightarrow> 'a \<Rightarrow> 'a \<times> (load_error + unit)" where
  "run_native_lifecycle A is_genesis init_state init_payload a0 =
     (case (if init_state \<noteq> [] then na_signal A a0 (NSetState init_state) else (a0, True)) of
        (a1, False) \<Rightarrow> (a1, Inl LeSetState)
      | (a1, True) \<Rightarrow>
          (case (if is_genesis then na_signal A a1 (NInit (case init_payload of None \<Rightarrow> [] | Some p \<Rightarrow> p))
                 else (a1, True)) of
             (a2, False) \<Rightarrow> (a2, Inl LeInit)
           | (a2, True) \<Rightarrow>
               (case na_signal A a2 NStart of (a3, ok) \<Rightarrow> (a3, if ok then Inr () else Inl LeStart))))"

section \<open>Handles\<close>

text \<open>
  What becomes of a message: it is answered, the mailbox is full or closed, or the reply does not arrive in
  time (the message may still have been processed).
\<close>

datatype delivery = Answered | QueueFull | ReplyLost bool

definition call_worker ::
  "(worker_msg \<Rightarrow> 's \<Rightarrow> 's \<times> worker_reply) \<Rightarrow> delivery \<Rightarrow> worker_msg \<Rightarrow> 's \<Rightarrow> 's \<times> (dispatch_error + worker_reply)" where
  "call_worker step d m s =
     (case d of
        Answered \<Rightarrow> (case step m s of (s', r) \<Rightarrow> (s', Inr r))
      | QueueFull \<Rightarrow> (s, Inl DeQueue)
      | ReplyLost processed \<Rightarrow> (if processed then fst (step m s) else s, Inl DeReply))"

datatype save_error = SeWorker dispatch_error | SeSignal | SeAdd

definition save_pending ::
  "(worker_msg \<Rightarrow> 's \<Rightarrow> 's \<times> worker_reply) \<Rightarrow> ('s \<Rightarrow> 'w) \<Rightarrow> ('w \<Rightarrow> 's \<Rightarrow> 's) \<Rightarrow> 'w kubo \<Rightarrow> bool
     \<Rightarrow> bytes option \<Rightarrow> 's \<Rightarrow> 's \<times> (save_error + cid option)" where
  "save_pending step world put_world K marked pending s =
     (case pending of
        None \<Rightarrow> (s, Inr None)
      | Some b \<Rightarrow>
          (case add_bytes_unpinned K (world s) b of
             (w', None) \<Rightarrow> (put_world w' s, Inl SeAdd)
           | (w', Some c) \<Rightarrow>
               (let s' = put_world w' s in (if marked then fst (step (MMarkSaved b) s') else s', Inr (Some c)))))"

definition trigger_save where
  "trigger_save step world put_world K d marked s =
     (case call_worker step d MTakePending s of
        (s', Inl e) \<Rightarrow> (s', Inl (SeWorker e))
      | (s', Inr (RPending pending)) \<Rightarrow> save_pending step world put_world K marked pending s'
      | (s', Inr _) \<Rightarrow> (s', Inl (SeWorker DeReply)))"

definition shutdown_signal_save where
  "shutdown_signal_save step world put_world K d marked require_signal_success s =
     (case call_worker step d (MShutdown require_signal_success) s of
        (s', Inl e) \<Rightarrow> (s', Inl (SeWorker e))
      | (s', Inr (RShutdown None)) \<Rightarrow> (s', Inl SeSignal)
      | (s', Inr (RShutdown (Some pending))) \<Rightarrow> save_pending step world put_world K marked pending s'
      | (s', Inr _) \<Rightarrow> (s', Inl (SeWorker DeReply)))"

definition prepare_reload_save where
  "prepare_reload_save step world put_world K d marked = shutdown_signal_save step world put_world K d marked True"

definition graceful_shutdown_save where
  "graceful_shutdown_save step world put_world K d marked = shutdown_signal_save step world put_world K d marked False"

section \<open>Loading\<close>

definition NEWLINE :: "8 word" where "NEWLINE = 10"

fun combine_parts :: "bytes \<Rightarrow> bytes list \<Rightarrow> bytes" where
  "combine_parts combined [] = combined"
| "combine_parts combined (part # parts) =
     (let c1 = (if combined \<noteq> [] \<and> last combined \<noteq> NEWLINE then combined @ [NEWLINE] else combined);
          c2 = c1 @ part;
          c3 = (if c2 = [] \<or> last c2 \<noteq> NEWLINE then c2 @ [NEWLINE] else c2)
      in combine_parts c3 parts)"

fun fetch_all :: "'w kubo \<Rightarrow> 'w \<Rightarrow> cid list \<Rightarrow> load_error + bytes list" where
  "fetch_all K w [] = Inr []"
| "fetch_all K w (c # cs) =
     (case fetch_behaviour K w c of
        None \<Rightarrow> Inl (LeFetchBehaviour c)
      | Some b \<Rightarrow> (case fetch_all K w cs of Inl e \<Rightarrow> Inl e | Inr bs \<Rightarrow> Inr (b # bs)))"

definition kind_behaviours :: "kind_node \<Rightarrow> cid list" where
  "kind_behaviours kind =
     (if kn_behaviour_chain kind = [] then (case kn_behaviour kind of None \<Rightarrow> [] | Some l \<Rightarrow> [l])
      else kn_behaviour_chain kind)"

text \<open>The CID and bytes of the binary, the entity's own behaviour reference and the behaviour text.\<close>

definition resolve_wasm_and_behaviour ::
  "'w kubo \<Rightarrow> 'w \<Rightarrow> entity_node \<Rightarrow> kind_node \<Rightarrow> load_error + cid \<times> bytes \<times> cid option \<times> bytes option" where
  "resolve_wasm_and_behaviour K w node kind =
     (case kn_cid kind of
        None \<Rightarrow>
          (case en_behaviour node of
             None \<Rightarrow> Inl LeNoBinary
           | Some c \<Rightarrow> (case cat_bytes K w c of None \<Rightarrow> Inl (LeFetchWasm c) | Some b \<Rightarrow> Inr (c, b, None, None)))
      | Some wasm_cid \<Rightarrow>
          (case cat_bytes K w wasm_cid of
             None \<Rightarrow> Inl (LeFetchWasm wasm_cid)
           | Some b \<Rightarrow>
               if kind_behaviours kind = [] \<and> en_behaviour node = None then Inr (wasm_cid, b, None, None)
               else (case fetch_all K w (kind_behaviours kind @ (case en_behaviour node of None \<Rightarrow> [] | Some c \<Rightarrow> [c])) of
                       Inl e \<Rightarrow> Inl e
                     | Inr parts \<Rightarrow> Inr (wasm_cid, b, en_behaviour node, Some (combine_parts [] parts)))))"

record load_args =
  la_fragment :: string
  la_node :: entity_node
  la_kind :: kind_node
  la_node_id :: string
  la_started_at :: u64
  la_runtime_config :: "string btree_map"
  la_init_payload :: "bytes option"

text \<open>The handle: what the runtime knows of an entity besides its worker.\<close>

record entity_handle =
  eh_fragment :: string
  eh_kind :: plugin_kind
  eh_acl :: string
  eh_parent :: "string option"
  eh_native :: bool

definition new_handle :: "load_args \<Rightarrow> bool \<Rightarrow> entity_handle" where
  "new_handle a native = \<lparr>eh_fragment = la_fragment a, eh_kind = plugin_kind (la_kind a),
     eh_acl = en_acl (la_node a), eh_parent = en_parent (la_node a), eh_native = native\<rparr>"

definition worker_config :: "'w host_env \<Rightarrow> load_args \<Rightarrow> cid \<Rightarrow> cid option \<Rightarrow> plugin_cfg" where
  "worker_config E a wasm_cid own = \<lparr>pc_runtime_config = la_runtime_config a, pc_our_did = he_our_did E,
     pc_fragment = la_fragment a, pc_node_kind = en_kind (la_node a), pc_wasm_cid = wasm_cid, pc_behaviour = own,
     pc_node_id = la_node_id a, pc_started_at = la_started_at a, pc_parent = en_parent (la_node a)\<rparr>"

definition initial_state :: "'w kubo \<Rightarrow> 'w \<Rightarrow> load_args \<Rightarrow> bytes" where
  "initial_state K w a =
     (if plugin_kind (la_kind a) = Stateful
      then (case en_state (la_node a) of
              Some c \<Rightarrow> (case cat_bytes K w c of Some b \<Rightarrow> b | None \<Rightarrow> []) | None \<Rightarrow> [])
      else [])"

text \<open>
  Instantiating a Wasm module is the parameter \<open>build\<close>.  A load that takes too long is given up, but its
  thread runs on, so what it did to the shared state stays.
\<close>

definition load ::
  "'w host_env \<Rightarrow> 'g guest \<Rightarrow> (bytes \<Rightarrow> cbor option) \<Rightarrow> (bytes \<Rightarrow> bool \<Rightarrow> string btree_map \<Rightarrow> string list \<Rightarrow> 'g option)
     \<Rightarrow> bool \<Rightarrow> load_args \<Rightarrow> 'w host_shared \<Rightarrow> 'w host_shared \<times> (load_error + entity_handle \<times> 'g worker \<times> lifecycle)" where
  "load E G dec build in_time a sh =
     (if kn_type (la_kind a) = Native then (sh, Inl LeNative)
      else if kn_type (la_kind a) \<noteq> Extism then (sh, Inl (LeUnsupported (kn_type (la_kind a))))
      else (case resolve_wasm_and_behaviour (he_kubo E) (hs_world sh) (la_node a) (la_kind a) of
              Inl e \<Rightarrow> (sh, Inl e)
            | Inr (wasm_cid, wasm, own, behaviour_text) \<Rightarrow>
                (let init_state = initial_state (he_kubo E) (hs_world sh) a;
                     E' = E\<lparr>he_fragment := la_fragment a, he_allowed := kn_host_functions (la_kind a)\<rparr>
                 in case build wasm (wasi (la_kind a)) (build_plugin_config (worker_config E a wasm_cid own)) (host_functions E') of
                      None \<Rightarrow> (sh, Inl LeBuild)
                    | Some g \<Rightarrow>
                        (case run_genesis_and_start E' G dec
                                \<lparr>wc_init_state = init_state, wc_is_genesis = \<not> en_initialised (la_node a),
                                 wc_init_payload = la_init_payload a, wc_behaviour_text = behaviour_text\<rparr>
                                (\<lparr>wk_guest = g, wk_ctx = host_ctx_new init_state, wk_alive = True\<rparr>, sh) of
                           ((wk, sh'), r) \<Rightarrow>
                             (sh', if \<not> in_time then Inl LeTimeout
                                   else (case r of Inl e \<Rightarrow> Inl e
                                         | Inr lifecycle \<Rightarrow> Inr (new_handle a False, wk, lifecycle)))))))"

definition ENTITY_LOAD_BACKOFF_SECS :: "nat list" where
  "ENTITY_LOAD_BACKOFF_SECS = [1, 1, 2, 3, 5]"

text \<open>The loop of \<open>load_with_fibonacci_backoff\<close> over the delays; \<open>sleep\<close> is what happens meanwhile.\<close>

fun load_retry ::
  "('s \<Rightarrow> 's \<times> (load_error + 'x)) \<Rightarrow> (nat \<Rightarrow> 's \<Rightarrow> 's) \<Rightarrow> nat list \<Rightarrow> 's \<Rightarrow> 's \<times> (load_error + 'x)" where
  "load_retry ld sleep [] s = ld s"
| "load_retry ld sleep (d # ds) s =
     (case ld s of (s', Inr x) \<Rightarrow> (s', Inr x) | (s', Inl e) \<Rightarrow> load_retry ld sleep ds (sleep d s'))"

definition load_with_fibonacci_backoff where
  "load_with_fibonacci_backoff ld sleep s = load_retry ld sleep ENTITY_LOAD_BACKOFF_SECS s"

definition new_native ::
  "'a native_actor \<Rightarrow> load_args \<Rightarrow> bytes \<Rightarrow> 'a \<Rightarrow> 'a \<times> (load_error + entity_handle \<times> lifecycle)" where
  "new_native A a init_state s =
     (case run_native_lifecycle A (\<not> en_initialised (la_node a)) init_state (la_init_payload a) s of
        (s', Inl e) \<Rightarrow> (s', Inl e)
      | (s', Inr _) \<Rightarrow> (s', Inr (new_handle a True, Running)))"

section \<open>The protocol of workers\<close>

locale worker_protocol =
  fixes step :: "worker_msg \<Rightarrow> 's \<Rightarrow> 's \<times> worker_reply"
    and world :: "'s \<Rightarrow> 'w"
    and put_world :: "'w \<Rightarrow> 's \<Rightarrow> 's"
    and pending :: "'s \<Rightarrow> bytes option"
  assumes world_put: "world (put_world w s) = w"
    and pending_put: "pending (put_world w s) = pending s"
    and take_pending: "step MTakePending s = (s, RPending (pending s))"
    and mark_world: "world (fst (step (MMarkSaved b) s)) = world s"
    and shutdown: "step (MShutdown req) s = (s', r) \<Longrightarrow>
          (r = RShutdown None \<and> req) \<or> r = RShutdown (Some (pending s'))"
begin

lemma save_pending_Inr:
  assumes "kubo_ok K" and "save_pending step world put_world K marked p s = (s', Inr r)"
  shows "case p of None \<Rightarrow> r = None \<and> s' = s
    | Some b \<Rightarrow> \<exists>c w. r = Some c \<and> cat_bytes K (world s') c = Some b
        \<and> s' = (if marked then fst (step (MMarkSaved b) (put_world w s)) else put_world w s)"
proof (cases p)
  case None
  with assms(2) show ?thesis by (simp add: save_pending_def)
next
  case (Some b)
  with assms(2) obtain w c where "add_bytes_unpinned K (world s) b = (w, Some c)" "r = Some c"
    "s' = (if marked then fst (step (MMarkSaved b) (put_world w s)) else put_world w s)"
    by (auto simp: save_pending_def Let_def split: prod.splits option.splits)
  with Some kubo_okD(8)[OF assms(1)] show ?thesis by (auto simp: mark_world world_put)
qed

text \<open>No outcome of a save loses a document of the node.\<close>

lemma save_pending_keeps:
  assumes "kubo_ok K" and "save_pending step world put_world K marked p s = (s', r)"
  shows "node_keeps K (world s) (world s')"
proof (cases p)
  case (Some b)
  obtain w c where a: "add_bytes_unpinned K (world s) b = (w, c)" by fastforce
  have "s' = put_world w s \<or> s' = fst (step (MMarkSaved b) (put_world w s))"
    using assms(2) Some a by (cases c) (auto simp: save_pending_def Let_def split: if_splits)
  then have "world s' = w" by (auto simp: mark_world world_put)
  with kubo_okD(6)[OF assms(1) a] show ?thesis by simp
qed (use assms(2) in \<open>simp add: save_pending_def\<close>)

lemma trigger_save_keeps:
  assumes "kubo_ok K" and "trigger_save step world put_world K d marked s = (s', r)"
  shows "node_keeps K (world s) (world s')"
proof (cases "s' = s")
  case False
  with assms(2) have "save_pending step world put_world K marked (pending s) s = (s', r)"
    by (auto simp: trigger_save_def call_worker_def take_pending split: delivery.splits if_splits)
  with assms(1) show ?thesis by (rule save_pending_keeps)
qed simp

lemma shutdown_save_keeps:
  assumes "kubo_ok K" and "shutdown_signal_save step world put_world K d marked req s = (s', r)"
    and "node_keeps K (world s) (world (fst (step (MShutdown req) s)))"
  shows "node_keeps K (world s) (world s')"
proof -
  obtain s1 rep where s1: "step (MShutdown req) s = (s1, rep)" by fastforce
  have "s' = s \<or> s' = s1 \<or> (\<exists>p. save_pending step world put_world K marked p s1 = (s', r))"
    using assms(2) s1
    by (auto simp: shutdown_signal_save_def call_worker_def split: delivery.splits worker_reply.splits option.splits if_splits)
  then show ?thesis using assms(3) s1 save_pending_keeps[OF assms(1)] node_keeps_trans by fastforce
qed

text \<open>A save that succeeds has stored exactly what was pending.\<close>

lemma trigger_save_Inr:
  assumes "kubo_ok K" and "trigger_save step world put_world K d marked s = (s', Inr r)"
  shows "case pending s of None \<Rightarrow> r = None \<and> s' = s
    | Some b \<Rightarrow> \<exists>c w. r = Some c \<and> cat_bytes K (world s') c = Some b
        \<and> s' = (if marked then fst (step (MMarkSaved b) (put_world w s)) else put_world w s)"
proof -
  have "save_pending step world put_world K marked (pending s) s = (s', Inr r)"
    using assms(2) by (auto simp: trigger_save_def call_worker_def take_pending split: delivery.splits)
  from save_pending_Inr[OF assms(1) this] show ?thesis .
qed

lemma shutdown_save_Inr:
  assumes "kubo_ok K" and "shutdown_signal_save step world put_world K d marked req s = (s', Inr r)"
  shows "\<exists>s1. (\<exists>p. step (MShutdown req) s = (s1, RShutdown (Some p)))
    \<and> (case pending s1 of None \<Rightarrow> r = None \<and> s' = s1
       | Some b \<Rightarrow> \<exists>c w. r = Some c \<and> cat_bytes K (world s') c = Some b
           \<and> s' = (if marked then fst (step (MMarkSaved b) (put_world w s1)) else put_world w s1))"
proof -
  obtain s1 p where s1: "step (MShutdown req) s = (s1, RShutdown (Some p))"
    "save_pending step world put_world K marked p s1 = (s', Inr r)"
    using assms(2)
    by (auto simp: shutdown_signal_save_def call_worker_def
        split: delivery.splits prod.splits sum.splits worker_reply.splits option.splits)
  have "p = pending s1" using shutdown[OF s1(1)] by simp
  with s1 save_pending_Inr[OF assms(1) s1(2)] show ?thesis by blast
qed

text \<open>Only a reload insists on the hook.\<close>

lemma graceful_never_fails_on_signal:
  "snd (graceful_shutdown_save step world put_world K d marked s) \<noteq> Inl SeSignal"
proof -
  obtain s1 r where s1: "step (MShutdown False) s = (s1, r)" by fastforce
  from shutdown[OF s1] have "r = RShutdown (Some (pending s1))" by simp
  with s1 show ?thesis
    by (auto simp: graceful_shutdown_save_def shutdown_signal_save_def call_worker_def save_pending_def Let_def
        split: delivery.splits option.splits prod.splits)
qed

end

text \<open>A worker that forgets a pending state once it is marked as saved.\<close>

locale saving_worker = worker_protocol +
  assumes mark_clears: "pending s = Some b \<Longrightarrow> pending (fst (step (MMarkSaved b) s)) = None"
begin

lemma saved_is_clean:
  assumes "kubo_ok K" and "trigger_save step world put_world K d True s = (s', Inr r)"
  shows "pending s' = None"
proof (cases "pending s")
  case None
  with trigger_save_Inr[OF assms] show ?thesis by simp
next
  case (Some b)
  with trigger_save_Inr[OF assms] obtain w where "s' = fst (step (MMarkSaved b) (put_world w s))" by auto
  with mark_clears[of "put_world w s" b] Some show ?thesis by (simp add: pending_put)
qed

end

abbreviation worker_world :: "('g, 'w) worker_state \<Rightarrow> 'w" where
  "worker_world s \<equiv> hs_world (snd s)"

abbreviation put_worker_world :: "'w \<Rightarrow> ('g, 'w) worker_state \<Rightarrow> ('g, 'w) worker_state" where
  "put_worker_world w s \<equiv> (fst s, (snd s)\<lparr>hs_world := w\<rparr>)"

abbreviation worker_pending :: "('g, 'w) worker_state \<Rightarrow> bytes option" where
  "worker_pending s \<equiv> sc_pending (hc_state (wk_ctx (fst s)))"

lemma worker_step_simps:
  "worker_step E G enc MTakePending s = (s, RPending (worker_pending s))"
  "worker_step E G enc (MMarkSaved b) s = ((map_state (mark_saved b) (fst s), snd s), RNone)"
  by (cases s; simp)+

interpretation wasm: saving_worker "worker_step E G enc" worker_world put_worker_world worker_pending
  for E :: "'w host_env" and G :: "'g guest" and enc
  by unfold_locales
    (auto simp: worker_step_simps map_state_def mark_saved_def Let_def shutdown_reply_def split: prod.splits if_splits)

interpretation native: worker_protocol "native_step A" fst "\<lambda>w s. (w, snd s)" "\<lambda>s. na_take_pending A (snd s)"
  for A :: "'a native_actor"
proof unfold_locales
  fix s s' :: "'w \<times> 'a" and r req b
  show "native_step A MTakePending s = (s, RPending (na_take_pending A (snd s)))" by (cases s) simp
  show "fst (fst (native_step A (MMarkSaved b) s)) = fst s" by (cases s) simp
  show "(r = RShutdown None \<and> req) \<or> r = RShutdown (Some (na_take_pending A (snd s')))"
    if "native_step A (MShutdown req) s = (s', r)"
    using that by (cases s) (auto simp: shutdown_reply_def split: prod.splits if_splits)
qed simp_all

section \<open>Lemmas\<close>

lemma call_export_ok:
  assumes "draws_in_range E" and "ctx_ok E (wk_ctx (fst s))" and "call_export E G export input s = (s', out)"
  shows "ctx_ok E (wk_ctx (fst s')) \<and> outbox_grows E (snd s) (snd s')"
proof -
  obtain wk sh where s: "s = (wk, sh)" by fastforce
  obtain sh1 hc1 g1 where r: "run_guest E (G (wk_guest wk) export input) (sh, wk_ctx wk) = ((sh1, hc1), g1, out)"
    "s' = (wk\<lparr>wk_guest := g1, wk_ctx := hc1\<rparr>, sh1)"
    using assms(3) s by (auto simp: call_export_def split: prod.splits)
  with run_guest_ok[OF assms(1) _ r(1)] assms(2) s show ?thesis by simp
qed

lemma call_export_grow:
  assumes "call_export E G export input s = (s', out)"
  shows "requests_grow (wk_ctx (fst s)) (wk_ctx (fst s'))"
  using assms by (cases s) (auto simp: call_export_def dest!: run_guest_grow split: prod.splits)

lemma call_export_granted:
  assumes "call_export E G export input s = (s', out)"
  shows "only_granted (he_allowed E) (snd s, wk_ctx (fst s)) (snd s', wk_ctx (fst s'))"
  using assms by (cases s) (auto simp: call_export_def dest!: run_guest_granted split: prod.splits)

lemma execute_dispatch_cases:
  assumes "execute_dispatch E G enc m s = (s', r)"
  shows "(enc m = None \<and> s' = s \<and> r = Inl DeEncode)
     \<or> (\<exists>b s1. enc m = Some b \<and> call_export E G ''on_message'' b s = (s1, None) \<and> s' = s1 \<and> r = Inl DeTrap)
     \<or> (\<exists>b s1 out dr. enc m = Some b \<and> call_export E G ''on_message'' b s = (s1, Some out)
          \<and> s' = ((fst s1)\<lparr>wk_ctx := drain_ctx (wk_ctx (fst s1))\<rparr>, snd s1) \<and> r = Inr dr
          \<and> dr_create dr = hc_create (wk_ctx (fst s1)) \<and> dr_delete dr = drain_deletes E (wk_ctx (fst s1))
          \<and> dr_behaviour dr = hc_behaviour (wk_ctx (fst s1))
          \<and> (dr_pending dr \<noteq> None \<longrightarrow> dr_pending dr = worker_pending s1))"
proof (cases "enc m")
  case None
  with assms show ?thesis by (simp add: execute_dispatch_def)
next
  case (Some b)
  obtain s1 out where "call_export E G ''on_message'' b s = (s1, out)" by fastforce
  with Some assms show ?thesis
    by (cases out; cases s1) (auto simp: execute_dispatch_def Let_def)
qed

lemma ctx_ok_drain: "ctx_ok E hc \<Longrightarrow> ctx_ok E (drain_ctx hc)"
  by (simp add: ctx_ok_def drain_ctx_def)

lemma combine_parts_terminated:
  assumes "acc \<noteq> []" and "last acc = NEWLINE"
  shows "combine_parts acc ps = acc @ concat (map (\<lambda>p. if p = [] \<or> last p = NEWLINE then p else p @ [NEWLINE]) ps)"
  using assms by (induction ps arbitrary: acc) (auto simp: Let_def last_append)

lemma fetch_all_Inr:
  "fetch_all K w cs = Inr ps \<Longrightarrow> map (cat_bytes K w) cs = map Some ps"
  by (induction cs arbitrary: ps) (auto simp: fetch_behaviour_def split: option.splits sum.splits)

section \<open>A plugin for the witnesses\<close>

definition sample_host :: "doc list host_env" where
  "sample_host = \<lparr>he_fragment = ''fortune'', he_our_did = ''did:ma:x'', he_allowed = [''ma_create_entity'', ''ma_set_state''],
     he_capacity = 2, he_did = split_did, he_kubo = mem_kubo, he_envelope = (\<lambda>_. None), he_reply = (\<lambda>_. None),
     he_create = (\<lambda>b. Some \<lparr>ci_kind = ''/ma/actor'', ci_behaviour = None, ci_init = None, ci_fragment = Some ''room''\<rparr>),
     he_text = (\<lambda>_. None), he_encode = (\<lambda>_. []), he_random_range = (\<lambda>n w. (w, 0)), he_fill_bytes = (\<lambda>n w. (w, None))\<rparr>"

text \<open>Its first call asks for an entity and a state and then traps; later calls return.\<close>

definition sample_guest :: "nat guest" where
  "sample_guest g export input =
     (if g = 0 then Call (MaCreateEntity []) 1 (\<lambda>_. Call (MaSetState [7]) 1 (\<lambda>_. Trap 1)) else Return g [])"

definition sample_worker :: "(nat, doc list) worker_state" where
  "sample_worker = (\<lparr>wk_guest = 0, wk_ctx = host_ctx_new [], wk_alive = True\<rparr>,
     \<lparr>hs_world = [], hs_outbox = [], hs_closed = False, hs_registry = []\<rparr>)"

definition sample_input :: local_message where
  "sample_input = \<lparr>lm_id = ''1'', lm_from = ''did:ma:eve'', lm_to = ''did:ma:x#fortune'', lm_created_at = 0, lm_exp = 0,
     lm_reply_to = None, lm_message_type = [], lm_content_type = [], lm_content = []\<rparr>"

lemmas worker_eval = execute_dispatch_def call_export_def sample_guest_def sample_worker_def sample_host_def
  linked_exec_def host_functions_def ma_create_entity_def validate_entity_fragment_def RESERVED_ENTITY_NAMES_def
  host_ctx_new_def state_ctx_new_def queue_state_def drain_ctx_def drain_deletes_def Let_def

lemma sample_worker_ok: "ctx_ok sample_host (wk_ctx (fst sample_worker))" "draws_in_range sample_host"
  by (simp_all add: ctx_ok_def sample_worker_def host_ctx_new_def draws_in_range_def sample_host_def)

section \<open>Properties\<close>

text \<open>A guest that asks for an entity, for its own end and for another entity's deletion.\<close>

definition asking_guest :: "nat guest" where
  "asking_guest g export input = Call (MaCreateEntity []) 1 (\<lambda>_. Call (MaEnd []) 1 (\<lambda>_. Return 1 []))"

definition asking_host :: "doc list host_env" where
  "asking_host = sample_host\<lparr>he_allowed := [''ma_create_entity'', ''ma_end'']\<rparr>"

text \<open>
  C15 (worker). A plugin acts only as itself and only through the host functions its kind links.  Whatever code it runs, a dispatch adds
  only envelopes with its own fragment as sender to the outbox, never more than the outbox holds, and changes nothing else that is
  shared but the world.  The creations it hands over name it as parent and a valid, unreserved fragment, the changes of behaviour name it
  as target.  Without \<open>ma_delete_entity\<close> the only new deletion it hands over is its own (with \<open>ma_end\<close>); with it the target
  is not restricted here but when the request is executed (\<open>deletion_respects_parents\<close>).  Without a linked function
  there is no new creation, change of behaviour, state or envelope.
\<close>

theorem guest_sandbox:
  assumes "draws_in_range E" and "ctx_ok E (wk_ctx (fst s))" and "execute_dispatch E G enc m s = (s', r)"
  shows "ctx_ok E (wk_ctx (fst s')) \<and> outbox_grows E (snd s) (snd s')
     \<and> (''ma_send'' \<notin> set (he_allowed E) \<and> ''ma_reply'' \<notin> set (he_allowed E) \<longrightarrow> hs_outbox (snd s') = hs_outbox (snd s))
     \<and> (''ma_set_state'' \<notin> set (he_allowed E) \<longrightarrow> hc_state (wk_ctx (fst s')) = hc_state (wk_ctx (fst s)))
     \<and> (\<forall>dr. r = Inr dr \<longrightarrow>
          (\<forall>c\<in>set (dr_create dr). cr_parent c = he_fragment E \<and> validate_entity_fragment (cr_fragment c) = Inr ())
          \<and> (\<forall>b\<in>set (dr_behaviour dr). sb_fragment b = he_fragment E)
          \<and> (''ma_create_entity'' \<notin> set (he_allowed E) \<longrightarrow> dr_create dr = hc_create (wk_ctx (fst s)))
          \<and> (''ma_set_behaviour'' \<notin> set (he_allowed E) \<longrightarrow> dr_behaviour dr = hc_behaviour (wk_ctx (fst s)))
          \<and> (\<forall>t\<in>set (dr_delete dr).
                t \<in> set (hc_delete (wk_ctx (fst s)))
              \<or> t = he_fragment E \<and> (hc_self_terminate (wk_ctx (fst s)) \<or> ''ma_end'' \<in> set (he_allowed E))
              \<or> ''ma_delete_entity'' \<in> set (he_allowed E)))"
  using execute_dispatch_cases[OF assms(3)]
proof (elim disjE exE conjE)
  assume "s' = s" "r = Inl DeEncode"
  with assms(2) show ?thesis by simp
next
  fix b s1 assume c: "call_export E G ''on_message'' b s = (s1, None)" "s' = s1" "r = Inl DeTrap"
  with call_export_ok[OF assms(1,2) c(1)] call_export_granted[OF c(1)] show ?thesis by (simp add: only_granted_def)
next
  fix b s1 out dr assume c: "call_export E G ''on_message'' b s = (s1, Some out)"
    "s' = ((fst s1)\<lparr>wk_ctx := drain_ctx (wk_ctx (fst s1))\<rparr>, snd s1)" "r = Inr dr"
    "dr_create dr = hc_create (wk_ctx (fst s1))" "dr_delete dr = drain_deletes E (wk_ctx (fst s1))"
    "dr_behaviour dr = hc_behaviour (wk_ctx (fst s1))"
  note ok = call_export_ok[OF assms(1,2) c(1)] and granted = call_export_granted[OF c(1)]
  have deletes: "t \<in> set (hc_delete (wk_ctx (fst s)))
      \<or> t = he_fragment E \<and> (hc_self_terminate (wk_ctx (fst s)) \<or> ''ma_end'' \<in> set (he_allowed E))
      \<or> ''ma_delete_entity'' \<in> set (he_allowed E)" if "t \<in> set (dr_delete dr)" for t
    using that granted unfolding c(5) drain_deletes_def only_granted_def by (auto split: if_splits)
  have "\<forall>c\<in>set (dr_create dr). cr_parent c = he_fragment E \<and> validate_entity_fragment (cr_fragment c) = Inr ()"
    "\<forall>b\<in>set (dr_behaviour dr). sb_fragment b = he_fragment E"
    using ok by (auto simp: c(4,6) validate_iff ctx_ok_def)
  moreover have "ctx_ok E (wk_ctx (fst s'))" using conjunct1[OF ok, THEN ctx_ok_drain] c(2) by simp
  moreover have "hc_state (wk_ctx (fst s')) = hc_state (wk_ctx (fst s1))" "snd s' = snd s1" using c(2) by (simp_all add: drain_ctx_def)
  ultimately show ?thesis using ok granted deletes c(3,4,6) by (simp add: only_granted_def)
qed

theorem guest_sandbox_witness:
  "\<exists>s' dr. execute_dispatch asking_host asking_guest (\<lambda>_. Some []) sample_input sample_worker = (s', Inr dr)
     \<and> length (dr_create dr) = 1 \<and> (\<forall>c\<in>set (dr_create dr). cr_parent c = ''fortune'' \<and> validate_entity_fragment (cr_fragment c) = Inr ())
     \<and> dr_delete dr \<noteq> [] \<and> set (dr_delete dr) \<subseteq> {''fortune''} \<and> hs_outbox (snd s') = []"
proof -
  obtain s' dr where run: "execute_dispatch asking_host asking_guest (\<lambda>_. Some []) sample_input sample_worker = (s', Inr dr)"
    and n: "length (dr_create dr) = 1" "dr_delete dr \<noteq> []"
    by (simp add: worker_eval asking_guest_def asking_host_def)
  have ok: "draws_in_range asking_host" "ctx_ok asking_host (wk_ctx (fst sample_worker))"
    using sample_worker_ok by (simp_all add: asking_host_def draws_in_range_def ctx_ok_def sample_worker_def host_ctx_new_def)
  have start: "hc_delete (wk_ctx (fst sample_worker)) = []" "hs_outbox (snd sample_worker) = []"
    "he_fragment asking_host = ''fortune''" "set (he_allowed asking_host) = {''ma_create_entity'', ''ma_end''}"
    by (simp_all add: sample_worker_def host_ctx_new_def asking_host_def sample_host_def)
  from guest_sandbox[OF ok run] run n show ?thesis unfolding start by auto
qed

text \<open>
  A dispatch that fails is not undone: the entity creations, deletions, behaviour changes and the
  self-termination it asked for before it trapped stay queued and are handed over, and executed, with the result of the next
  dispatch that succeeds.
\<close>

theorem failed_dispatch_leaks:
  assumes "execute_dispatch E G enc m1 s = (s1, Inl e)" and "execute_dispatch E G enc m2 s1 = (s2, Inr dr)"
  shows "prefix (hc_create (wk_ctx (fst s1))) (dr_create dr) \<and> prefix (hc_behaviour (wk_ctx (fst s1))) (dr_behaviour dr)
     \<and> prefix (hc_delete (wk_ctx (fst s1))) (dr_delete dr)
     \<and> (hc_self_terminate (wk_ctx (fst s1)) \<longrightarrow> he_fragment E \<in> set (dr_delete dr))
     \<and> requests_grow (wk_ctx (fst s)) (wk_ctx (fst s1))"
proof -
  obtain b s3 out where c: "call_export E G ''on_message'' b s1 = (s3, Some out)"
    "dr_create dr = hc_create (wk_ctx (fst s3))" "dr_delete dr = drain_deletes E (wk_ctx (fst s3))"
    "dr_behaviour dr = hc_behaviour (wk_ctx (fst s3))"
    using execute_dispatch_cases[OF assms(2)] by auto
  have "requests_grow (wk_ctx (fst s)) (wk_ctx (fst s1))"
    using execute_dispatch_cases[OF assms(1)] call_export_grow by fastforce
  with call_export_grow[OF c(1)] c(2-4) show ?thesis
    by (auto simp: requests_grow_def drain_deletes_def intro: prefix_order.trans)
qed

theorem failed_dispatch_leaks_witness:
  "\<exists>s1 s2 dr. execute_dispatch sample_host sample_guest (\<lambda>_. Some []) sample_input sample_worker = (s1, Inl DeTrap)
     \<and> execute_dispatch sample_host sample_guest (\<lambda>_. Some []) sample_input s1 = (s2, Inr dr)
     \<and> map cr_fragment (dr_create dr) = [''room''] \<and> dr_pending dr = None \<and> worker_pending s2 = Some [7]"
proof -
  obtain s1 where s1: "execute_dispatch sample_host sample_guest (\<lambda>_. Some []) sample_input sample_worker = (s1, Inl DeTrap)"
    and c1: "map cr_fragment (hc_create (wk_ctx (fst s1))) = [''room'']" "length (hc_create (wk_ctx (fst s1))) = 1"
      "wk_guest (fst s1) = 1" "worker_pending s1 = Some [7]"
    by (simp add: worker_eval)
  obtain s2 dr where s2: "execute_dispatch sample_host sample_guest (\<lambda>_. Some []) sample_input s1 = (s2, Inr dr)"
    and d: "length (dr_create dr) = 1" "dr_pending dr = None" "worker_pending s2 = Some [7]"
    using c1(2-) by (cases s1) (simp add: execute_dispatch_def call_export_def sample_guest_def drain_ctx_def Let_def)
  have "dr_create dr = hc_create (wk_ctx (fst s1))"
    using failed_dispatch_leaks[OF s1 s2] d(1) c1(2) by (auto simp: prefix_def)
  then have "map cr_fragment (dr_create dr) = [''room'']" using c1(1) by simp
  with s1 s2 d(2,3) show ?thesis by (intro exI conjI)
qed

text \<open>
  Saving a worker's state succeeds only with the bytes stored: \<open>trigger_save\<close> answers a CID exactly when
  something was pending, the node returns precisely those bytes for it, and once the worker has
  the confirmation nothing is pending and they are its persisted state.
\<close>

theorem worker_save_durable:
  assumes "kubo_ok K"
    and "trigger_save (worker_step E G enc) worker_world put_worker_world K d True s = (s', Inr r)"
  shows "case worker_pending s of
      None \<Rightarrow> r = None \<and> s' = s
    | Some b \<Rightarrow> worker_pending s' = None \<and> sc_persisted (hc_state (wk_ctx (fst s'))) = Some b
        \<and> (\<exists>c. r = Some c \<and> cat_bytes K (worker_world s') c = Some b)"
proof (cases "worker_pending s")
  case None
  with wasm.trigger_save_Inr[OF assms] show ?thesis by simp
next
  case (Some b)
  with wasm.trigger_save_Inr[OF assms] wasm.saved_is_clean[OF assms] show ?thesis
    by (auto simp: worker_step_simps map_state_def)
qed

lemma sample_save:
  "\<exists>s' r. trigger_save (worker_step sample_host sample_guest (\<lambda>_. None)) worker_world put_worker_world mem_kubo Answered True
     (map_state (queue_state [7]) (fst sample_worker), snd sample_worker) = (s', Inr r)"
  by (simp add: trigger_save_def call_worker_def worker_step_simps save_pending_def Let_def
      map_state_def sample_worker_def host_ctx_new_def state_ctx_new_def queue_state_def)

theorem worker_save_durable_witness:
  "\<exists>s' r. trigger_save (worker_step sample_host sample_guest (\<lambda>_. None)) worker_world put_worker_world mem_kubo Answered True
     (map_state (queue_state [7]) (fst sample_worker), snd sample_worker) = (s', Inr r)
   \<and> sc_persisted (hc_state (wk_ctx (fst s'))) = Some [7]"
proof -
  from sample_save obtain s' r where
    r: "trigger_save (worker_step sample_host sample_guest (\<lambda>_. None)) worker_world put_worker_world mem_kubo Answered True
     (map_state (queue_state [7]) (fst sample_worker), snd sample_worker) = (s', Inr r)" by blast
  from worker_save_durable[OF mem_kubo_ok r] r show ?thesis
    by (auto simp: map_state_def sample_worker_def host_ctx_new_def state_ctx_new_def queue_state_def)
qed

text \<open>
  A failing \<open>:shutdown\<close> hook stops a hot reload but not the shutdown of the daemon: the save before a reload
  answers an error and stores nothing, while the graceful save never fails because of the hook and still stores what the
  entity had queued.
\<close>

theorem shutdown_hook_failure:
  assumes "kubo_ok K" and "call_export E G ''on_signal'' (signal_atom E '':shutdown'') s = (s1, None)"
  shows "prepare_reload_save (worker_step E G enc) worker_world put_worker_world K Answered marked s = (s1, Inl SeSignal)
     \<and> (case graceful_shutdown_save (worker_step E G enc) worker_world put_worker_world K Answered marked s of
          (s2, Inl e) \<Rightarrow> e = SeAdd
        | (s2, Inr r) \<Rightarrow> (case worker_pending s1 of None \<Rightarrow> r = None
            | Some b \<Rightarrow> \<exists>c. r = Some c \<and> cat_bytes K (worker_world s2) c = Some b))"
proof -
  have step: "worker_step E G enc (MShutdown req) s
      = (s1, shutdown_reply req False (worker_pending s1))" for req
    using assms(2) by (cases s1) simp
  have "prepare_reload_save (worker_step E G enc) worker_world put_worker_world K Answered marked s = (s1, Inl SeSignal)"
    by (simp add: prepare_reload_save_def shutdown_signal_save_def call_worker_def step shutdown_reply_def
        del: worker_step.simps)
  moreover obtain s2 x where g: "graceful_shutdown_save (worker_step E G enc) worker_world put_worker_world K Answered marked s = (s2, x)"
    by fastforce
  then have sp: "save_pending (worker_step E G enc) worker_world put_worker_world K marked (worker_pending s1) s1 = (s2, x)"
    by (simp add: graceful_shutdown_save_def shutdown_signal_save_def call_worker_def step shutdown_reply_def
        del: worker_step.simps)
  have "case x of Inl e \<Rightarrow> e = SeAdd
      | Inr r \<Rightarrow> (case worker_pending s1 of None \<Rightarrow> r = None
            | Some b \<Rightarrow> \<exists>c. r = Some c \<and> cat_bytes K (worker_world s2) c = Some b)"
  proof (cases x)
    case (Inl e)
    with sp show ?thesis by (auto simp: save_pending_def Let_def split: option.splits prod.splits)
  next
    case (Inr r)
    with wasm.save_pending_Inr[OF assms(1)] sp show ?thesis by (fastforce split: option.splits)
  qed
  ultimately show ?thesis using g by simp
qed

definition crashing_guest :: "nat guest" where
  "crashing_guest g export input = Trap g"

theorem shutdown_hook_failure_witness:
  "snd (prepare_reload_save (worker_step sample_host crashing_guest (\<lambda>_. None)) worker_world put_worker_world mem_kubo
      Answered True sample_worker) = Inl SeSignal"
  using shutdown_hook_failure[OF mem_kubo_ok, of sample_host crashing_guest sample_worker sample_worker "\<lambda>_. None" True]
  by (simp add: call_export_def crashing_guest_def sample_worker_def)

text \<open>
  The behaviour text a kind-shared binary is loaded with is the layers of the kind, base first, followed by the
  entity's own source, each ended by a line break, and it is absent exactly when there is no layer.
\<close>

theorem behaviour_layers:
  assumes "kn_cid kind = Some wasm"
    and "resolve_wasm_and_behaviour K w node kind = Inr (c, b, own, behaviour)"
    and "layers = kind_behaviours kind @ (case en_behaviour node of None \<Rightarrow> [] | Some l \<Rightarrow> [l])"
  shows "c = wasm \<and> cat_bytes K w wasm = Some b \<and> own = en_behaviour node
     \<and> (case behaviour of None \<Rightarrow> layers = []
        | Some t \<Rightarrow> \<exists>parts. map (cat_bytes K w) layers = map Some parts \<and> layers \<noteq> []
            \<and> (hd parts \<noteq> [] \<longrightarrow>
                 t = concat (map (\<lambda>p. if p = [] \<or> last p = NEWLINE then p else p @ [NEWLINE]) parts)))"
proof -
  from assms(1,2) have wasm: "c = wasm" "cat_bytes K w wasm = Some b" "own = en_behaviour node"
    by (auto simp: resolve_wasm_and_behaviour_def split: option.splits if_splits sum.splits)
  show ?thesis
  proof (cases behaviour)
    case None
    with assms wasm show ?thesis
      by (auto simp: resolve_wasm_and_behaviour_def split: option.splits if_splits sum.splits)
  next
    case (Some t)
    with assms wasm(2) have "layers \<noteq> []" "\<exists>parts. fetch_all K w layers = Inr parts \<and> t = combine_parts [] parts"
      by (auto simp: resolve_wasm_and_behaviour_def split: option.splits if_splits sum.splits)
    then obtain parts where p: "fetch_all K w layers = Inr parts" "t = combine_parts [] parts" "layers \<noteq> []" by blast
    have m: "map (cat_bytes K w) layers = map Some parts" using fetch_all_Inr[OF p(1)] .
    with p(3) obtain x xs where x: "parts = x # xs" by (cases parts) auto
    have "t = concat (map (\<lambda>p. if p = [] \<or> last p = NEWLINE then p else p @ [NEWLINE]) parts)" if "x \<noteq> []"
      using that p(2) x by (simp add: combine_parts_terminated)
    then have "hd parts \<noteq> [] \<longrightarrow> t = concat (map (\<lambda>p. if p = [] \<or> last p = NEWLINE then p else p @ [NEWLINE]) parts)"
      using x by simp
    with m p(3) have "\<exists>parts. map (cat_bytes K w) layers = map Some parts \<and> layers \<noteq> []
        \<and> (hd parts \<noteq> [] \<longrightarrow> t = concat (map (\<lambda>p. if p = [] \<or> last p = NEWLINE then p else p @ [NEWLINE]) parts))"
      by blast
    with wasm Some show ?thesis by simp
  qed
qed

definition layered_kind :: kind_node where
  "layered_kind = sample_base\<lparr>kn_cid := Some (mem_cid 0), kn_behaviour_chain := [mem_cid 1, mem_cid 2]\<rparr>"

theorem behaviour_layers_witness:
  "\<exists>own b. resolve_wasm_and_behaviour mem_kubo [BytesDoc [0], BytesDoc [65], BytesDoc [66, 10]]
       (sample_entity\<lparr>en_behaviour := Some (mem_cid 1)\<rparr>) layered_kind
     = Inr (mem_cid 0, b, own, Some [65, 10, 66, 10, 65, 10]) \<and> b = [0]"
proof -
  have r: "resolve_wasm_and_behaviour mem_kubo [BytesDoc [0], BytesDoc [65], BytesDoc [66, 10]]
       (sample_entity\<lparr>en_behaviour := Some (mem_cid 1)\<rparr>) layered_kind
     = Inr (mem_cid 0, [0], Some (mem_cid 1), Some [65, 10, 66, 10, 65, 10])"
    by (simp add: resolve_wasm_and_behaviour_def layered_kind_def kind_behaviours_def fetch_behaviour_def NEWLINE_def
        sample_entity_def Let_def)
  with behaviour_layers[OF _ r refl] show ?thesis by (simp add: layered_kind_def)
qed

end
