(* ===== verification/Reload.thy ===== *)
theory Reload
  imports CrudDispatch Worker
begin

text \<open>
  The reload task of an entity (\<open>spawn_entity_reload\<close> and its parts in \<open>src/crud/helpers.rs\<close>) on the
  state of the CRUD service.  The task runs beside everything else, so its two critical parts are
  separate steps: the preparation up to the load, and \<open>finish_reload\<close>.  The results of the calls
  to the workers (\<open>prepare_reload_save\<close>, \<open>load_with_fibonacci_backoff\<close>, \<open>trigger_save\<close>, all
  in \<open>Worker\<close>) are arguments; an error is its text.
\<close>

section \<open>Model\<close>

type_synonym 'w service = "'w \<times> crud_state"

text \<open>A failing manifest update is only logged.\<close>

definition mark_entity_reload_failed :: "'w crud_env \<Rightarrow> string \<Rightarrow> string \<Rightarrow> 'w service \<Rightarrow> 'w service" where
  "mark_entity_reload_failed E name reason = (\<lambda>(w, s).
     case set_entity_reload_error (ce_kubo E) name (Some reason) w (ct_writer s) of
       (w', wr, r) \<Rightarrow> (w', s\<lparr>ct_writer := wr\<rparr>))"

definition resolve_kind_node_for_reload ::
  "'w crud_env \<Rightarrow> (crud_error \<Rightarrow> string) \<Rightarrow> string \<Rightarrow> string \<Rightarrow> 'w service \<Rightarrow> 'w service \<times> kind_node option" where
  "resolve_kind_node_for_reload E msg name kind = (\<lambda>(w, s).
     let failed = (\<lambda>reason. (mark_entity_reload_failed E name reason (w, s), None)) in
     case map_of (ct_kinds s) kind of
       Some k \<Rightarrow> ((w, s), Some k)
     | None \<Rightarrow>
         (case mw_root_cid (ct_writer s) of
            None \<Rightarrow> failed ''no root CID available; cannot reload entity''
          | Some root \<Rightarrow>
              (case dag_get_manifest (ce_kubo E) w root of
                 None \<Rightarrow> failed (''failed to load manifest for kind lookup: '' @ msg (CeFetch root))
               | Some m \<Rightarrow>
                   (case get_protocol (rm_kinds m) kind of
                      None \<Rightarrow> failed (''kind '' @ [CHR 0x27] @ kind @ [CHR 0x27] @ '' is not in manifest; cannot reload entity'')
                    | Some link \<Rightarrow>
                        (case dag_get_kind (ce_kubo E) w link of
                           None \<Rightarrow> failed (''failed to fetch kind node: '' @ msg (CeFetch link))
                         | Some raw \<Rightarrow>
                             if kn_extends raw = None then ((w, s), Some raw)
                             else (case resolve_kind_extends (dag_get_kind (ce_kubo E) w) (rm_kinds m) raw of
                                     Inl e \<Rightarrow> failed (''failed to resolve kind extends chain: '' @ msg (CeKind e))
                                   | Inr k \<Rightarrow> ((w, s), Some k)))))))"

text \<open>The node is read again after the save, so the load sees the saved state.\<close>

definition reread_entity ::
  "'w crud_env \<Rightarrow> (crud_error \<Rightarrow> string) \<Rightarrow> string \<Rightarrow> 'w service \<Rightarrow> 'w service \<times> entity_node option" where
  "reread_entity E msg name = (\<lambda>(w, s).
     case writer_entity_node (ce_kubo E) name w (ct_writer s) of
       Inr node \<Rightarrow> ((w, s), Some node)
     | Inl e \<Rightarrow>
         (mark_entity_reload_failed E name
            (''failed to reload current entity node after saving state: '' @ msg (CeWriter e)) (w, s), None))"

definition refresh_entity_before_reload ::
  "'w crud_env \<Rightarrow> (crud_error \<Rightarrow> string) \<Rightarrow> string \<Rightarrow> string + cid option \<Rightarrow> 'w service \<Rightarrow> 'w service \<times> entity_node option" where
  "refresh_entity_before_reload E msg name saved = (\<lambda>(w, s).
     case saved of
       Inl e \<Rightarrow> (mark_entity_reload_failed E name (''failed to persist current state before reload: '' @ e) (w, s), None)
     | Inr None \<Rightarrow> reread_entity E msg name (w, s)
     | Inr (Some c) \<Rightarrow>
         (case set_entity_state (ce_kubo E) name c w (ct_writer s) of
            (w', wr, Inl e) \<Rightarrow>
              (mark_entity_reload_failed E name
                 (''failed to publish current state before reload: '' @ msg (CeWriter e)) (w', s\<lparr>ct_writer := wr\<rparr>), None)
          | (w', wr, Inr root) \<Rightarrow> reread_entity E msg name (w', s\<lparr>ct_writer := wr\<rparr>)))"

text \<open>
  The first part of the task, up to the call of the loader: the kind, the plugin that is running now and the
  entity node to load, or nothing when the task gives up.
\<close>

definition prepare_reload ::
  "'w crud_env \<Rightarrow> (crud_error \<Rightarrow> string) \<Rightarrow> string \<Rightarrow> entity_node \<Rightarrow> string + cid option \<Rightarrow> 'w service
     \<Rightarrow> 'w service \<times> (kind_node \<times> nat option \<times> entity_node) option" where
  "prepare_reload E msg name node saved ws =
     (case resolve_kind_node_for_reload E msg name (en_kind node) ws of
        (ws1, None) \<Rightarrow> (ws1, None)
      | (ws1, Some kind) \<Rightarrow>
          (case map_of (ct_plugins (snd ws1)) name of
             None \<Rightarrow> (ws1, Some (kind, None, node))
           | Some old \<Rightarrow>
               (case refresh_entity_before_reload E msg name saved ws1 of
                  (ws2, None) \<Rightarrow> (ws2, None)
                | (ws2, Some node') \<Rightarrow> (ws2, Some (kind, Some old, node')))))"

definition terminate_worker :: "nat option \<Rightarrow> crud_state \<Rightarrow> crud_state" where
  "terminate_worker old s =
     (case old of None \<Rightarrow> s | Some h \<Rightarrow> s\<lparr>ct_terminated := h # ct_terminated s\<rparr>)"

definition remove_plugin :: "string \<Rightarrow> crud_state \<Rightarrow> crud_state" where
  "remove_plugin name s = s\<lparr>ct_plugins := AList.delete name (ct_plugins s)\<rparr>"

definition install_plugin :: "string \<Rightarrow> nat \<Rightarrow> crud_state \<Rightarrow> crud_state" where
  "install_plugin name h s = s\<lparr>ct_plugins := AList.update name h (ct_plugins s)\<rparr>"

text \<open>\<open>replacement\<close> is the state CID the new plugin's \<open>trigger_save\<close> answered, if it succeeded.\<close>

definition finish_reload ::
  "'w crud_env \<Rightarrow> string \<Rightarrow> nat option \<Rightarrow> string + nat \<times> lifecycle \<Rightarrow> cid option \<Rightarrow> 'w service \<Rightarrow> 'w service" where
  "finish_reload E name old result replacement = (\<lambda>(w, s).
     case result of
       Inl e \<Rightarrow>
         mark_entity_reload_failed E name (''failed to load entity plugin: '' @ e)
           (w, terminate_worker old (remove_plugin name s))
     | Inr (h, lc) \<Rightarrow>
         if lc = Error \<and> old \<noteq> None
         then mark_entity_reload_failed E name ''plugin lifecycle returned error during reload''
                (w, terminate_worker old (remove_plugin name s))
         else (let s1 = terminate_worker old (install_plugin name h s) in
               if lc = Running
               then (case complete_entity_reload (ce_kubo E) name replacement w (ct_writer s1) of
                       (w', wr, r) \<Rightarrow> (w', s1\<lparr>ct_writer := wr\<rparr>))
               else (w, s1)))"

section \<open>Lemmas\<close>

lemma service_frame [simp]:
  "ct_writer (terminate_worker c s) = ct_writer s" "ct_plugins (terminate_worker c s) = ct_plugins s"
  "ct_writer (remove_plugin name s) = ct_writer s" "ct_writer (install_plugin name h s) = ct_writer s"
  "ct_plugins (remove_plugin name s) = AList.delete name (ct_plugins s)"
  "ct_plugins (install_plugin name h s) = AList.update name h (ct_plugins s)"
  "ct_terminated (remove_plugin name s) = ct_terminated s" "ct_terminated (install_plugin name h s) = ct_terminated s"
  "ct_terminated (terminate_worker (Some h') s) = h' # ct_terminated s"
  by (simp_all add: terminate_worker_def remove_plugin_def install_plugin_def split: option.splits)

abbreviation entity_of :: "'w crud_env \<Rightarrow> string \<Rightarrow> 'w service \<Rightarrow> writer_error + entity_node" where
  "entity_of E name ws \<equiv> writer_entity_node (ce_kubo E) name (fst ws) (ct_writer (snd ws))"

text \<open>Marking a failed reload touches the registry and the other plugins in no way.\<close>

lemma mark_failed_frame:
  "snd (mark_entity_reload_failed E name reason ws) = (snd ws)\<lparr>ct_writer := ct_writer (snd (mark_entity_reload_failed E name reason ws))\<rparr>"
  by (cases ws) (auto simp: mark_entity_reload_failed_def split: prod.splits)

lemma mark_failed_plugins [simp]:
  "ct_plugins (snd (mark_entity_reload_failed E name reason ws)) = ct_plugins (snd ws)"
  "ct_terminated (snd (mark_entity_reload_failed E name reason ws)) = ct_terminated (snd ws)"
  by (subst mark_failed_frame, simp)+

lemma mark_failed_coherent:
  assumes "state_coherent E ws"
  shows "state_coherent E (mark_entity_reload_failed E name reason ws)
     \<and> node_keeps (ce_kubo E) (fst ws) (fst (mark_entity_reload_failed E name reason ws))"
proof -
  obtain w s where ws: "ws = (w, s)" by fastforce
  obtain w' wr r where u: "update_entity_node (ce_kubo E) name (reload_error_fields (Some reason)) w (ct_writer s) = (w', wr, r)"
    using prod_cases3 by blast
  from u ws assms update_entity_ok[of "ce_kubo E" w "ct_writer s" name "reload_error_fields (Some reason)" w' wr]
    update_entity_err[of "ce_kubo E" w "ct_writer s" name "reload_error_fields (Some reason)" w' wr]
  show ?thesis by (cases r) (auto simp: mark_entity_reload_failed_def set_entity_reload_error_def)
qed

lemma mark_failed_reads:
  assumes "state_coherent E ws" and "entity_of E name ws = Inr entity"
  shows "entity_of E name (mark_entity_reload_failed E name reason ws) =
    (case set_entity_reload_error (ce_kubo E) name (Some reason) (fst ws) (ct_writer (snd ws)) of
       (w, wr, Inr root) \<Rightarrow> Inr (entity\<lparr>en_reload_error := Some reason\<rparr>)
     | (w, wr, Inl e) \<Rightarrow> Inr entity)"
proof -
  let ?K = "ce_kubo E"
  obtain w s where ws: "ws = (w, s)" by fastforce
  obtain w' wr r where u: "update_entity_node ?K name (reload_error_fields (Some reason)) w (ct_writer s) = (w', wr, r)"
    using prod_cases3 by blast
  have coh: "coherent ?K (w, ct_writer s)" using assms(1) ws by simp
  have en: "writer_entity_node ?K name w (ct_writer s) = Inr entity" using assms(2) ws by simp
  have "writer_entity_node ?K name w' wr = (case r of Inr root \<Rightarrow> Inr (entity\<lparr>en_reload_error := Some reason\<rparr>) | Inl e \<Rightarrow> Inr entity)"
  proof (cases r)
    case (Inr root)
    with entity_node_update[OF coh] u en show ?thesis by (fastforce simp: reload_error_fields_def)
  next
    case (Inl e)
    with update_entity_err[OF coh] u have k: "mw_cid wr = mw_cid (ct_writer s)" "node_keeps ?K w w'" "coherent ?K (w', wr)" by auto
    show ?thesis using entity_node_kept[OF coh k(1-3) en] Inl by simp
  qed
  with u ws show ?thesis by (cases r) (simp_all add: mark_entity_reload_failed_def set_entity_reload_error_def)
qed

text \<open>A reload that gives up before the load changes nothing of the service but the writer.\<close>

definition only_writer :: "crud_state \<Rightarrow> crud_state \<Rightarrow> bool" where
  "only_writer s s' \<longleftrightarrow> (\<exists>wr. s' = s\<lparr>ct_writer := wr\<rparr>)"

lemma only_writer_refl [simp]: "only_writer s s"
  unfolding only_writer_def by (intro exI[of _ "ct_writer s"]) simp

lemma only_writer_trans: "only_writer s s' \<Longrightarrow> only_writer s' s'' \<Longrightarrow> only_writer s s''"
  by (auto simp: only_writer_def)

lemma only_writer_put: "only_writer s (s\<lparr>ct_writer := wr\<rparr>)"
  by (auto simp: only_writer_def)

lemma only_writer_mark: "only_writer s (snd (mark_entity_reload_failed E name reason (w, s)))"
  using mark_failed_frame[of E name reason "(w, s)"] unfolding only_writer_def by auto

lemma only_writer_marked: "only_writer s (snd (mark_entity_reload_failed E name reason (w, s\<lparr>ct_writer := wr\<rparr>)))"
  using only_writer_trans[OF only_writer_put only_writer_mark] .

lemma reread_only_writer: "only_writer s (snd (fst (reread_entity E msg name (w, s))))"
  by (auto simp: reread_entity_def only_writer_mark split: sum.split)

lemma refresh_only_writer: "only_writer s (snd (fst (refresh_entity_before_reload E msg name saved (w, s))))"
  using only_writer_trans[OF only_writer_put reread_only_writer]
  by (auto simp: refresh_entity_before_reload_def only_writer_mark only_writer_marked reread_only_writer
      split: sum.split option.split prod.split)

lemma resolve_only_writer: "only_writer s (snd (fst (resolve_kind_node_for_reload E msg name kind (w, s))))"
  by (auto simp: resolve_kind_node_for_reload_def Let_def only_writer_mark split: option.split sum.split)

lemma prepare_reload_frame:
  assumes "prepare_reload E msg name node saved ws = (ws', r)"
  shows "only_writer (snd ws) (snd ws')"
proof -
  obtain w1 s1 k where 1: "resolve_kind_node_for_reload E msg name (en_kind node) ws = ((w1, s1), k)" by (metis prod.collapse)
  have a: "only_writer (snd ws) s1" using resolve_only_writer[of "snd ws" E msg name "en_kind node" "fst ws"] 1 by simp
  obtain w2 s2 n where 2: "refresh_entity_before_reload E msg name saved (w1, s1) = ((w2, s2), n)" by (metis prod.collapse)
  have "only_writer s1 s2" using refresh_only_writer[of s1 E msg name saved w1] 2 by simp
  with a have b: "only_writer (snd ws) s2" by (rule only_writer_trans)
  from assms a b 1 2 show ?thesis by (auto simp: prepare_reload_def split: option.splits)
qed

lemma entity_of_missing:
  assumes "state_coherent E ws" and "state_manifest E ws = Some m" and "map_of (rm_entities m) name = None"
  shows "entity_of E name ws = Inl (WNoEntity name)"
  using entity_node_current[of "ce_kubo E" "fst ws" "ct_writer (snd ws)" m name] assms by simp

lemma handle_entity_delete_ROk:
  assumes "state_coherent E ws" and "handle_entity_delete E from name ws = (ws', Inr ROk)"
  shows "state_coherent E ws' \<and> map_of (ct_plugins (snd ws')) name = None
     \<and> (\<exists>m. state_manifest E ws' = Some m \<and> map_of (rm_entities m) name = None)"
proof -
  obtain w s where ws: "ws = (w, s)" by fastforce
  obtain root where w1: "with_manifest_crud E (\<lambda>m. m\<lparr>rm_entities := AList.delete name (rm_entities m)\<rparr>) (w, stop_entity name s) = (ws', Inr root)"
    using assms(2) ws
    by (auto simp: handle_entity_delete_def crud_run load_manifest_def check_management_def split: if_splits sum.splits option.splits)
  have pl: "map_of (ct_plugins (stop_entity name s)) name = None"
    by (auto simp: stop_entity_def map_of_delete split: option.splits)
  have "ct_writer (stop_entity name s) = ct_writer s" by (simp add: stop_entity_def split: option.splits)
  with assms(1) ws have coh: "state_coherent E (w, stop_entity name s)" by simp
  note m = with_manifest_Inr[OF coh w1]
  have "ct_plugins (snd ws') = ct_plugins (stop_entity name s)" by (subst m(4)) simp
  with m pl show ?thesis by (auto simp: map_of_delete)
qed

lemma finish_reload_installs:
  assumes "lc = Running \<or> old = None"
  shows "map_of (ct_plugins (snd (finish_reload E name old (Inr (h, lc)) repl ws))) k
     = (if k = name then Some h else map_of (ct_plugins (snd ws)) k)"
  using assms by (cases ws) (auto simp: finish_reload_def Let_def map_of_update split: prod.splits)

text \<open>The entity to be loaded, when the running plugin's state was saved.\<close>

lemma prepare_reload_saved:
  assumes "state_coherent E ws" and "map_of (ct_plugins (snd ws)) name = Some h"
    and "prepare_reload E msg name node (Inr (Some c)) ws = (ws', Some (kind, old, node'))"
  shows "old = Some h \<and> en_state node' = Some c \<and> state_coherent E ws'
     \<and> node_keeps (ce_kubo E) (fst ws) (fst ws') \<and> entity_of E name ws' = Inr node'"
proof -
  obtain w s where ws: "ws = (w, s)" by fastforce
  have k: "resolve_kind_node_for_reload E msg name (en_kind node) ws = (ws1, Some k) \<Longrightarrow> ws1 = ws" for ws1 k
    unfolding ws by (auto simp: resolve_kind_node_for_reload_def Let_def split: option.splits if_splits sum.splits)
  obtain w1 wr root where u: "set_entity_state (ce_kubo E) name c w (ct_writer s) = (w1, wr, Inr root)"
    "reread_entity E msg name (w1, s\<lparr>ct_writer := wr\<rparr>) = (ws', Some node')" "old = Some h"
    using assms(2,3) k ws
    by (auto simp: prepare_reload_def refresh_entity_before_reload_def split: option.splits prod.splits sum.splits)
  have ws': "ws' = (w1, s\<lparr>ct_writer := wr\<rparr>)" "writer_entity_node (ce_kubo E) name w1 wr = Inr node'"
    using u(2) by (auto simp: reread_entity_def split: sum.splits)
  have e: "update_entity_node (ce_kubo E) name (\<lambda>node. (node\<lparr>en_state := Some c\<rparr>, True)) w (ct_writer s) = (w1, wr, Inr root)"
    using u(1) by (simp add: set_entity_state_def)
  have coh: "coherent (ce_kubo E) (w, ct_writer s)" using assms(1) ws by simp
  have "en_state node' = Some c" using entity_node_update[OF coh e] ws'(2) by auto
  with update_entity_ok[OF coh e] ws' u(3) ws show ?thesis by auto
qed

section \<open>A service for the witnesses\<close>

definition stateful_base :: kind_node where
  "stateful_base = sample_base\<lparr>kn_attributes := [(''stateful'', JBool True)]\<rparr>"

definition sample_running :: crud_state where
  "sample_running = sample_crud\<lparr>ct_plugins := [(''fortune'', 7)], ct_kinds := [(''/ma/actor'', stateful_base)]\<rparr>"

lemma sample_running_simps [simp]:
  "ct_writer sample_running = sample_writer" "ct_plugins sample_running = [(''fortune'', 7)]"
  "ct_kinds sample_running = [(''/ma/actor'', stateful_base)]"
  by (simp_all add: sample_running_def sample_crud_def)

definition saving_guest :: "nat guest" where
  "saving_guest g export input = Call (MaSetState [9]) g (\<lambda>_. Return g [])"

definition saving_worker_state :: "(nat, doc list) worker_state" where
  "saving_worker_state = (fst sample_worker, (snd sample_worker)\<lparr>hs_world := sample_world\<rparr>)"

lemma saving_run:
  "\<exists>s2. prepare_reload_save (worker_step sample_host saving_guest (\<lambda>_. None)) worker_world put_worker_world mem_kubo
     Answered True saving_worker_state = (s2, Inr (Some (mem_cid 2))) \<and> worker_world s2 = sample_world @ [BytesDoc [9]]"
  by (simp add: prepare_reload_save_def shutdown_signal_save_def call_worker_def call_export_def saving_guest_def
      saving_worker_state_def sample_worker_def sample_host_def linked_exec_def host_functions_def host_ctx_new_def
      state_ctx_new_def queue_state_def shutdown_reply_def save_pending_def map_state_def sample_world_def)

lemma grown_coherent: "state_coherent sample_env (sample_world @ [BytesDoc b], sample_running)"
  using keeps_coherent[OF sample_coherent mem_kubo_keeps, of sample_writer "BytesDoc b"] by simp

section \<open>Properties\<close>

text \<open>
  C16 (reload). A hot reload loses no queued state: when the running worker's \<open>:shutdown\<close> succeeds and the
  preparation completes, the state CID of the entity that is loaded holds exactly the bytes that were
  pending, and a stateful kind's new worker starts from them.
\<close>

theorem reload_carries_state:
  assumes "kubo_ok (ce_kubo E)"
    and "prepare_reload_save (worker_step HE G enc) worker_world put_worker_world (ce_kubo E) Answered marked s = (s2, Inr (Some c))"
    and "state_coherent E (worker_world s2, cs)" and "map_of (ct_plugins cs) name = Some h"
    and "prepare_reload E msg name node (Inr (Some c)) (worker_world s2, cs) = (ws', Some (kind, old, node'))"
    and "plugin_kind kind = Stateful" and "la_node a = node'" and "la_kind a = kind"
  shows "\<exists>s1 b. worker_step HE G enc (MShutdown True) s = (s1, RShutdown (Some (Some b)))
     \<and> initial_state (ce_kubo E) (fst ws') a = b \<and> entity_of E name ws' = Inr node'"
proof -
  obtain s1 p where s1: "worker_step HE G enc (MShutdown True) s = (s1, RShutdown (Some p))"
    "case worker_pending s1 of None \<Rightarrow> Some c = None \<and> s2 = s1
       | Some b \<Rightarrow> \<exists>c' w. Some c = Some c' \<and> cat_bytes (ce_kubo E) (worker_world s2) c' = Some b
           \<and> s2 = (if marked then fst (worker_step HE G enc (MMarkSaved b) (put_worker_world w s1)) else put_worker_world w s1)"
    using wasm.shutdown_save_Inr[OF assms(1)] assms(2) unfolding prepare_reload_save_def by blast
  then obtain b where b: "worker_pending s1 = Some b" "cat_bytes (ce_kubo E) (worker_world s2) c = Some b"
    by (auto split: option.splits)
  have p: "p = Some b" using wasm.shutdown[OF s1(1)] b(1) by simp
  have pr: "en_state node' = Some c" "node_keeps (ce_kubo E) (worker_world s2) (fst ws')"
    "entity_of E name ws' = Inr node'"
    using prepare_reload_saved[OF assms(3) _ assms(5)] assms(4) by auto
  have "cat_bytes (ce_kubo E) (fst ws') c = Some b" using node_keeps_bytes[OF pr(2) b(2)] .
  with s1(1) p pr assms(6-8) show ?thesis by (auto simp: initial_state_def)
qed

theorem reload_carries_state_witness:
  "\<exists>s2 ws' kind old node'. prepare_reload_save (worker_step sample_host saving_guest (\<lambda>_. None)) worker_world put_worker_world
       mem_kubo Answered True saving_worker_state = (s2, Inr (Some (mem_cid 2)))
     \<and> prepare_reload sample_env (\<lambda>_. []) ''fortune'' sample_entity (Inr (Some (mem_cid 2))) (worker_world s2, sample_running)
         = (ws', Some (kind, old, node'))
     \<and> entity_of sample_env ''fortune'' ws' = Inr node'"
proof -
  obtain s2 where s2: "prepare_reload_save (worker_step sample_host saving_guest (\<lambda>_. None)) worker_world put_worker_world
       mem_kubo Answered True saving_worker_state = (s2, Inr (Some (mem_cid 2)))" "worker_world s2 = sample_world @ [BytesDoc [9]]"
    using saving_run by blast
  obtain ws' node' where p: "prepare_reload sample_env (\<lambda>_. []) ''fortune'' sample_entity (Inr (Some (mem_cid 2)))
      (worker_world s2, sample_running) = (ws', Some (stateful_base, Some 7, node'))"
    unfolding s2(2)
    by (simp add: prepare_reload_def resolve_kind_node_for_reload_def refresh_entity_before_reload_def reread_entity_def
        set_entity_state_def writer_defs writer_entity_node_def sample_world_def sample_writer_def writer_new_def
        sample_entity_def empty_manifest_def Let_def)
  have "entity_of sample_env ''fortune'' ws' = Inr node'"
    using reload_carries_state[of sample_env sample_host saving_guest "\<lambda>_. None" True saving_worker_state s2 "mem_cid 2"
        sample_running "''fortune''" 7 "\<lambda>_. []" sample_entity ws' stateful_base "Some 7" node'
        "\<lparr>la_fragment = [], la_node = node', la_kind = stateful_base, la_node_id = [], la_started_at = 0,
          la_runtime_config = [], la_init_payload = None\<rparr>"] s2 p grown_coherent[of "[9]"]
    by (simp add: mem_kubo_ok plugin_kind_def stateful_base_def bool_attribute_def)
  with s2(1) p show ?thesis by blast
qed

text \<open>
  How a load ends that does not replace the plugin: it fails, or its start reports an error while another plugin is
  running; the reason is what is recorded.
\<close>

definition load_failure :: "nat option \<Rightarrow> string + nat \<times> lifecycle \<Rightarrow> string option" where
  "load_failure old result =
     (case result of
        Inl e \<Rightarrow> Some (''failed to load entity plugin: '' @ e)
      | Inr (h, lc) \<Rightarrow> if lc = Error \<and> old \<noteq> None then Some ''plugin lifecycle returned error during reload'' else None)"

text \<open>
  C17 (reload). A reload that fails is contained.  One that gives up before the load changes only the manifest writer: the plugin
  stays registered and no worker is terminated.  One that fails at the load, or whose start reports an error while the old plugin is
  running, takes exactly this entity out of the registry and terminates exactly its old worker; the node of the entity then has the
  reason as its reload error and is otherwise unchanged, or, if that could not be written, is as it was.  Only a plugin
  whose start reports an error when none was running before is registered all the same, and nothing is written.
\<close>

theorem reload_failure_contained:
  assumes "state_coherent E ws"
  shows "(prepare_reload E msg name node saved ws = (ws1, None) \<longrightarrow>
        (\<exists>wr. snd ws1 = (snd ws)\<lparr>ct_writer := wr\<rparr>))
     \<and> (case load_failure old result of
          Some reason \<Rightarrow>
            (let ws2 = finish_reload E name old result repl ws in
               (\<forall>k. map_of (ct_plugins (snd ws2)) k = (if k = name then None else map_of (ct_plugins (snd ws)) k))
             \<and> ct_terminated (snd ws2) = (case old of Some h \<Rightarrow> h # ct_terminated (snd ws) | None \<Rightarrow> ct_terminated (snd ws))
             \<and> state_coherent E ws2
             \<and> (\<forall>entity. entity_of E name ws = Inr entity \<longrightarrow>
                  entity_of E name ws2 =
                    (case set_entity_reload_error (ce_kubo E) name (Some reason) (fst ws) (ct_writer (snd ws)) of
                       (w, wr, Inr root) \<Rightarrow> Inr (entity\<lparr>en_reload_error := Some reason\<rparr>)
                     | (w, wr, Inl e) \<Rightarrow> Inr entity)))
        | None \<Rightarrow>
            (\<forall>h. result = Inr (h, Error) \<longrightarrow>
               finish_reload E name old result repl ws = (fst ws, install_plugin name h (snd ws))))"
proof (intro conjI impI)
  show "\<exists>wr. snd ws1 = (snd ws)\<lparr>ct_writer := wr\<rparr>" if "prepare_reload E msg name node saved ws = (ws1, None)"
    using prepare_reload_frame[OF that] unfolding only_writer_def .
  let ?ws = "(fst ws, terminate_worker old (remove_plugin name (snd ws)))"
  show "case load_failure old result of
          Some reason \<Rightarrow>
            (let ws2 = finish_reload E name old result repl ws in
               (\<forall>k. map_of (ct_plugins (snd ws2)) k = (if k = name then None else map_of (ct_plugins (snd ws)) k))
             \<and> ct_terminated (snd ws2) = (case old of Some h \<Rightarrow> h # ct_terminated (snd ws) | None \<Rightarrow> ct_terminated (snd ws))
             \<and> state_coherent E ws2
             \<and> (\<forall>entity. entity_of E name ws = Inr entity \<longrightarrow>
                  entity_of E name ws2 =
                    (case set_entity_reload_error (ce_kubo E) name (Some reason) (fst ws) (ct_writer (snd ws)) of
                       (w, wr, Inr root) \<Rightarrow> Inr (entity\<lparr>en_reload_error := Some reason\<rparr>)
                     | (w, wr, Inl e) \<Rightarrow> Inr entity)))
        | None \<Rightarrow>
            (\<forall>h. result = Inr (h, Error) \<longrightarrow>
               finish_reload E name old result repl ws = (fst ws, install_plugin name h (snd ws)))"
  proof (cases "load_failure old result")
    case None
    then show ?thesis by (cases ws; cases old) (auto simp: load_failure_def finish_reload_def terminate_worker_def split: sum.splits)
  next
    case (Some reason)
    then have ws2: "finish_reload E name old result repl ws = mark_entity_reload_failed E name reason ?ws"
      by (cases ws) (auto simp: load_failure_def finish_reload_def split: sum.splits if_splits)
    have coh: "state_coherent E ?ws" using assms by simp
    have en: "entity_of E name ?ws = entity_of E name ws" by simp
    have reads: "entity_of E name (mark_entity_reload_failed E name reason ?ws) =
        (case set_entity_reload_error (ce_kubo E) name (Some reason) (fst ws) (ct_writer (snd ws)) of
           (w, wr, Inr root) \<Rightarrow> Inr (entity\<lparr>en_reload_error := Some reason\<rparr>)
         | (w, wr, Inl e) \<Rightarrow> Inr entity)" if "entity_of E name ws = Inr entity" for entity
      using mark_failed_reads[OF coh, of name entity reason] that unfolding en by simp
    have pl: "map_of (ct_plugins (snd (mark_entity_reload_failed E name reason ?ws))) k
        = (if k = name then None else map_of (ct_plugins (snd ws)) k)" for k
      by (simp add: map_of_delete)
    have te: "ct_terminated (snd (mark_entity_reload_failed E name reason ?ws))
        = (case old of Some h \<Rightarrow> h # ct_terminated (snd ws) | None \<Rightarrow> ct_terminated (snd ws))"
      by (cases old) (simp_all add: terminate_worker_def)
    from reads pl te conjunct1[OF mark_failed_coherent[OF coh, of name reason]] show ?thesis
      unfolding Some ws2 Let_def option.case by blast
  qed
qed

theorem reload_failure_contained_witness:
  "\<exists>ws2. finish_reload sample_env ''fortune'' (Some 7) (Inl ''trap'') None (sample_world, sample_running) = ws2
     \<and> map_of (ct_plugins (snd ws2)) ''fortune'' = None \<and> ct_terminated (snd ws2) = 7 # ct_terminated sample_running
     \<and> entity_of sample_env ''fortune'' ws2
         = Inr (sample_entity\<lparr>en_reload_error := Some ''failed to load entity plugin: trap''\<rparr>)"
proof -
  have coh: "state_coherent sample_env (sample_world, sample_running)" using sample_coherent by simp
  have failure: "load_failure (Some 7) (Inl ''trap'') = Some ''failed to load entity plugin: trap''" by (simp add: load_failure_def)
  have en: "entity_of sample_env ''fortune'' (sample_world, sample_running) = Inr sample_entity"
    by (simp add: writer_entity_node_def sample_world_def sample_writer_def writer_new_def)
  have w: "\<exists>w wr root. set_entity_reload_error (ce_kubo sample_env) ''fortune'' (Some ''failed to load entity plugin: trap'')
      sample_world (ct_writer sample_running) = (w, wr, Inr root)"
    by (simp add: writer_defs sample_world_def sample_writer_def writer_new_def set_entity_reload_error_def
        reload_error_fields_def sample_entity_def empty_manifest_def)
  from reload_failure_contained[OF coh, where old = "Some 7" and result = "Inl ''trap''" and name = "''fortune''" and repl = None] en w
  show ?thesis unfolding failure by (auto simp: Let_def)
qed

text \<open>
  A deleted entity comes back: if the entity is deleted while its reload is loading, the reload
  registers the new plugin all the same, so messages are served by an entity the manifest does not have.
\<close>

theorem deleted_entity_resurrected:
  assumes "state_coherent E ws" and "handle_entity_delete E from name ws = (ws1, Inr ROk)"
  shows "map_of (ct_plugins (snd (finish_reload E name old (Inr (h, Running)) repl ws1))) name = Some h
     \<and> entity_of E name (finish_reload E name old (Inr (h, Running)) repl ws1) = Inl (WNoEntity name)"
proof -
  obtain m where m: "state_coherent E ws1" "state_manifest E ws1 = Some m" "map_of (rm_entities m) name = None"
    using handle_entity_delete_ROk[OF assms] by blast
  obtain w s where ws1: "ws1 = (w, s)" by fastforce
  obtain w2 wr r where u: "complete_entity_reload (ce_kubo E) name repl w (ct_writer s) = (w2, wr, r)"
    using prod_cases3 by blast
  have coh: "coherent (ce_kubo E) (w, ct_writer s)" and cur: "current (ce_kubo E) (w, ct_writer s) = Some m"
    using m ws1 by simp_all
  have "\<exists>e. r = Inl e"
    using u update_entity_ok[OF coh] m(3) cur by (cases r) (fastforce simp: complete_entity_reload_def)+
  with u update_entity_err[OF coh]
  have e: "mw_cid wr = mw_cid (ct_writer s)" "node_keeps (ce_kubo E) w w2" "coherent (ce_kubo E) (w2, wr)"
    by (auto simp: complete_entity_reload_def)
  have "current (ce_kubo E) (w2, wr) = Some m" using keeps_current[OF e(2,1) cur] .
  with entity_node_current[OF e(3)] m(3) have "writer_entity_node (ce_kubo E) name w2 wr = Inl (WNoEntity name)" by simp
  with u ws1 show ?thesis by (simp add: finish_reload_def Let_def map_of_update)
qed

theorem deleted_entity_resurrected_witness:
  "\<exists>ws1. handle_entity_delete sample_env ''did:ma:alice'' ''fortune'' (sample_world, sample_running) = (ws1, Inr ROk)
     \<and> map_of (ct_plugins (snd ws1)) ''fortune'' = None
     \<and> map_of (ct_plugins (snd (finish_reload sample_env ''fortune'' (Some 7) (Inr (8, Running)) None ws1))) ''fortune'' = Some 8
     \<and> entity_of sample_env ''fortune'' (finish_reload sample_env ''fortune'' (Some 7) (Inr (8, Running)) None ws1)
         = Inl (WNoEntity ''fortune'')"
proof -
  have gate: "check_entity_management_cap sample_core (ct_root_acl sample_running) (ct_group_cache sample_running) ''did:ma:alice''
      [''delete'', ''entities''] = Inr ()"
    by (simp add: check_entity_management_cap_def check_full_Inr_iff sample_defs sample_running_def sample_crud_def
        starts_with_def group_prefix_def) auto
  obtain ws1 where d: "handle_entity_delete sample_env ''did:ma:alice'' ''fortune'' (sample_world, sample_running) = (ws1, Inr ROk)"
    using gate
    by (simp add: handle_entity_delete_def check_management_def crud_eval stop_entity_def sample_running_def
        sample_world_def empty_manifest_def)
  have coh: "state_coherent sample_env (sample_world, sample_running)" using sample_coherent by simp
  from handle_entity_delete_ROk[OF coh d] deleted_entity_resurrected[OF coh d, of "Some 7" 8 None] d
  show ?thesis by blast
qed

end
