(* ===== verification/Shutdown.thy ===== *)
theory Shutdown
  imports Reload
begin

text \<open>
  Stopping the daemon (\<open>handle_shutdown\<close> in \<open>src/eventloop.rs\<close>, \<open>save_all_entity_states\<close> in
  \<open>src/bootstrap.rs\<close>, the root CID setting in \<open>src/startup.rs\<close>): every entity's worker is told to shut down and its
  state saved inside one update of the manifest.  The workers are those of \<open>Worker\<close>, one per
  registered plugin, sharing the Kubo node.
\<close>

section \<open>The workers of a runtime\<close>

type_synonym ('g, 'w) pool = "(nat \<Rightarrow> 'g worker) \<times> 'w host_shared"

text \<open>
  \<open>st_delivery\<close> and \<open>st_marked\<close> say whether a worker answers in time and takes the message that its state was
  saved, \<open>st_publish\<close> is \<open>publish_runtime_root_cid\<close> under its timeout, \<open>st_config_saved\<close> whether \<open>config.yaml\<close>
  can be written.
\<close>

record ('g, 'w) stop_env =
  st_kubo :: "'w kubo"
  st_host :: "nat \<Rightarrow> 'w host_env"
  st_guest :: "nat \<Rightarrow> 'g guest"
  st_encode :: "local_message \<Rightarrow> bytes option"
  st_delivery :: "nat \<Rightarrow> delivery"
  st_marked :: "nat \<Rightarrow> bool"
  st_handles :: "nat \<Rightarrow> entity_handle"
  st_publish :: "cid \<Rightarrow> 'w \<Rightarrow> 'w \<times> bool"

datatype stop_error = StWriter writer_error | StSave string save_error | StPut string

definition pool_save :: "('g, 'w) stop_env \<Rightarrow> nat \<Rightarrow> ('g, 'w) pool \<Rightarrow> ('g, 'w) pool \<times> (save_error + cid option)" where
  "pool_save E h p =
     (case graceful_shutdown_save (worker_step (st_host E h) (st_guest E h) (st_encode E)) worker_world put_worker_world
             (st_kubo E) (st_delivery E h) (st_marked E h) (fst p h, snd p) of
        ((wk, sh), r) \<Rightarrow> (((fst p)(h := wk), sh), r))"

abbreviation pool_world :: "('g, 'w) pool \<Rightarrow> 'w" where "pool_world p \<equiv> hs_world (snd p)"

definition put_pool_world :: "'w \<Rightarrow> ('g, 'w) pool \<Rightarrow> ('g, 'w) pool" where
  "put_pool_world w p = (fst p, (snd p)\<lparr>hs_world := w\<rparr>)"

section \<open>Saving all entities\<close>

text \<open>\<open>mutate_async\<close> with a mutation that itself talks to the workers and the node.\<close>

definition mutate_pool ::
  "'w kubo \<Rightarrow> (runtime_manifest \<Rightarrow> ('g, 'w) pool \<Rightarrow> ('g, 'w) pool \<times> (stop_error + runtime_manifest))
     \<Rightarrow> ('g, 'w) pool \<Rightarrow> writer \<Rightarrow> ('g, 'w) pool \<times> writer \<times> (stop_error + cid)" where
  "mutate_pool K f p s =
     (let old_cid = mw_cid s in
      case fetch_or_cached K (pool_world p) s of
        (s1, None) \<Rightarrow> (p, s1, Inl (StWriter WFetch))
      | (s1, Some manifest) \<Rightarrow>
          (case f manifest p of
             (p1, Inl e) \<Rightarrow> (p1, s1, Inl e)
           | (p1, Inr manifest') \<Rightarrow>
               (case publish_manifest_update K old_cid manifest' (pool_world p1) s1 of
                  (w2, s2, Inl e) \<Rightarrow> (put_pool_world w2 p1, s2, Inl (StWriter e))
                | (w2, s2, Inr c) \<Rightarrow> (put_pool_world w2 p1, s2, Inr c))))"

text \<open>
  Stateless native entities, and entities the manifest or the node does not have, are skipped;
  stateless ones are written back as they are.
\<close>

definition save_entity_node ::
  "('g, 'w) stop_env \<Rightarrow> string \<Rightarrow> nat \<Rightarrow> entity_node \<Rightarrow> ('g, 'w) pool \<Rightarrow> ('g, 'w) pool \<times> (stop_error + entity_node)" where
  "save_entity_node E name h node p =
     (if eh_kind (st_handles E h) \<noteq> Stateless
      then (case pool_save E h p of
              (p1, Inl e) \<Rightarrow> (p1, Inl (StSave name e))
            | (p1, Inr (Some c)) \<Rightarrow> (p1, Inr (node\<lparr>en_state := Some c\<rparr>))
            | (p1, Inr None) \<Rightarrow> (p1, Inr node))
      else (p, Inr node))"

definition save_entity ::
  "('g, 'w) stop_env \<Rightarrow> string \<times> nat \<Rightarrow> runtime_manifest \<Rightarrow> ('g, 'w) pool \<Rightarrow> ('g, 'w) pool \<times> (stop_error + runtime_manifest)" where
  "save_entity E e m p =
     (let (name, h) = e; eh = st_handles E h in
      if eh_native eh \<and> eh_kind eh = Stateless then (p, Inr m)
      else (case map_of (rm_entities m) name of
              None \<Rightarrow> (p, Inr m)
            | Some link \<Rightarrow>
                (case dag_get_entity (st_kubo E) (pool_world p) link of
                   None \<Rightarrow> (p, Inr m)
                 | Some node \<Rightarrow>
                     (case save_entity_node E name h node p of
                        (p1, Inl er) \<Rightarrow> (p1, Inl er)
                      | (p1, Inr node') \<Rightarrow>
                          (case dag_put_entity (st_kubo E) (pool_world p1) node' of
                             (w, None) \<Rightarrow> (put_pool_world w p1, Inl (StPut name))
                           | (w, Some c) \<Rightarrow>
                               (put_pool_world w p1, Inr (m\<lparr>rm_entities := AList.update name c (rm_entities m)\<rparr>)))))))"

fun save_entities ::
  "('g, 'w) stop_env \<Rightarrow> (string \<times> nat) list \<Rightarrow> runtime_manifest \<Rightarrow> ('g, 'w) pool
     \<Rightarrow> ('g, 'w) pool \<times> (stop_error + runtime_manifest)" where
  "save_entities E [] m p = (p, Inr m)"
| "save_entities E (e # es) m p =
     (case save_entity E e m p of (p1, Inl er) \<Rightarrow> (p1, Inl er) | (p1, Inr m1) \<Rightarrow> save_entities E es m1 p1)"

definition save_all_entity_states ::
  "('g, 'w) stop_env \<Rightarrow> (string \<times> nat) list \<Rightarrow> ('g, 'w) pool \<Rightarrow> writer \<Rightarrow> ('g, 'w) pool \<times> writer \<times> (stop_error + cid)" where
  "save_all_entity_states E registry = mutate_pool (st_kubo E) (save_entities E registry)"

section \<open>The shutdown\<close>

definition root_cid_setting :: "daemon_config \<Rightarrow> string option" where
  "root_cid_setting cfg =
     (case Option.bind (map_of (dc_extra cfg) ''root_cid'') yaml_as_str of
        None \<Rightarrow> None
      | Some v \<Rightarrow> if trim v = [] then None else Some (trim v))"

text \<open>A configuration that cannot be written is only logged by the caller.\<close>

definition persist_root_cid :: "string \<Rightarrow> crud_state \<Rightarrow> crud_state" where
  "persist_root_cid root s =
     (if root_cid_setting (ct_config s) = Some root then s
      else (let cfg = (ct_config s)\<lparr>dc_extra := AList.update ''root_cid'' (YString root) (dc_extra (ct_config s))\<rparr>
            in s\<lparr>ct_config := cfg, ct_saved := cfg # ct_saved s\<rparr>))"

text \<open>The result says whether the loop ends; a failed save keeps it running.\<close>

definition publish_and_stop ::
  "('g, 'w) stop_env \<Rightarrow> cid \<Rightarrow> ('g, 'w) pool \<Rightarrow> crud_state \<Rightarrow> (('g, 'w) pool \<times> crud_state) \<times> bool" where
  "publish_and_stop E rc p s =
     (let latest = (case mw_root_cid (ct_writer s) of Some c \<Rightarrow> c | None \<Rightarrow> rc);
          (w, published) = st_publish E latest (pool_world p)
      in ((put_pool_world w p, persist_root_cid latest s), True))"

definition handle_shutdown ::
  "('g, 'w) stop_env \<Rightarrow> ('g, 'w) pool \<Rightarrow> crud_state \<Rightarrow> (('g, 'w) pool \<times> crud_state) \<times> bool" where
  "handle_shutdown E p s =
     (case mw_root_cid (ct_writer s) of
        None \<Rightarrow> ((p, s), True)
      | Some rc \<Rightarrow>
          if ct_plugins s = [] then publish_and_stop E rc p s
          else (case save_all_entity_states E (ct_plugins s) p (ct_writer s) of
                  (p1, wr, Inl e) \<Rightarrow> ((p1, s\<lparr>ct_writer := wr\<rparr>), False)
                | (p1, wr, Inr c) \<Rightarrow>
                    publish_and_stop E rc p1 (s\<lparr>ct_writer := wr\<lparr>mw_root_cid := Some c\<rparr>\<rparr>)))"

section \<open>Lemmas\<close>

lemma put_pool_world_simps [simp]: "fst (put_pool_world w p) = fst p" "pool_world (put_pool_world w p) = w"
  by (simp_all add: put_pool_world_def)

text \<open>A save that does not talk to the workers is the writer's own \<open>mutate\<close>.\<close>

lemma mutate_pool_pure:
  "(case mutate_pool K (\<lambda>m p. (p, map_sum (\<lambda>e. StWriter (WMutation e)) id (f m))) p s of (p', s', r) \<Rightarrow> (pool_world p', s', r))
   = (case mutate K f (pool_world p) s of (w', s', r) \<Rightarrow> (w', s', map_sum StWriter id r))"
  by (auto simp: mutate_pool_def mutate_def put_pool_world_def Let_def split: prod.splits option.splits sum.splits)

lemma pool_save_others: "pool_save E h p = (p', r) \<Longrightarrow> k \<noteq> h \<Longrightarrow> fst p' k = fst p k"
  by (auto simp: pool_save_def split: prod.splits)

text \<open>
  What a save leaves behind: the bytes pending after the hook are stored under the answered CID, and with the
  mark delivered nothing is pending any more.
\<close>

lemma pool_save_Inr:
  assumes "kubo_ok (st_kubo E)" and "pool_save E h p = (p', Inr r)"
  shows "\<exists>wk sh pend. worker_step (st_host E h) (st_guest E h) (st_encode E) (MShutdown False) (fst p h, snd p)
            = ((wk, sh), RShutdown (Some pend))
     \<and> (case pend of None \<Rightarrow> r = None | Some b \<Rightarrow> \<exists>c. r = Some c \<and> cat_bytes (st_kubo E) (pool_world p') c = Some b)
     \<and> (st_marked E h \<or> pend = None \<longrightarrow> worker_pending (fst p' h, snd p') = None)"
proof -
  let ?step = "worker_step (st_host E h) (st_guest E h) (st_encode E)"
  obtain wk' sh' where g: "graceful_shutdown_save ?step worker_world put_worker_world (st_kubo E) (st_delivery E h)
      (st_marked E h) (fst p h, snd p) = ((wk', sh'), Inr r)" "p' = ((fst p)(h := wk'), sh')"
    using assms(2) by (auto simp: pool_save_def split: prod.splits)
  obtain s1 pend where s1: "?step (MShutdown False) (fst p h, snd p) = (s1, RShutdown (Some pend))"
    "case worker_pending s1 of None \<Rightarrow> r = None \<and> (wk', sh') = s1
       | Some b \<Rightarrow> \<exists>c w. r = Some c \<and> cat_bytes (st_kubo E) (worker_world (wk', sh')) c = Some b
           \<and> (wk', sh') = (if st_marked E h then fst (?step (MMarkSaved b) (put_worker_world w s1)) else put_worker_world w s1)"
    using wasm.shutdown_save_Inr[OF assms(1)] g(1) unfolding graceful_shutdown_save_def by blast
  have pend: "pend = worker_pending s1" using wasm.shutdown[OF s1(1)] by simp
  obtain wk sh where ws: "s1 = (wk, sh)" by fastforce
  show ?thesis
  proof (cases pend)
    case None
    with s1 pend ws g(2) show ?thesis by (auto simp del: worker_step.simps)
  next
    case (Some b)
    have "\<exists>c w. r = Some c \<and> cat_bytes (st_kubo E) (worker_world (wk', sh')) c = Some b
           \<and> (wk', sh') = (if st_marked E h then fst (?step (MMarkSaved b) (put_worker_world w s1)) else put_worker_world w s1)"
      using s1(2) unfolding pend[symmetric] Some by simp
    then obtain c w where c: "r = Some c" "cat_bytes (st_kubo E) (worker_world (wk', sh')) c = Some b"
      "(wk', sh') = (if st_marked E h then fst (?step (MMarkSaved b) (put_worker_world w s1)) else put_worker_world w s1)"
      by blast
    have pm: "st_marked E h \<longrightarrow> worker_pending (wk', sh') = None"
      using c(3) wasm.mark_clears[of "put_worker_world w s1" b] Some pend by (simp del: worker_step.simps)
    have st: "cat_bytes (st_kubo E) (hs_world sh') c = Some b" using c(2) by (simp only: snd_conv)
    show ?thesis
      using s1(1) Some c(1) st pm g(2) ws by (simp del: worker_step.simps)
  qed
qed

text \<open>Drawing random numbers does not touch the documents of the node, so no plugin call does.\<close>

definition draws_keep :: "'w kubo \<Rightarrow> 'w host_env \<Rightarrow> bool" where
  "draws_keep K E \<longleftrightarrow>
     (\<forall>n w. node_keeps K w (fst (he_random_range E n w)) \<and> node_keeps K w (fst (he_fill_bytes E n w)))"

lemma generate_chars_keep:
  "(\<And>n w. node_keeps K w (fst (draw n w))) \<Longrightarrow> node_keeps K w (fst (generate_chars draw n w))"
proof (induction n arbitrary: w)
  case (Suc n)
  obtain w1 i where d: "draw (length ALPHABET) w = (w1, i)" by fastforce
  have "node_keeps K w w1" using Suc.prems[of w "length ALPHABET"] d by simp
  also have "node_keeps K w1 (fst (generate_chars draw n w1))" using Suc by blast
  finally show ?case using d by (simp add: case_prod_beta)
qed simp

lemma host_call_keeps:
  assumes "draws_keep K E" and "host_call_exec E c (sh, hc) = ((sh', hc'), r)"
  shows "node_keeps K (hs_world sh) (hs_world sh')"
proof (cases c)
  case (MaRandomBytes b)
  obtain w' r' where f: "secure_random_bytes E b (hs_world sh) = (w', r')" by fastforce
  have "node_keeps K (hs_world sh) (fst (he_fill_bytes E n (hs_world sh)))" for n
    using assms(1) by (simp add: draws_keep_def)
  then have "node_keeps K (hs_world sh) w'"
    using f by (auto simp: secure_random_bytes_def split: option.splits if_splits prod.splits) (metis fst_conv)+
  with assms(2) MaRandomBytes f show ?thesis by auto
next
  case (MaCreateEntity b)
  have "node_keeps K (hs_world sh) (fst (generate_fragment E (hs_world sh)))"
    using assms(1) by (simp add: generate_fragment_def draws_keep_def generate_chars_keep)
  with assms(2) MaCreateEntity show ?thesis
    by (auto simp: ma_create_entity_def split: option.splits sum.splits prod.splits)
qed (use assms(2) in \<open>auto simp: send_to_outbox_def enqueue_envelope_def ma_set_behaviour_def
      split: option.splits sum.splits prod.splits if_splits\<close>)

lemma run_guest_keeps:
  assumes "draws_keep K E"
  shows "run_guest E t (sh, hc) = ((sh', hc'), g, out) \<Longrightarrow> node_keeps K (hs_world sh) (hs_world sh')"
proof (induction t arbitrary: sh hc)
  case (Call c g0 k)
  obtain sh1 hc1 r where l: "linked_exec E c (sh, hc) = ((sh1, hc1), r)" by (metis prod.collapse)
  have "node_keeps K (hs_world sh) (hs_world sh1)"
    using l host_call_keeps[OF assms, of c sh hc] by (simp add: linked_exec_def split: if_splits)
  also have "node_keeps K (hs_world sh1) (hs_world sh')"
  proof (cases r)
    case (Inr b)
    with Call.prems l have "run_guest E (k b) (sh1, hc1) = ((sh', hc'), g, out)" by simp
    from Call.IH[OF rangeI this] show ?thesis .
  qed (use Call.prems l in simp)
  finally show ?case .
qed auto

lemma shutdown_step_keeps:
  assumes "draws_keep K E" and "worker_step E G enc (MShutdown req) s = (s', r)"
  shows "node_keeps K (worker_world s) (worker_world s')"
  using assms run_guest_keeps[OF assms(1)]
  by (cases s) (fastforce simp: call_export_def split: prod.splits)

lemma pool_save_keeps:
  assumes "kubo_ok (st_kubo E)" and "draws_keep (st_kubo E) (st_host E h)" and "pool_save E h p = (p', r)"
  shows "node_keeps (st_kubo E) (pool_world p) (pool_world p')"
proof -
  let ?step = "worker_step (st_host E h) (st_guest E h) (st_encode E)"
  obtain s1 rep where s1: "?step (MShutdown False) (fst p h, snd p) = (s1, rep)" by fastforce
  have k: "node_keeps (st_kubo E) (worker_world (fst p h, snd p)) (worker_world (fst (?step (MShutdown False) (fst p h, snd p))))"
    using shutdown_step_keeps[OF assms(2) s1] s1 by simp
  obtain sg where g: "shutdown_signal_save ?step worker_world put_worker_world (st_kubo E) (st_delivery E h) (st_marked E h)
      False (fst p h, snd p) = (sg, r)" "p' = ((fst p)(h := fst sg), snd sg)"
    using assms(3) by (auto simp: pool_save_def graceful_shutdown_save_def split: prod.splits)
  from wasm.shutdown_save_keeps[OF assms(1) g(1) k] g(2) show ?thesis by simp
qed

text \<open>
  What a saved entity looks like in a manifest: its node differs from the one before in the state only, and the
  state links the bytes that were pending after the worker \<open>wk\<close> ran its hook, or is the old one if none were.
\<close>

definition saved_as ::
  "('g, 'w) stop_env \<Rightarrow> string \<Rightarrow> nat \<Rightarrow> 'g worker \<Rightarrow> entity_node \<Rightarrow> 'w \<Rightarrow> runtime_manifest \<Rightarrow> bool" where
  "saved_as E name h wk node w m \<longleftrightarrow>
     (\<exists>link node' sh s2 pend. map_of (rm_entities m) name = Some link \<and> dag_get_entity (st_kubo E) w link = Some node'
        \<and> node' = node\<lparr>en_state := en_state node'\<rparr>
        \<and> worker_step (st_host E h) (st_guest E h) (st_encode E) (MShutdown False) (wk, sh) = (s2, RShutdown (Some pend))
        \<and> (case pend of None \<Rightarrow> en_state node' = en_state node
            | Some b \<Rightarrow> \<exists>c. en_state node' = Some c \<and> cat_bytes (st_kubo E) w c = Some b))"

lemma saved_as_later:
  assumes "saved_as E name h wk node w m" and "node_keeps (st_kubo E) w w'"
    and "map_of (rm_entities m') name = map_of (rm_entities m) name"
  shows "saved_as E name h wk node w' m'"
proof -
  obtain link node' sh s2 pend where s: "map_of (rm_entities m) name = Some link"
    "dag_get_entity (st_kubo E) w link = Some node'" "node' = node\<lparr>en_state := en_state node'\<rparr>"
    "worker_step (st_host E h) (st_guest E h) (st_encode E) (MShutdown False) (wk, sh) = (s2, RShutdown (Some pend))"
    "case pend of None \<Rightarrow> en_state node' = en_state node
       | Some b \<Rightarrow> \<exists>c. en_state node' = Some c \<and> cat_bytes (st_kubo E) w c = Some b"
    using assms(1) unfolding saved_as_def by blast
  have "case pend of None \<Rightarrow> en_state node' = en_state node
       | Some b \<Rightarrow> \<exists>c. en_state node' = Some c \<and> cat_bytes (st_kubo E) w' c = Some b"
    using s(5) node_keeps_bytes[OF assms(2)] by (auto split: option.splits)
  with s(1,3,4) node_keeps_entity[OF assms(2) s(2)] assms(3) show ?thesis
    unfolding saved_as_def
    by (intro exI[of _ link] exI[of _ node'] exI[of _ sh] exI[of _ s2] exI[of _ pend] conjI) simp_all
qed

lemma save_entity_node_cases:
  assumes "save_entity_node E name h node p = (p1, r)"
  shows "(eh_kind (st_handles E h) = Stateless \<and> p1 = p \<and> r = Inr node)
     \<or> (eh_kind (st_handles E h) \<noteq> Stateless
        \<and> (\<exists>q. pool_save E h p = (p1, q)
             \<and> (case q of Inl e \<Rightarrow> r = Inl (StSave name e)
                 | Inr None \<Rightarrow> r = Inr node | Inr (Some c) \<Rightarrow> r = Inr (node\<lparr>en_state := Some c\<rparr>))))"
  using assms by (auto simp: save_entity_node_def split: if_splits prod.splits sum.splits option.splits)

lemma save_entity_frame:
  assumes "kubo_ok (st_kubo E)" and "draws_keep (st_kubo E) (st_host E h)" and "save_entity E (name, h) m p = (p1, r)"
  shows "node_keeps (st_kubo E) (pool_world p) (pool_world p1) \<and> (\<forall>k. k \<noteq> h \<longrightarrow> fst p1 k = fst p k)
     \<and> (\<forall>m1 n. r = Inr m1 \<longrightarrow> n \<noteq> name \<longrightarrow> map_of (rm_entities m1) n = map_of (rm_entities m) n)"
proof -
  have n: "node_keeps (st_kubo E) (pool_world p) (pool_world p2) \<and> (\<forall>k. k \<noteq> h \<longrightarrow> fst p2 k = fst p k)"
    if "save_entity_node E name h node p = (p2, q)" for node p2 q
    using save_entity_node_cases[OF that] pool_save_keeps[OF assms(1,2), of p p2] pool_save_others[of E h p p2]
    by (elim disjE exE conjE) simp_all
  have d: "node_keeps (st_kubo E) w w'" if "dag_put_entity (st_kubo E) w e = (w', c)" for w e w' c
    using kubo_okD(3)[OF assms(1) that] .
  show ?thesis
    using assms(3)
    by (auto simp: save_entity_def Let_def map_of_update dest!: n d intro: node_keeps_trans
        split: if_splits option.splits prod.splits sum.splits)
qed

lemma save_entity_saved:
  assumes "kubo_ok (st_kubo E)" and "save_entity E (name, h) m p = (p1, Inr m1)"
    and "eh_kind (st_handles E h) \<noteq> Stateless"
    and "map_of (rm_entities m) name = Some link" and "dag_get_entity (st_kubo E) (pool_world p) link = Some node"
  shows "saved_as E name h (fst p h) node (pool_world p1) m1
     \<and> (st_marked E h \<longrightarrow> worker_pending (fst p1 h, snd p1) = None)"
proof -
  obtain p2 r node' w c where s: "pool_save E h p = (p2, Inr r)"
    "node' = (case r of None \<Rightarrow> node | Some c \<Rightarrow> node\<lparr>en_state := Some c\<rparr>)"
    "dag_put_entity (st_kubo E) (pool_world p2) node' = (w, Some c)" "p1 = put_pool_world w p2"
    "m1 = m\<lparr>rm_entities := AList.update name c (rm_entities m)\<rparr>"
    using assms(2-5) by (auto simp: save_entity_def save_entity_node_def Let_def split: prod.splits sum.splits option.splits)
  obtain wk sh pend where st: "worker_step (st_host E h) (st_guest E h) (st_encode E) (MShutdown False) (fst p h, snd p)
      = ((wk, sh), RShutdown (Some pend))"
    "case pend of None \<Rightarrow> r = None | Some b \<Rightarrow> \<exists>c. r = Some c \<and> cat_bytes (st_kubo E) (pool_world p2) c = Some b"
    "st_marked E h \<longrightarrow> worker_pending (fst p2 h, snd p2) = None"
    using pool_save_Inr[OF assms(1) s(1)] by blast
  have k: "node_keeps (st_kubo E) (pool_world p2) w" "dag_get_entity (st_kubo E) w c = Some node'"
    using kubo_okD(3,4)[OF assms(1)] s(3) by blast+
  have "case pend of None \<Rightarrow> en_state node' = en_state node
       | Some b \<Rightarrow> \<exists>c. en_state node' = Some c \<and> cat_bytes (st_kubo E) w c = Some b"
    using st(2) s(2) node_keeps_bytes[OF k(1)] by (auto split: option.splits)
  moreover have "node' = node\<lparr>en_state := en_state node'\<rparr>" using s(2) by (cases r) simp_all
  ultimately have "saved_as E name h (fst p h) node w m1"
    unfolding saved_as_def using st(1) k(2) s(5) by (fastforce simp: map_of_update)
  with s(4) st(3) show ?thesis by (simp add: put_pool_world_def)
qed

lemma save_entities_frame:
  assumes "kubo_ok (st_kubo E)" and "\<forall>h. draws_keep (st_kubo E) (st_host E h)"
  shows "save_entities E es m p = (p1, r) \<Longrightarrow>
     node_keeps (st_kubo E) (pool_world p) (pool_world p1) \<and> (\<forall>k. k \<notin> snd ` set es \<longrightarrow> fst p1 k = fst p k)
     \<and> (\<forall>m1 n. r = Inr m1 \<longrightarrow> n \<notin> fst ` set es \<longrightarrow> map_of (rm_entities m1) n = map_of (rm_entities m) n)"
proof (induction es arbitrary: m p)
  case (Cons e es)
  obtain name h where e: "e = (name, h)" by fastforce
  obtain p2 r2 where s: "save_entity E (name, h) m p = (p2, r2)" by fastforce
  note f = save_entity_frame[OF assms(1) assms(2)[THEN spec] s]
  show ?case
  proof (cases r2)
    case (Inl er)
    with Cons.prems s e f show ?thesis by auto
  next
    case (Inr m2)
    with Cons.prems s e have "save_entities E es m2 p2 = (p1, r)" by simp
    from Cons.IH[OF this] f Inr e show ?thesis by (auto intro: node_keeps_trans)
  qed
qed auto

text \<open>
  What becomes of one entity in a stop: \<open>before\<close> and \<open>after\<close> are the manifests, \<open>p\<close> and \<open>p'\<close> the workers.  If the node of the
  entity can be read, it is saved.  If the manifest does not have it, it is left alone.  If its node cannot be read at the
  start, it is left alone unless it can be read when its turn comes.
\<close>

definition left_alone :: "string \<Rightarrow> nat \<Rightarrow> ('g, 'w) pool \<Rightarrow> ('g, 'w) pool \<Rightarrow> runtime_manifest \<Rightarrow> runtime_manifest \<Rightarrow> bool" where
  "left_alone name h p p' m m' \<longleftrightarrow> fst p' h = fst p h \<and> map_of (rm_entities m') name = map_of (rm_entities m) name"

definition stop_outcome ::
  "('g, 'w) stop_env \<Rightarrow> string \<Rightarrow> nat \<Rightarrow> ('g, 'w) pool \<Rightarrow> ('g, 'w) pool \<Rightarrow> runtime_manifest \<Rightarrow> runtime_manifest \<Rightarrow> bool" where
  "stop_outcome E name h p p' m m' \<longleftrightarrow>
     (case map_of (rm_entities m) name of
        None \<Rightarrow> left_alone name h p p' m m'
      | Some link \<Rightarrow>
          (case dag_get_entity (st_kubo E) (pool_world p) link of
             Some node \<Rightarrow> saved_as E name h (fst p h) node (pool_world p') m'
           | None \<Rightarrow> left_alone name h p p' m m' \<or> (\<exists>node. saved_as E name h (fst p h) node (pool_world p') m')))"

lemma left_alone_trans: "left_alone name h p q m n \<Longrightarrow> left_alone name h q r n k \<Longrightarrow> left_alone name h p r m k"
  by (simp add: left_alone_def)

lemma save_entity_skips:
  assumes "save_entity E (name, h) m p = (p1, Inr m1)"
    and "case map_of (rm_entities m) name of None \<Rightarrow> True | Some link \<Rightarrow> dag_get_entity (st_kubo E) (pool_world p) link = None"
  shows "p1 = p \<and> m1 = m"
  using assms by (auto simp: save_entity_def Let_def split: if_splits option.splits)

lemma outcome_shift:
  assumes "stop_outcome E name h q p' n m'" and "left_alone name h p q m n" and "node_keeps (st_kubo E) (pool_world p) (pool_world q)"
  shows "stop_outcome E name h p p' m m'"
proof -
  have e: "fst q h = fst p h" "map_of (rm_entities n) name = map_of (rm_entities m) name" using assms(2) by (simp_all add: left_alone_def)
  have alone: "left_alone name h q p' n m' \<Longrightarrow> left_alone name h p p' m m'" using left_alone_trans[OF assms(2)] .
  show ?thesis
  proof (cases "map_of (rm_entities m) name")
    case None
    with assms(1) e alone show ?thesis by (simp add: stop_outcome_def)
  next
    case (Some link)
    show ?thesis
    proof (cases "dag_get_entity (st_kubo E) (pool_world p) link")
      case None
      with assms(1) e Some alone show ?thesis by (auto simp: stop_outcome_def split: option.splits)
    next
      case node: (Some node)
      from node_keeps_entity[OF assms(3) node] assms(1) e Some node show ?thesis by (simp add: stop_outcome_def)
    qed
  qed
qed

lemma outcome_later:
  assumes "stop_outcome E name h p p' m m'" and "node_keeps (st_kubo E) (pool_world p') (pool_world q)"
    and "fst q h = fst p' h" and "map_of (rm_entities n) name = map_of (rm_entities m') name"
  shows "stop_outcome E name h p q m n"
proof -
  have "left_alone name h p p' m m' \<Longrightarrow> left_alone name h p q m n" using assms(3,4) by (simp add: left_alone_def)
  moreover have "saved_as E name h (fst p h) node (pool_world p') m' \<Longrightarrow> saved_as E name h (fst p h) node (pool_world q) n" for node
    by (rule saved_as_later[OF _ assms(2,4)])
  ultimately show ?thesis using assms(1) unfolding stop_outcome_def by (auto split: option.splits)
qed

lemma save_entity_outcome:
  assumes "kubo_ok (st_kubo E)" and "save_entity E (name, h) m p = (p1, Inr m1)" and "eh_kind (st_handles E h) \<noteq> Stateless"
  shows "stop_outcome E name h p p1 m m1"
proof (cases "\<exists>link node. map_of (rm_entities m) name = Some link \<and> dag_get_entity (st_kubo E) (pool_world p) link = Some node")
  case True
  with save_entity_saved[OF assms] show ?thesis by (auto simp: stop_outcome_def)
next
  case False
  with save_entity_skips[OF assms(2)] have "p1 = p \<and> m1 = m" by (auto split: option.splits)
  with False show ?thesis by (auto simp: stop_outcome_def left_alone_def split: option.splits)
qed

lemma save_entities_outcome:
  assumes "kubo_ok (st_kubo E)" and "\<forall>h. draws_keep (st_kubo E) (st_host E h)"
  shows "save_entities E es m p = (p1, Inr m1) \<Longrightarrow> distinct (map fst es) \<Longrightarrow> distinct (map snd es) \<Longrightarrow> (name, h) \<in> set es \<Longrightarrow>
     eh_kind (st_handles E h) \<noteq> Stateless \<Longrightarrow> stop_outcome E name h p p1 m m1"
proof (induction es arbitrary: m p)
  case (Cons e es)
  obtain n0 h0 where e: "e = (n0, h0)" by fastforce
  obtain p2 m2 where s: "save_entity E (n0, h0) m p = (p2, Inr m2)" "save_entities E es m2 p2 = (p1, Inr m1)"
    using Cons.prems(1) e by (auto split: prod.splits sum.splits)
  note f = save_entity_frame[OF assms(1) assms(2)[THEN spec] s(1)]
  note g = save_entities_frame[OF assms s(2)]
  show ?case
  proof (cases "(name, h) = (n0, h0)")
    case True
    with Cons.prems(2,3) e have "name \<notin> fst ` set es" "h \<notin> snd ` set es" by auto
    with g have "fst p1 h = fst p2 h" "map_of (rm_entities m1) name = map_of (rm_entities m2) name" by blast+
    moreover have "stop_outcome E name h p p2 m m2" using save_entity_outcome[OF assms(1)] s(1) Cons.prems(5) True by simp
    ultimately show ?thesis using outcome_later g by blast
  next
    case False
    with Cons.prems(4) e have i: "(name, h) \<in> set es" by auto
    with Cons.prems(2,3) e have d: "name \<noteq> n0" "h \<noteq> h0" by (auto simp: image_iff)
    have "left_alone name h p p2 m m2" using f d by (simp add: left_alone_def)
    moreover have "stop_outcome E name h p2 p1 m2 m1" by (rule Cons.IH[OF s(2) _ _ i Cons.prems(5)]) (use Cons.prems(2,3) in simp_all)
    ultimately show ?thesis using outcome_shift f by blast
  qed
qed simp

lemma save_all_ok:
  assumes "save_all_entity_states E es p s = (p1, s1, Inr c)" and "coherent (st_kubo E) (pool_world p, s)"
  shows "\<exists>m m1 p0. current (st_kubo E) (pool_world p, s) = Some m \<and> save_entities E es m p = (p0, Inr m1)
     \<and> current (st_kubo E) (pool_world p1, s1) = Some m1 \<and> coherent (st_kubo E) (pool_world p1, s1) \<and> mw_cid s1 = c
     \<and> node_keeps (st_kubo E) (pool_world p0) (pool_world p1) \<and> fst p1 = fst p0"
proof -
  obtain sa m p0 m1 w where f: "fetch_or_cached (st_kubo E) (pool_world p) s = (sa, Some m)"
    "save_entities E es m p = (p0, Inr m1)"
    "publish_manifest_update (st_kubo E) (mw_cid s) m1 (pool_world p0) sa = (w, s1, Inr c)" "p1 = put_pool_world w p0"
    using assms(1)
    by (auto simp: save_all_entity_states_def mutate_pool_def Let_def split: prod.splits option.splits sum.splits)
  have ok: "kubo_ok (st_kubo E)" using assms(2) by (simp add: coherent_def)
  from fetch_or_cached_coherent(1)[OF assms(2) f(1)] publish_ok[OF ok f(3)] f(2,4) show ?thesis
    by (intro exI[of _ m] exI[of _ m1] exI[of _ p0]) simp
qed

lemma save_all_err:
  assumes "save_all_entity_states E es p s = (p1, s1, Inl e)" and "coherent (st_kubo E) (pool_world p, s)"
    and "\<forall>h. draws_keep (st_kubo E) (st_host E h)"
  shows "mw_cid s1 = mw_cid s \<and> coherent (st_kubo E) (pool_world p1, s1)
     \<and> node_keeps (st_kubo E) (pool_world p) (pool_world p1)
     \<and> (\<forall>m. current (st_kubo E) (pool_world p, s) = Some m \<longrightarrow> fst p1 = fst (fst (save_entities E es m p)))"
proof -
  have ok: "kubo_ok (st_kubo E)" using assms(2) by (simp add: coherent_def)
  obtain sa r where f: "fetch_or_cached (st_kubo E) (pool_world p) s = (sa, r)" by fastforce
  note fc = fetch_or_cached_coherent[OF assms(2) f]
  have keep: "coherent (st_kubo E) (w, sa)" if "node_keeps (st_kubo E) (pool_world p) w" for w
    using keeps_coherent[OF assms(2) that, of sa] fc by simp
  show ?thesis
  proof (cases r)
    case None
    with assms(1) f have "p1 = p" "s1 = sa" by (simp_all add: save_all_entity_states_def mutate_pool_def)
    with None fc keep[of "pool_world p"] show ?thesis by simp
  next
    case (Some m)
    have cur: "current (st_kubo E) (pool_world p, s) = Some m" using fc(1) Some by simp
    obtain p0 q where s: "save_entities E es m p = (p0, q)" by fastforce
    note k = save_entities_frame[OF ok assms(3) s]
    show ?thesis
    proof (cases q)
      case (Inl er)
      with assms(1) f Some s have "p1 = p0" "s1 = sa" by (simp_all add: save_all_entity_states_def mutate_pool_def Let_def)
      with conjunct1[OF k] keep[OF conjunct1[OF k]] fc(2) s cur show ?thesis by simp
    next
      case (Inr m1)
      then obtain w er where pu: "publish_manifest_update (st_kubo E) (mw_cid s) m1 (pool_world p0) sa = (w, s1, Inl er)"
        "p1 = put_pool_world w p0"
        using assms(1) f Some s
        by (auto simp: save_all_entity_states_def mutate_pool_def Let_def split: prod.splits sum.splits)
      note pe = publish_err[OF ok pu(1)]
      have kw: "node_keeps (st_kubo E) (pool_world p) w" by (rule node_keeps_trans[OF conjunct1[OF k] pe(2)])
      from pe(1) pu(2) keep[OF kw] kw fc(2) s cur show ?thesis by simp
    qed
  qed
qed

text \<open>A service with plugins stops only after a successful save; what is published then is the saved root.\<close>

lemma handle_shutdown_stops:
  assumes "handle_shutdown E p s = ((p', s'), True)" and "mw_root_cid (ct_writer s) \<noteq> None" and "ct_plugins s \<noteq> []"
  shows "\<exists>p1 wr c. save_all_entity_states E (ct_plugins s) p (ct_writer s) = (p1, wr, Inr c)
     \<and> ct_writer s' = wr\<lparr>mw_root_cid := Some c\<rparr> \<and> p' = put_pool_world (fst (st_publish E c (pool_world p1))) p1"
  using assms
  by (auto simp: handle_shutdown_def publish_and_stop_def persist_root_cid_def Let_def split: option.splits prod.splits sum.splits)

lemma handle_shutdown_aborts:
  assumes "handle_shutdown E p s = ((p', s'), False)"
  shows "\<exists>wr e. save_all_entity_states E (ct_plugins s) p (ct_writer s) = (p', wr, Inl e) \<and> ct_writer s' = wr"
  using assms
  by (auto simp: handle_shutdown_def publish_and_stop_def Let_def split: option.splits prod.splits sum.splits if_splits)

section \<open>A pool for the witnesses\<close>

text \<open>The fortune teller queues a state when it is stopped; the lobby does not answer.\<close>

definition stop_world :: "doc list" where
  "stop_world = [EntityDoc sample_entity,
     ManifestDoc (empty_manifest\<lparr>rm_entities := [(''fortune'', mem_cid 0), (''lobby'', mem_cid 0)]\<rparr>)]"

definition stop_pool :: "(nat, doc list) pool" where
  "stop_pool = ((\<lambda>h. fst saving_worker_state), (snd saving_worker_state)\<lparr>hs_world := stop_world\<rparr>)"

definition sample_stop :: "(nat, doc list) stop_env" where
  "sample_stop = \<lparr>st_kubo = mem_kubo, st_host = (\<lambda>_. sample_host), st_guest = (\<lambda>_. saving_guest), st_encode = (\<lambda>_. None),
     st_delivery = (\<lambda>h. if h = 6 then QueueFull else Answered), st_marked = (\<lambda>_. True),
     st_handles = (\<lambda>h. \<lparr>eh_fragment = [], eh_kind = Stateful, eh_acl = [], eh_parent = None, eh_native = False\<rparr>),
     st_publish = (\<lambda>c w. (w, True))\<rparr>"

definition stop_service :: "(string \<times> nat) list \<Rightarrow> crud_state" where
  "stop_service plugins = sample_running\<lparr>ct_plugins := plugins\<rparr>"

lemma sample_draws: "draws_keep mem_kubo sample_host"
  by (simp add: draws_keep_def sample_host_def)

lemma stop_coherent: "coherent mem_kubo (stop_world, sample_writer)"
  by (simp add: coherent_def mem_kubo_ok sample_writer_def writer_new_def)

lemmas stop_eval = handle_shutdown_def save_all_entity_states_def mutate_pool_def save_entity_def save_entity_node_def
  pool_save_def put_pool_world_def sample_stop_def stop_pool_def stop_world_def stop_service_def saving_worker_state_def
  sample_worker_def graceful_shutdown_save_def shutdown_signal_save_def call_worker_def call_export_def saving_guest_def
  sample_host_def linked_exec_def host_functions_def host_ctx_new_def state_ctx_new_def queue_state_def shutdown_reply_def
  save_pending_def map_state_def mark_saved_def sample_writer_def writer_new_def writer_defs publish_and_stop_def

section \<open>Properties\<close>



text \<open>
  A stop that is called off loses state: the workers saved before the one that fails have been told that their state
  is saved, but the manifest that links it is not published.  The daemon goes on, the state is pending no more, the
  entity's node is the old one, and the next stop has nothing to save.
\<close>

theorem aborted_shutdown_loses_state:
  assumes "handle_shutdown E p s = ((p', s'), False)" and "coherent (st_kubo E) (pool_world p, ct_writer s)"
    and "\<forall>h. draws_keep (st_kubo E) (st_host E h)"
    and "ct_plugins s = (name, h) # es" and "h \<notin> snd ` set es" and "eh_kind (st_handles E h) \<noteq> Stateless" and "st_marked E h"
    and "current (st_kubo E) (pool_world p, ct_writer s) = Some m"
    and "writer_entity_node (st_kubo E) name (pool_world p) (ct_writer s) = Inr node"
    and "save_entity E (name, h) m p = (p1, Inr m1)"
    and "worker_step (st_host E h) (st_guest E h) (st_encode E) (MShutdown False) (fst p h, snd p) = (s2, RShutdown (Some (Some b)))"
  shows "sc_pending (hc_state (wk_ctx (fst p' h))) = None
     \<and> writer_entity_node (st_kubo E) name (pool_world p') (ct_writer s') = Inr node
     \<and> mw_cid (ct_writer s') = mw_cid (ct_writer s)"
proof -
  have ok: "kubo_ok (st_kubo E)" using assms(2) by (simp add: coherent_def)
  obtain wr e where a: "save_all_entity_states E (ct_plugins s) p (ct_writer s) = (p', wr, Inl e)" "ct_writer s' = wr"
    using handle_shutdown_aborts[OF assms(1)] by blast
  note f = save_all_err[OF a(1) assms(2,3)]
  obtain link where l: "map_of (rm_entities m) name = Some link" "dag_get_entity (st_kubo E) (pool_world p) link = Some node"
    using assms(9) entity_node_current[OF assms(2,8)] by (auto split: option.splits)
  obtain p2 r where s2: "save_entities E es m1 p1 = (p2, r)" by fastforce
  have "worker_pending (fst p1 h, snd p1) = None"
    using save_entity_saved[OF ok assms(10,6) l] assms(7) by blast
  moreover have "fst p' h = fst p1 h"
    using f assms(4,5,8,10) s2 save_entities_frame[OF ok assms(3) s2] by simp
  moreover have fk: "node_keeps (st_kubo E) (pool_world p) (pool_world p')" "mw_cid wr = mw_cid (ct_writer s)"
    "coherent (st_kubo E) (pool_world p', wr)"
    using f by simp_all
  have "current (st_kubo E) (pool_world p', wr) = Some m" by (rule keeps_current[OF fk(1,2) assms(8)])
  with entity_node_current[OF fk(3)] l(1) node_keeps_entity[OF fk(1) l(2)]
  have "writer_entity_node (st_kubo E) name (pool_world p') wr = Inr node" by simp
  ultimately show ?thesis using a(2) fk(2) by simp
qed

theorem aborted_shutdown_loses_state_witness:
  "\<exists>p' s'. handle_shutdown sample_stop stop_pool (stop_service [(''fortune'', 7), (''lobby'', 6)]) = ((p', s'), False)
     \<and> sc_pending (hc_state (wk_ctx (fst p' 7))) = None
     \<and> writer_entity_node mem_kubo ''fortune'' (pool_world p') (ct_writer s') = Inr sample_entity"
proof -
  let ?s = "stop_service [(''fortune'', 7), (''lobby'', 6)]"
  let ?m = "empty_manifest\<lparr>rm_entities := [(''fortune'', mem_cid 0), (''lobby'', mem_cid 0)]\<rparr>"
  obtain p' s' where r: "handle_shutdown sample_stop stop_pool ?s = ((p', s'), False)"
    by (simp add: stop_eval Let_def empty_manifest_def)
  obtain p1 m1 where e: "save_entity sample_stop (''fortune'', 7) ?m stop_pool = (p1, Inr m1)"
    by (simp add: stop_eval Let_def empty_manifest_def)
  obtain s2 where w: "worker_step sample_host saving_guest (\<lambda>_. None) (MShutdown False) (fst stop_pool 7, snd stop_pool)
      = (s2, RShutdown (Some (Some [9])))"
    by (simp add: stop_eval)
  have c: "coherent mem_kubo (pool_world stop_pool, ct_writer ?s)" using stop_coherent by (simp add: stop_pool_def stop_service_def)
  have n: "writer_entity_node mem_kubo ''fortune'' (pool_world stop_pool) (ct_writer ?s) = Inr sample_entity"
    "current mem_kubo (pool_world stop_pool, ct_writer ?s) = Some ?m"
    by (simp_all add: stop_pool_def stop_service_def writer_entity_node_def current_def stop_world_def sample_writer_def
        writer_new_def empty_manifest_def)
  have d: "st_kubo sample_stop = mem_kubo" "st_host sample_stop h = sample_host" "st_guest sample_stop h = saving_guest"
    "st_encode sample_stop = (\<lambda>_. None)" "st_marked sample_stop h" "eh_kind (st_handles sample_stop h) = Stateful" for h
    by (simp_all add: sample_stop_def)
  from aborted_shutdown_loses_state[OF r, of "''fortune''" 7 "[(''lobby'', 6)]" ?m sample_entity p1 m1 s2 "[9]"] c n e w sample_draws r
  show ?thesis by (simp add: d stop_service_def del: worker_step.simps)
qed

end
