(* ===== verification/Outbox.thy ===== *)
theory Outbox
  imports Routing Documents
begin

text \<open>
  Connections to other runtimes (\<open>src/ipfs.rs\<close>) and the cache of DID documents
  (\<open>src/doccache.rs\<close>): the Fibonacci backoff of unreachable outboxes, opening an outbox, the staggered
  resolution of a DID, and the document cache with its refresh worker.  Resolvers, the
  endpoint and documents come from \<open>ma_core\<close> and are parameters; time is a number of seconds.
\<close>

section \<open>Backoff\<close>

record unreachable_outbox =
  ub_retry_at :: nat
  ub_previous :: nat
  ub_current :: nat
  ub_attempts :: nat

record outbox_cache =
  ob_unreachable :: "((string \<times> string) \<times> unreachable_outbox) list"
  ob_backoff_attempts :: nat

definition outbox_cache_new :: "nat \<Rightarrow> outbox_cache" where
  "outbox_cache_new attempts = \<lparr>ob_unreachable = [], ob_backoff_attempts = max attempts 1\<rparr>"

definition set_backoff_attempts :: "nat \<Rightarrow> outbox_cache \<Rightarrow> outbox_cache" where
  "set_backoff_attempts attempts c = c\<lparr>ob_backoff_attempts := max attempts 1\<rparr>"

definition unreachable_for :: "nat \<Rightarrow> string \<Rightarrow> string \<Rightarrow> outbox_cache \<Rightarrow> nat option" where
  "unreachable_for now did protocol c =
     (case map_of (ob_unreachable c) (did, protocol) of
        Some b \<Rightarrow> if now < ub_retry_at b then Some (ub_retry_at b - now) else None
      | None \<Rightarrow> None)"

text \<open>\<open>Duration::saturating_add\<close> on whole seconds.\<close>

definition saturating_secs :: "nat \<Rightarrow> nat \<Rightarrow> nat" where
  "saturating_secs a b = min (a + b) (2 ^ 64 - 1)"

definition next_delays :: "nat \<Rightarrow> unreachable_outbox option \<Rightarrow> nat \<times> nat \<times> nat" where
  "next_delays max_attempts entry =
     (case entry of
        None \<Rightarrow> (0, 1, 1)
      | Some b \<Rightarrow>
          if max_attempts \<le> ub_attempts b then (ub_previous b, ub_current b, ub_attempts b)
          else (ub_current b, saturating_secs (ub_previous b) (ub_current b), ub_attempts b + 1))"

definition mark_unreachable :: "nat \<Rightarrow> string \<Rightarrow> string \<Rightarrow> outbox_cache \<Rightarrow> outbox_cache \<times> nat" where
  "mark_unreachable now did protocol c =
     (let (previous, delay, attempts) =
            next_delays (max (ob_backoff_attempts c) 1) (map_of (ob_unreachable c) (did, protocol))
      in (c\<lparr>ob_unreachable := AList.update (did, protocol)
              \<lparr>ub_retry_at = now + delay, ub_previous = previous, ub_current = delay, ub_attempts = attempts\<rparr>
              (ob_unreachable c)\<rparr>,
          delay))"

definition clear_unreachable :: "string \<Rightarrow> outbox_cache \<Rightarrow> outbox_cache" where
  "clear_unreachable did c = c\<lparr>ob_unreachable := filter (\<lambda>((d, p), b). d \<noteq> did) (ob_unreachable c)\<rparr>"

definition record_inbound_contact :: "did_parser \<Rightarrow> string \<Rightarrow> outbox_cache \<Rightarrow> outbox_cache" where
  "record_inbound_contact parse from c =
     (case parse from of None \<Rightarrow> c | Some d \<Rightarrow> clear_unreachable (base_id d) c)"

section \<open>Documents\<close>

text \<open>A cache of documents \<open>'d\<close> by base DID; \<open>updated\<close> is \<open>Document::updated_at\<close>.\<close>

type_synonym 'd doc_cache = "'d hash_map"

definition cache_get :: "did_parser \<Rightarrow> string \<Rightarrow> 'd doc_cache \<Rightarrow> unit + 'd option" where
  "cache_get parse did c = (case parse did of None \<Rightarrow> Inl () | Some d \<Rightarrow> Inr (map_of c (base_id d)))"

definition insert_published :: "did_parser \<Rightarrow> string \<Rightarrow> 'd \<Rightarrow> 'd doc_cache \<Rightarrow> 'd doc_cache \<times> (unit + unit)" where
  "insert_published parse did doc c =
     (case parse did of None \<Rightarrow> (c, Inl ()) | Some d \<Rightarrow> (AList.update (base_id d) doc c, Inr ()))"

definition merge_resolved ::
  "did_parser \<Rightarrow> ('d \<Rightarrow> string) \<Rightarrow> string \<Rightarrow> 'd \<Rightarrow> 'd doc_cache \<Rightarrow> 'd doc_cache \<times> (unit + 'd)" where
  "merge_resolved parse updated did doc c =
     (case parse did of
        None \<Rightarrow> (c, Inl ())
      | Some d \<Rightarrow>
          (case map_of c (base_id d) of
             Some cached \<Rightarrow>
               if updated doc \<le> updated cached then (c, Inr cached) else (AList.update (base_id d) doc c, Inr doc)
           | None \<Rightarrow> (AList.update (base_id d) doc c, Inr doc)))"

text \<open>\<open>remote\<close> is what the wrapped resolver answers.\<close>

definition resolve_did ::
  "did_parser \<Rightarrow> ('d \<Rightarrow> string) \<Rightarrow> 'd option \<Rightarrow> string \<Rightarrow> 'd doc_cache \<Rightarrow> 'd doc_cache \<times> (unit + 'd)" where
  "resolve_did parse updated remote did c =
     (case cache_get parse did c of
        Inl e \<Rightarrow> (c, Inl e)
      | Inr (Some doc) \<Rightarrow> (c, Inr doc)
      | Inr None \<Rightarrow> (case remote of None \<Rightarrow> (c, Inl ()) | Some doc \<Rightarrow> merge_resolved parse updated did doc c))"

definition refresh_did ::
  "did_parser \<Rightarrow> ('d \<Rightarrow> string) \<Rightarrow> 'd option \<Rightarrow> string \<Rightarrow> 'd doc_cache \<Rightarrow> 'd doc_cache \<times> (unit + 'd)" where
  "refresh_did parse updated remote did c =
     (case remote of None \<Rightarrow> (c, Inl ()) | Some doc \<Rightarrow> merge_resolved parse updated did doc c)"

text \<open>\<open>refresh_all\<close>: the refreshes of all cached DIDs in the order in which they finish.\<close>

definition refresh_all ::
  "did_parser \<Rightarrow> ('d \<Rightarrow> string) \<Rightarrow> (string \<times> 'd option) list \<Rightarrow> 'd doc_cache \<Rightarrow> 'd doc_cache" where
  "refresh_all parse updated answers c =
     fold (\<lambda>(did, remote) c. fst (refresh_did parse updated remote did c)) answers c"

text \<open>
  The refresh worker waits for its timer or for a new interval; it ends when the sender is gone.  Its
  run over a list of such events is the list of the intervals in force whenever it refreshes.
\<close>

datatype refresh_event = Elapsed | Changed nat | Closed

fun refresh_worker :: "bool \<Rightarrow> nat \<Rightarrow> refresh_event list \<Rightarrow> nat list" where
  "refresh_worker refresh_now interval events =
     (if refresh_now then [interval] else []) @
     (case events of
        [] \<Rightarrow> []
      | Closed # es \<Rightarrow> []
      | Changed n # es \<Rightarrow> refresh_worker (0 < n \<and> interval = 0) n es
      | Elapsed # es \<Rightarrow> if interval = 0 then refresh_worker False interval es else refresh_worker True interval es)"

declare refresh_worker.simps [simp del]

definition spawn_refresh_worker :: "nat \<Rightarrow> refresh_event list \<Rightarrow> nat list" where
  "spawn_refresh_worker interval events = refresh_worker (0 < interval) interval events"

section \<open>Resolving for an outbox\<close>

text \<open>
  \<open>resolve_did_for_outbox\<close>: at most five attempts, started one after the other after growing
  delays, the first document wins.  An event is the end of the delay before the next attempt, or the
  result of a running attempt.
\<close>

definition START_DELAYS :: "nat list" where "START_DELAYS = [1, 2, 3, 5]"

datatype 'd resolve_event = NextStart | Finished "'d option"

datatype 'd resolve_result = Found 'd | GaveUp | Waiting

fun attempt_loop :: "nat \<Rightarrow> nat \<Rightarrow> 'd resolve_event list \<Rightarrow> 'd resolve_result" where
  "attempt_loop starts running events =
     (if starts = 0 \<and> running = 0 then GaveUp
      else (case events of
              [] \<Rightarrow> Waiting
            | NextStart # es \<Rightarrow> if 0 < starts then attempt_loop (starts - 1) (running + 1) es else attempt_loop starts running es
            | Finished r # es \<Rightarrow>
                if running = 0 then attempt_loop starts running es
                else (case r of Some doc \<Rightarrow> Found doc | None \<Rightarrow> attempt_loop starts (running - 1) es)))"

declare attempt_loop.simps [simp del]

definition clamp_attempts :: "nat \<Rightarrow> nat" where
  "clamp_attempts attempts = max 1 (min attempts (length START_DELAYS + 1))"

definition resolve_did_for_outbox :: "nat \<Rightarrow> 'd resolve_event list \<Rightarrow> 'd resolve_result" where
  "resolve_did_for_outbox attempts events =
     attempt_loop (length (take (clamp_attempts attempts - 1) START_DELAYS)) 1 events"

section \<open>Opening an outbox\<close>

datatype 'o connect_result = Connected 'o | ConnectFailed | ConnectTimedOut

text \<open>
  What the outside answers during one call: the document from the cache or the network, the endpoint ID a
  document lists for the protocol, the two connection attempts, the document of the second
  resolution, and the time at the end.
\<close>

record ('d, 'o) open_env =
  oe_document :: "'d option"
  oe_service :: "'d \<Rightarrow> string option"
  oe_first :: "'o connect_result"
  oe_fresh :: "'d option"
  oe_second :: "'o connect_result"
  oe_later :: nat

datatype 'o open_result =
    Opened 'o | Suppressed nat | Unresolved | NoService | Unreachable nat

definition open_second ::
  "string \<Rightarrow> string \<Rightarrow> ('d, 'o) open_env \<Rightarrow> outbox_cache \<Rightarrow> outbox_cache \<times> 'o open_result" where
  "open_second target protocol env c =
     (case oe_fresh env of
        None \<Rightarrow> (c, Unresolved)
      | Some doc \<Rightarrow>
          (case oe_service env doc of
             None \<Rightarrow> (c, NoService)
           | Some eid \<Rightarrow>
               (case oe_second env of
                  Connected box \<Rightarrow> (clear_unreachable target c, Opened box)
                | _ \<Rightarrow> (let (c', delay) = mark_unreachable (oe_later env) target protocol c in (c', Unreachable delay)))))"

definition open_outbox_for_did ::
  "nat \<Rightarrow> string \<Rightarrow> string \<Rightarrow> ('d, 'o) open_env \<Rightarrow> outbox_cache \<Rightarrow> outbox_cache \<times> 'o open_result" where
  "open_outbox_for_did now target protocol env c =
     (case unreachable_for now target protocol c of
        Some remaining \<Rightarrow> (c, Suppressed remaining)
      | None \<Rightarrow>
          (case Option.bind (oe_document env) (oe_service env) of
             Some eid \<Rightarrow>
               (case oe_first env of
                  Connected box \<Rightarrow> (clear_unreachable target c, Opened box)
                | _ \<Rightarrow> open_second target protocol env c)
           | None \<Rightarrow> open_second target protocol env c))"

section \<open>Lemmas\<close>

fun fib :: "nat \<Rightarrow> nat" where
  "fib 0 = 0"
| "fib (Suc 0) = 1"
| "fib (Suc (Suc n)) = fib n + fib (Suc n)"

lemma fib_mono_Suc: "fib n \<le> fib (Suc n)"
  by (induction n rule: fib.induct) auto

lemma fib_mono: "m \<le> n \<Longrightarrow> fib m \<le> fib n"
  by (induction rule: dec_induct) (auto intro: order_trans[OF _ fib_mono_Suc])

lemma fib_pos: "0 < n \<Longrightarrow> 0 < fib n"
  using fib_mono[of 1 n] by simp

text \<open>A series of failures at the given times, with the delays they were answered with.\<close>

fun fail_at :: "nat list \<Rightarrow> string \<Rightarrow> string \<Rightarrow> outbox_cache \<Rightarrow> outbox_cache \<times> nat list" where
  "fail_at [] did protocol c = (c, [])"
| "fail_at (now # moments) did protocol c =
     (let (c1, d) = mark_unreachable now did protocol c; (c2, ds) = fail_at moments did protocol c1 in (c2, d # ds))"

text \<open>The delay after the \<open>k\<close>-th failure in a row with \<open>n\<close> attempts: a Fibonacci number, as far as a duration can hold it.\<close>

definition backoff_delay :: "nat \<Rightarrow> nat \<Rightarrow> nat" where
  "backoff_delay n k = min (fib (min k n)) (2 ^ 64 - 1)"

text \<open>After \<open>k\<close> failures the entry holds two neighbouring delays.\<close>

definition fib_entry :: "nat \<Rightarrow> nat \<Rightarrow> unreachable_outbox option \<Rightarrow> bool" where
  "fib_entry n k entry =
     (case entry of
        None \<Rightarrow> k = 0
      | Some b \<Rightarrow> 0 < k \<and> ub_attempts b = min k n \<and> ub_current b = backoff_delay n k \<and> ub_previous b = backoff_delay n (min k n - 1))"

lemma saturating_min: "saturating_secs (min a (2 ^ 64 - 1)) (min b (2 ^ 64 - 1)) = min (a + b) (2 ^ 64 - 1)"
  by (auto simp: saturating_secs_def min_def)

lemma next_delays_fib:
  assumes "fib_entry n k entry" and "0 < n"
  shows "next_delays n entry = (backoff_delay n (min (Suc k) n - 1), backoff_delay n (Suc k), min (Suc k) n)"
proof (cases entry)
  case None
  with assms have "k = 0" "min (Suc 0) n = Suc 0" by (auto simp: fib_entry_def)
  with None show ?thesis by (simp add: next_delays_def backoff_delay_def)
next
  case (Some b)
  with assms(1) have b: "0 < k" "ub_attempts b = min k n" "ub_current b = backoff_delay n k" "ub_previous b = backoff_delay n (min k n - 1)"
    by (auto simp: fib_entry_def)
  show ?thesis
  proof (cases "n \<le> k")
    case True
    with Some b show ?thesis by (simp add: next_delays_def backoff_delay_def)
  next
    case False
    then obtain j where j: "k = Suc j" "Suc k \<le> n" using b(1) by (cases k) auto
    have "saturating_secs (backoff_delay n j) (backoff_delay n k) = backoff_delay n (Suc k)"
      using j unfolding backoff_delay_def saturating_min by simp
    with Some b j show ?thesis by (simp add: next_delays_def)
  qed
qed

lemma mark_unreachable_fib:
  assumes "fib_entry n k (map_of (ob_unreachable c) (did, protocol))" and "max (ob_backoff_attempts c) 1 = n"
    and "mark_unreachable now did protocol c = (c', d)"
  shows "d = backoff_delay n (Suc k) \<and> fib_entry n (Suc k) (map_of (ob_unreachable c') (did, protocol))
     \<and> ob_backoff_attempts c' = ob_backoff_attempts c
     \<and> unreachable_for t did protocol c' = (if t < now + d then Some (now + d - t) else None)
     \<and> (\<forall>key. key \<noteq> (did, protocol) \<longrightarrow> map_of (ob_unreachable c') key = map_of (ob_unreachable c) key)"
proof -
  have n: "0 < n" using assms(2) by auto
  have "backoff_delay n (Suc k) = backoff_delay n (min (Suc k) n)" by (simp add: backoff_delay_def)
  with assms(3) next_delays_fib[OF assms(1) n] show ?thesis
    unfolding mark_unreachable_def assms(2) by (auto simp: fib_entry_def unreachable_for_def AList.update_conv)
qed

lemma fail_at_fib:
  assumes "fib_entry n k (map_of (ob_unreachable c) (did, protocol))" and "max (ob_backoff_attempts c) 1 = n"
    and "fail_at moments did protocol c = (c', ds)"
  shows "ds = map (\<lambda>i. backoff_delay n (Suc (k + i))) [0..<length moments]
     \<and> fib_entry n (k + length moments) (map_of (ob_unreachable c') (did, protocol))
     \<and> ob_backoff_attempts c' = ob_backoff_attempts c
     \<and> (\<forall>key. key \<noteq> (did, protocol) \<longrightarrow> map_of (ob_unreachable c') key = map_of (ob_unreachable c) key)"
  using assms
proof (induction moments arbitrary: c k ds)
  case (Cons now moments)
  obtain c1 d where m: "mark_unreachable now did protocol c = (c1, d)" by fastforce
  note f = mark_unreachable_fib[OF Cons.prems(1,2) m]
  obtain ds1 where r: "fail_at moments did protocol c1 = (c', ds1)" "ds = d # ds1"
    using Cons.prems(3) m by (auto split: prod.splits)
  have "fib_entry n (Suc k) (map_of (ob_unreachable c1) (did, protocol))" "max (ob_backoff_attempts c1) 1 = n"
    using f Cons.prems(2) by simp_all
  note IH = Cons.IH[OF this r(1)]
  have "[0..<length (now # moments)] = 0 # map Suc [0..<length moments]"
    by (simp only: length_Cons upt_conv_Cons[OF zero_less_Suc] map_Suc_upt)
  then show ?case using f IH r(2) by (simp del: upt_Suc)
qed simp

lemma fail_at_snoc:
  "fail_at (moments @ [now]) did protocol c =
     (let (c1, ds) = fail_at moments did protocol c; (c2, d) = mark_unreachable now did protocol c1 in (c2, ds @ [d]))"
  by (induction moments arbitrary: c) (auto simp: Let_def split: prod.splits)

lemma map_of_filter_key: "map_of (filter (\<lambda>((d, p), b). d \<noteq> did) xs) (d', p') = (if d' = did then None else map_of xs (d', p'))"
  by (induction xs) auto

lemma unreachable_after_clear:
  "unreachable_for now did' protocol (clear_unreachable did c) = (if did' = did then None else unreachable_for now did' protocol c)"
  by (simp add: unreachable_for_def clear_unreachable_def map_of_filter_key)

lemma open_not_suppressed:
  "unreachable_for now target protocol c = None \<Longrightarrow> snd (open_outbox_for_did now target protocol env c) \<noteq> Suppressed r"
  by (auto simp: open_outbox_for_did_def open_second_def split: option.splits connect_result.splits prod.splits)

lemma merge_resolved_monotone:
  assumes "merge_resolved parse updated did doc c = (c', r)" and "map_of c k = Some d0"
  shows "\<exists>d. map_of c' k = Some d \<and> updated d0 \<le> updated d"
  using assms by (auto simp: merge_resolved_def map_of_update split: option.splits if_splits)

datatype 'd cache_op = OpResolve string "'d option" | OpRefresh string "'d option"

fun cache_exec :: "did_parser \<Rightarrow> ('d \<Rightarrow> string) \<Rightarrow> 'd cache_op \<Rightarrow> 'd doc_cache \<Rightarrow> 'd doc_cache" where
  "cache_exec parse updated (OpResolve did remote) c = fst (resolve_did parse updated remote did c)"
| "cache_exec parse updated (OpRefresh did remote) c = fst (refresh_did parse updated remote did c)"

lemma cache_exec_monotone:
  assumes "map_of c k = Some d0"
  shows "\<exists>d. map_of (cache_exec parse updated op c) k = Some d \<and> updated d0 \<le> updated d"
proof (cases op)
  case (OpResolve did remote)
  with assms merge_resolved_monotone[of parse updated did] show ?thesis
    by (auto simp: resolve_did_def split: sum.splits option.splits)
       (metis prod.collapse)
next
  case (OpRefresh did remote)
  with assms merge_resolved_monotone[of parse updated did] show ?thesis
    by (auto simp: refresh_did_def split: option.splits) (metis prod.collapse)
qed

lemma cache_run_monotone:
  "map_of c k = Some d0 \<Longrightarrow> \<exists>d. map_of (fold (cache_exec parse updated) ops c) k = Some d \<and> updated d0 \<le> updated d"
proof (induction ops arbitrary: c d0)
  case (Cons op ops)
  from cache_exec_monotone[OF Cons.prems, of parse updated op] obtain d1 where
    d1: "map_of (cache_exec parse updated op c) k = Some d1" "updated d0 \<le> updated d1" by blast
  from Cons.IH[OF d1(1)] d1(2) show ?case by (auto intro: order_trans)
qed auto

lemma attempt_loop_found: "attempt_loop starts running events = Found d \<Longrightarrow> Finished (Some d) \<in> set events"
proof (induction events arbitrary: starts running)
  case Nil
  then show ?case by (simp add: attempt_loop.simps split: if_splits)
next
  case (Cons e es)
  from Cons.prems show ?case
    by (subst (asm) attempt_loop.simps)
       (auto split: if_splits resolve_event.splits option.splits dest: Cons.IH)
qed

text \<open>Giving up means that every attempt was started and failed.\<close>

lemma attempt_loop_gave_up:
  "attempt_loop starts running events = GaveUp \<Longrightarrow> starts + running \<le> length (filter (\<lambda>e. e = Finished None) events)"
proof (induction events arbitrary: starts running)
  case Nil
  then show ?case by (simp add: attempt_loop.simps split: if_splits)
next
  case (Cons e es)
  from Cons.prems show ?case
    by (subst (asm) attempt_loop.simps)
       (auto split: if_splits resolve_event.splits option.splits dest!: Cons.IH)
qed

text \<open>
  Events as they can occur: an attempt is started only while one is left to start, and only a running
  attempt finishes.  Every such event uses up one of the two steps of an attempt.
\<close>

fun possible_events :: "nat \<Rightarrow> nat \<Rightarrow> 'd resolve_event list \<Rightarrow> bool" where
  "possible_events starts running [] = True"
| "possible_events starts running (NextStart # es) = (0 < starts \<and> possible_events (starts - 1) (running + 1) es)"
| "possible_events starts running (Finished r # es) = (0 < running \<and> possible_events starts (running - 1) es)"

lemma attempt_loop_ends:
  "possible_events starts running events \<Longrightarrow> attempt_loop starts running events = Waiting \<Longrightarrow>
   length events < 2 * starts + running"
proof (induction starts running events rule: possible_events.induct)
  case (1 starts running)
  then show ?case by (simp add: attempt_loop.simps split: if_splits)
next
  case (2 starts running es)
  from 2(2,3) have "attempt_loop (starts - 1) (running + 1) es = Waiting"
    by (simp add: attempt_loop.simps[of starts])
  with 2 show ?case by fastforce
next
  case (3 starts running r es)
  from 3(2,3) have "attempt_loop starts (running - 1) es = Waiting"
    by (simp add: attempt_loop.simps[of starts running] split: option.splits)
  with 3 show ?case by fastforce
qed

section \<open>Properties\<close>

text \<open>
  C20 (outbox). The delays of a series of failed connections to a peer are the Fibonacci numbers up to the configured number of
  attempts (one at least) and stay at that one, none exceeding what a duration can hold.  Each failure of the series, whenever it
  happens, blocks the outbox from then on for exactly its delay, and no other outbox is touched.
\<close>

theorem backoff_is_fibonacci:
  assumes "map_of (ob_unreachable c) (did, protocol) = None" and "n = max (ob_backoff_attempts c) 1"
  shows "snd (fail_at moments did protocol c) = map (\<lambda>i. min (fib (min (Suc i) n)) (2 ^ 64 - 1)) [0..<length moments]
     \<and> (\<forall>now t. unreachable_for t did protocol (fst (fail_at (moments @ [now]) did protocol c)) =
          (let retry = now + min (fib (min (Suc (length moments)) n)) (2 ^ 64 - 1)
           in if t < retry then Some (retry - t) else None))
     \<and> (\<forall>key. key \<noteq> (did, protocol) \<longrightarrow>
          map_of (ob_unreachable (fst (fail_at moments did protocol c))) key = map_of (ob_unreachable c) key)"
proof -
  obtain c1 ds where r: "fail_at moments did protocol c = (c1, ds)" by fastforce
  have e: "fib_entry n 0 (map_of (ob_unreachable c) (did, protocol))" using assms(1) by (simp add: fib_entry_def)
  note f = fail_at_fib[OF e assms(2)[symmetric] r]
  have "unreachable_for t did protocol (fst (fail_at (moments @ [now]) did protocol c)) =
      (let retry = now + backoff_delay n (Suc (length moments)) in if t < retry then Some (retry - t) else None)" for now t
  proof -
    obtain c2 d where m: "mark_unreachable now did protocol c1 = (c2, d)" by fastforce
    have "fib_entry n (length moments) (map_of (ob_unreachable c1) (did, protocol))" "max (ob_backoff_attempts c1) 1 = n"
      using f assms(2) by simp_all
    from mark_unreachable_fib[OF this m, of t] show ?thesis by (simp add: fail_at_snoc r m Let_def)
  qed
  with f show ?thesis by (simp add: r backoff_delay_def del: fail_at.simps)
qed

theorem backoff_is_fibonacci_witness:
  "snd (fail_at [10, 20, 30, 40, 50, 60, 70] ''did:ma:bob'' ''p'' (outbox_cache_new 5)) = [1, 1, 2, 3, 5, 5, 5]
   \<and> unreachable_for 44 ''did:ma:bob'' ''p'' (fst (fail_at ([10, 20, 30] @ [43]) ''did:ma:bob'' ''p'' (outbox_cache_new 5))) = Some 2
   \<and> unreachable_for 46 ''did:ma:bob'' ''p'' (fst (fail_at ([10, 20, 30] @ [43]) ''did:ma:bob'' ''p'' (outbox_cache_new 5))) = None"
proof -
  have f: "fib (Suc 0) = 1" "fib 2 = 1" "fib 3 = 2" "fib 4 = 3" "fib 5 = 5" by (simp_all add: eval_nat_numeral)
  have new: "map_of (ob_unreachable (outbox_cache_new 5)) (''did:ma:bob'', ''p'') = None"
    "5 = max (ob_backoff_attempts (outbox_cache_new 5)) 1" by (simp_all add: outbox_cache_new_def)
  note spec = backoff_is_fibonacci[OF new]
  have "[0..<length [10, 20, 30, 40, 50, 60, 70 :: nat]] = [0, 1, 2, 3, 4, 5, 6]" by (simp add: upt_conv_Cons)
  with spec[of "[10, 20, 30, 40, 50, 60, 70]"] f
  have "snd (fail_at [10, 20, 30, 40, 50, 60, 70] ''did:ma:bob'' ''p'' (outbox_cache_new 5)) = [1, 1, 2, 3, 5, 5, 5]"
    by (simp del: fail_at.simps upt_Suc)
  moreover from spec[of "[10, 20, 30]"] f
  have "unreachable_for t ''did:ma:bob'' ''p'' (fst (fail_at ([10, 20, 30] @ [43]) ''did:ma:bob'' ''p'' (outbox_cache_new 5)))
      = (if t < 46 then Some (46 - t) else None)" for t by (simp add: Let_def del: fail_at.simps)
  ultimately show ?thesis by simp
qed

text \<open>
  A peer that makes contact is reachable at once: afterwards no outbox to it is blocked, whatever
  the protocol and the time, so the next attempt is never refused, and the blocks of other peers stay as they are.
\<close>

theorem inbound_contact_reopens:
  assumes "parse from = Some d"
  shows "(\<forall>now protocol. unreachable_for now (base_id d) protocol (record_inbound_contact parse from c) = None)
     \<and> (\<forall>now protocol env r. snd (open_outbox_for_did now (base_id d) protocol env (record_inbound_contact parse from c)) \<noteq> Suppressed r)
     \<and> (\<forall>now other protocol. other \<noteq> base_id d \<longrightarrow>
          unreachable_for now other protocol (record_inbound_contact parse from c) = unreachable_for now other protocol c)"
  using assms by (simp add: record_inbound_contact_def unreachable_after_clear open_not_suppressed)

theorem inbound_contact_reopens_witness:
  "unreachable_for 0 ''did:ma:bob'' ''p'' (record_inbound_contact split_did ''did:ma:bob#inbox''
      (fst (mark_unreachable 0 ''did:ma:bob'' ''p'' (outbox_cache_new 30)))) = None"
proof -
  have "split_did ''did:ma:bob#inbox'' = Some \<lparr>base_id = ''did:ma:bob'', did_fragment = Some ''inbox''\<rparr>"
    by (simp add: split_did_def starts_with_def)
  from inbound_contact_reopens[of split_did "''did:ma:bob#inbox''", OF this, THEN conjunct1, rule_format] show ?thesis
    by simp
qed

text \<open>
  C21 (document cache). Resolving and refreshing never go back in time: whatever the network answers, in whatever order the
  answers arrive, the document cached for a DID is never replaced by one with an earlier update time.
\<close>

theorem cached_documents_only_advance:
  assumes "map_of c k = Some d0"
  shows "\<exists>d. map_of (fold (cache_exec parse updated) ops c) k = Some d \<and> updated d0 \<le> updated d"
  using cache_run_monotone[OF assms] .

theorem cached_documents_only_advance_witness:
  "\<exists>d. map_of (fold (cache_exec split_did id) [OpRefresh ''did:ma:bob'' (Some ''2026-01''), OpResolve ''did:ma:bob#x'' None]
       [(''did:ma:bob'', ''2026-02'')]) ''did:ma:bob'' = Some d \<and> ''2026-02'' \<le> d"
  using cached_documents_only_advance[of "[(''did:ma:bob'', ''2026-02'')]" "''did:ma:bob''" "''2026-02''" split_did id
      "[OpRefresh ''did:ma:bob'' (Some ''2026-01''), OpResolve ''did:ma:bob#x'' None]"]
  by simp

text \<open>
  C22 (outbox). Resolving for an outbox ends: with \<open>n\<close> attempts, the configured number bounded by one and five, it has answered after
  at most \<open>2 n - 1\<close> of the events that can occur.  It gives up only when all \<open>n\<close> attempts have
  failed, and an answer it returns is one that an attempt delivered.
\<close>

theorem resolve_gives_up_last:
  assumes "n = max 1 (min attempts 5)" and "possible_events (n - 1) 1 events"
  shows "(2 * n - 1 \<le> length events \<longrightarrow> resolve_did_for_outbox attempts events \<noteq> Waiting)
     \<and> (resolve_did_for_outbox attempts events = GaveUp \<longrightarrow> n \<le> length (filter (\<lambda>e. e = Finished None) events))
     \<and> (\<forall>d. resolve_did_for_outbox attempts events = Found d \<longrightarrow> Finished (Some d) \<in> set events)"
proof -
  let ?starts = "length (take (clamp_attempts attempts - 1) START_DELAYS)"
  have s: "?starts = n - 1" "1 \<le> n"
    using assms(1) by (auto simp: clamp_attempts_def START_DELAYS_def)
  show ?thesis
    using attempt_loop_ends[OF assms(2)] attempt_loop_gave_up[of "n - 1" 1 events] attempt_loop_found[of "n - 1" 1 events] s
    unfolding resolve_did_for_outbox_def s(1) by fastforce
qed

theorem resolve_gives_up_last_witness:
  "resolve_did_for_outbox 2 [Finished None, NextStart, Finished None] \<noteq> (Waiting :: nat resolve_result)
   \<and> resolve_did_for_outbox 2 [Finished None, NextStart, Finished None] = (GaveUp :: nat resolve_result)
   \<and> 2 \<le> length (filter (\<lambda>e. e = Finished None) [Finished None, NextStart, Finished (None :: nat option)])"
proof -
  have "resolve_did_for_outbox 2 [Finished None, NextStart, Finished None] = (GaveUp :: nat resolve_result)"
    by (simp add: resolve_did_for_outbox_def clamp_attempts_def START_DELAYS_def attempt_loop.simps)
  with resolve_gives_up_last[of 2 2 "[Finished None, NextStart, Finished (None :: nat option)]"] show ?thesis by simp
qed

end
