(* ===== verification/IpfsService.thy ===== *)
theory IpfsService
  imports Acl Outbox
begin

text \<open>
  The IPFS service (\<open>src/ipfs.rs\<close>): messages that ask the runtime to publish a DID document or to store content,
  and the IPNS keys and records both this and the runtime's own root use.  The Kubo node is the
  parameter \<open>ipns_node\<close>, one field per HTTP request with the fields of its JSON answer; validation of messages, the replay guard
  and key encodings come from \<open>ma_core\<close> and \<open>libp2p\<close> and are fields of \<open>service_env\<close>.
\<close>

section \<open>The node\<close>

record key_list_entry =
  ke_name :: string
  ke_name_lower :: string
  ke_id :: string
  ke_id_lower :: string

text \<open>Answers with an upper-case and a lower-case variant of their field.\<close>

type_synonym two_case = "string \<times> string"

record 'n ipns_node =
  nd_key_list :: "'n \<Rightarrow> key_list_entry list option"
  nd_key_import :: "'n \<Rightarrow> string \<Rightarrow> bytes \<Rightarrow> 'n \<times> two_case option"
  nd_name_publish :: "'n \<Rightarrow> string \<Rightarrow> string \<Rightarrow> 'n \<times> two_case option"
  nd_name_resolve :: "'n \<Rightarrow> string \<Rightarrow> two_case option"
  nd_dag_put_cbor :: "'n \<Rightarrow> bytes \<Rightarrow> 'n \<times> (string option \<times> string option) option"
  nd_dag_put_json :: "'n \<Rightarrow> cbor \<Rightarrow> 'n \<times> string option"
  nd_add_unpinned :: "'n \<Rightarrow> bytes \<Rightarrow> 'n \<times> string option"
  nd_pin_add :: "'n \<Rightarrow> string \<Rightarrow> 'n \<times> bool"
  nd_pin_update :: "'n \<Rightarrow> string \<Rightarrow> string \<Rightarrow> 'n \<times> bool"

datatype ipfs_error =
    IeRequest | IeMissing | IeKeyMismatch string string | IeKeyLength | IeKeyEncoding | IeUnsupported string
  | IeAcl acl_error | IeReplay | IeInvalid | IeSender | IeDecode | IePin | IeReply

section \<open>Keys\<close>

definition trimmed_or :: "string \<Rightarrow> string \<Rightarrow> string" where
  "trimmed_or a b = (if trim a = [] then trim b else trim a)"

definition list_keys :: "'n ipns_node \<Rightarrow> 'n \<Rightarrow> ipfs_error + (string \<times> string) list" where
  "list_keys N w =
     (case nd_key_list N w of
        None \<Rightarrow> Inl IeRequest
      | Some entries \<Rightarrow>
          Inr (filter (\<lambda>(name, key_id). name \<noteq> [] \<and> key_id \<noteq> [])
                 (map (\<lambda>k. (trimmed_or (ke_name k) (ke_name_lower k), trimmed_or (ke_id k) (ke_id_lower k))) entries)))"

definition import_key :: "'n ipns_node \<Rightarrow> string \<Rightarrow> bytes \<Rightarrow> 'n \<Rightarrow> 'n \<times> (ipfs_error + string)" where
  "import_key N key_name key_bytes w =
     (case nd_key_import N w key_name key_bytes of
        (w', None) \<Rightarrow> (w', Inl IeRequest)
      | (w', Some (upper, lower)) \<Rightarrow>
          (let key_id = (if trim upper = [] then lower else upper)
           in (w', if trim key_id = [] then Inl IeMissing else Inr (trim key_id))))"

text \<open>\<open>to_protobuf\<close> encodes a raw ed25519 key.\<close>

definition ensure_kubo_ipns_key ::
  "'n ipns_node \<Rightarrow> (bytes \<Rightarrow> bytes option) \<Rightarrow> string \<Rightarrow> string \<Rightarrow> bytes \<Rightarrow> 'n \<Rightarrow> 'n \<times> (ipfs_error + unit)" where
  "ensure_kubo_ipns_key N to_protobuf key_name expected secret w =
     (case list_keys N w of
        Inl e \<Rightarrow> (w, Inl e)
      | Inr keys \<Rightarrow>
          (case map_of keys key_name of
             Some key_id \<Rightarrow> (w, if trim key_id \<noteq> expected then Inl (IeKeyMismatch key_name key_id) else Inr ())
           | None \<Rightarrow>
               if length secret \<noteq> 32 then (w, Inl IeKeyLength)
               else (case to_protobuf secret of
                       None \<Rightarrow> (w, Inl IeKeyEncoding)
                     | Some key_bytes \<Rightarrow>
                         (case import_key N key_name key_bytes w of
                            (w', Inl e) \<Rightarrow> (w', Inl e)
                          | (w', Inr imported) \<Rightarrow>
                              (w', if trim imported \<noteq> expected then Inl (IeKeyMismatch key_name imported) else Inr ())))))"

section \<open>Records\<close>

text \<open>\<open>str::trim_start_matches\<close> for a non-empty pattern; the length of the text is enough fuel.\<close>

fun strip_repeated :: "nat \<Rightarrow> string \<Rightarrow> string \<Rightarrow> string" where
  "strip_repeated 0 p s = s"
| "strip_repeated (Suc n) p s = (case strip_prefix p s of Some r \<Rightarrow> strip_repeated n p r | None \<Rightarrow> s)"

definition publish_arg :: "string \<Rightarrow> string" where
  "publish_arg c =
     (let bare = trim_start_matches (CHR ''/'') c in ''/ipfs/'' @ strip_repeated (length bare) ''ipfs/'' bare)"

definition upper_or_lower :: "two_case \<Rightarrow> string" where
  "upper_or_lower v = (if fst v = [] then snd v else fst v)"

definition name_publish :: "'n ipns_node \<Rightarrow> string \<Rightarrow> string \<Rightarrow> 'n \<Rightarrow> 'n \<times> (ipfs_error + string)" where
  "name_publish N key_name c w =
     (case nd_name_publish N w (publish_arg c) key_name of
        (w', None) \<Rightarrow> (w', Inl IeRequest)
      | (w', Some v) \<Rightarrow> (w', if upper_or_lower v = [] then Inl IeMissing else Inr (upper_or_lower v)))"

definition path_cid :: "string \<Rightarrow> string option" where
  "path_cid path =
     (if path = [] then None
      else (let c = (case strip_prefix ''/ipfs/'' (trim path) of Some r \<Rightarrow> r | None \<Rightarrow> trim path)
            in if c = [] then None else Some c))"

definition resolve_ipns_path :: "'n ipns_node \<Rightarrow> string \<Rightarrow> 'n \<Rightarrow> ipfs_error + string option" where
  "resolve_ipns_path N key_id w =
     (case nd_name_resolve N w (''/ipns/'' @ key_id) of
        None \<Rightarrow> Inl IeRequest | Some v \<Rightarrow> Inr (path_cid (upper_or_lower v)))"

definition resolve_runtime_root_cid_by_ipns_id :: "'n ipns_node \<Rightarrow> string \<Rightarrow> 'n \<Rightarrow> ipfs_error + string option" where
  "resolve_runtime_root_cid_by_ipns_id N ipns_id w =
     (case list_keys N w of
        Inl e \<Rightarrow> Inl e
      | Inr keys \<Rightarrow>
          (case find (\<lambda>(name, key_id). key_id = ipns_id) keys of
             None \<Rightarrow> Inr None | Some (name, key_id) \<Rightarrow> resolve_ipns_path N key_id w))"

text \<open>\<open>ipns_from_secret\<close> and \<open>ipns_key_name_for_parts\<close> come from \<open>ma_core\<close>.\<close>

definition publish_runtime_root_cid ::
  "'n ipns_node \<Rightarrow> (bytes \<Rightarrow> bytes option) \<Rightarrow> (bytes \<Rightarrow> string option) \<Rightarrow> (string list \<Rightarrow> string \<Rightarrow> string) \<Rightarrow> string \<Rightarrow> bytes
     \<Rightarrow> string \<Rightarrow> 'n \<Rightarrow> 'n \<times> (ipfs_error + string)" where
  "publish_runtime_root_cid N to_protobuf ipns_id_of key_name_of slug ipns_key root w =
     (case ipns_id_of ipns_key of
        None \<Rightarrow> (w, Inl IeKeyEncoding)
      | Some ipns_id \<Rightarrow>
          (let key_name = key_name_of [''runtime'', slug, ''runtime''] ipns_id in
           case ensure_kubo_ipns_key N to_protobuf key_name ipns_id ipns_key w of
             (w1, Inl e) \<Rightarrow> (w1, Inl e) | (w1, Inr _) \<Rightarrow> name_publish N key_name root w1))"

definition dag_put_cbor :: "'n ipns_node \<Rightarrow> bytes \<Rightarrow> 'n \<Rightarrow> 'n \<times> (ipfs_error + string)" where
  "dag_put_cbor N content w =
     (case nd_dag_put_cbor N w content of
        (w', None) \<Rightarrow> (w', Inl IeRequest)
      | (w', Some (Some c, lower)) \<Rightarrow> (w', Inr c)
      | (w', Some (None, Some c)) \<Rightarrow> (w', Inr c)
      | (w', Some (None, None)) \<Rightarrow> (w', Inl IeMissing))"

section \<open>Requests\<close>

record 'd identity_publish =
  ip_document_bytes :: bytes
  ip_secret :: bytes
  ip_document :: 'd
  ip_ipns :: string

record ipfs_store =
  is_content_type :: string
  is_content :: bytes

text \<open>
  \<open>sv_replay\<close> is the replay guard's check-and-insert, \<open>sv_reply_ok\<close> whether a reply can be signed.
  The state: the node, the guard, the document cache, the outbox backoffs, the remote pins asked for and the
  replies handed to delivery.
\<close>

record ('n, 'r, 'd) service_env =
  sv_node :: "'n ipns_node"
  sv_core :: acl_core
  sv_groups :: group_cache
  sv_did :: did_parser
  sv_our_did :: string
  sv_replay :: "'r \<Rightarrow> local_message \<Rightarrow> 'r \<times> bool"
  sv_validate_publish :: "local_message \<Rightarrow> 'd identity_publish option"
  sv_validate_store :: "local_message \<Rightarrow> ipfs_store option"
  sv_key_name :: "'d \<Rightarrow> string"
  sv_to_protobuf :: "bytes \<Rightarrow> bytes option"
  sv_decode :: "bytes \<Rightarrow> cbor option"
  sv_encode :: "cbor \<Rightarrow> bytes"
  sv_remote_pin :: "string option"
  sv_remote_pin_name :: "string \<Rightarrow> string"
  sv_reply_ok :: bool
  sv_publish_type :: string
  sv_store_type :: string
  sv_cap_publish :: string
  sv_cap_ipfs :: string

record ('n, 'r, 'd) service_state =
  sx_world :: 'n
  sx_guard :: 'r
  sx_documents :: "'d doc_cache"
  sx_outboxes :: outbox_cache
  sx_remote_pins :: "(string \<times> string) list"
  sx_replies :: "(string \<times> bytes) list"

type_synonym ('n, 'r, 'd) service_result = "('n, 'r, 'd) service_state \<times> (ipfs_error + unit)"

definition encode_ok_cid_reply :: "('n, 'r, 'd) service_env \<Rightarrow> string \<Rightarrow> bytes" where
  "encode_ok_cid_reply E c = sv_encode E (CArray [CText '':ok'', CText c])"

text \<open>\<open>build_reply_message\<close> and the spawned delivery.\<close>

definition reply_cid ::
  "('n, 'r, 'd) service_env \<Rightarrow> local_message \<Rightarrow> string \<Rightarrow> ('n, 'r, 'd) service_state \<Rightarrow> ('n, 'r, 'd) service_result" where
  "reply_cid E msg c s =
     (case sv_did E (lm_from msg) of
        None \<Rightarrow> (s, Inl IeSender)
      | Some sender \<Rightarrow>
          if \<not> sv_reply_ok E then (s, Inl IeReply)
          else (s\<lparr>sx_replies := (base_id sender, encode_ok_cid_reply E c) # sx_replies s\<rparr>, Inr ()))"

text \<open>The local pin follows the record; if that fails it is only logged, like a failing remote pin.\<close>

definition move_pin :: "'n ipns_node \<Rightarrow> string option \<Rightarrow> string \<Rightarrow> 'n \<Rightarrow> 'n" where
  "move_pin N old c w =
     (case old of
        Some o' \<Rightarrow> if o' \<noteq> c then fst (nd_pin_update N w o' c) else fst (nd_pin_add N w c)
      | None \<Rightarrow> fst (nd_pin_add N w c))"

definition replace_owner_remote_pin ::
  "('n, 'r, 'd) service_env \<Rightarrow> string \<Rightarrow> string \<Rightarrow> ('n, 'r, 'd) service_state \<Rightarrow> ('n, 'r, 'd) service_state" where
  "replace_owner_remote_pin E from c s =
     (case sv_remote_pin E of
        None \<Rightarrow> s
      | Some service \<Rightarrow> s\<lparr>sx_remote_pins := (sv_remote_pin_name E from, c) # sx_remote_pins s\<rparr>)"

text \<open>The part that talks to the node: the key, the previous record, the document, the new record, the pin.\<close>

definition publish_document ::
  "('n, 'r, 'd) service_env \<Rightarrow> 'd identity_publish \<Rightarrow> 'n \<Rightarrow> 'n \<times> (ipfs_error + string)" where
  "publish_document E v w0 =
     (let N = sv_node E; key_name = sv_key_name E (ip_document v) in
      case ensure_kubo_ipns_key N (sv_to_protobuf E) key_name (ip_ipns v) (ip_secret v) w0 of
        (w1, Inl e) \<Rightarrow> (w1, Inl e)
      | (w1, Inr _) \<Rightarrow>
          (let old = (case resolve_ipns_path N (ip_ipns v) w1 of Inr r \<Rightarrow> r | Inl e \<Rightarrow> None) in
           case dag_put_cbor N (ip_document_bytes v) w1 of
             (w2, Inl e) \<Rightarrow> (w2, Inl e)
           | (w2, Inr c) \<Rightarrow>
               (case name_publish N key_name c w2 of
                  (w3, Inl e) \<Rightarrow> (w3, Inl e) | (w3, Inr _) \<Rightarrow> (move_pin N old c w3, Inr c))))"

definition handle_did_document_publish ::
  "('n, 'r, 'd) service_env \<Rightarrow> local_message \<Rightarrow> 'd identity_publish \<Rightarrow> ('n, 'r, 'd) service_state \<Rightarrow> ('n, 'r, 'd) service_result" where
  "handle_did_document_publish E msg v s0 =
     (case sv_did E (lm_from msg) of
        None \<Rightarrow> (s0, Inl IeSender)
      | Some sender \<Rightarrow>
          (case insert_published (sv_did E) (base_id sender) (ip_document v) (sx_documents s0) of
             (docs, Inl e) \<Rightarrow> (s0\<lparr>sx_documents := docs\<rparr>, Inl IeSender)
           | (docs, Inr _) \<Rightarrow>
               (let s1 = s0\<lparr>sx_documents := docs, sx_outboxes := clear_unreachable (base_id sender) (sx_outboxes s0)\<rparr> in
                case publish_document E v (sx_world s1) of
                  (w, Inl e) \<Rightarrow> (s1\<lparr>sx_world := w\<rparr>, Inl e)
                | (w, Inr c) \<Rightarrow> reply_cid E msg c (replace_owner_remote_pin E (lm_from msg) c (s1\<lparr>sx_world := w\<rparr>)))))"

text \<open>DAG-CBOR goes through the JSON input path and is pinned, anything else is added unpinned.\<close>

definition store_content :: "('n, 'r, 'd) service_env \<Rightarrow> ipfs_store \<Rightarrow> 'n \<Rightarrow> 'n \<times> (ipfs_error + string)" where
  "store_content E v w =
     (if is_content_type v = ''application/vnd.ipld.dag-cbor''
      then (case sv_decode E (is_content v) of
              None \<Rightarrow> (w, Inl IeDecode)
            | Some val \<Rightarrow>
                (case nd_dag_put_json (sv_node E) w val of
                   (w1, None) \<Rightarrow> (w1, Inl IeRequest)
                 | (w1, Some c) \<Rightarrow>
                     (case nd_pin_add (sv_node E) w1 c of (w2, True) \<Rightarrow> (w2, Inr c) | (w2, False) \<Rightarrow> (w2, Inl IePin))))
      else (case nd_add_unpinned (sv_node E) w (is_content v) of
              (w1, None) \<Rightarrow> (w1, Inl IeRequest) | (w1, Some c) \<Rightarrow> (w1, Inr c)))"

definition handle_ipfs_store ::
  "('n, 'r, 'd) service_env \<Rightarrow> local_message \<Rightarrow> ipfs_store \<Rightarrow> ('n, 'r, 'd) service_state \<Rightarrow> ('n, 'r, 'd) service_result" where
  "handle_ipfs_store E msg v s =
     (case store_content E v (sx_world s) of
        (w, Inl e) \<Rightarrow> (s\<lparr>sx_world := w\<rparr>, Inl e) | (w, Inr c) \<Rightarrow> reply_cid E msg c (s\<lparr>sx_world := w\<rparr>))"

definition ipfs_capability :: "('n, 'r, 'd) service_env \<Rightarrow> string \<Rightarrow> string option" where
  "ipfs_capability E msg_type =
     (if msg_type = sv_publish_type E then Some (sv_cap_publish E)
      else if msg_type = sv_store_type E then Some (sv_cap_ipfs E) else None)"

definition handle_validated ::
  "('n, 'r, 'd) service_env \<Rightarrow> local_message \<Rightarrow> ('n, 'r, 'd) service_state \<Rightarrow> ('n, 'r, 'd) service_result" where
  "handle_validated E msg s =
     (if lm_message_type msg = sv_publish_type E
      then (case sv_validate_publish E msg of
              None \<Rightarrow> (s, Inl IeInvalid) | Some v \<Rightarrow> handle_did_document_publish E msg v s)
      else if lm_message_type msg = sv_store_type E
      then (case sv_validate_store E msg of None \<Rightarrow> (s, Inl IeInvalid) | Some v \<Rightarrow> handle_ipfs_store E msg v s)
      else (s, Inl (IeUnsupported (lm_message_type msg))))"

definition handle_ipfs_message ::
  "('n, 'r, 'd) service_env \<Rightarrow> acl_map \<Rightarrow> local_message \<Rightarrow> ('n, 'r, 'd) service_state \<Rightarrow> ('n, 'r, 'd) service_result" where
  "handle_ipfs_message E acl msg s =
     (case ipfs_capability E (lm_message_type msg) of
        None \<Rightarrow> (s, Inl (IeUnsupported (lm_message_type msg)))
      | Some cap \<Rightarrow>
          (case check_full (sv_core E) acl (lm_from msg) [cap] (resolve_in_cache (sv_groups E)) of
             Inl e \<Rightarrow> (s, Inl (IeAcl e))
           | Inr _ \<Rightarrow>
               (case sv_replay E (sx_guard s) msg of
                  (g, False) \<Rightarrow> (s\<lparr>sx_guard := g\<rparr>, Inl IeReplay)
                | (g, True) \<Rightarrow> handle_validated E msg (s\<lparr>sx_guard := g\<rparr>))))"

section \<open>Lemmas\<close>

lemma trimmed_or_idem [simp]: "trim (trimmed_or a b) = trimmed_or a b"
  by (simp add: trimmed_or_def)

lemma list_keys_trimmed:
  assumes "list_keys N w = Inr keys" and "map_of keys name = Some key_id"
  shows "trim key_id = key_id \<and> key_id \<noteq> []"
proof -
  have "(name, key_id) \<in> set keys" using assms(2) by (rule map_of_SomeD)
  with assms(1) show ?thesis by (auto simp: list_keys_def split: option.splits)
qed

lemma strip_repeated_id: "\<not> starts_with p s \<Longrightarrow> strip_repeated n p s = s"
  by (cases n) (auto simp: starts_with_def)

lemma publish_arg_bare:
  assumes "c \<noteq> []" and "hd c \<noteq> CHR ''/''" and "\<not> starts_with ''ipfs/'' c"
  shows "publish_arg c = ''/ipfs/'' @ c"
proof -
  have "trim_start_matches (CHR ''/'') c = c" using assms(1,2) by (cases c) (simp_all add: trim_start_matches_def)
  then show ?thesis by (simp add: publish_arg_def strip_repeated_id[OF assms(3)])
qed

text \<open>
  Documented behaviour of the key store and of IPNS: an imported key is listed under its name with the ID the
  import answered, publishing changes no key, and the ID of a key resolves to what was last published with it.
\<close>

definition ipns_laws :: "'n ipns_node \<Rightarrow> bool" where
  "ipns_laws N \<longleftrightarrow>
     (\<forall>w name key_bytes w' v. trim name = name \<longrightarrow> name \<noteq> [] \<longrightarrow> trimmed_or (fst v) (snd v) \<noteq> [] \<longrightarrow>
        nd_key_import N w name key_bytes = (w', Some v) \<longrightarrow>
        (\<exists>keys. list_keys N w' = Inr keys \<and> map_of keys name = Some (trimmed_or (fst v) (snd v)))) \<and>
     (\<forall>w arg name w' v. nd_name_publish N w arg name = (w', Some v) \<longrightarrow>
        list_keys N w' = list_keys N w \<and>
        (\<forall>keys key_id. list_keys N w' = Inr keys \<longrightarrow> map_of keys name = Some key_id \<longrightarrow>
           nd_name_resolve N w' (''/ipns/'' @ key_id) = Some (arg, [])))"

lemma import_key_listed:
  assumes "ipns_laws N" and "import_key N name key_bytes w = (w', Inr key_id)" and "trim name = name" and "name \<noteq> []"
  shows "\<exists>keys. list_keys N w' = Inr keys \<and> map_of keys name = Some key_id"
proof -
  obtain upper lower where v: "nd_key_import N w name key_bytes = (w', Some (upper, lower))" "key_id = trimmed_or upper lower"
    "key_id \<noteq> []"
    using assms(2) by (auto simp: import_key_def trimmed_or_def Let_def split: prod.splits option.splits if_splits)
  with assms(1,3,4) show ?thesis unfolding ipns_laws_def by (metis fst_conv snd_conv)
qed

lemma ensure_key_listed:
  assumes "ipns_laws N" and "ensure_kubo_ipns_key N enc name expected secret w = (w', Inr u)" and "trim name = name" and "name \<noteq> []"
  shows "\<exists>keys. list_keys N w' = Inr keys \<and> map_of keys name = Some expected"
proof -
  obtain keys where k: "list_keys N w = Inr keys" using assms(2) by (auto simp: ensure_kubo_ipns_key_def split: sum.splits)
  show ?thesis
  proof (cases "map_of keys name")
    case (Some key_id)
    with assms(2) k have "w' = w" "trim key_id = expected"
      by (auto simp: ensure_kubo_ipns_key_def split: if_splits)
    with k Some list_keys_trimmed[OF k Some] show ?thesis by auto
  next
    case None
    then obtain kb imported where i: "import_key N name kb w = (w', Inr imported)" "trim imported = expected"
      using assms(2) k by (auto simp: ensure_kubo_ipns_key_def split: if_splits option.splits prod.splits sum.splits)
    from import_key_listed[OF assms(1) i(1) assms(3,4)] obtain ks where
      ks: "list_keys N w' = Inr ks" "map_of ks name = Some imported" by blast
    with list_keys_trimmed[OF ks] i(2) show ?thesis by auto
  qed
qed

lemma reply_cid_frame:
  "sx_documents (fst (reply_cid E msg c s)) = sx_documents s" "sx_outboxes (fst (reply_cid E msg c s)) = sx_outboxes s"
  "sx_guard (fst (reply_cid E msg c s)) = sx_guard s"
  by (simp_all add: reply_cid_def split: option.split)

lemma remote_pin_frame:
  "sx_documents (replace_owner_remote_pin E from c s) = sx_documents s"
  "sx_outboxes (replace_owner_remote_pin E from c s) = sx_outboxes s"
  "sx_guard (replace_owner_remote_pin E from c s) = sx_guard s"
  by (simp_all add: replace_owner_remote_pin_def split: option.split)

lemma publish_caches:
  assumes "sv_did E (lm_from msg) = Some sender" and "sv_did E (base_id sender) = Some d" and "base_id d = base_id sender"
  shows "map_of (sx_documents (fst (handle_did_document_publish E msg v s))) (base_id sender) = Some (ip_document v)
     \<and> sx_outboxes (fst (handle_did_document_publish E msg v s)) = clear_unreachable (base_id sender) (sx_outboxes s)"
  using assms
  by (auto simp: handle_did_document_publish_def insert_published_def map_of_update reply_cid_frame remote_pin_frame Let_def
      split: prod.split sum.split)

lemma handle_validated_guard: "sx_guard (fst (handle_validated E msg s)) = sx_guard s"
  by (auto simp: handle_validated_def handle_did_document_publish_def handle_ipfs_store_def reply_cid_frame remote_pin_frame Let_def
      split: option.split prod.split sum.split)

lemma handle_validated_changes:
  assumes "fst (handle_validated E msg s) \<noteq> s"
  shows "sv_validate_publish E msg \<noteq> None \<or> sv_validate_store E msg \<noteq> None"
  using assms by (auto simp: handle_validated_def split: if_splits option.splits)

lemma publish_then_resolve:
  assumes "ipns_laws N" and "publish_runtime_root_cid N enc ipns_id_of key_name_of slug key c w = (w', Inr v)"
    and "ipns_id_of key = Some ipns_id" and "name = key_name_of [''runtime'', slug, ''runtime''] ipns_id"
    and "trim name = name" and "name \<noteq> []"
    and "c \<noteq> []" and "hd c \<noteq> CHR ''/''" and "\<not> starts_with ''ipfs/'' c" and "trim (''/ipfs/'' @ c) = ''/ipfs/'' @ c"
  shows "resolve_runtime_root_cid_by_ipns_id N ipns_id w' = Inr (Some c)"
proof -
  obtain w1 where e: "ensure_kubo_ipns_key N enc name ipns_id key w = (w1, Inr ())" "name_publish N name c w1 = (w', Inr v)"
    using assms(2-4) by (auto simp: publish_runtime_root_cid_def Let_def split: prod.splits sum.splits)
  obtain keys where keys: "list_keys N w1 = Inr keys" "map_of keys name = Some ipns_id"
    using ensure_key_listed[OF assms(1) e(1) assms(5,6)] by blast
  obtain v' where p: "nd_name_publish N w1 (publish_arg c) name = (w', Some v')"
    using e(2) by (auto simp: name_publish_def split: prod.splits option.splits)
  have k': "list_keys N w' = Inr keys" and r: "nd_name_resolve N w' (''/ipns/'' @ ipns_id) = Some (publish_arg c, [])"
    using assms(1) p keys unfolding ipns_laws_def by metis+
  have "resolve_ipns_path N ipns_id w' = Inr (Some c)"
    using r assms(7,10) publish_arg_bare[OF assms(7-9)] by (simp add: resolve_ipns_path_def upper_or_lower_def path_cid_def)
  moreover have "find (\<lambda>(n, i). i = ipns_id) keys \<noteq> None"
    using map_of_SomeD[OF keys(2)] by (auto simp: find_None_iff)
  moreover have "snd x = ipns_id" if "find (\<lambda>(n, i). i = ipns_id) keys = Some x" for x
    using that by (auto simp: find_Some_iff)
  ultimately show ?thesis using k' by (auto simp: resolve_runtime_root_cid_by_ipns_id_def split: option.split)
qed

section \<open>A node for the witnesses\<close>

text \<open>It holds one key, whose ID is \<open>k51\<close>, and its record.\<close>

definition one_key_node :: "(string \<times> string) ipns_node" where
  "one_key_node = \<lparr>
     nd_key_list = (\<lambda>(name, path). Some [\<lparr>ke_name = name, ke_name_lower = [], ke_id = ''k51'', ke_id_lower = []\<rparr>]),
     nd_key_import = (\<lambda>(_, path) name kb. ((name, path), Some (''k51'', []))),
     nd_name_publish = (\<lambda>(name, _) arg key. if trim name = key then ((name, arg), Some (arg, [])) else ((name, arg), None)),
     nd_name_resolve = (\<lambda>(_, path) arg. Some (path, [])),
     nd_dag_put_cbor = (\<lambda>w b. (w, None)), nd_dag_put_json = (\<lambda>w v. (w, None)), nd_add_unpinned = (\<lambda>w b. (w, Some ''bafyB'')),
     nd_pin_add = (\<lambda>w c. (w, True)), nd_pin_update = (\<lambda>w o' c. (w, True))\<rparr>"

lemma trim_k51: "trim ''k51'' = ''k51''" by (simp add: trim_visible)

lemma one_key_list: "list_keys one_key_node (name, path) = Inr (if trim name = [] then [] else [(trim name, ''k51'')])"
proof -
  have "trim [] = []" by (simp add: trim_def trim_start_def trim_end_def)
  then show ?thesis by (simp add: list_keys_def one_key_node_def trimmed_or_def trim_k51)
qed

definition sample_service :: "((string \<times> string), string list, string) service_env" where
  "sample_service = \<lparr>sv_node = one_key_node, sv_core = sample_core, sv_groups = [], sv_did = split_did, sv_our_did = ''did:ma:us'',
     sv_replay = (\<lambda>g m. if lm_id m \<in> set g then (g, False) else (lm_id m # g, True)),
     sv_validate_publish = (\<lambda>m. Some \<lparr>ip_document_bytes = [1], ip_secret = [], ip_document = ''new'', ip_ipns = ''k51''\<rparr>),
     sv_validate_store = (\<lambda>m. Some \<lparr>is_content_type = ''text/plain'', is_content = [1]\<rparr>), sv_key_name = (\<lambda>_. ''doc''),
     sv_to_protobuf = Some, sv_decode = (\<lambda>_. None), sv_encode = (\<lambda>_. [2]), sv_remote_pin = None, sv_remote_pin_name = id,
     sv_reply_ok = True, sv_publish_type = ''publish'', sv_store_type = ''store'', sv_cap_publish = ''identity'', sv_cap_ipfs = ''ipfs''\<rparr>"

definition sample_state :: "((string \<times> string), string list, string) service_state" where
  "sample_state = \<lparr>sx_world = ([], []), sx_guard = [], sx_documents = [(''did:ma:bob'', ''newer'')], sx_outboxes = outbox_cache_new 3,
     sx_remote_pins = [], sx_replies = []\<rparr>"

definition service_message :: "string \<Rightarrow> local_message" where
  "service_message kind = \<lparr>lm_id = ''1'', lm_from = ''did:ma:bob'', lm_to = [], lm_created_at = 0, lm_exp = 0, lm_reply_to = None,
     lm_message_type = kind, lm_content_type = [], lm_content = [1]\<rparr>"

lemma bob_did: "split_did ''did:ma:bob'' = Some \<lparr>base_id = ''did:ma:bob'', did_fragment = None\<rparr>"
  by (simp add: split_did_def starts_with_def)

section \<open>Properties\<close>

text \<open>
  C25 (IPFS service). What the runtime publishes as its root is what it resolves at the next start: if publishing a bare CID under
  the runtime's key succeeds, looking the key up by its IPNS ID and resolving it gives that CID.
\<close>

theorem root_publish_resolves:
  assumes "ipns_laws N" and "publish_runtime_root_cid N enc ipns_id_of key_name_of slug key c w = (w', Inr v)"
    and "ipns_id_of key = Some ipns_id" and "name = key_name_of [''runtime'', slug, ''runtime''] ipns_id"
    and "trim name = name" and "name \<noteq> []"
    and "c \<noteq> []" and "hd c \<noteq> CHR ''/''" and "\<not> starts_with ''ipfs/'' c" and "trim (''/ipfs/'' @ c) = ''/ipfs/'' @ c"
  shows "resolve_runtime_root_cid_by_ipns_id N ipns_id w' = Inr (Some c)"
  using assms by (rule publish_then_resolve)

theorem root_publish_resolves_witness:
  "\<exists>w' v. publish_runtime_root_cid one_key_node Some (\<lambda>_. Some ''k51'') (\<lambda>_ _. ''root'') ''ma'' (replicate 32 0) ''bafyR'' ([], [])
       = (w', Inr v)
     \<and> resolve_runtime_root_cid_by_ipns_id one_key_node ''k51'' w' = Inr (Some ''bafyR'')"
proof -
  have t1: "trim ''root'' = ''root''" by (simp add: trim_visible)
  have t2: "trim ''/ipfs/bafyR'' = ''/ipfs/bafyR''" by (simp add: trim_visible)
  have t3: "trim [] = []" by (simp add: trim_def trim_start_def trim_end_def)
  note t = t1 t2 t3
  have a: "publish_arg ''bafyR'' = ''/ipfs/bafyR''" by (subst publish_arg_bare) (simp_all add: starts_with_def)
  have laws: "ipns_laws one_key_node"
    by (auto simp: ipns_laws_def one_key_list) (auto simp: one_key_node_def trimmed_or_def trim_k51 split: if_splits)
  obtain w' v where p: "publish_runtime_root_cid one_key_node Some (\<lambda>_. Some ''k51'') (\<lambda>_ _. ''root'') ''ma'' (replicate 32 0) ''bafyR''
      ([], []) = (w', Inr v)"
    by (simp add: publish_runtime_root_cid_def ensure_kubo_ipns_key_def one_key_list t import_key_def name_publish_def a)
       (simp add: one_key_node_def trim_k51 t upper_or_lower_def)
  from root_publish_resolves[OF laws p refl refl] t have "resolve_runtime_root_cid_by_ipns_id one_key_node ''k51'' w' = Inr (Some ''bafyR'')"
    by (simp add: starts_with_def)
  with p show ?thesis by blast
qed

text \<open>
  C26 (IPFS service). The service acts only for admitted, fresh and valid messages: if anything but the replay guard changes, the
  message's type has a capability, the ACL grants it to the sender, the guard had not seen the message and
  its payload was validated; and a message the ACL refuses does not even enter the guard.
\<close>

theorem ipfs_service_gate:
  assumes "handle_ipfs_message E acl msg s = (s', r)" and "s' \<noteq> s"
  shows "\<exists>cap g fresh. ipfs_capability E (lm_message_type msg) = Some cap
     \<and> check_full (sv_core E) acl (lm_from msg) [cap] (resolve_in_cache (sv_groups E)) = Inr ()
     \<and> sv_replay E (sx_guard s) msg = (g, fresh) \<and> sx_guard s' = g
     \<and> (s'\<lparr>sx_guard := sx_guard s\<rparr> \<noteq> s \<longrightarrow> fresh \<and> (sv_validate_publish E msg \<noteq> None \<or> sv_validate_store E msg \<noteq> None))"
proof -
  obtain cap where cap: "ipfs_capability E (lm_message_type msg) = Some cap"
    "check_full (sv_core E) acl (lm_from msg) [cap] (resolve_in_cache (sv_groups E)) = Inr ()"
    using assms by (auto simp: handle_ipfs_message_def split: option.splits sum.splits)
  obtain g fresh where g: "sv_replay E (sx_guard s) msg = (g, fresh)" by fastforce
  show ?thesis
  proof (cases fresh)
    case True
    then have s': "s' = fst (handle_validated E msg (s\<lparr>sx_guard := g\<rparr>))"
      using assms(1) cap g by (simp add: handle_ipfs_message_def)
    have gd: "sx_guard s' = g" unfolding s' handle_validated_guard by simp
    have "sv_validate_publish E msg \<noteq> None \<or> sv_validate_store E msg \<noteq> None" if "s'\<lparr>sx_guard := sx_guard s\<rparr> \<noteq> s"
    proof (rule handle_validated_changes)
      show "fst (handle_validated E msg (s\<lparr>sx_guard := g\<rparr>)) \<noteq> s\<lparr>sx_guard := g\<rparr>" using that s' by auto
    qed
    with cap g True gd show ?thesis by blast
  next
    case False
    with assms(1) cap g have "s' = s\<lparr>sx_guard := g\<rparr>" by (simp add: handle_ipfs_message_def)
    with cap g show ?thesis by (intro exI[of _ cap] exI[of _ g] exI[of _ fresh]) simp
  qed
qed

theorem ipfs_service_gate_witness:
  "\<exists>s' r. handle_ipfs_message sample_service [(''did:ma:bob'', Allow {''ipfs''})] (service_message ''store'') sample_state = (s', r)
     \<and> sx_replies s' = [(''did:ma:bob'', [2])]
     \<and> check_full sample_core [(''did:ma:bob'', Allow {''ipfs''})] ''did:ma:bob'' [''ipfs''] (resolve_in_cache []) = Inr ()"
proof -
  let ?acl = "[(''did:ma:bob'', Allow {''ipfs''})]"
  obtain s' r where h: "handle_ipfs_message sample_service ?acl (service_message ''store'') sample_state = (s', r)"
    "sx_replies s' = [(''did:ma:bob'', [2])]"
    by (simp add: handle_ipfs_message_def ipfs_capability_def sample_service_def service_message_def sample_state_def check_full_def
        sample_defs handle_validated_def handle_ipfs_store_def store_content_def one_key_node_def reply_cid_def bob_did
        encode_ok_cid_reply_def)
  from h(2) have "s' \<noteq> sample_state" by (auto simp: sample_state_def)
  from ipfs_service_gate[OF h(1) this] h show ?thesis
    by (auto simp: sample_service_def service_message_def ipfs_capability_def)
qed

text \<open>
  A document is used before it is published: once a publish request is admitted, fresh and valid, its document
  is the one cached for the sender and the sender's outboxes are open again, whatever was cached before and however
  old it is, and both stay so when storing or publishing the document then fails.
\<close>

theorem publish_failure_leaves_cache:
  assumes "ipfs_capability E (lm_message_type msg) = Some cap" and "lm_message_type msg = sv_publish_type E"
    and "check_full (sv_core E) acl (lm_from msg) [cap] (resolve_in_cache (sv_groups E)) = Inr ()"
    and "sv_replay E (sx_guard s) msg = (g, True)" and "sv_validate_publish E msg = Some v"
    and "sv_did E (lm_from msg) = Some sender" and "sv_did E (base_id sender) = Some d" and "base_id d = base_id sender"
    and "handle_ipfs_message E acl msg s = (s', r)"
  shows "map_of (sx_documents s') (base_id sender) = Some (ip_document v)
     \<and> unreachable_for now (base_id sender) protocol (sx_outboxes s') = None
     \<and> (\<forall>e w. publish_document E v (sx_world s) = (w, Inl e) \<longrightarrow> r = Inl e \<and> sx_replies s' = sx_replies s)"
proof -
  have h: "(s', r) = handle_did_document_publish E msg v (s\<lparr>sx_guard := g\<rparr>)"
    using assms by (simp add: handle_ipfs_message_def handle_validated_def)
  then have s': "s' = fst (handle_did_document_publish E msg v (s\<lparr>sx_guard := g\<rparr>))" by (metis fst_conv)
  have "r = Inl e \<and> sx_replies s' = sx_replies s" if "publish_document E v (sx_world s) = (w, Inl e)" for w e
    using h that assms(6-8) by (simp add: handle_did_document_publish_def insert_published_def Let_def)
  with publish_caches[OF assms(6-8), of v "s\<lparr>sx_guard := g\<rparr>"] unreachable_after_clear show ?thesis
    unfolding s' by simp
qed

theorem publish_failure_leaves_cache_witness:
  "map_of (sx_documents sample_state) ''did:ma:bob'' = Some ''newer''
   \<and> (\<exists>s' e. handle_ipfs_message sample_service [(''did:ma:bob'', Allow {''identity''})] (service_message ''publish'') sample_state
          = (s', Inl e)
        \<and> map_of (sx_documents s') ''did:ma:bob'' = Some ''new'')"
proof -
  let ?acl = "[(''did:ma:bob'', Allow {''identity''})]"
  let ?v = "\<lparr>ip_document_bytes = [1], ip_secret = [], ip_document = ''new'', ip_ipns = ''k51''\<rparr>"
  obtain s' r where h: "handle_ipfs_message sample_service ?acl (service_message ''publish'') sample_state = (s', r)" by fastforce
  have t: "trim [] = []" by (simp add: trim_def trim_start_def trim_end_def)
  have f: "publish_document sample_service ?v (sx_world sample_state) = (([], []), Inl IeKeyLength)"
    by (simp add: publish_document_def ensure_kubo_ipns_key_def sample_service_def sample_state_def one_key_list t)
  have m: "lm_message_type (service_message k) = k" "lm_from (service_message k) = ''did:ma:bob''" "lm_id (service_message k) = ''1''" for k
    by (simp_all add: service_message_def)
  have "map_of (sx_documents s') ''did:ma:bob'' = Some ''new'' \<and> r = Inl IeKeyLength"
    using publish_failure_leaves_cache[OF _ _ _ _ _ _ _ _ h, of "''identity''" "[''1'']" ?v "\<lparr>base_id = ''did:ma:bob'', did_fragment = None\<rparr>"
        "\<lparr>base_id = ''did:ma:bob'', did_fragment = None\<rparr>"] f
    by (simp add: m sample_service_def ipfs_capability_def sample_state_def check_full_def sample_defs bob_did)
  with h show ?thesis by (simp add: sample_state_def)
qed

end
