(* ===== verification/Settings.thy ===== *)
theory Settings
  imports CrudDispatch Shutdown IpfsService
begin

text \<open>
  The settings a start reads (\<open>src/startup.rs\<close>, and their use in \<open>src/boot.rs\<close>): from the command line, from
  \<open>config.yaml\<close> and from the manifest.  The parsers of CIDs and socket addresses and the file system are
  parameters.  The second half shows what CRUD requests can do to them.
\<close>

section \<open>Reading settings\<close>

datatype start_error =
    SePollMs | SePollZero | SeStatusBind | SeStatusParse string | SeRootCid string | SeKindsCid string
  | SeOverlayBase | SeSetting setting_error | SeManifest cid | SeKinds cid | SeOverlay kind_error | SePut
  | SeIpns ipfs_error | SeKubo | SePassphrase

definition get_u64_setting :: "daemon_config \<Rightarrow> string \<Rightarrow> u64 \<Rightarrow> u64" where
  "get_u64_setting cfg key dflt =
     (case Option.bind (map_of (dc_extra cfg) key) yaml_as_u64 of Some n \<Rightarrow> n | None \<Rightarrow> dflt)"

definition get_bool_setting :: "daemon_config \<Rightarrow> string \<Rightarrow> bool \<Rightarrow> bool" where
  "get_bool_setting cfg key dflt =
     (case Option.bind (map_of (dc_extra cfg) key) yaml_as_bool of Some b \<Rightarrow> b | None \<Rightarrow> dflt)"

definition DEFAULT_POLL_MS :: u64 where "DEFAULT_POLL_MS = 100"

definition DEFAULT_STATUS_BIND :: string where "DEFAULT_STATUS_BIND = ''127.0.0.1:5003''"

definition select_poll_ms :: "u64 option \<Rightarrow> daemon_config \<Rightarrow> start_error + u64" where
  "select_poll_ms cli cfg =
     (let poll_ms = (case cli of
                       Some v \<Rightarrow> Inr v
                     | None \<Rightarrow> (case map_of (dc_extra cfg) ''poll_ms'' of
                                  Some v \<Rightarrow> (case yaml_as_u64 v of Some n \<Rightarrow> Inr n | None \<Rightarrow> Inl SePollMs)
                                | None \<Rightarrow> Inr DEFAULT_POLL_MS))
      in case poll_ms of Inl e \<Rightarrow> Inl e | Inr n \<Rightarrow> if n = 0 then Inl SePollZero else Inr n)"

definition select_status_bind ::
  "(string \<Rightarrow> 'a option) \<Rightarrow> 'a option \<Rightarrow> daemon_config \<Rightarrow> start_error + 'a" where
  "select_status_bind parse_addr cli cfg =
     (case cli of
        Some a \<Rightarrow> Inr a
      | None \<Rightarrow>
          (let bind = (case map_of (dc_extra cfg) ''status_bind'' of
                         Some v \<Rightarrow> (case yaml_as_str v of Some s \<Rightarrow> Inr s | None \<Rightarrow> Inl SeStatusBind)
                       | None \<Rightarrow> Inr DEFAULT_STATUS_BIND)
           in case bind of
                Inl e \<Rightarrow> Inl e
              | Inr s \<Rightarrow> (case parse_addr s of Some a \<Rightarrow> Inr a | None \<Rightarrow> Inl (SeStatusParse s))))"

definition select_root_cid ::
  "(string \<Rightarrow> bool) \<Rightarrow> cid option \<Rightarrow> cid option \<Rightarrow> daemon_config \<Rightarrow> start_error + cid option" where
  "select_root_cid is_cid cli boot cfg =
     (if cli \<noteq> None then Inr cli
      else if boot \<noteq> None then Inr boot
      else (case root_cid_setting cfg of
              None \<Rightarrow> Inr None
            | Some c \<Rightarrow> if is_cid c then Inr (Some c) else Inl (SeRootCid c)))"

definition require_kinds_overlay_base :: "cid option \<Rightarrow> cid option \<Rightarrow> start_error + unit" where
  "require_kinds_overlay_base kinds root = (if kinds \<noteq> None \<and> root = None then Inl SeOverlayBase else Inr ())"

definition should_generate_headless_config :: "(string \<Rightarrow> bool) \<Rightarrow> string option \<Rightarrow> string \<Rightarrow> bool" where
  "should_generate_headless_config exists_path config_path bundle_path =
     (\<not> (case config_path of None \<Rightarrow> False | Some p \<Rightarrow> exists_path p) \<and> \<not> exists_path bundle_path)"

section \<open>The configuration mirrored into the manifest\<close>

definition insert_static_manifest_defaults :: "yaml btree_map \<Rightarrow> yaml btree_map" where
  "insert_static_manifest_defaults out =
     bt_insert ''plugin_envelope_queue_capacity'' (yaml_u64 DEFAULT_PLUGIN_ENVELOPE_QUEUE_CAPACITY)
       (bt_insert ''description'' (YString DEFAULT_RUNTIME_DESCRIPTION)
         (bt_insert ''name'' (YString DEFAULT_RUNTIME_NAME) out))"

definition mirror_u64 :: "daemon_config \<Rightarrow> string \<times> u64 \<Rightarrow> yaml btree_map \<Rightarrow> yaml btree_map" where
  "mirror_u64 cfg = (\<lambda>(key, dflt). bt_insert key (yaml_u64 (get_u64_setting cfg key dflt)))"

definition insert_did_resolver_manifest_settings :: "daemon_config \<Rightarrow> yaml btree_map \<Rightarrow> yaml btree_map" where
  "insert_did_resolver_manifest_settings cfg =
     fold (mirror_u64 cfg)
       [(''did_resolver_positive_ttl_secs'', 60), (''did_resolver_negative_ttl_secs'', 10),
        (''did_resolve_attempts'', 5), (''did_resolve_attempt_timeout_secs'', 60)]"

definition insert_did_publish_manifest_settings :: "daemon_config \<Rightarrow> yaml btree_map \<Rightarrow> yaml btree_map" where
  "insert_did_publish_manifest_settings cfg =
     fold (mirror_u64 cfg)
       [(''wasm_reload_shutdown_timeout_ms'', DEFAULT_WASM_RELOAD_SHUTDOWN_TIMEOUT_MS),
        (''did_document_publishing_interval_secs'', 3600), (''did_publish_cache_warm_secs'', 3600),
        (''did_document_publishing_timeout_secs'', 120), (''did_document_publishing_lifetime_hours'', 8760)]"

definition insert_ipns_publish_manifest_settings :: "daemon_config \<Rightarrow> yaml btree_map \<Rightarrow> yaml btree_map" where
  "insert_ipns_publish_manifest_settings cfg out =
     (let out = mirror_u64 cfg (''ipns_publish_lifetime_hours'', 8760) out;
          out = mirror_u64 cfg (''ipns_publish_timeout_secs'',
                  get_u64_setting cfg ''did_document_publishing_timeout_secs'' 120) out;
          out = bt_insert ''ipns_publish_resolve'' (YBool (get_bool_setting cfg ''ipns_publish_resolve'' False)) out
      in bt_insert ''ipns_publish_allow_offline'' (YBool (get_bool_setting cfg ''ipns_publish_allow_offline'' True)) out)"

definition runtime_manifest_config :: "daemon_config \<Rightarrow> yaml btree_map" where
  "runtime_manifest_config cfg =
     insert_ipns_publish_manifest_settings cfg
       (insert_did_publish_manifest_settings cfg
         (insert_did_resolver_manifest_settings cfg (insert_static_manifest_defaults [])))"

section \<open>The settings of the runtime's identity\<close>

record ipns_publish_settings =
  ps_lifetime_hours :: u64
  ps_allow_offline :: bool
  ps_resolve :: bool
  ps_timeout_secs :: u64

record did_resolve_settings =
  dr_attempts :: u64
  dr_attempt_timeout_secs :: u64

record own_settings =
  os_publish_timeout_secs :: u64
  os_publish_interval_secs :: u64
  os_ipns_publish :: ipns_publish_settings
  os_did_resolve :: did_resolve_settings

definition own_identity_settings :: "daemon_config \<Rightarrow> own_settings" where
  "own_identity_settings cfg =
     (let publish_timeout = get_u64_setting cfg ''did_document_publishing_timeout_secs'' 120;
          publish_lifetime = get_u64_setting cfg ''did_document_publishing_lifetime_hours'' 8760;
          publish_interval = get_u64_setting cfg ''did_document_publishing_interval_secs'' 3600
      in \<lparr>os_publish_timeout_secs = publish_timeout,
          os_publish_interval_secs = publish_interval,
          os_ipns_publish =
            \<lparr>ps_lifetime_hours = get_u64_setting cfg ''ipns_publish_lifetime_hours'' publish_lifetime,
             ps_allow_offline = get_bool_setting cfg ''ipns_publish_allow_offline'' True,
             ps_resolve = get_bool_setting cfg ''ipns_publish_resolve'' False,
             ps_timeout_secs = get_u64_setting cfg ''ipns_publish_timeout_secs'' publish_timeout\<rparr>,
          os_did_resolve =
            \<lparr>dr_attempts = get_u64_setting cfg ''did_resolve_attempts'' 5,
             dr_attempt_timeout_secs = get_u64_setting cfg ''did_resolve_attempt_timeout_secs'' 60\<rparr>\<rparr>)"

section \<open>The capacity of the envelope queue\<close>

text \<open>A failing \<open>pin_update\<close> is only logged.\<close>

definition materialise_plugin_envelope_queue_capacity ::
  "'w kubo \<Rightarrow> cid \<Rightarrow> 'w \<Rightarrow> 'w \<times> (start_error + cid \<times> u64)" where
  "materialise_plugin_envelope_queue_capacity K root w =
     (case dag_get_manifest K w root of
        None \<Rightarrow> (w, Inl (SeManifest root))
      | Some m \<Rightarrow>
          (case plugin_envelope_queue_capacity (map_of (rm_config m) ''plugin_envelope_queue_capacity'') of
             Inl e \<Rightarrow> (w, Inl (SeSetting e))
           | Inr capacity \<Rightarrow>
               if map_of (rm_config m) ''plugin_envelope_queue_capacity'' \<noteq> None then (w, Inr (root, capacity))
               else (case dag_put_manifest K w
                            (m\<lparr>rm_config := bt_insert ''plugin_envelope_queue_capacity'' (yaml_u64 capacity) (rm_config m)\<rparr>) of
                       (w1, None) \<Rightarrow> (w1, Inl SePut)
                     | (w1, Some new_root) \<Rightarrow> (fst (pin_update K w1 root new_root), Inr (new_root, capacity)))))"

named_theorems crud_kept

section \<open>What requests keep of the settings\<close>

text \<open>
  A computation of the CRUD service keeps a predicate when it holds afterwards whatever the result.  The
  predicates of interest speak of the configuration in the manifest the writer stands for, of the daemon
  configuration and of what was saved of it.
\<close>

definition crud_keeps :: "('w \<times> crud_state \<Rightarrow> bool) \<Rightarrow> ('w, 'a) crud \<Rightarrow> bool" where
  "crud_keeps I m = (\<forall>ws. I ws \<longrightarrow> I (fst (m ws)))"

definition settings_inv ::
  "'w crud_env \<Rightarrow> (yaml btree_map \<Rightarrow> bool) \<Rightarrow> (daemon_config \<Rightarrow> bool) \<Rightarrow> 'w \<times> crud_state \<Rightarrow> bool" where
  "settings_inv E P Q ws \<longleftrightarrow>
     state_coherent E ws \<and> (\<exists>m. state_manifest E ws = Some m \<and> P (rm_config m))
     \<and> Q (ct_config (snd ws)) \<and> (\<forall>cfg\<in>set (ct_saved (snd ws)). Q cfg)"

lemma keeps_pure [crud_kept]:
  "crud_keeps I (ret x)" "crud_keeps I (fail e)" "crud_keeps I (gets g)" "crud_keeps I (asks k)"
  by (auto simp: crud_keeps_def crud_monad_defs)

lemma keeps_and_then [crud_kept]:
  "crud_keeps I m \<Longrightarrow> (\<And>x. crud_keeps I (f x)) \<Longrightarrow> crud_keeps I (and_then m f)"
  by (auto simp: crud_keeps_def and_then_def split: prod.splits sum.splits) (metis fst_conv)+

lemma keeps_modify [crud_kept]:
  assumes "\<And>s. ct_writer (f s) = ct_writer s \<and> ct_config (f s) = ct_config s \<and> ct_saved (f s) = ct_saved s"
  shows "crud_keeps (settings_inv E P Q) (modify f)"
  using assms by (simp add: crud_keeps_def modify_def settings_inv_def)

lemma keeps_world:
  assumes "\<And>w s. snd (fst (m (w, s))) = s" and "\<And>w s. kubo_ok (ce_kubo E) \<Longrightarrow> node_keeps (ce_kubo E) w (fst (fst (m (w, s))))"
  shows "crud_keeps (settings_inv E P Q) m"
  unfolding crud_keeps_def
proof (intro allI impI)
  fix ws :: "'a \<times> crud_state"
  assume I: "settings_inv E P Q ws"
  obtain w s where ws: "ws = (w, s)" by fastforce
  obtain w' where m: "fst (m (w, s)) = (w', s)" using assms(1)[of w s] by (metis prod.collapse)
  from I have coh: "coherent (ce_kubo E) (w, ct_writer s)" by (simp add: settings_inv_def ws)
  then have keeps: "node_keeps (ce_kubo E) w w'"
    using assms(2)[of w s] m by (simp add: coherent_def)
  show "settings_inv E P Q (fst (m ws))"
    using I coh keeps_coherent[OF coh keeps] keeps_current[OF keeps, of "ct_writer s" "ct_writer s"]
    by (auto simp: settings_inv_def ws m)
qed

lemma keeps_with_manifest [crud_kept]:
  assumes "\<And>m. P (rm_config m) \<Longrightarrow> P (rm_config (f m))"
  shows "crud_keeps (settings_inv E P Q) (with_manifest_crud E f)"
  unfolding crud_keeps_def
proof (intro allI impI)
  fix ws :: "'a \<times> crud_state"
  assume I: "settings_inv E P Q ws"
  obtain w s where ws: "ws = (w, s)" by fastforce
  from I have coh: "coherent (ce_kubo E) (w, ct_writer s)" by (simp add: settings_inv_def ws)
  obtain w' wr r where m: "mutate (ce_kubo E) (\<lambda>m. Inr (f m)) w (ct_writer s) = (w', wr, r)" by (metis prod_cases3)
  show "settings_inv E P Q (fst (with_manifest_crud E f ws))"
  proof (cases r)
    case (Inl e)
    from mutate_err[OF coh m[unfolded Inl]] show ?thesis
      using I keeps_current[of "ce_kubo E" w w' wr "ct_writer s"]
      by (auto simp: settings_inv_def ws with_manifest_crud_def m Inl)
  next
    case (Inr c)
    from mutate_ok[OF coh m[unfolded Inr]] show ?thesis
      using I assms by (auto simp: settings_inv_def ws with_manifest_crud_def m Inr update_stats_entities_def)
  qed
qed

text \<open>A batch of handlers rests on the write operations below; everything else is pure or a cache update.\<close>

lemma keeps_group_cache [crud_kept]: "crud_keeps (settings_inv E P Q) (group_cache_update E name c)"
  by (auto simp: crud_keeps_def group_cache_update_def settings_inv_def split: option.splits)

lemma keeps_load [crud_kept]:
  "crud_keeps I (load_manifest E)" "crud_keeps I (fetch_entity E c)" "crud_keeps I (fetch_kind E c)"
  "crud_keeps I (load_acl_from_cid E c)"
  by (simp_all add: load_manifest_def fetch_entity_def fetch_kind_def load_acl_from_cid_def keeps_pure)

lemma keeps_snapshot [crud_kept]: "crud_keeps I (runtime_config_snapshot E)"
  unfolding runtime_config_snapshot_def by (intro crud_kept)

lemma keeps_reload_tasks [crud_kept]:
  "crud_keeps (settings_inv E P Q) (spawn_kind_dependency_reloads_for E order updated)"
  unfolding spawn_kind_dependency_reloads_for_def
  by (intro keeps_and_then keeps_load) (auto simp: crud_keeps_def settings_inv_def Let_def)

lemma keeps_schedule_reloads [crud_kept]: "crud_keeps (settings_inv E P Q) (schedule_reloads E order updated)"
  using keeps_snapshot[of "settings_inv E P Q" E] keeps_reload_tasks[of E P Q order updated]
  by (auto simp: crud_keeps_def schedule_reloads_def split: prod.splits sum.splits) (metis fst_conv)+

lemma keeps_if [crud_kept]: "(b \<Longrightarrow> crud_keeps I m) \<Longrightarrow> (\<not> b \<Longrightarrow> crud_keeps I n) \<Longrightarrow> crud_keeps I (if b then m else n)"
  by simp

lemma keeps_option [crud_kept]:
  "(x = None \<Longrightarrow> crud_keeps I m) \<Longrightarrow> (\<And>y. x = Some y \<Longrightarrow> crud_keeps I (f y))
     \<Longrightarrow> crud_keeps I (case x of None \<Rightarrow> m | Some y \<Rightarrow> f y)"
  by (cases x) simp_all

lemma overlay_keeps_config:
  "apply_kinds_tree_overlay fetch overlay m = Inr (m', changed) \<Longrightarrow> rm_config m' = rm_config m"
  by (auto simp: apply_kinds_tree_overlay_def split: sum.splits prod.splits)

lemma keeps_mutate_async:
  assumes "\<And>w m m' v. f w m = Inr (m', v) \<Longrightarrow> P (rm_config m) \<Longrightarrow> P (rm_config m')"
    and "settings_inv E P Q (w, s)" and m: "mutate_async (ce_kubo E) f w (ct_writer s) = (w', wr, r)"
    and s': "ct_writer s' = wr" "ct_config s' = ct_config s" "ct_saved s' = ct_saved s"
  shows "settings_inv E P Q (w', s')"
proof -
  let ?K = "ce_kubo E"
  have coh: "coherent ?K (w, ct_writer s)" and P: "\<exists>m. current ?K (w, ct_writer s) = Some m \<and> P (rm_config m)"
    using assms(2) by (auto simp: settings_inv_def)
  from coh have ok: "kubo_ok ?K" by (simp add: coherent_def)
  obtain s1 c where f: "fetch_or_cached ?K w (ct_writer s) = (s1, c)" by fastforce
  note fc = fetch_or_cached_coherent[OF coh f]
  from P fc(1) obtain m0 where m0: "c = Some m0" "current ?K (w, ct_writer s) = Some m0" "P (rm_config m0)" by auto
  have same: "settings_inv E P Q (w2, s')" if "wr = s1" "node_keeps ?K w w2" for w2
    using that fc m0 assms(2) s' keeps_coherent[OF coh that(2), of s1] keeps_current[OF that(2) fc(2) m0(2)]
    by (auto simp: settings_inv_def)
  show ?thesis
  proof (cases "f w m0")
    case (Inl e)
    then show ?thesis using m f m0 same[of w] by (auto simp: mutate_async_def Let_def)
  next
    case (Inr mv)
    obtain m1 v where mv: "mv = (m1, v)" by fastforce
    obtain w2 s2 pr where p: "publish_manifest_update ?K (mw_cid (ct_writer s)) m1 w s1 = (w2, s2, pr)" by (metis prod_cases3)
    have w2: "w' = w2" "wr = s2" using m f m0 Inr mv p by (auto simp: mutate_async_def Let_def split: sum.splits)
    show ?thesis
    proof (cases pr)
      case (Inl e)
      with publish_err[OF ok p[unfolded Inl]] same w2 show ?thesis by simp
    next
      case (Inr nc)
      from publish_ok[OF ok p[unfolded Inr]] assms(1)[OF \<open>f w m0 = Inr mv\<close>[unfolded mv] m0(3)] w2 s' assms(2)
      show ?thesis by (auto simp: settings_inv_def)
    qed
  qed
qed

lemma keeps_apply_kinds_tree [crud_kept]: "crud_keeps (settings_inv E P Q) (apply_kinds_tree E order raw)"
proof -
  let ?f = "\<lambda>overlay w m. case apply_kinds_tree_overlay (dag_get_kind (ce_kubo E) w) overlay m of
                Inl e \<Rightarrow> Inl ''overlay'' | Inr r \<Rightarrow> Inr r"
  have f: "P (rm_config m) \<Longrightarrow> P (rm_config m')" if "?f overlay w m = Inr (m', v)" for overlay w m m' v
    using that overlay_keeps_config[of _ overlay m m' v] by (simp split: sum.splits)
  have "crud_keeps (settings_inv E P Q) (\<lambda>(w, s).
         case mutate_async (ce_kubo E) (?f overlay) w (ct_writer s) of
           (w', wr, Inl e) \<Rightarrow> ((w', s\<lparr>ct_writer := wr\<rparr>), Inl (CeWriter e))
         | (w', wr, Inr (root, changed)) \<Rightarrow>
             ((w', update_stats_entities (s\<lparr>ct_writer := wr\<rparr>)), Inr changed))" for overlay
    unfolding crud_keeps_def
  proof (intro allI impI, clarify)
    fix w s
    assume I: "settings_inv E P Q (w, s)"
    obtain w' wr r where m: "mutate_async (ce_kubo E) (?f overlay) w (ct_writer s) = (w', wr, r)" by (metis prod_cases3)
    note k = keeps_mutate_async[where f = "?f overlay", OF f I m]
    show "settings_inv E P Q (fst (case mutate_async (ce_kubo E) (?f overlay) w (ct_writer s) of
           (w', wr, Inl e) \<Rightarrow> ((w', s\<lparr>ct_writer := wr\<rparr>), Inl (CeWriter e))
         | (w', wr, Inr (root, changed)) \<Rightarrow>
             ((w', update_stats_entities (s\<lparr>ct_writer := wr\<rparr>)), Inr changed)))"
      unfolding m by (cases r) (auto intro!: k simp: update_stats_entities_def)
  qed
  then show ?thesis unfolding apply_kinds_tree_def by (intro crud_kept)
qed

lemma keeps_publish_node [crud_kept]: "crud_keeps (settings_inv E P Q) (publish_entity_node E name node)"
proof -
  have "crud_keeps (settings_inv E P Q) (\<lambda>(w, s). case dag_put_entity (ce_kubo E) w node of
                  (w', None) \<Rightarrow> ((w', s), Inl CePublish) | (w', Some c) \<Rightarrow> ((w', s), Inr c))"
    by (rule keeps_world) (auto split: prod.splits option.splits dest: kubo_okD(3))
  then show ?thesis unfolding publish_entity_node_def by (intro crud_kept) simp_all
qed

lemma keeps_finish_upsert [crud_kept]: "crud_keeps (settings_inv E P Q) (finish_upsert E name c node)"
  unfolding finish_upsert_def spawn_reload_def by (intro crud_kept) simp_all

lemma keeps_entity_helpers [crud_kept]:
  "crud_keeps I (check_management E from caps)" "crud_keeps I (resolve_if_extends E m raw)"
  "crud_keeps I (resolve_kind_node_for_upsert E kind)" "crud_keeps I (fetch_entity_node E name)"
  unfolding check_management_def resolve_if_extends_def resolve_kind_node_for_upsert_def fetch_entity_node_def
  by (intro crud_kept)+

lemma keeps_write_entity_acl [crud_kept]: "crud_keeps (settings_inv E P Q) (write_entity_acl E name acl)"
  unfolding write_entity_acl_def spawn_reload_def Let_def by (intro crud_kept) simp_all

lemma keeps_stop_entity [crud_kept]: "crud_keeps (settings_inv E P Q) (modify (stop_entity name))"
  by (rule keeps_modify) (simp add: stop_entity_def split: option.splits)

lemma keeps_single_entity [crud_kept]: "crud_keeps (settings_inv E P Q) (handle_single_entity E from name tail args)"
  by (induction E "from" name tail args rule: handle_single_entity.induct)
    (simp_all only: handle_single_entity.simps handle_entity_get_def handle_entity_delete_def
       handle_entity_upsert_def apply_genesis_rule_def, (intro crud_kept; simp)+)

lemma keeps_entity_acl [crud_kept]: "crud_keeps (settings_inv E P Q) (handle_entity_acl_field E name sub tail args)"
  by (induction E name sub tail args rule: handle_entity_acl_field.induct) (simp_all, (intro crud_kept)+)

lemma keeps_entity_field [crud_kept]: "crud_keeps (settings_inv E P Q) (handle_entity_field E name sub tail args)"
  by (cases sub)
    (auto intro!: crud_kept simp: entity_field_get_def split: option.splits cbor.splits)

lemma keeps_entities: "crud_keeps (settings_inv E P Q) (handle_entities_ns E from rest tail args)"
  by (induction E "from" rest tail args rule: handle_entities_ns.induct)
    (simp_all only: handle_entities_ns.simps, (intro crud_kept)+)

lemma keeps_kinds: "crud_keeps (settings_inv E P Q) (handle_kinds_ns E order rest tail args)"
proof -
  have root: "crud_keeps (settings_inv E P Q) (handle_kinds_root E order tail args)"
    by (induction E order tail args rule: handle_kinds_root.induct) (simp_all, (intro crud_kept)+)
  have "crud_keeps (settings_inv E P Q) (handle_kind E order protocol tail args)" for protocol
    by (induction E order protocol tail args rule: handle_kind.induct) (simp_all, (intro crud_kept; simp)+)
  with root show ?thesis by (simp add: handle_kinds_ns_def)
qed

lemma keeps_acls: "crud_keeps (settings_inv E P Q) (handle_root_acls E rest tail args)"
  by (induction E rest tail args rule: handle_root_acls.induct) (simp_all, (intro crud_kept; simp)+)

lemma keeps_acl: "crud_keeps (settings_inv E P Q) (handle_root_acl E tail args)"
  by (induction E tail args rule: handle_root_acl.induct) (simp_all, (intro crud_kept; simp)+)

lemma keeps_grp: "crud_keeps (settings_inv E P Q) (handle_root_grp E rest tail args)"
  by (induction E rest tail args rule: handle_root_grp.induct) (simp_all only: handle_root_grp.simps, (intro crud_kept; simp add: sync_owners_def Let_def)+)

text \<open>A setting is written only after its check, so the rest of the computation may rely on it.\<close>

lemma and_then_assoc: "and_then (and_then m f) g = and_then m (\<lambda>x. and_then (f x) g)"
  by (rule ext) (auto simp: and_then_def split: prod.splits sum.splits)

lemma ret_and_then [simp]: "and_then (ret x) f = f x"
  by (rule ext) (simp add: and_then_def ret_def)

lemma keeps_checked [crud_kept]:
  "(\<And>n. r = Inr n \<Longrightarrow> crud_keeps I (f n)) \<Longrightarrow> crud_keeps I (and_then (lift_setting r) f)"
  by (cases r) (auto simp: lift_setting_def crud_keeps_def crud_monad_defs)

definition manifest_key_checked :: "string \<Rightarrow> yaml \<Rightarrow> bool" where
  "manifest_key_checked key val \<longleftrightarrow>
     key \<in> set MANIFEST_CONFIG_KEYS
     \<and> (key = ''plugin_envelope_queue_capacity'' \<longrightarrow> (\<exists>n. plugin_envelope_queue_capacity (Some val) = Inr n))"

definition daemon_key_checked :: "string \<Rightarrow> yaml \<Rightarrow> bool" where
  "daemon_key_checked key val \<longleftrightarrow>
     key \<in> set DAEMON_CONFIG_KEYS
     \<and> (key = ''did_refresh_interval_secs'' \<longrightarrow> (\<exists>n. did_refresh_interval_secs (Some val) = Inr n))
     \<and> (key = ''outbox_backoff_attempts'' \<longrightarrow> (\<exists>n. outbox_backoff_attempts (Some val) = Inr n))"

text \<open>
  The contract of a predicate on the configuration with the three ways in which requests change it: then
  every message keeps it, of the published manifest, of the configuration in memory and of every file saved.
\<close>

locale config_contract =
  fixes P :: "yaml btree_map \<Rightarrow> bool"
    and Q :: "daemon_config \<Rightarrow> bool"
  assumes P_set: "manifest_key_checked key val \<Longrightarrow> P c \<Longrightarrow> P (bt_insert key val c)"
    and P_remove: "key \<notin> set DAEMON_CONFIG_KEYS \<Longrightarrow> P c \<Longrightarrow> P (bt_remove key c)"
    and Q_write: "daemon_key_checked key val \<Longrightarrow> Q cfg \<Longrightarrow> Q (set_daemon_config_key key val cfg)"
begin

lemma keeps_write_daemon_key:
  "daemon_key_checked key val \<Longrightarrow> crud_keeps (settings_inv E P Q) (write_daemon_key key val)"
  by (auto simp: crud_keeps_def write_daemon_key_def modify_def settings_inv_def Let_def Q_write)

lemma keeps_set_daemon_key:
  assumes "key \<in> set DAEMON_CONFIG_KEYS"
  shows "crud_keeps (settings_inv E P Q) (set_daemon_key key val)"
proof -
  have tail: "crud_keeps (settings_inv E P Q)
      (modify (\<lambda>s. case interval of None \<Rightarrow> s | Some n \<Rightarrow> s\<lparr>ct_refresh := map_option (\<lambda>_. n) (ct_refresh s)\<rparr>))" for interval
    by (rule keeps_modify) (simp split: option.splits)
  have backoff: "crud_keeps (settings_inv E P Q) (modify (\<lambda>s. s\<lparr>ct_backoff := map_option (\<lambda>_. n) (ct_backoff s)\<rparr>))" for n
    by (rule keeps_modify) simp
  consider "key = ''did_refresh_interval_secs''" | "key = ''outbox_backoff_attempts''"
    | "key \<noteq> ''did_refresh_interval_secs''" "key \<noteq> ''outbox_backoff_attempts''" by blast
  then show ?thesis
    by cases (use assms in \<open>simp_all add: set_daemon_key_def and_then_assoc\<close>;
      intro crud_kept keeps_write_daemon_key tail backoff; simp add: daemon_key_checked_def)+
qed

lemma keeps_set_manifest_key: "crud_keeps (settings_inv E P Q) (set_manifest_key E key val)"
proof -
  have lang: "crud_keeps (settings_inv E P Q) (modify (\<lambda>s. if key = ''i18n''
                              then (case val of YString lang \<Rightarrow> s\<lparr>ct_langs := lang # ct_langs s\<rparr> | _ \<Rightarrow> s)
                              else s))"
    by (rule keeps_modify) (simp split: yaml.splits)
  show ?thesis
    unfolding set_manifest_key_def
    by (cases "key = ''plugin_envelope_queue_capacity''"; simp only: if_True if_False refl and_then_assoc ret_and_then)
      (intro crud_kept lang; simp add: P_set manifest_key_checked_def)+
qed

lemma keeps_config: "crud_keeps (settings_inv E P Q) (handle_config_ns E rest tail args)"
proof -
  have "crud_keeps (settings_inv E P Q) (set_ipv6 val)" for val
    unfolding set_ipv6_def by (intro crud_kept keeps_write_daemon_key) (simp add: daemon_key_checked_def DAEMON_CONFIG_KEYS_def)
  then have "crud_keeps (settings_inv E P Q) (handle_config_key_set E key val)" for key val
    unfolding handle_config_key_set_def by (intro keeps_if keeps_set_daemon_key keeps_set_manifest_key)
  moreover have "crud_keeps (settings_inv E P Q) (handle_config_key_get E key)" for key
    unfolding handle_config_key_get_def by (intro crud_kept)
  moreover have "crud_keeps (settings_inv E P Q) (handle_config_key_delete E key)" for key
    unfolding handle_config_key_delete_def by (intro crud_kept) (simp add: P_remove)
  ultimately have "crud_keeps (settings_inv E P Q) (handle_config_key E key tail args)" for key
    by (cases "(E, key, tail, args)" rule: handle_config_key.cases) (simp_all add: keeps_pure)
  moreover have "crud_keeps (settings_inv E P Q) (handle_config_root E tail args)"
    by (cases "(E, tail, args)" rule: handle_config_root.cases) (simp_all, (intro crud_kept)+)
  ultimately show ?thesis
    by (cases "(E, rest, tail, args)" rule: handle_config_ns.cases) (auto intro!: crud_kept)
qed

lemma keeps_message: "crud_keeps (settings_inv E P Q) (handle_crud_message E order acl msg)"
proof -
  have "crud_keeps (settings_inv E P Q) (route_op E order from ns rest tail args)" for "from" ns rest tail args
    unfolding route_op_def
    by (intro keeps_if keeps_entities keeps_kinds keeps_config keeps_acl keeps_acls keeps_grp)
  then have "crud_keeps (settings_inv E P Q) (dispatch_management E order msg)"
    unfolding dispatch_management_def
    by (auto intro!: keeps_if keeps_pure split: sum.splits prod.splits)
  then show ?thesis
    by (auto simp: crud_keeps_def handle_crud_message_def split: sum.splits)
qed

end

definition config_typed :: "yaml btree_map \<Rightarrow> bool" where
  "config_typed c \<longleftrightarrow>
     bt_inv c \<and> (\<exists>n. plugin_envelope_queue_capacity (map_of c ''plugin_envelope_queue_capacity'') = Inr n)"

definition daemon_typed :: "daemon_config \<Rightarrow> bool" where
  "daemon_typed cfg \<longleftrightarrow>
     (\<exists>n. outbox_backoff_attempts (map_of (dc_extra cfg) ''outbox_backoff_attempts'') = Inr n)
     \<and> (\<exists>n. did_refresh_interval_secs (map_of (dc_extra cfg) ''did_refresh_interval_secs'') = Inr n)"

text \<open>Keys of \<open>config.yaml\<close> that are not daemon keys, such as \<open>poll_ms\<close>, \<open>status_bind\<close> and \<open>owners\<close>.\<close>

definition other_keys_as :: "daemon_config \<Rightarrow> daemon_config \<Rightarrow> bool" where
  "other_keys_as cfg0 cfg \<longleftrightarrow> (\<forall>k. k \<notin> set DAEMON_CONFIG_KEYS \<longrightarrow> map_of (dc_extra cfg) k = map_of (dc_extra cfg0) k)"

lemma if_rule: "(b \<Longrightarrow> R m) \<Longrightarrow> (\<not> b \<Longrightarrow> R n) \<Longrightarrow> R (if b then m else n)"
  by simp

lemma option_rule:
  "(x = None \<Longrightarrow> R m) \<Longrightarrow> (\<And>y. x = Some y \<Longrightarrow> R (f y)) \<Longrightarrow> R (case x of None \<Rightarrow> m | Some y \<Rightarrow> f y)"
  by (cases x) simp_all

lemma set_daemon_cases:
  assumes keep: "\<And>c. dc_extra c = dc_extra cfg \<Longrightarrow> R c"
    and put: "\<And>v. (\<forall>n. yaml_as_u64 val = Some n \<longrightarrow> v = yaml_u64 n) \<Longrightarrow> R (put_extra key v cfg)"
  shows "R (set_daemon_config_key key val cfg)"
proof -
  have u64: "R (put_extra key (yaml_u64 n) cfg)" if "yaml_as_u64 val = Some n" for n
    using that by (intro put) simp
  have other: "R (put_extra key v cfg)" if "yaml_as_bool val \<noteq> None \<or> yaml_as_str val \<noteq> None" for v
    using that by (intro put) (cases val; simp)
  show ?thesis
    unfolding set_daemon_config_key_def
    by (intro if_rule[where R = R] option_rule[where R = R]; (rule u64, assumption | rule other, simp; fail | rule keep, simp; fail))
qed

interpretation typed: config_contract config_typed daemon_typed
proof
  fix key val and c :: "yaml btree_map"
  assume "manifest_key_checked key val" "config_typed c"
  then show "config_typed (bt_insert key val c)"
    by (auto simp: config_typed_def manifest_key_checked_def bt.ins_inv map_of_bt_insert)
next
  fix key and c :: "yaml btree_map"
  assume "config_typed c"
  then show "config_typed (bt_remove key c)"
    by (auto simp: config_typed_def bt.del_inv bt.get_del plugin_envelope_queue_capacity_def positive_setting_def)
next
  fix key val and cfg :: daemon_config
  assume prems: "daemon_key_checked key val" "daemon_typed cfg"
  show "daemon_typed (set_daemon_config_key key val cfg)"
  proof (rule set_daemon_cases)
    fix v assume "\<forall>n. yaml_as_u64 val = Some n \<longrightarrow> v = yaml_u64 n"
    then have same: "outbox_backoff_attempts (Some val) = Inr n \<Longrightarrow> outbox_backoff_attempts (Some v) = Inr n"
      "did_refresh_interval_secs (Some val) = Inr n \<Longrightarrow> did_refresh_interval_secs (Some v) = Inr n" for n
      by (auto simp: outbox_backoff_attempts_def positive_setting_def did_refresh_interval_secs_def split: option.splits if_splits)
    from prems same show "daemon_typed (put_extra key v cfg)"
      by (cases "key = ''did_refresh_interval_secs''"; cases "key = ''outbox_backoff_attempts''")
         (auto simp: daemon_typed_def daemon_key_checked_def put_extra_lookup)
  qed (use prems in \<open>simp add: daemon_typed_def\<close>)
qed

interpretation untouched: config_contract "\<lambda>_. True" "other_keys_as cfg0"
proof
  fix key val cfg
  assume "daemon_key_checked key val" "other_keys_as cfg0 cfg"
  note prems = this
  show "other_keys_as cfg0 (set_daemon_config_key key val cfg)"
    by (rule set_daemon_cases) (use prems in \<open>auto simp: other_keys_as_def daemon_key_checked_def put_extra_lookup\<close>)
qed simp_all

type_synonym request = "(string set \<Rightarrow> string list) \<times> acl_map \<times> crud_message"

definition serve :: "'w crud_env \<Rightarrow> request list \<Rightarrow> 'w \<times> crud_state \<Rightarrow> 'w \<times> crud_state" where
  "serve E = fold (\<lambda>(order, acl, msg) ws. fst (handle_crud_message E order acl msg ws))"

context config_contract
begin

lemma serve_keeps: "settings_inv E P Q ws \<Longrightarrow> settings_inv E P Q (serve E reqs ws)"
proof (induction reqs arbitrary: ws)
  case (Cons r reqs)
  obtain order acl msg where r: "r = (order, acl, msg)" using prod_cases3 by blast
  have "settings_inv E P Q (fst (handle_crud_message E order acl msg ws))"
    using keeps_message Cons.prems unfolding crud_keeps_def by blast
  from Cons.IH[OF this] show ?case by (simp add: serve_def r)
qed (simp add: serve_def)

end

lemma materialise_typed:
  assumes "dag_get_manifest K w root = Some m" and "config_typed (rm_config m)"
  shows "snd (materialise_plugin_envelope_queue_capacity K root w) \<in> insert (Inl SePut) (range Inr)"
  using assms
  by (auto simp: materialise_plugin_envelope_queue_capacity_def config_typed_def split: prod.splits option.splits sum.splits)

lemma yaml_u64_inject: "yaml_u64 a = yaml_u64 b \<longleftrightarrow> a = b"
  by (metis yaml_u64_roundtrip option.inject)

lemmas mirror_defs = runtime_manifest_config_def insert_ipns_publish_manifest_settings_def
  insert_did_publish_manifest_settings_def insert_did_resolver_manifest_settings_def
  insert_static_manifest_defaults_def mirror_u64_def Let_def

lemma mirror_inv: "bt_inv (runtime_manifest_config cfg)"
  by (simp only: mirror_defs fold.simps o_def id_def prod.case) (intro bt_insert_inv bt_inv_Nil)

lemma mirror_lookup:
  fixes cfg
  defines "m \<equiv> map_of (runtime_manifest_config cfg)"
  shows "m ''did_document_publishing_timeout_secs'' = Some (yaml_u64 (get_u64_setting cfg ''did_document_publishing_timeout_secs'' 120))"
    and "m ''did_document_publishing_interval_secs'' = Some (yaml_u64 (get_u64_setting cfg ''did_document_publishing_interval_secs'' 3600))"
    and "m ''ipns_publish_timeout_secs'' = Some (yaml_u64 (get_u64_setting cfg ''ipns_publish_timeout_secs''
           (get_u64_setting cfg ''did_document_publishing_timeout_secs'' 120)))"
    and "m ''ipns_publish_allow_offline'' = Some (YBool (get_bool_setting cfg ''ipns_publish_allow_offline'' True))"
    and "m ''ipns_publish_resolve'' = Some (YBool (get_bool_setting cfg ''ipns_publish_resolve'' False))"
    and "m ''did_resolve_attempts'' = Some (yaml_u64 (get_u64_setting cfg ''did_resolve_attempts'' 5))"
    and "m ''did_resolve_attempt_timeout_secs'' = Some (yaml_u64 (get_u64_setting cfg ''did_resolve_attempt_timeout_secs'' 60))"
    and "m ''ipns_publish_lifetime_hours'' = Some (yaml_u64 (get_u64_setting cfg ''ipns_publish_lifetime_hours'' 8760))"
    and "m ''plugin_envelope_queue_capacity'' = Some (yaml_u64 DEFAULT_PLUGIN_ENVELOPE_QUEUE_CAPACITY)"
  by (simp_all only: m_def mirror_defs fold.simps o_def id_def prod.case map_of_bt_insert list.inject char.inject
      simp_thms if_True if_False list.distinct)

lemma selected_as_before:
  assumes "other_keys_as cfg0 cfg"
  shows "select_poll_ms cli cfg = select_poll_ms cli cfg0"
    and "select_status_bind parse_addr cli' cfg = select_status_bind parse_addr cli' cfg0"
proof -
  have "map_of (dc_extra cfg) ''poll_ms'' = map_of (dc_extra cfg0) ''poll_ms''"
    "map_of (dc_extra cfg) ''status_bind'' = map_of (dc_extra cfg0) ''status_bind''"
    using assms by (simp_all add: other_keys_as_def DAEMON_CONFIG_KEYS_def)
  then show "select_poll_ms cli cfg = select_poll_ms cli cfg0"
    and "select_status_bind parse_addr cli' cfg = select_status_bind parse_addr cli' cfg0"
    by (simp_all only: select_poll_ms_def select_status_bind_def)
qed

section \<open>Properties\<close>

text \<open>
  C29 (settings). The settings that are validated at start keep their types whatever requests are served: after any
  sequence of CRUD messages from any senders, the configuration in memory and every saved one
  hold a valid number of outbox attempts and refresh interval, the poll interval and the status
  address are selected as before, and the queue capacity of the published manifest is valid, so that the
  next start cannot fail over one of them.
\<close>

theorem requests_keep_settings_typed:
  assumes "state_coherent E ws" and "state_manifest E ws = Some m" and "config_typed (rm_config m)"
    and "daemon_typed (ct_config (snd ws))" and "ct_saved (snd ws) = []" and "serve E reqs ws = (w', s')"
  shows "(\<forall>cfg\<in>insert (ct_config s') (set (ct_saved s')).
            (\<exists>n. outbox_backoff_attempts (map_of (dc_extra cfg) ''outbox_backoff_attempts'') = Inr n)
          \<and> (\<exists>n. did_refresh_interval_secs (map_of (dc_extra cfg) ''did_refresh_interval_secs'') = Inr n)
          \<and> select_poll_ms cli cfg = select_poll_ms cli (ct_config (snd ws))
          \<and> select_status_bind parse_addr cli' cfg = select_status_bind parse_addr cli' (ct_config (snd ws)))
     \<and> (\<forall>root. mw_root_cid (ct_writer s') = Some root \<longrightarrow>
          snd (materialise_plugin_envelope_queue_capacity (ce_kubo E) root w') \<in> insert (Inl SePut) (range Inr))"
proof -
  let ?cfg0 = "ct_config (snd ws)"
  have "settings_inv E config_typed daemon_typed ws" "settings_inv E (\<lambda>_. True) (other_keys_as ?cfg0) ws"
    using assms by (auto simp: settings_inv_def other_keys_as_def)
  then have T: "settings_inv E config_typed daemon_typed (w', s')"
    and U: "settings_inv E (\<lambda>_. True) (other_keys_as ?cfg0) (w', s')"
    using typed.serve_keeps untouched.serve_keeps assms(6) by metis+
  have same: "select_poll_ms cli cfg = select_poll_ms cli ?cfg0
      \<and> select_status_bind parse_addr cli' cfg = select_status_bind parse_addr cli' ?cfg0"
    if "other_keys_as ?cfg0 cfg" for cfg
    using selected_as_before[OF that] by simp
  from T obtain m' where m': "dag_get_manifest (ce_kubo E) w' (mw_cid (ct_writer s')) = Some m'"
    "config_typed (rm_config m')" "mw_root_cid (ct_writer s') = Some (mw_cid (ct_writer s'))"
    by (auto simp: settings_inv_def current_def coherent_def)
  show ?thesis
    using T U same materialise_typed[OF m'(1,2)] m'(3) by (auto simp: settings_inv_def daemon_typed_def)
qed

definition greedy_setting :: crud_message where
  "greedy_setting = \<lparr>cm_from = ''did:ma:alice'', cm_type = MESSAGE_TYPE_CRUD, cm_payload = [7]\<rparr>"

definition typed_env :: "doc list crud_env" where
  "typed_env = sample_env\<lparr>ce_decode := (\<lambda>b. if b = [7] then Some (CArray [CText ''/config/outbox_backoff_attempts'', CInteger 0])
     else if b = [8] then Some (CArray [CText ''/config/root_cid'', CText ''nowhere'']) else None)\<rparr>"

lemma typed_env_kubo [simp]: "ce_kubo typed_env = mem_kubo"
  by (simp add: typed_env_def)

lemma typed_env_manifest:
  "state_coherent typed_env (sample_docs, sample_crud)"
  "state_manifest typed_env (sample_docs, sample_crud) = Some empty_manifest"
  "config_typed (rm_config empty_manifest)" "daemon_typed (ct_config sample_crud)" "ct_saved sample_crud = []"
proof -
  show "state_coherent typed_env (sample_docs, sample_crud)" using sample_crud_coherent by simp
  show "state_manifest typed_env (sample_docs, sample_crud) = Some empty_manifest"
    by (simp add: current_def sample_crud_def sample_docs_def sample_writer_def writer_new_def)
  show "config_typed (rm_config empty_manifest)"
    by (simp add: config_typed_def empty_manifest_def plugin_envelope_queue_capacity_def positive_setting_def)
  show "daemon_typed (ct_config sample_crud)"
    by (simp add: daemon_typed_def sample_crud_def sample_config_def outbox_backoff_attempts_def positive_setting_def
        did_refresh_interval_secs_def)
qed (simp add: sample_crud_def)

theorem requests_keep_settings_typed_witness:
  "\<exists>n. outbox_backoff_attempts
     (map_of (dc_extra (ct_config (snd (serve typed_env [(sorted_list_of_set, [], greedy_setting)] (sample_docs, sample_crud)))))
        ''outbox_backoff_attempts'') = Inr n"
proof -
  let ?ws' = "serve typed_env [(sorted_list_of_set, [], greedy_setting)] (sample_docs, sample_crud)"
  have "serve typed_env [(sorted_list_of_set, [], greedy_setting)] (sample_docs, sample_crud) = (fst ?ws', snd ?ws')" by simp
  from requests_keep_settings_typed[OF typed_env_manifest(1-3) _ _ this, THEN conjunct1, THEN bspec[OF _ insertI1], THEN conjunct1]
  show ?thesis using typed_env_manifest(4,5) by simp
qed

text \<open>
  One daemon setting is not validated: whoever passes the gate of the CRUD service can set \<open>root_cid\<close> to a
  text that is no CID; the request succeeds and is saved, and a start from that file refuses to
  select a root and fails, unless the command line gives one or a head was saved in between.
\<close>

theorem root_cid_request_stops_start:
  assumes "crud_gate (ce_core E) (ct_owners s) acl (ct_group_cache s) (cm_from msg) = Inr ()"
    and "cm_type msg = MESSAGE_TYPE_CRUD" and "cm_payload msg \<noteq> []"
    and "ce_decode E (cm_payload msg) = Some (CArray [CText ''/config/root_cid'', CText bad])"
    and "trim bad \<noteq> []" and "\<not> is_cid (trim bad)" and "is_cid c" and "trim c = c" and "c \<noteq> []"
  shows "\<exists>s' cfg. handle_crud_message E order acl msg (w, s) = ((w, s'), Inr ROk)
     \<and> ct_saved s' = cfg # ct_saved s \<and> ct_config s' = cfg
     \<and> select_root_cid is_cid None None cfg = Inl (SeRootCid (trim bad))
     \<and> select_root_cid is_cid None None (ct_config (persist_root_cid c s')) = Inr (Some c)"
proof -
  let ?cfg = "put_extra ''root_cid'' (YString bad) (ct_config s)"
  let ?s' = "s\<lparr>ct_config := ?cfg, ct_saved := ?cfg # ct_saved s\<rparr>"
  have bad: "bad \<noteq> []" using assms(5) by (auto simp: trim_def trim_start_def trim_end_def)
  have val: "cbor_to_yaml f (CText bad) = YString bad" for f by simp
  have key: "set_daemon_config_key ''root_cid'' (YString bad) cfg = put_extra ''root_cid'' (YString bad) cfg" for cfg
    by (simp add: set_daemon_config_key_def)
  have run: "handle_config_ns E [''root_cid''] (Some []) [CText bad] (w, s) = ((w, ?s'), Inr ROk)"
    by (simp add: is_protected_config_key_def PROTECTED_CONFIG_KEYS_def starts_with_def handle_config_key_set_def
        DAEMON_CONFIG_KEYS_def set_daemon_key_def write_daemon_key_def key crud_monad_defs Let_def)
  then have msg: "handle_crud_message E order acl msg (w, s) = ((w, ?s'), Inr ROk)"
    using assms(1-4) bad
    by (simp add: handle_crud_message_def dispatch_management_def decode_crud_payload_def parse_path_def route_op_def
        del: handle_config_ns.simps)
  have get: "root_cid_setting (cfg\<lparr>dc_extra := AList.update ''root_cid'' (YString v) ex\<rparr>) = (if trim v = [] then None else Some (trim v))"
    for cfg v ex by (simp add: root_cid_setting_def map_of_update)
  have "select_root_cid is_cid None None (ct_config (persist_root_cid c ?s')) = Inr (Some c)"
    using assms(6-9) by (auto simp: persist_root_cid_def select_root_cid_def get put_extra_def Let_def)
  with msg get assms(5,6) show ?thesis
    by (intro exI[of _ ?s'] exI[of _ ?cfg]) (simp add: select_root_cid_def put_extra_def)
qed

theorem root_cid_request_stops_start_witness:
  "\<exists>s' cfg. handle_crud_message typed_env (\<lambda>_. []) [] (greedy_setting\<lparr>cm_payload := [8]\<rparr>) ([], sample_crud) = (([], s'), Inr ROk)
     \<and> ct_saved s' = [cfg] \<and> select_root_cid (\<lambda>c. c = ''bafyroot'') None None cfg = Inl (SeRootCid ''nowhere'')"
proof -
  have gate: "crud_gate (ce_core typed_env) (ct_owners sample_crud) [] (ct_group_cache sample_crud)
      (cm_from (greedy_setting\<lparr>cm_payload := [8]\<rparr>)) = Inr ()"
    by (simp add: crud_gate_def is_owner_def sample_defs sample_crud_def greedy_setting_def typed_env_def)
  have trim: "trim ''nowhere'' = ''nowhere''" and trim': "trim ''bafyroot'' = ''bafyroot''" by (simp_all add: trim_visible)
  have req: "cm_type (greedy_setting\<lparr>cm_payload := [8]\<rparr>) = MESSAGE_TYPE_CRUD" "cm_payload (greedy_setting\<lparr>cm_payload := [8]\<rparr>) \<noteq> []"
    "ce_decode typed_env (cm_payload (greedy_setting\<lparr>cm_payload := [8]\<rparr>)) = Some (CArray [CText ''/config/root_cid'', CText ''nowhere''])"
    by (simp_all add: greedy_setting_def typed_env_def)
  have cid: "trim ''nowhere'' \<noteq> []" "\<not> trim ''nowhere'' = ''bafyroot''" "''bafyroot'' = ''bafyroot''" "''bafyroot'' \<noteq> []"
    using trim by simp_all
  from root_cid_request_stops_start[OF gate req, where is_cid = "\<lambda>c. c = ''bafyroot''", OF cid(1-3) trim' cid(4), of "\<lambda>_. []" "[]"]
  show ?thesis unfolding trim typed_env_manifest(5) by blast
qed

text \<open>
  The configuration a bootstrap mirrors into the manifest is what the runtime itself runs with, whatever
  \<open>config.yaml\<close> says: timeouts, intervals, publishing flags and resolution limits agree, every
  value has its type.  The only exception is the lifetime of IPNS records: without a value of its own it follows the
  lifetime of DID documents in the runtime, and is 8760 hours in the manifest.
\<close>

theorem mirrored_settings_spec:
  "let m = map_of (runtime_manifest_config cfg); os = own_identity_settings cfg in
     m ''did_document_publishing_timeout_secs'' = Some (yaml_u64 (os_publish_timeout_secs os))
   \<and> m ''did_document_publishing_interval_secs'' = Some (yaml_u64 (os_publish_interval_secs os))
   \<and> m ''ipns_publish_timeout_secs'' = Some (yaml_u64 (ps_timeout_secs (os_ipns_publish os)))
   \<and> m ''ipns_publish_allow_offline'' = Some (YBool (ps_allow_offline (os_ipns_publish os)))
   \<and> m ''ipns_publish_resolve'' = Some (YBool (ps_resolve (os_ipns_publish os)))
   \<and> m ''did_resolve_attempts'' = Some (yaml_u64 (dr_attempts (os_did_resolve os)))
   \<and> m ''did_resolve_attempt_timeout_secs'' = Some (yaml_u64 (dr_attempt_timeout_secs (os_did_resolve os)))
   \<and> (m ''ipns_publish_lifetime_hours'' = Some (yaml_u64 (ps_lifetime_hours (os_ipns_publish os)))
        \<longleftrightarrow> Option.bind (map_of (dc_extra cfg) ''ipns_publish_lifetime_hours'') yaml_as_u64 \<noteq> None
            \<or> get_u64_setting cfg ''did_document_publishing_lifetime_hours'' 8760 = 8760)
   \<and> config_typed (runtime_manifest_config cfg)"
proof -
  have get: "get_u64_setting cfg k a = get_u64_setting cfg k b
      \<longleftrightarrow> a = b \<or> Option.bind (map_of (dc_extra cfg) k) yaml_as_u64 \<noteq> None" for k a b
    by (auto simp: get_u64_setting_def split: option.splits)
  have "yaml_u64 (get_u64_setting cfg ''ipns_publish_lifetime_hours'' 8760)
        = yaml_u64 (get_u64_setting cfg ''ipns_publish_lifetime_hours''
            (get_u64_setting cfg ''did_document_publishing_lifetime_hours'' 8760))
     \<longleftrightarrow> Option.bind (map_of (dc_extra cfg) ''ipns_publish_lifetime_hours'') yaml_as_u64 \<noteq> None
         \<or> get_u64_setting cfg ''did_document_publishing_lifetime_hours'' 8760 = 8760"
    by (simp only: yaml_u64_inject get[of "''ipns_publish_lifetime_hours''"]) metis
  moreover have "config_typed (runtime_manifest_config cfg)"
    using mirror_inv[of cfg] mirror_lookup(9)[of cfg]
    by (simp add: config_typed_def plugin_envelope_queue_capacity_def positive_setting_def DEFAULT_PLUGIN_ENVELOPE_QUEUE_CAPACITY_def)
  ultimately show ?thesis
    by (simp only: Let_def own_identity_settings_def own_settings.simps ipns_publish_settings.simps did_resolve_settings.simps
        mirror_lookup option.inject simp_thms)
qed

end
