(* ===== verification/Loading.thy ===== *)
theory Loading
  imports Shutdown CrudConfig
begin

text \<open>
  Loading the entities of a manifest at startup (\<open>load_entities\<close> and its helpers in \<open>src/bootstrap.rs\<close>): the kind registry,
  the plugin of every entity, and the entity documents rewritten once an entity has run its first start.  Wasm
  plugins are loaded by \<open>Worker.load\<close>, native ones by \<open>Worker.new_native\<close>.
\<close>

section \<open>State and environment\<close>

datatype ('g, 'a) plugin = WasmPlugin entity_handle "'g worker" | NativePlugin entity_handle 'a

record ('g, 'a, 'w) boot_state =
  bs_shared :: "'w host_shared"
  bs_plugins :: "('g, 'a) plugin hash_map"
  bs_kinds :: "kind_node hash_map"

text \<open>
  \<open>be_in_time\<close> says whether a load ends before its timeout, \<open>be_sleep\<close> what the rest of the system does to the
  shared state during a backoff delay, \<open>be_delivery\<close> and \<open>be_marked\<close> whether a fresh worker answers and takes the message
  that its state was saved.
\<close>

record ('g, 'a, 'w) boot_env =
  be_host :: "'w host_env"
  be_guest :: "'g guest"
  be_decode :: "bytes \<Rightarrow> cbor option"
  be_encode :: "local_message \<Rightarrow> bytes option"
  be_build :: "bytes \<Rightarrow> bool \<Rightarrow> string btree_map \<Rightarrow> string list \<Rightarrow> 'g option"
  be_in_time :: "string \<Rightarrow> 'w host_shared \<Rightarrow> bool"
  be_sleep :: "nat \<Rightarrow> 'w host_shared \<Rightarrow> 'w host_shared"
  be_delivery :: "string \<Rightarrow> delivery"
  be_marked :: "string \<Rightarrow> bool"
  be_factories :: "('a native_actor \<times> 'a) hash_map"
  be_node_id :: string
  be_started_at :: u64
  be_fmt :: yaml_fmt
  be_config :: daemon_config

abbreviation be_kubo :: "('g, 'a, 'w) boot_env \<Rightarrow> 'w kubo" where
  "be_kubo E \<equiv> he_kubo (be_host E)"

abbreviation boot_world :: "('g, 'a, 'w) boot_state \<Rightarrow> 'w" where
  "boot_world s \<equiv> hs_world (bs_shared s)"

definition put_boot_world :: "'w \<Rightarrow> ('g, 'a, 'w) boot_state \<Rightarrow> ('g, 'a, 'w) boot_state" where
  "put_boot_world w s = s\<lparr>bs_shared := (bs_shared s)\<lparr>hs_world := w\<rparr>\<rparr>"

section \<open>Kinds\<close>

definition resolve_raw_kind :: "'w kubo \<Rightarrow> 'w \<Rightarrow> runtime_manifest \<Rightarrow> kind_node \<Rightarrow> kind_node option" where
  "resolve_raw_kind K w m raw =
     (if kn_extends raw \<noteq> None
      then (case resolve_kind_extends (dag_get_kind K w) (rm_kinds m) raw of Inl e \<Rightarrow> None | Inr k \<Rightarrow> Some k)
      else Some raw)"

fun hydrate_loop ::
  "'w kubo \<Rightarrow> 'w \<Rightarrow> runtime_manifest \<Rightarrow> (string \<times> ipld_link) list \<Rightarrow> kind_node hash_map \<times> nat \<Rightarrow> kind_node hash_map \<times> nat" where
  "hydrate_loop K w m [] r = r"
| "hydrate_loop K w m ((protocol, link) # ls) (reg, loaded) =
     (case Option.bind (dag_get_kind K w link) (resolve_raw_kind K w m) of
        None \<Rightarrow> hydrate_loop K w m ls (reg, loaded)
      | Some k \<Rightarrow> hydrate_loop K w m ls (AList.update protocol k reg, loaded + 1))"

definition hydrate_kind_registry ::
  "'w kubo \<Rightarrow> 'w \<Rightarrow> runtime_manifest \<Rightarrow> kind_node hash_map \<Rightarrow> kind_node hash_map \<times> nat" where
  "hydrate_kind_registry K w m reg = hydrate_loop K w m (iter_protocols (rm_kinds m)) (reg, 0)"

definition load_entity_and_kind ::
  "'w kubo \<Rightarrow> 'w \<Rightarrow> runtime_manifest \<Rightarrow> ipld_link \<Rightarrow> (entity_node \<times> kind_node) option" where
  "load_entity_and_kind K w m link =
     (case dag_get_entity K w link of
        None \<Rightarrow> None
      | Some node \<Rightarrow>
          (case get_protocol (rm_kinds m) (en_kind node) of
             None \<Rightarrow> None
           | Some kind_link \<Rightarrow>
               (case dag_get_kind K w kind_link of
                  None \<Rightarrow> None
                | Some raw \<Rightarrow> (case resolve_raw_kind K w m raw of None \<Rightarrow> None | Some k \<Rightarrow> Some (node, k)))))"

section \<open>One entity\<close>

definition persist_initialised_transition ::
  "'w kubo \<Rightarrow> entity_node \<Rightarrow> entity_node \<Rightarrow> lifecycle \<Rightarrow> 'w \<Rightarrow> 'w \<times> ipld_link option" where
  "persist_initialised_transition K old node lc w =
     (if lc \<noteq> Running then (w, None)
      else (let state_changed = (en_state old \<noteq> en_state node);
                initialised_changed = (\<not> en_initialised old);
                updated = (if initialised_changed then node\<lparr>en_initialised := True\<rparr> else node)
            in if \<not> initialised_changed \<and> \<not> state_changed then (w, None) else dag_put_entity K w updated))"

definition register_plugin :: "string \<Rightarrow> ('g, 'a) plugin \<Rightarrow> ('g, 'a, 'w) boot_state \<Rightarrow> ('g, 'a, 'w) boot_state" where
  "register_plugin name p s =
     (let ps = AList.update name p (bs_plugins s)
      in s\<lparr>bs_plugins := ps, bs_shared := (bs_shared s)\<lparr>hs_registry := map fst ps\<rparr>\<rparr>)"

definition saved_node :: "entity_node \<Rightarrow> save_error + cid option \<Rightarrow> entity_node" where
  "saved_node node r = (case r of Inr (Some c) \<Rightarrow> node\<lparr>en_state := Some c\<rparr> | _ \<Rightarrow> node)"

text \<open>
  The second component of the result: \<open>None\<close> when the entity was not loaded, otherwise the link of
  its rewritten document, if there is one.
\<close>

definition finish_loading ::
  "('g, 'a, 'w) boot_env \<Rightarrow> string \<Rightarrow> entity_node \<Rightarrow> save_error + cid option \<Rightarrow> lifecycle \<Rightarrow> ('g, 'a) plugin \<Rightarrow> ('g, 'a, 'w) boot_state
     \<Rightarrow> ('g, 'a, 'w) boot_state \<times> ipld_link option option" where
  "finish_loading E name node r lc p s =
     (case persist_initialised_transition (be_kubo E) node (saved_node node r) lc (boot_world s) of
        (w, link) \<Rightarrow> (register_plugin name p (put_boot_world w s), Some link))"

definition wasm_host :: "('g, 'a, 'w) boot_env \<Rightarrow> load_args \<Rightarrow> 'w host_env" where
  "wasm_host E a = (be_host E)\<lparr>he_fragment := la_fragment a, he_allowed := kn_host_functions (la_kind a)\<rparr>"

definition load_once ::
  "('g, 'a, 'w) boot_env \<Rightarrow> load_args \<Rightarrow> 'w host_shared \<Rightarrow> 'w host_shared \<times> (load_error + entity_handle \<times> 'g worker \<times> lifecycle)" where
  "load_once E a sh = load (be_host E) (be_guest E) (be_decode E) (be_build E) (be_in_time E (la_fragment a) sh) a sh"

definition load_wasm_entity ::
  "('g, 'a, 'w) boot_env \<Rightarrow> load_args \<Rightarrow> ('g, 'a, 'w) boot_state \<Rightarrow> ('g, 'a, 'w) boot_state \<times> ipld_link option option" where
  "load_wasm_entity E a s =
     (case load_with_fibonacci_backoff (load_once E a) (be_sleep E) (bs_shared s) of
        (sh, Inl e) \<Rightarrow> (s\<lparr>bs_shared := sh\<rparr>, None)
      | (sh, Inr (eh, wk, lc)) \<Rightarrow>
          (case trigger_save (worker_step (wasm_host E a) (be_guest E) (be_encode E)) worker_world put_worker_world (be_kubo E)
                  (be_delivery E (la_fragment a)) (be_marked E (la_fragment a)) (wk, sh) of
             ((wk', sh'), r) \<Rightarrow>
               finish_loading E (la_fragment a) (la_node a) r lc (WasmPlugin eh wk') (s\<lparr>bs_shared := sh'\<rparr>)))"

definition load_native_entity ::
  "('g, 'a, 'w) boot_env \<Rightarrow> load_args \<Rightarrow> ('g, 'a, 'w) boot_state \<Rightarrow> ('g, 'a, 'w) boot_state \<times> ipld_link option option" where
  "load_native_entity E a s =
     (case map_of (be_factories E) (kn_protocol (la_kind a)) of
        None \<Rightarrow> (s, None)
      | Some (A, fresh) \<Rightarrow>
          (case new_native A a (initial_state (be_kubo E) (boot_world s) a) fresh of
             (actor, Inl e) \<Rightarrow> (s, None)
           | (actor, Inr (eh, lc)) \<Rightarrow>
               (case trigger_save (native_step A) fst (\<lambda>w t. (w, snd t)) (be_kubo E) (be_delivery E (la_fragment a))
                       (be_marked E (la_fragment a)) (boot_world s, actor) of
                  ((w, actor'), r) \<Rightarrow>
                    finish_loading E (la_fragment a) (la_node a) r lc (NativePlugin eh actor') (put_boot_world w s))))"

section \<open>All entities\<close>

definition startup_load_args ::
  "('g, 'a, 'w) boot_env \<Rightarrow> string btree_map \<Rightarrow> string \<Rightarrow> entity_node \<Rightarrow> kind_node \<Rightarrow> load_args" where
  "startup_load_args E runtime_config name node kind =
     \<lparr>la_fragment = name, la_node = node, la_kind = kind, la_node_id = be_node_id E, la_started_at = be_started_at E,
      la_runtime_config = runtime_config, la_init_payload = map_option bytes_of (en_init node)\<rparr>"

definition load_entity ::
  "('g, 'a, 'w) boot_env \<Rightarrow> string btree_map \<Rightarrow> runtime_manifest \<Rightarrow> string \<Rightarrow> ipld_link \<Rightarrow> ('g, 'a, 'w) boot_state
     \<Rightarrow> ('g, 'a, 'w) boot_state \<times> ipld_link option option" where
  "load_entity E runtime_config m name link s =
     (case load_entity_and_kind (be_kubo E) (boot_world s) m link of
        None \<Rightarrow> (s, None)
      | Some (node, kind) \<Rightarrow>
          (let a = startup_load_args E runtime_config name node kind
           in if kn_type kind = Native then load_native_entity E a s else load_wasm_entity E a s))"

record load_progress =
  lp_manifest :: runtime_manifest
  lp_loaded :: nat
  lp_updated :: bool

definition record_loaded :: "string \<Rightarrow> ipld_link option option \<Rightarrow> load_progress \<Rightarrow> load_progress" where
  "record_loaded name r p =
     (case r of
        None \<Rightarrow> p
      | Some None \<Rightarrow> p\<lparr>lp_loaded := lp_loaded p + 1\<rparr>
      | Some (Some link) \<Rightarrow>
          p\<lparr>lp_loaded := lp_loaded p + 1, lp_updated := True,
            lp_manifest := (lp_manifest p)\<lparr>rm_entities := AList.update name link (rm_entities (lp_manifest p))\<rparr>\<rparr>)"

fun load_loop ::
  "('g, 'a, 'w) boot_env \<Rightarrow> string btree_map \<Rightarrow> (string \<times> ipld_link) list \<Rightarrow> ('g, 'a, 'w) boot_state \<Rightarrow> load_progress
     \<Rightarrow> ('g, 'a, 'w) boot_state \<times> load_progress" where
  "load_loop E runtime_config [] s p = (s, p)"
| "load_loop E runtime_config ((name, link) # ls) s p =
     (case load_entity E runtime_config (lp_manifest p) name link s of
        (s', r) \<Rightarrow> load_loop E runtime_config ls s' (record_loaded name r p))"

text \<open>The new root is \<open>None\<close> when nothing changed or when the manifest could not be published.\<close>

definition load_entities ::
  "('g, 'a, 'w) boot_env \<Rightarrow> cid \<Rightarrow> ('g, 'a, 'w) boot_state \<Rightarrow> ('g, 'a, 'w) boot_state \<times> nat \<times> cid option" where
  "load_entities E root s =
     (case dag_get_manifest (be_kubo E) (boot_world s) root of
        None \<Rightarrow> (s, 0, None)
      | Some m \<Rightarrow>
          (let kinds = fst (hydrate_kind_registry (be_kubo E) (boot_world s) m (bs_kinds s));
               runtime_config = public_plugin_config (be_fmt E) m (be_config E);
               (s1, p) = load_loop E runtime_config (rm_entities m) (s\<lparr>bs_kinds := kinds\<rparr>)
                           \<lparr>lp_manifest = m, lp_loaded = 0, lp_updated = False\<rparr>
           in if \<not> lp_updated p then (s1, lp_loaded p, None)
              else (case dag_put_manifest (be_kubo E) (boot_world s1) (lp_manifest p) of
                      (w, None) \<Rightarrow> (put_boot_world w s1, lp_loaded p, None)
                    | (w, Some new_root) \<Rightarrow>
                        (put_boot_world (fst (Documents.pin_update (be_kubo E) w root new_root)) s1,
                         lp_loaded p, Some new_root))))"

section \<open>Nothing the node stores is lost\<close>

definition boot_env_ok :: "('g, 'a, 'w) boot_env \<Rightarrow> bool" where
  "boot_env_ok E \<longleftrightarrow> kubo_ok (be_kubo E) \<and> draws_keep (be_kubo E) (be_host E)
     \<and> (\<forall>d sh. node_keeps (be_kubo E) (hs_world sh) (hs_world (be_sleep E d sh)))"

lemma draws_keep_host [simp]:
  "draws_keep K (E\<lparr>he_fragment := f, he_allowed := a\<rparr>) = draws_keep K E"
  by (simp add: draws_keep_def)

lemma send_signal_keeps:
  assumes "draws_keep K E" and "send_signal E G e b s = (s', r)"
  shows "node_keeps K (worker_world s) (worker_world s')"
  using assms(2) run_guest_keeps[OF assms(1)]
  by (cases s) (fastforce simp: send_signal_def call_export_def split: prod.splits option.splits)

lemma genesis_signal_keeps:
  assumes "draws_keep K E" and "genesis_signal E G dec cfg s = (s', r)"
  shows "node_keeps K (worker_world s) (worker_world s')"
proof (cases "s' = s")
  case False
  with assms(2) obtain r' where "send_signal E G LeInit
      (signal_with_data E '':init'' (case wc_init_payload cfg of None \<Rightarrow> [] | Some p \<Rightarrow> p)) s = (s', r')"
    by (auto simp: genesis_signal_def split: prod.splits sum.splits if_splits)
  then show ?thesis by (rule send_signal_keeps[OF assms(1)])
qed simp

lemma genesis_keeps:
  assumes "draws_keep K E" and "run_genesis_and_start E G dec cfg s = (s', r)"
  shows "node_keeps K (worker_world s) (worker_world s')"
proof -
  note keeps = send_signal_keeps[OF assms(1)] genesis_signal_keeps[OF assms(1)]
  obtain s1 r1 where s1: "(if wc_init_state cfg \<noteq> [] then send_signal E G LeSetState (signal_with_data E '':set-state'' (wc_init_state cfg)) s
      else (s, Inr [])) = (s1, r1)" by fastforce
  obtain s2 r2 where s2: "(case wc_behaviour_text cfg of
      Some t \<Rightarrow> send_signal E G LeSetBehaviour (signal_with_data E '':set-behaviour'' t) s1 | None \<Rightarrow> (s1, Inr [])) = (s2, r2)"
    by fastforce
  obtain s3 r3 where s3: "genesis_signal E G dec cfg s2 = (s3, r3)" by fastforce
  obtain s4 r4 where s4: "send_signal E G LeStart (signal_atom E '':start'') s3 = (s4, r4)" by fastforce
  have k1: "node_keeps K (worker_world s) (worker_world s1)"
    by (cases "wc_init_state cfg \<noteq> []") (use s1 in \<open>simp_all add: keeps(1)\<close>)
  have k2: "node_keeps K (worker_world s1) (worker_world s2)"
    by (cases "wc_behaviour_text cfg") (use s2 in \<open>simp_all add: keeps(1)\<close>)
  note k3 = node_keeps_trans[OF k1 k2] and k4 = node_keeps_trans[OF node_keeps_trans[OF k1 k2] keeps(2)[OF s3]]
  have "s' \<in> {s1, s2, s3, s4}"
    using assms(2) unfolding run_genesis_and_start_def s1
    by (auto simp: s2 s3 s4 split: sum.splits)
  then consider "s' = s1" | "s' = s2" | "s' = s3" | "s' = s4" by blast
  then show ?thesis by cases (simp_all only: k1 k3 k4 node_keeps_trans[OF k4 keeps(1)[OF s4]])
qed

lemma load_keeps:
  assumes "draws_keep K E" and "load E G dec build in_time a sh = (sh', r)"
  shows "node_keeps K (hs_world sh) (hs_world sh')"
proof (cases "sh' = sh")
  case False
  with assms(2) obtain cfg s0 wk r' where "run_genesis_and_start (E\<lparr>he_fragment := la_fragment a, he_allowed := kn_host_functions (la_kind a)\<rparr>)
      G dec cfg (s0, sh) = ((wk, sh'), r')"
    by (auto simp: load_def Let_def split: if_splits sum.splits option.splits prod.splits)
  from genesis_keeps[OF _ this, of K] assms(1) show ?thesis by simp
qed simp

lemma load_retry_keeps:
  assumes "\<And>s s' r. ld s = (s', r) \<Longrightarrow> node_keeps K (f s) (f s')" and "\<And>d s. node_keeps K (f s) (f (sleep d s))"
  shows "load_retry ld sleep ds s = (s', r) \<Longrightarrow> node_keeps K (f s) (f s')"
proof (induction ds arbitrary: s)
  case (Cons d ds)
  obtain s1 r1 where one: "ld s = (s1, r1)" by fastforce
  note k = assms(1)[OF one]
  show ?case
  proof (cases r1)
    case (Inl e)
    with Cons.prems one have "load_retry ld sleep ds (sleep d s1) = (s', r)" by simp
    from node_keeps_trans[OF k node_keeps_trans[OF assms(2) Cons.IH[OF this]]] show ?thesis .
  qed (use Cons.prems one k in simp)
qed (simp add: assms(1))

lemma load_fibonacci_keeps:
  assumes "boot_env_ok E" and "load_with_fibonacci_backoff (load_once E a) (be_sleep E) sh = (sh', r)"
  shows "node_keeps (be_kubo E) (hs_world sh) (hs_world sh')"
proof (rule load_retry_keeps[where f = hs_world and ld = "load_once E a" and sleep = "be_sleep E" and ds = ENTITY_LOAD_BACKOFF_SECS])
  show "load_retry (load_once E a) (be_sleep E) ENTITY_LOAD_BACKOFF_SECS sh = (sh', r)"
    using assms(2) by (simp only: load_with_fibonacci_backoff_def)
  show "node_keeps (be_kubo E) (hs_world s) (hs_world s')" if "load_once E a s = (s', r')" for s s' r'
    using assms(1) that load_keeps[of "be_kubo E" "be_host E"] by (simp add: load_once_def boot_env_ok_def)
  show "node_keeps (be_kubo E) (hs_world s) (hs_world (be_sleep E d s))" for d s
    using assms(1) by (simp add: boot_env_ok_def)
qed

section \<open>What loading one entity does\<close>

text \<open>The document of an entity after a start: initialised, with the old state or one that can be read.\<close>

definition restarted :: "'w kubo \<Rightarrow> 'w \<Rightarrow> entity_node \<Rightarrow> ipld_link \<Rightarrow> bool" where
  "restarted K w n new \<longleftrightarrow>
     (\<exists>n'. dag_get_entity K w new = Some n' \<and> n' = n\<lparr>en_initialised := True, en_state := en_state n'\<rparr>
        \<and> (en_state n' = en_state n \<or> (\<exists>c. en_state n' = Some c \<and> cat_bytes K w c \<noteq> None)))"

lemma restarted_later: "restarted K w n new \<Longrightarrow> node_keeps K w w' \<Longrightarrow> restarted K w' n new"
proof -
  assume r: "restarted K w n new" and k: "node_keeps K w w'"
  have "cat_bytes K w c \<noteq> None \<Longrightarrow> cat_bytes K w' c \<noteq> None" for c using node_keeps_bytes[OF k] by fastforce
  then have ex: "\<exists>c. en_state n' = Some c \<and> cat_bytes K w' c \<noteq> None" if "\<exists>c. en_state n' = Some c \<and> cat_bytes K w c \<noteq> None" for n'
    using that by blast
  from r obtain n' where n': "dag_get_entity K w new = Some n'" "n' = n\<lparr>en_initialised := True, en_state := en_state n'\<rparr>"
    "en_state n' = en_state n \<or> (\<exists>c. en_state n' = Some c \<and> cat_bytes K w c \<noteq> None)" unfolding restarted_def by blast
  show ?thesis unfolding restarted_def
    by (intro exI[of _ n'] conjI node_keeps_entity[OF k n'(1)] n'(2) disj_forward[OF n'(3)] ex)
qed

lemma persist_initialised_keeps:
  "kubo_ok K \<Longrightarrow> persist_initialised_transition K old node lc w = (w', link) \<Longrightarrow> node_keeps K w w'"
  by (auto simp: persist_initialised_transition_def Let_def split: if_splits dest: kubo_okD)

lemma persist_initialised_Some:
  assumes "kubo_ok K" and "persist_initialised_transition K old node lc w = (w', Some link)"
  shows "lc = Running \<and> dag_get_entity K w' link = Some (node\<lparr>en_initialised := True\<rparr>) \<or> en_initialised old \<and> \<not> en_initialised node"
  using assms kubo_okD(4)[OF assms(1)]
  by (auto simp: persist_initialised_transition_def Let_def split: if_splits)

definition registered :: "string \<Rightarrow> ('g, 'a, 'w) boot_state \<Rightarrow> ('g, 'a, 'w) boot_state \<Rightarrow> bool" where
  "registered name s s' \<longleftrightarrow> (\<exists>p. bs_plugins s' = AList.update name p (bs_plugins s))"

lemma finish_loading_spec:
  assumes "kubo_ok (be_kubo E)" and "finish_loading E name node r lc p s = (s', Some link)"
    and "\<And>c. r = Inr (Some c) \<Longrightarrow> cat_bytes (be_kubo E) (boot_world s) c \<noteq> None"
  shows "node_keeps (be_kubo E) (boot_world s) (boot_world s')" "registered name s s'"
    "link = Some l \<Longrightarrow> restarted (be_kubo E) (boot_world s') node l"
proof -
  obtain w where w: "persist_initialised_transition (be_kubo E) node (saved_node node r) lc (boot_world s) = (w, link)"
    and s': "s' = register_plugin name p (put_boot_world w s)"
    using assms(2) by (auto simp: finish_loading_def split: prod.splits)
  have w': "boot_world s' = w" by (simp add: s' register_plugin_def put_boot_world_def Let_def)
  show k: "node_keeps (be_kubo E) (boot_world s) (boot_world s')"
    using persist_initialised_keeps[OF assms(1) w] w' by simp
  show "registered name s s'" by (auto simp: registered_def s' register_plugin_def put_boot_world_def Let_def)
  assume l: "link = Some l"
  have fields: "saved_node node r = node\<lparr>en_state := en_state (saved_node node r)\<rparr>"
    by (auto simp: saved_node_def split: sum.splits option.splits)
  have "en_initialised (saved_node node r) = en_initialised node" by (subst fields) simp
  with persist_initialised_Some[OF assms(1), of node "saved_node node r" lc "boot_world s" w l] w l w'
  have "dag_get_entity (be_kubo E) (boot_world s') l = Some ((saved_node node r)\<lparr>en_initialised := True\<rparr>)" by auto
  moreover have "en_state (saved_node node r) = en_state node \<or>
      (\<exists>c. en_state (saved_node node r) = Some c \<and> cat_bytes (be_kubo E) (boot_world s') c \<noteq> None)"
    using assms(3) node_keeps_bytes[OF k] by (fastforce simp: saved_node_def split: sum.splits option.splits)
  moreover have "(saved_node node r)\<lparr>en_initialised := True\<rparr> = node\<lparr>en_initialised := True, en_state := en_state (saved_node node r)\<rparr>"
    by (subst fields) simp
  ultimately show "restarted (be_kubo E) (boot_world s') node l"
    unfolding restarted_def by (intro exI[of _ "(saved_node node r)\<lparr>en_initialised := True\<rparr>"]) auto
qed


lemma triple:
  obtains a b c where "p = ((a, b), c)"
  by (cases p; cases "fst p") auto

lemma trigger_save_readable:
  assumes "kubo_ok K" and "trigger_save (worker_step H G enc) worker_world put_worker_world K d marked t = (t', Inr (Some c))"
  shows "cat_bytes K (worker_world t') c \<noteq> None"
  using wasm.trigger_save_Inr[OF assms] by (auto split: option.splits)

lemma native_save_readable:
  assumes "kubo_ok K" and "trigger_save (native_step A) fst (\<lambda>w t. (w, snd t)) K d marked t = (t', Inr (Some c))"
  shows "cat_bytes K (fst t') c \<noteq> None"
  using native.trigger_save_Inr[OF assms] by (auto split: option.splits)

definition loaded_as ::
  "('g, 'a, 'w) boot_env \<Rightarrow> string \<Rightarrow> entity_node \<Rightarrow> ('g, 'a, 'w) boot_state \<Rightarrow> ipld_link option option \<Rightarrow> ('g, 'a, 'w) boot_state \<Rightarrow> bool" where
  "loaded_as E name n s r s' \<longleftrightarrow>
     node_keeps (be_kubo E) (boot_world s) (boot_world s') \<and> bs_kinds s' = bs_kinds s \<and>
     (case r of None \<Rightarrow> bs_plugins s' = bs_plugins s
      | Some l \<Rightarrow> registered name s s' \<and> (\<forall>new. l = Some new \<longrightarrow> restarted (be_kubo E) (boot_world s') n new))"

lemma finish_loading_as:
  assumes "kubo_ok (be_kubo E)" and "finish_loading E name n r lc p s1 = (s', r')"
    and "\<And>c. r = Inr (Some c) \<Longrightarrow> cat_bytes (be_kubo E) (boot_world s1) c \<noteq> None"
    and "node_keeps (be_kubo E) (boot_world s) (boot_world s1)" "bs_plugins s1 = bs_plugins s" "bs_kinds s1 = bs_kinds s"
  shows "loaded_as E name n s r' s'"
proof -
  obtain link where r': "r' = Some link" using assms(2) by (auto simp: finish_loading_def split: prod.splits)
  note f = finish_loading_spec[OF assms(1) assms(2)[unfolded r'] assms(3)]
  have "bs_kinds s' = bs_kinds s1"
    using assms(2) by (auto simp: finish_loading_def register_plugin_def put_boot_world_def Let_def split: prod.splits)
  with r' f(2,3) node_keeps_trans[OF assms(4) f(1)] assms(5,6) show ?thesis
    by (simp add: loaded_as_def registered_def)
qed

lemma load_wasm_entity_as:
  assumes ok: "boot_env_ok E" and "load_wasm_entity E a s = (s', r)"
  shows "loaded_as E (la_fragment a) (la_node a) s r s'"
proof -
  obtain sh r1 where l: "load_with_fibonacci_backoff (load_once E a) (be_sleep E) (bs_shared s) = (sh, r1)" by fastforce
  note k1 = load_fibonacci_keeps[OF ok l]
  have K: "kubo_ok (be_kubo E)" using ok by (simp add: boot_env_ok_def)
  show ?thesis
  proof (cases r1)
    case (Inl e)
    with assms(2) l k1 show ?thesis by (auto simp: load_wasm_entity_def loaded_as_def)
  next
    case (Inr x)
    obtain eh wk lc where x: "x = (eh, wk, lc)" by (cases x)
    obtain wk' sh' r2 where t: "trigger_save (worker_step (wasm_host E a) (be_guest E) (be_encode E)) worker_world put_worker_world
        (be_kubo E) (be_delivery E (la_fragment a)) (be_marked E (la_fragment a)) (wk, sh) = ((wk', sh'), r2)"
      by (rule triple)
    have k2: "node_keeps (be_kubo E) (hs_world sh) (hs_world sh')" using wasm.trigger_save_keeps[OF K t] by simp
    have "finish_loading E (la_fragment a) (la_node a) r2 lc (WasmPlugin eh wk') (s\<lparr>bs_shared := sh'\<rparr>) = (s', r)"
      using assms(2) l Inr x t by (simp add: load_wasm_entity_def)
    then show ?thesis
    proof (rule finish_loading_as[OF K])
      show "cat_bytes (be_kubo E) (boot_world (s\<lparr>bs_shared := sh'\<rparr>)) c \<noteq> None" if "r2 = Inr (Some c)" for c
        using trigger_save_readable[OF K t[unfolded that]] by simp
    qed (use node_keeps_trans[OF k1 k2] in simp_all)
  qed
qed

lemma load_native_entity_as:
  assumes ok: "boot_env_ok E" and "load_native_entity E a s = (s', r)"
  shows "loaded_as E (la_fragment a) (la_node a) s r s'"
proof (cases "r = None")
  case True
  with assms(2) have "s' = s"
    by (auto simp: load_native_entity_def finish_loading_def split: option.splits prod.splits sum.splits)
  with True show ?thesis by (simp add: loaded_as_def)
next
  case False
  have K: "kubo_ok (be_kubo E)" using ok by (simp add: boot_env_ok_def)
  from False assms(2) obtain A fresh where A: "map_of (be_factories E) (kn_protocol (la_kind a)) = Some (A, fresh)"
    by (cases "map_of (be_factories E) (kn_protocol (la_kind a))") (auto simp: load_native_entity_def)
  obtain actor r1 where n: "new_native A a (initial_state (be_kubo E) (boot_world s) a) fresh = (actor, r1)" by fastforce
  from False assms(2) A n obtain eh lc where r1: "r1 = Inr (eh, lc)" by (cases r1) (auto simp: load_native_entity_def)
  obtain w actor' r2 where
    t: "trigger_save (native_step A) fst (\<lambda>w t. (w, snd t)) (be_kubo E) (be_delivery E (la_fragment a))
          (be_marked E (la_fragment a)) (boot_world s, actor) = ((w, actor'), r2)"
    by (rule triple)
  have f: "finish_loading E (la_fragment a) (la_node a) r2 lc (NativePlugin eh actor') (put_boot_world w s) = (s', r)"
    using assms(2) A n r1 t by (simp add: load_native_entity_def)
  from f show ?thesis
  proof (rule finish_loading_as[OF K])
    show "cat_bytes (be_kubo E) (boot_world (put_boot_world w s)) c \<noteq> None" if "r2 = Inr (Some c)" for c
      using native_save_readable[OF K t[unfolded that]] by (simp add: put_boot_world_def)
    show "node_keeps (be_kubo E) (boot_world s) (boot_world (put_boot_world w s))"
      using native.trigger_save_keeps[OF K t] by (simp add: put_boot_world_def)
  qed (simp_all add: put_boot_world_def)
qed

lemma load_entity_as:
  assumes "boot_env_ok E" and "load_entity E rc m name link s = (s', r)"
  shows "(r = None \<and> s' = s) \<or> (\<exists>n. dag_get_entity (be_kubo E) (boot_world s) link = Some n \<and> loaded_as E name n s r s')"
proof (cases "load_entity_and_kind (be_kubo E) (boot_world s) m link")
  case None
  with assms(2) show ?thesis by (simp add: load_entity_def)
next
  case (Some nk)
  obtain n kind where nk: "nk = (n, kind)" by (cases nk)
  have "dag_get_entity (be_kubo E) (boot_world s) link = Some n"
    using Some nk by (auto simp: load_entity_and_kind_def split: option.splits)
  moreover have "loaded_as E name n s r s'"
    using assms(2) Some nk load_wasm_entity_as[OF assms(1), of "startup_load_args E rc name n kind" s s' r]
      load_native_entity_as[OF assms(1), of "startup_load_args E rc name n kind" s s' r]
    by (simp add: load_entity_def Let_def startup_load_args_def split: if_splits)
  ultimately show ?thesis by blast
qed

section \<open>The loop\<close>

text \<open>
  How the loop changes the manifest: each entry keeps its link or gets that of the restarted entity, whose plugin is
  then registered.
\<close>

definition relinked :: "('g, 'a, 'w) boot_env \<Rightarrow> ipld_link \<Rightarrow> string \<Rightarrow> ipld_link \<Rightarrow> ('g, 'a, 'w) boot_state \<Rightarrow> bool" where
  "relinked E l name l' s \<longleftrightarrow>
     (\<exists>n. dag_get_entity (be_kubo E) (boot_world s) l = Some n \<and> restarted (be_kubo E) (boot_world s) n l'
        \<and> name \<in> fst ` set (bs_plugins s))"

definition entries_changed ::
  "('g, 'a, 'w) boot_env \<Rightarrow> (string \<times> ipld_link) list \<Rightarrow> ipld_link hash_map \<Rightarrow> ipld_link hash_map \<Rightarrow> ('g, 'a, 'w) boot_state \<Rightarrow> bool" where
  "entries_changed E ls old new s \<longleftrightarrow>
     map fst new = map fst old \<and>
     (\<forall>name. map_of new name = map_of old name
        \<or> (\<exists>l l'. (name, l) \<in> set ls \<and> map_of new name = Some l' \<and> relinked E l name l' s))"

definition loads :: "('g, 'a, 'w) boot_env \<Rightarrow> ('g, 'a, 'w) boot_state \<Rightarrow> ('g, 'a, 'w) boot_state \<Rightarrow> bool" where
  "loads E s s' \<longleftrightarrow> node_keeps (be_kubo E) (boot_world s) (boot_world s') \<and> fst ` set (bs_plugins s) \<subseteq> fst ` set (bs_plugins s')
     \<and> bs_kinds s' = bs_kinds s"

lemma relinked_later: "relinked E l name l' s \<Longrightarrow> loads E s s' \<Longrightarrow> relinked E l name l' s'"
  unfolding relinked_def loads_def using node_keeps_entity restarted_later by fast

lemma update_keys_present: "k \<in> fst ` set m \<Longrightarrow> map fst (AList.update k v m) = map fst m"
  by (induction m) auto

lemma registered_names: "registered name s s' \<Longrightarrow> fst ` set (bs_plugins s') = insert name (fst ` set (bs_plugins s))"
proof -
  assume "registered name s s'"
  then obtain p where "bs_plugins s' = AList.update name p (bs_plugins s)" unfolding registered_def ..
  then show ?thesis by (simp only: AList.dom_update) blast
qed


lemma record_loaded_entries:
  assumes "boot_env_ok E" and l: "load_entity E rc m name link s = (s1, r)"
    and old: "map_of (rm_entities (lp_manifest p)) name = Some link"
  shows "loads E s s1"
    and "lp_manifest (record_loaded name r p)
       = (lp_manifest p)\<lparr>rm_entities := rm_entities (lp_manifest (record_loaded name r p))\<rparr>"
    and "entries_changed E [(name, link)] (rm_entities (lp_manifest p)) (rm_entities (lp_manifest (record_loaded name r p))) s1"
proof -
  note as = load_entity_as[OF assms(1) l]
  then show "loads E s s1"
    using registered_names[of name s s1] by (auto simp only: loads_def loaded_as_def split: option.splits) simp_all
  show "lp_manifest (record_loaded name r p)
       = (lp_manifest p)\<lparr>rm_entities := rm_entities (lp_manifest (record_loaded name r p))\<rparr>"
    by (auto simp: record_loaded_def split: option.splits)
  show "entries_changed E [(name, link)] (rm_entities (lp_manifest p)) (rm_entities (lp_manifest (record_loaded name r p))) s1"
  proof (cases "\<exists>new. r = Some (Some new)")
    case True
    then obtain new where r: "r = Some (Some new)" ..
    with as obtain n where n: "dag_get_entity (be_kubo E) (boot_world s) link = Some n"
      "node_keeps (be_kubo E) (boot_world s) (boot_world s1)" "registered name s s1"
      "restarted (be_kubo E) (boot_world s1) n new" by (auto simp: loaded_as_def)
    have "relinked E link name new s1"
      unfolding relinked_def using node_keeps_entity[OF n(2,1)] n(4) registered_names[OF n(3)] by blast
    moreover have "name \<in> fst ` set (rm_entities (lp_manifest p))" using map_of_SomeD[OF old] by force
    ultimately show ?thesis
      by (auto simp: r entries_changed_def record_loaded_def update_keys_present map_simps)
  next
    case False
    then show ?thesis by (auto simp: entries_changed_def record_loaded_def split: option.splits)
  qed
qed

lemma entries_changed_step:
  assumes "entries_changed E [(name, link)] old m1 s1" and "entries_changed E ls m1 new s'" and "loads E s1 s'"
    and "name \<notin> fst ` set ls"
  shows "entries_changed E ((name, link) # ls) old new s'"
proof -
  have "map_of new k = map_of old k \<or> (\<exists>l l'. (k, l) \<in> set ((name, link) # ls) \<and> map_of new k = Some l' \<and> relinked E l k l' s')" for k
  proof (cases "map_of new k = map_of m1 k")
    case True
    from assms(1) consider "map_of m1 k = map_of old k"
      | l l' where "(k, l) \<in> set [(name, link)]" "map_of m1 k = Some l'" "relinked E l k l' s1"
      unfolding entries_changed_def by blast
    then show ?thesis
    proof cases
      case 2
      with True relinked_later[OF 2(3) assms(3)] show ?thesis by auto
    qed (use True in simp)
  next
    case False
    with assms(2) obtain l l' where "(k, l) \<in> set ls" "map_of new k = Some l'" "relinked E l k l' s'"
      unfolding entries_changed_def by blast
    then show ?thesis by auto
  qed
  moreover have "map fst new = map fst old" using assms(1,2) unfolding entries_changed_def by presburger
  ultimately show ?thesis unfolding entries_changed_def by blast
qed

lemma loads_trans:
  assumes "loads E s s1" and "loads E s1 s'"
  shows "loads E s s'"
  unfolding loads_def
proof (intro conjI)
  show "node_keeps (be_kubo E) (boot_world s) (boot_world s')"
    by (rule node_keeps_trans[of _ _ "boot_world s1"]) (use assms in \<open>simp_all only: loads_def\<close>)
  show "fst ` set (bs_plugins s) \<subseteq> fst ` set (bs_plugins s')"
    by (rule subset_trans[of _ "fst ` set (bs_plugins s1)"]) (use assms in \<open>simp_all only: loads_def\<close>)
qed (use assms in \<open>simp only: loads_def\<close>)

lemma load_loop_entries:
  assumes "boot_env_ok E"
  shows "load_loop E rc ls s p = (s', p') \<Longrightarrow> distinct (map fst ls) \<Longrightarrow>
     \<forall>(name, link)\<in>set ls. map_of (rm_entities (lp_manifest p)) name = Some link \<Longrightarrow>
     loads E s s' \<and> lp_manifest p' = (lp_manifest p)\<lparr>rm_entities := rm_entities (lp_manifest p')\<rparr> \<and>
     entries_changed E ls (rm_entities (lp_manifest p)) (rm_entities (lp_manifest p')) s'"
proof (induction ls arbitrary: s p)
  case (Cons x ls)
  obtain name link where x: "x = (name, link)" by (cases x)
  obtain s1 r where l: "load_entity E rc (lp_manifest p) name link s = (s1, r)" by fastforce
  let ?p = "record_loaded name r p"
  have old: "map_of (rm_entities (lp_manifest p)) name = Some link" using Cons.prems(3) x by simp
  note head = record_loaded_entries[OF assms l old]
  have rest: "load_loop E rc ls s1 ?p = (s', p')" using Cons.prems(1) x l by simp
  have "map_of (rm_entities (lp_manifest ?p)) k = Some v" if "(k, v) \<in> set ls" for k v
  proof -
    have "k \<noteq> name" using that Cons.prems(2) x by force
    then have "map_of (rm_entities (lp_manifest ?p)) k = map_of (rm_entities (lp_manifest p)) k"
      by (auto simp: record_loaded_def map_simps split: option.splits)
    with that Cons.prems(3) show ?thesis by auto
  qed
  then have tail: "loads E s1 s'" "lp_manifest p' = (lp_manifest ?p)\<lparr>rm_entities := rm_entities (lp_manifest p')\<rparr>"
    "entries_changed E ls (rm_entities (lp_manifest ?p)) (rm_entities (lp_manifest p')) s'"
    using Cons.IH[OF rest] Cons.prems(2) by auto
  have "name \<notin> fst ` set ls" using Cons.prems(2) x by simp
  from entries_changed_step[OF head(3) tail(3,1) this] loads_trans[OF head(1) tail(1)] head(2) tail(2) x show ?case
    by (metis runtime_manifest.update_convs(5) runtime_manifest.surjective runtime_manifest.ext_inject)
qed (simp add: loads_def entries_changed_def)


section \<open>A boot for the witnesses\<close>

definition actor_kind :: kind_node where
  "actor_kind = \<lparr>kn_protocol = ''/ma/actor'', kn_cid = Some (mem_cid 0), kn_type = Extism, kn_behaviour = None,
     kn_behaviour_chain = [], kn_host_functions = [''ma_set_state''], kn_attributes = [(''stateful'', JBool True)],
     kn_extends = None\<rparr>"

definition fresh_entity :: entity_node where
  "fresh_entity = sample_entity\<lparr>en_reload_error := None\<rparr>"

definition boot_manifest :: runtime_manifest where
  "boot_manifest = empty_manifest\<lparr>rm_kinds := [(''ma'', Branch [(''actor'', Leaf (mem_cid 1))])],
     rm_entities := [(''fortune'', mem_cid 2), (''broken'', ''bafyLost'')]\<rparr>"

definition boot_docs :: "doc list" where
  "boot_docs = [BytesDoc [0], KindDoc actor_kind, EntityDoc fresh_entity, ManifestDoc boot_manifest]"

definition fresh_boot :: "(nat, unit, doc list) boot_state" where
  "fresh_boot = \<lparr>bs_shared = \<lparr>hs_world = boot_docs, hs_outbox = [], hs_closed = False, hs_registry = []\<rparr>,
     bs_plugins = [], bs_kinds = []\<rparr>"

definition sample_boot_env :: "(nat, unit, doc list) boot_env" where
  "sample_boot_env = \<lparr>be_host = sample_host, be_guest = saving_guest, be_decode = (\<lambda>_. None), be_encode = (\<lambda>_. None),
     be_build = (\<lambda>_ _ _ _. Some 0), be_in_time = (\<lambda>_ _. True), be_sleep = (\<lambda>_ sh. sh), be_delivery = (\<lambda>_. Answered),
     be_marked = (\<lambda>_. True), be_factories = [], be_node_id = ''node'', be_started_at = 0,
     be_fmt = \<lparr>real_text = (\<lambda>_. []), yaml_text = (\<lambda>_. None), debug_text = (\<lambda>_. [])\<rparr>, be_config = sample_config\<rparr>"

lemma sample_boot_env_ok: "boot_env_ok sample_boot_env"
  using sample_draws mem_kubo_ok by (simp add: boot_env_ok_def sample_boot_env_def) (simp add: sample_host_def)

lemma boot_load:
  "load_entity_and_kind mem_kubo boot_docs boot_manifest (mem_cid 2) = Some (fresh_entity, actor_kind)"
  "load_entity_and_kind mem_kubo ds m ''bafyLost'' = None"
  by (simp_all add: load_entity_and_kind_def boot_docs_def boot_manifest_def fresh_entity_def sample_entity_def
      get_protocol_def segments_def trim_start_matches_def resolve_raw_kind_def actor_kind_def mem_get_def mem_cid_def)


lemmas boot_eval = load_wasm_entity_def load_with_fibonacci_backoff_def ENTITY_LOAD_BACKOFF_SECS_def load_once_def load_def
  resolve_wasm_and_behaviour_def kind_behaviours_def initial_state_def run_genesis_and_start_def genesis_signal_def
  send_signal_def call_export_def saving_guest_def linked_exec_def host_functions_def host_ctx_new_def state_ctx_new_def
  queue_state_def parse_error_reason_def trigger_save_def call_worker_def save_pending_def map_state_def mark_saved_def
  finish_loading_def persist_initialised_transition_def saved_node_def register_plugin_def put_boot_world_def
  startup_load_args_def sample_boot_env_def sample_host_def

lemma boot_fortune:
  "\<exists>s1 link. load_entity sample_boot_env rc boot_manifest ''fortune'' (mem_cid 2) (fresh_boot\<lparr>bs_kinds := ks\<rparr>)
       = (s1, Some (Some link)) \<and> map_of (bs_plugins s1) ''fortune'' \<noteq> None"
  using boot_load(1)
  by (simp add: load_entity_def Let_def fresh_boot_def boot_docs_def actor_kind_def fresh_entity_def sample_entity_def
      plugin_kind_def bool_attribute_def wasi_def boot_eval)


section \<open>Properties\<close>

lemma loads_put_world:
  "node_keeps (be_kubo E) (boot_world s) w \<Longrightarrow> loads E s (put_boot_world w s)" "bs_plugins (put_boot_world w s) = bs_plugins s"
  by (simp_all add: loads_def put_boot_world_def)

lemma load_entities_new_root:
  assumes "load_entities E root s = (s', n, Some new_root)"
    and "dag_get_manifest (be_kubo E) (boot_world s) root = Some m"
  shows "\<exists>s1 p w. load_loop E (public_plugin_config (be_fmt E) m (be_config E)) (rm_entities m)
             (s\<lparr>bs_kinds := fst (hydrate_kind_registry (be_kubo E) (boot_world s) m (bs_kinds s))\<rparr>)
             \<lparr>lp_manifest = m, lp_loaded = 0, lp_updated = False\<rparr> = (s1, p)
       \<and> dag_put_manifest (be_kubo E) (boot_world s1) (lp_manifest p) = (w, Some new_root)
       \<and> s' = put_boot_world (fst (Documents.pin_update (be_kubo E) w root new_root)) s1"
  using assms by (auto simp: load_entities_def Let_def split: prod.splits option.splits if_splits)

text \<open>
  C28 (startup). What a start makes of the manifest: if it publishes a new one, that has every entity of the old one and
  nothing else changed; the document of an entity is untouched, or the entity is registered and its document
  is the old one marked as initialised, with the old state or a state whose bytes are on the node.
\<close>

theorem startup_keeps_entities:
  assumes "boot_env_ok E" and "dag_get_manifest (be_kubo E) (boot_world s) root = Some m" and "hm_inv (rm_entities m)"
    and "load_entities E root s = (s', n, Some new_root)"
  shows "\<exists>m'. dag_get_manifest (be_kubo E) (boot_world s') new_root = Some m' \<and> m' = m\<lparr>rm_entities := rm_entities m'\<rparr> \<and>
     map fst (rm_entities m') = map fst (rm_entities m) \<and>
     (\<forall>name l. map_of (rm_entities m) name = Some l \<longrightarrow>
        (\<exists>l'. map_of (rm_entities m') name = Some l' \<and> (l' = l \<or> relinked E l name l' s')))"
proof -
  from load_entities_new_root[OF assms(4,2)] obtain s1 p w ks where
    loop: "load_loop E (public_plugin_config (be_fmt E) m (be_config E)) (rm_entities m) (s\<lparr>bs_kinds := ks\<rparr>)
             \<lparr>lp_manifest = m, lp_loaded = 0, lp_updated = False\<rparr> = (s1, p)"
    and put: "dag_put_manifest (be_kubo E) (boot_world s1) (lp_manifest p) = (w, Some new_root)"
    and s': "s' = put_boot_world (fst (Documents.pin_update (be_kubo E) w root new_root)) s1" by blast
  have K: "kubo_ok (be_kubo E)" using assms(1) by (simp add: boot_env_ok_def)
  have distinct: "distinct (map fst (rm_entities m))" using assms(3) by (simp add: hm_inv_def)
  have "\<forall>(name, link)\<in>set (rm_entities m). map_of (rm_entities m) name = Some link" using distinct by auto
  with load_loop_entries[OF assms(1) loop distinct] have
    c: "lp_manifest p = m\<lparr>rm_entities := rm_entities (lp_manifest p)\<rparr>"
      "entries_changed E (rm_entities m) (rm_entities m) (rm_entities (lp_manifest p)) s1" by simp_all
  have pin: "node_keeps (be_kubo E) w (boot_world s')"
    using kubo_okD(5)[OF K] by (simp add: s' put_boot_world_def) (metis prod.collapse)
  have "node_keeps (be_kubo E) (boot_world s1) (boot_world s')"
    using node_keeps_trans[OF kubo_okD(1)[OF K put] pin] .
  then have later: "loads E s1 s'" by (simp add: loads_def s' put_boot_world_def)
  have "\<exists>l'. map_of (rm_entities (lp_manifest p)) name = Some l' \<and> (l' = l \<or> relinked E l name l' s')"
    if "map_of (rm_entities m) name = Some l" for name l
  proof -
    from c(2) consider "map_of (rm_entities (lp_manifest p)) name = map_of (rm_entities m) name"
      | k l' where "(name, k) \<in> set (rm_entities m)" "map_of (rm_entities (lp_manifest p)) name = Some l'" "relinked E k name l' s1"
      unfolding entries_changed_def by blast
    then show ?thesis
      by cases (use that distinct relinked_later[OF _ later] in auto)
  qed
  moreover have "map fst (rm_entities (lp_manifest p)) = map fst (rm_entities m)" using c(2) unfolding entries_changed_def by blast
  ultimately show ?thesis using node_keeps_manifest[OF pin kubo_okD(2)[OF K put]] c(1) by blast
qed

theorem startup_keeps_entities_witness:
  "\<exists>s' n new_root m'. load_entities sample_boot_env (mem_cid 3) fresh_boot = (s', n, Some new_root) \<and>
     dag_get_manifest mem_kubo (boot_world s') new_root = Some m' \<and>
     map fst (rm_entities m') = [''fortune'', ''broken'']"
proof -
  let ?ks = "fst (hydrate_kind_registry (be_kubo sample_boot_env) (boot_world fresh_boot) boot_manifest (bs_kinds fresh_boot))"
  let ?rc = "public_plugin_config (be_fmt sample_boot_env) boot_manifest (be_config sample_boot_env)"
  have K: "be_kubo sample_boot_env = mem_kubo" by (simp add: sample_boot_env_def sample_host_def)
  have m: "dag_get_manifest (be_kubo sample_boot_env) (boot_world fresh_boot) (mem_cid 3) = Some boot_manifest"
    by (simp add: K fresh_boot_def boot_docs_def)
  obtain s1 link where f: "load_entity sample_boot_env ?rc boot_manifest ''fortune'' (mem_cid 2) (fresh_boot\<lparr>bs_kinds := ?ks\<rparr>)
      = (s1, Some (Some link))" using boot_fortune by blast
  have b: "load_entity sample_boot_env ?rc m0 ''broken'' ''bafyLost'' s1 = (s1, None)" for m0
    using boot_load(2) by (simp add: load_entity_def K)
  have es: "rm_entities boot_manifest = [(''fortune'', mem_cid 2), (''broken'', ''bafyLost'')]" by (simp add: boot_manifest_def)
  obtain p where loop: "load_loop sample_boot_env ?rc (rm_entities boot_manifest) (fresh_boot\<lparr>bs_kinds := ?ks\<rparr>)
      \<lparr>lp_manifest = boot_manifest, lp_loaded = 0, lp_updated = False\<rparr> = (s1, p)" and up: "lp_updated p"
    by (simp add: es f b record_loaded_def)
  obtain s' n r where r: "load_entities sample_boot_env (mem_cid 3) fresh_boot = (s', n, Some r)"
    unfolding load_entities_def m option.case Let_def loop prod.case using up by (simp add: K)
  have "hm_inv (rm_entities boot_manifest)" by (simp add: hm_inv_def es)
  from startup_keeps_entities[OF sample_boot_env_ok m this r] r show ?thesis
    by (auto simp: K es simp del: mem_kubo_simps)
qed

text \<open>
  The price of an error during the first start: when \<open>:init\<close> reports an error after setting a state, the state is
  uploaded and taken for saved, but no document links it.
\<close>

theorem failed_init_state_unlinked:
  assumes "load_with_fibonacci_backoff (load_once E a) (be_sleep E) (bs_shared s) = (sh, Inr (eh, wk, Error))"
    and "worker_pending (wk, sh) = Some b" and "be_delivery E (la_fragment a) = Answered" and "be_marked E (la_fragment a)"
    and "add_bytes_unpinned (be_kubo E) (hs_world sh) b = (w, Some c)"
  shows "\<exists>s' wk'. load_wasm_entity E a s = (s', Some None) \<and> boot_world s' = w
     \<and> map_of (bs_plugins s') (la_fragment a) = Some (WasmPlugin eh wk')
     \<and> sc_pending (queue_state b (hc_state (wk_ctx wk'))) = None"
  using assms
  by (simp add: load_wasm_entity_def trigger_save_def call_worker_def save_pending_def finish_loading_def
      persist_initialised_transition_def register_plugin_def put_boot_world_def Let_def map_simps map_state_def
      mark_saved_def queue_state_def)

end
