(* ===== verification/Bootstrap.thy ===== *)
theory Bootstrap
  imports Manifest Kinds
begin

text \<open>
  Building a runtime manifest from a bootstrap file and exporting one again (\<open>build_manifest\<close> and
  \<open>export_bootstrap_yaml\<close> in \<open>src/bootstrap.rs\<close>).  The YAML text itself and the remote pinning service are
  parameters; what the code needs of the Kubo node beyond \<open>Documents\<close>, storing kinds and ACLs and pinning, are the
  fields of \<open>boot_kubo\<close>.  The contract of the four loops that publish documents is the locale
  \<open>publisher\<close>.
\<close>

section \<open>The bootstrap file\<close>

record bootstrap_kind =
  bk_cid :: "ipld_link option"
  bk_type :: evaluator
  bk_behaviour :: "ipld_link option"
  bk_host_functions :: "string list"
  bk_attributes :: "json btree_map"
  bk_extends :: "string option"

record inline_entity =
  ie_kind :: string
  ie_behaviour :: "ipld_link option"
  ie_acl :: string
  ie_state :: "ipld_link option"
  ie_attributes :: "json btree_map"
  ie_init :: "string option"

datatype bootstrap_entity = BeCid cid | BeInline inline_entity

record bootstrap_runtime =
  br_kinds :: "bootstrap_kind btree_map"
  br_acl :: "acl_map option"
  br_entities :: "bootstrap_entity hash_map"
  br_acls :: "acl_map hash_map"
  br_grp :: "string list hash_map"

record 'w boot_kubo =
  bo_kubo :: "'w kubo"
  bo_put_kind :: "'w \<Rightarrow> kind_node \<Rightarrow> 'w \<times> cid option"
  bo_put_acl :: "'w \<Rightarrow> acl_map \<Rightarrow> 'w \<times> cid option"
  bo_pin_add :: "'w \<Rightarrow> cid \<Rightarrow> 'w \<times> bool"
  bo_remote_pin :: "'w \<Rightarrow> cid \<Rightarrow> 'w \<times> bool"

datatype boot_error = BoPut string | BoUnknownAcl string string | BoFetch string | BoPin

section \<open>Publishing\<close>

definition kind_of_bootstrap :: "string \<Rightarrow> bootstrap_kind \<Rightarrow> kind_node" where
  "kind_of_bootstrap protocol k =
     \<lparr>kn_protocol = protocol, kn_cid = bk_cid k, kn_type = bk_type k, kn_behaviour = bk_behaviour k,
      kn_behaviour_chain = [], kn_host_functions = bk_host_functions k, kn_attributes = bk_attributes k,
      kn_extends = bk_extends k\<rparr>"

definition entity_of_bootstrap :: "inline_entity \<Rightarrow> entity_node" where
  "entity_of_bootstrap e =
     \<lparr>en_kind = ie_kind e, en_behaviour = ie_behaviour e, en_acl = ie_acl e, en_state = ie_state e, en_parent = None,
      en_label = None, en_attributes = ie_attributes e, en_init = ie_init e, en_initialised = False, en_reload_error = None\<rparr>"

text \<open>The loops: one document after the other, the first failure ends it.\<close>

fun publish_all ::
  "('w \<Rightarrow> string \<Rightarrow> 'x \<Rightarrow> 'w \<times> (boot_error + cid)) \<Rightarrow> (string \<times> 'x) list \<Rightarrow> 'w \<Rightarrow> 'w \<times> (boot_error + (string \<times> cid) list)" where
  "publish_all publish [] w = (w, Inr [])"
| "publish_all publish ((name, x) # xs) w =
     (case publish w name x of
        (w1, Inl e) \<Rightarrow> (w1, Inl e)
      | (w1, Inr c) \<Rightarrow>
          (case publish_all publish xs w1 of (w2, Inl e) \<Rightarrow> (w2, Inl e) | (w2, Inr ls) \<Rightarrow> (w2, Inr ((name, c) # ls))))"

definition stored :: "string \<Rightarrow> 'w \<times> cid option \<Rightarrow> 'w \<times> (boot_error + cid)" where
  "stored name r = (case r of (w, None) \<Rightarrow> (w, Inl (BoPut name)) | (w, Some c) \<Rightarrow> (w, Inr c))"

definition publish_kind :: "'w boot_kubo \<Rightarrow> 'w \<Rightarrow> string \<Rightarrow> bootstrap_kind \<Rightarrow> 'w \<times> (boot_error + cid)" where
  "publish_kind B w protocol k = stored protocol (bo_put_kind B w (kind_of_bootstrap protocol k))"

definition publish_kinds :: "'w boot_kubo \<Rightarrow> bootstrap_runtime \<Rightarrow> 'w \<Rightarrow> 'w \<times> (boot_error + kind_tree)" where
  "publish_kinds B cfg w =
     (case publish_all (publish_kind B) (br_kinds cfg) w of
        (w', Inl e) \<Rightarrow> (w', Inl e)
      | (w', Inr ls) \<Rightarrow> (w', Inr (fold (\<lambda>(protocol, link). insert_protocol protocol link) ls [])))"

definition publish_entity ::
  "'w boot_kubo \<Rightarrow> acl_map hash_map \<Rightarrow> 'w \<Rightarrow> string \<Rightarrow> bootstrap_entity \<Rightarrow> 'w \<times> (boot_error + cid)" where
  "publish_entity B acls w name be =
     (case be of
        BeCid c \<Rightarrow> (w, Inr c)
      | BeInline e \<Rightarrow>
          if ie_acl e \<noteq> [] \<and> map_of acls (ie_acl e) = None then (w, Inl (BoUnknownAcl name (ie_acl e)))
          else stored name (dag_put_entity (bo_kubo B) w (entity_of_bootstrap e)))"

definition publish_entities :: "'w boot_kubo \<Rightarrow> bootstrap_runtime \<Rightarrow> 'w \<Rightarrow> 'w \<times> (boot_error + ipld_link hash_map)" where
  "publish_entities B cfg = publish_all (publish_entity B (br_acls cfg)) (br_entities cfg)"

definition publish_acl :: "'w boot_kubo \<Rightarrow> 'w \<Rightarrow> string \<Rightarrow> acl_map \<Rightarrow> 'w \<times> (boot_error + cid)" where
  "publish_acl B w name acl = stored name (bo_put_acl B w acl)"

definition publish_named_acls :: "'w boot_kubo \<Rightarrow> bootstrap_runtime \<Rightarrow> 'w \<Rightarrow> 'w \<times> (boot_error + ipld_link hash_map)" where
  "publish_named_acls B cfg = publish_all (publish_acl B) (br_acls cfg)"

definition publish_group :: "'w boot_kubo \<Rightarrow> 'w \<Rightarrow> string \<Rightarrow> string list \<Rightarrow> 'w \<times> (boot_error + cid)" where
  "publish_group B w name members = stored name (dag_put_strings (bo_kubo B) w members)"

definition publish_groups :: "'w boot_kubo \<Rightarrow> bootstrap_runtime \<Rightarrow> 'w \<Rightarrow> 'w \<times> (boot_error + ipld_link hash_map)" where
  "publish_groups B cfg = publish_all (publish_group B) (br_grp cfg)"

text \<open>The root ACL with every capability for the members of the group \<open>owners\<close>.\<close>

definition root_acl_of :: "bootstrap_runtime \<Rightarrow> acl_map" where
  "root_acl_of cfg =
     fold (\<lambda>owner. AList.update owner (Allow {''*''}))
       (case map_of (br_grp cfg) ''owners'' of None \<Rightarrow> [] | Some os \<Rightarrow> os)
       (case br_acl cfg of None \<Rightarrow> [] | Some a \<Rightarrow> a)"

definition publish_root_acl :: "'w boot_kubo \<Rightarrow> bootstrap_runtime \<Rightarrow> 'w \<Rightarrow> 'w \<times> (boot_error + cid)" where
  "publish_root_acl B cfg w = publish_acl B w ''acl'' (root_acl_of cfg)"

definition bind_w :: "'w \<times> ('e + 'a) \<Rightarrow> ('a \<Rightarrow> 'w \<Rightarrow> 'w \<times> ('e + 'b)) \<Rightarrow> 'w \<times> ('e + 'b)" where
  "bind_w r f = (case r of (w, Inl e) \<Rightarrow> (w, Inl e) | (w, Inr x) \<Rightarrow> f x w)"

text \<open>
  The pins: the remote one and the swap of an old local one may fail, a new local pin may not.
  \<open>langs\<close> is the bundled language map.
\<close>

definition pin_root :: "'w boot_kubo \<Rightarrow> cid option \<Rightarrow> cid \<Rightarrow> 'w \<Rightarrow> 'w \<times> (boot_error + cid)" where
  "pin_root B old root w0 =
     (let w = fst (bo_remote_pin B w0 root) in
      case old of
        Some old_cid \<Rightarrow> (fst (Documents.pin_update (bo_kubo B) w old_cid root), Inr root)
      | None \<Rightarrow> (case bo_pin_add B w root of (w', True) \<Rightarrow> (w', Inr root) | (w', False) \<Rightarrow> (w', Inl BoPin)))"

definition bootstrap_manifest ::
  "cid \<Rightarrow> ipld_link hash_map \<Rightarrow> kind_tree \<Rightarrow> ipld_link hash_map \<Rightarrow> ipld_link hash_map \<Rightarrow> yaml btree_map \<Rightarrow> string
     \<Rightarrow> ipld_link hash_map \<Rightarrow> runtime_manifest" where
  "bootstrap_manifest acl acls kinds entities grp config lang langs =
     \<lparr>rm_acl = Some acl, rm_acls = acls, rm_protocol = ''/ma/runtime/0.1.0'', rm_kinds = kinds, rm_entities = entities,
      rm_i18n = langs, rm_grp = grp,
      rm_config = (if map_of langs lang \<noteq> None then bt_insert ''i18n'' (YString lang) config else config)\<rparr>"

definition build_manifest ::
  "'w boot_kubo \<Rightarrow> bootstrap_runtime \<Rightarrow> yaml btree_map \<Rightarrow> string \<Rightarrow> ipld_link hash_map \<Rightarrow> cid option \<Rightarrow> 'w \<Rightarrow> 'w \<times> (boot_error + cid)" where
  "build_manifest B cfg config lang langs old w =
     bind_w (publish_kinds B cfg w) (\<lambda>kinds w.
     bind_w (publish_entities B cfg w) (\<lambda>entities w.
     bind_w (publish_named_acls B cfg w) (\<lambda>acls w.
     bind_w (publish_groups B cfg w) (\<lambda>grp w.
     bind_w (publish_root_acl B cfg w) (\<lambda>acl w.
     bind_w (stored ''root'' (dag_put_manifest (bo_kubo B) w (bootstrap_manifest acl acls kinds entities grp config lang langs)))
       (\<lambda>root w. pin_root B old root w))))))"

section \<open>Exporting\<close>

definition bootstrap_of_kind :: "kind_node \<Rightarrow> bootstrap_kind" where
  "bootstrap_of_kind n =
     \<lparr>bk_cid = kn_cid n, bk_type = kn_type n, bk_behaviour = kn_behaviour n, bk_host_functions = kn_host_functions n,
      bk_attributes = kn_attributes n, bk_extends = kn_extends n\<rparr>"

definition bootstrap_of_entity :: "entity_node \<Rightarrow> bootstrap_entity" where
  "bootstrap_of_entity n =
     BeInline \<lparr>ie_kind = en_kind n, ie_behaviour = en_behaviour n, ie_acl = en_acl n, ie_state = en_state n,
       ie_attributes = en_attributes n, ie_init = en_init n\<rparr>"

fun fetch_named :: "(cid \<Rightarrow> 'd option) \<Rightarrow> ('d \<Rightarrow> 'x) \<Rightarrow> (string \<times> cid) list \<Rightarrow> boot_error + (string \<times> 'x) list" where
  "fetch_named get f [] = Inr []"
| "fetch_named get f ((name, link) # ls) =
     (case get link of
        None \<Rightarrow> Inl (BoFetch name)
      | Some d \<Rightarrow> (case fetch_named get f ls of Inl e \<Rightarrow> Inl e | Inr xs \<Rightarrow> Inr ((name, f d) # xs)))"

definition bind_r :: "'e + 'a \<Rightarrow> ('a \<Rightarrow> 'e + 'b) \<Rightarrow> 'e + 'b" where
  "bind_r r f = (case r of Inl e \<Rightarrow> Inl e | Inr x \<Rightarrow> f x)"

definition fetch_root_acl :: "'w kubo \<Rightarrow> 'w \<Rightarrow> ipld_link option \<Rightarrow> boot_error + acl_map option" where
  "fetch_root_acl K w link =
     (case link of
        None \<Rightarrow> Inr None
      | Some c \<Rightarrow> (case dag_get_acl K w c of None \<Rightarrow> Inl (BoFetch ''acl'') | Some a \<Rightarrow> Inr (Some a)))"

text \<open>The kinds go into an ordered map, protocol by protocol.\<close>

definition export_bootstrap :: "'w kubo \<Rightarrow> cid \<Rightarrow> 'w \<Rightarrow> boot_error + bootstrap_runtime" where
  "export_bootstrap K root w =
     (case dag_get_manifest K w root of
        None \<Rightarrow> Inl (BoFetch ''root'')
      | Some m \<Rightarrow>
          bind_r (fetch_named (dag_get_kind K w) bootstrap_of_kind (iter_protocols (rm_kinds m))) (\<lambda>kinds.
          bind_r (fetch_named (dag_get_entity K w) bootstrap_of_entity (rm_entities m)) (\<lambda>entities.
          bind_r (fetch_named (dag_get_acl K w) id (rm_acls m)) (\<lambda>acls.
          bind_r (fetch_named (dag_get_strings K w) id (rm_grp m)) (\<lambda>grp.
          bind_r (fetch_root_acl K w (rm_acl m)) (\<lambda>acl.
          Inr \<lparr>br_kinds = fold (\<lambda>(p, k). bt_insert p k) kinds [], br_acl = acl, br_entities = entities, br_acls = acls,
               br_grp = grp\<rparr>))))))"

section \<open>The publisher contract\<close>

text \<open>
  What the four publishing loops share: one request publishes one named document, every later state of
  the node still has it.
\<close>

locale publisher =
  fixes keeps :: "'w \<Rightarrow> 'w \<Rightarrow> bool"
    and publish :: "'w \<Rightarrow> string \<Rightarrow> 'x \<Rightarrow> 'w \<times> (boot_error + cid)"
    and published :: "'w \<Rightarrow> cid \<Rightarrow> string \<Rightarrow> 'x \<Rightarrow> bool"
  assumes keeps_refl: "keeps w w"
    and keeps_trans: "keeps w w' \<Longrightarrow> keeps w' w'' \<Longrightarrow> keeps w w''"
    and keeps_published: "keeps w w' \<Longrightarrow> published w c n x \<Longrightarrow> published w' c n x"
    and publish_keeps: "publish w n x = (w', r) \<Longrightarrow> keeps w w'"
    and publish_ok: "publish w n x = (w', Inr c) \<Longrightarrow> published w' c n x"
begin

lemma publish_all_keeps: "publish_all publish xs w = (w', r) \<Longrightarrow> keeps w w'"
proof (induction xs arbitrary: w r)
  case (Cons nx xs)
  obtain n x where nx: "nx = (n, x)" by (cases nx)
  obtain w1 r1 where one: "publish w n x = (w1, r1)" by (cases "publish w n x")
  show ?case
  proof (cases r1)
    case (Inr c)
    with Cons.prems nx one obtain r2 where "publish_all publish xs w1 = (w', r2)"
      by (auto split: prod.splits sum.splits)
    from keeps_trans[OF publish_keeps[OF one] Cons.IH[OF this]] show ?thesis .
  qed (use Cons.prems nx one publish_keeps in auto)
qed (simp add: keeps_refl)

lemma publish_all_published:
  "publish_all publish xs w = (w', Inr ls) \<Longrightarrow> list_all2 (\<lambda>(n, x) (m, c). m = n \<and> published w' c n x) xs ls"
proof (induction xs arbitrary: w ls)
  case (Cons nx xs)
  obtain n x where nx: "nx = (n, x)" by (cases nx)
  from Cons.prems nx obtain w1 c ls' where r: "publish w n x = (w1, Inr c)" "publish_all publish xs w1 = (w', Inr ls')"
    "ls = (n, c) # ls'"
    by (auto split: prod.splits sum.splits)
  have "published w' c n x"
    by (rule keeps_published[OF publish_all_keeps[OF r(2)] publish_ok[OF r(1)]])
  with Cons.IH[OF r(2)] r(3) nx show ?case by simp
qed simp

end

definition boot_keeps :: "'w boot_kubo \<Rightarrow> 'w \<Rightarrow> 'w \<Rightarrow> bool" where
  "boot_keeps B w w' =
     (node_keeps (bo_kubo B) w w' \<and>
      (\<forall>c k. dag_get_kind (bo_kubo B) w c = Some k \<longrightarrow> dag_get_kind (bo_kubo B) w' c = Some k))"

definition put_ok :: "'w boot_kubo \<Rightarrow> ('w \<Rightarrow> 'd \<Rightarrow> 'w \<times> cid option) \<Rightarrow> ('w \<Rightarrow> cid \<Rightarrow> 'd option) \<Rightarrow> bool" where
  "put_ok B put get =
     (\<forall>w d. boot_keeps B w (fst (put w d)) \<and>
        (\<forall>c. snd (put w d) = Some c \<longrightarrow> get (fst (put w d)) c = Some d))"

definition boot_ok :: "'w boot_kubo \<Rightarrow> bool" where
  "boot_ok B =
     (put_ok B (bo_put_kind B) (dag_get_kind (bo_kubo B)) \<and>
      put_ok B (bo_put_acl B) (dag_get_acl (bo_kubo B)) \<and>
      put_ok B (dag_put_entity (bo_kubo B)) (dag_get_entity (bo_kubo B)) \<and>
      put_ok B (dag_put_strings (bo_kubo B)) (dag_get_strings (bo_kubo B)) \<and>
      put_ok B (dag_put_manifest (bo_kubo B)) (dag_get_manifest (bo_kubo B)) \<and>
      (\<forall>w c. boot_keeps B w (fst (bo_pin_add B w c))) \<and>
      (\<forall>w c. boot_keeps B w (fst (bo_remote_pin B w c))) \<and>
      (\<forall>w c d. boot_keeps B w (fst (Documents.pin_update (bo_kubo B) w c d))))"

lemma boot_keeps_refl [simp]: "boot_keeps B w w"
  by (simp add: boot_keeps_def)

lemma boot_keeps_trans: "boot_keeps B w w' \<Longrightarrow> boot_keeps B w' w'' \<Longrightarrow> boot_keeps B w w''"
  unfolding boot_keeps_def using node_keeps_trans by metis

lemma boot_keepsD:
  assumes "boot_keeps B w w'"
  shows "dag_get_kind (bo_kubo B) w c = Some k \<Longrightarrow> dag_get_kind (bo_kubo B) w' c = Some k"
    and "dag_get_entity (bo_kubo B) w c = Some e \<Longrightarrow> dag_get_entity (bo_kubo B) w' c = Some e"
    and "dag_get_acl (bo_kubo B) w c = Some a \<Longrightarrow> dag_get_acl (bo_kubo B) w' c = Some a"
    and "dag_get_strings (bo_kubo B) w c = Some ss \<Longrightarrow> dag_get_strings (bo_kubo B) w' c = Some ss"
    and "dag_get_manifest (bo_kubo B) w c = Some m \<Longrightarrow> dag_get_manifest (bo_kubo B) w' c = Some m"
  using assms unfolding boot_keeps_def node_keeps_def by blast+

lemma stored_ok:
  assumes "put_ok B put get" and "stored name (put w d) = (w', r)"
  shows "boot_keeps B w w'" and "r = Inr c \<Longrightarrow> get w' c = Some d"
  using assms unfolding put_ok_def stored_def
  by (auto split: prod.splits option.splits) (metis fst_conv snd_conv)+

interpretation kind_publisher: publisher "\<lambda>w w'. boot_ok B \<longrightarrow> boot_keeps B w w'" "publish_kind B"
  "\<lambda>w c n x. boot_ok B \<longrightarrow> dag_get_kind (bo_kubo B) w c = Some (kind_of_bootstrap n x)" for B
proof unfold_locales
  fix w n x w' r c
  show "publish_kind B w n x = (w', r) \<Longrightarrow> boot_ok B \<longrightarrow> boot_keeps B w w'"
    using stored_ok(1)[of B "bo_put_kind B" "dag_get_kind (bo_kubo B)"] by (auto simp: publish_kind_def boot_ok_def)
  show "publish_kind B w n x = (w', Inr c) \<Longrightarrow> boot_ok B \<longrightarrow> dag_get_kind (bo_kubo B) w' c = Some (kind_of_bootstrap n x)"
    using stored_ok(2)[of B "bo_put_kind B" "dag_get_kind (bo_kubo B)"] by (auto simp: publish_kind_def boot_ok_def)
qed (auto intro: boot_keeps_trans boot_keepsD)


interpretation acl_publisher: publisher "\<lambda>w w'. boot_ok B \<longrightarrow> boot_keeps B w w'" "publish_acl B"
  "\<lambda>w c n a. boot_ok B \<longrightarrow> dag_get_acl (bo_kubo B) w c = Some a" for B
proof unfold_locales
  fix w n x w' r c
  show "publish_acl B w n x = (w', r) \<Longrightarrow> boot_ok B \<longrightarrow> boot_keeps B w w'"
    using stored_ok(1)[of B "bo_put_acl B" "dag_get_acl (bo_kubo B)"] by (auto simp: publish_acl_def boot_ok_def)
  show "publish_acl B w n x = (w', Inr c) \<Longrightarrow> boot_ok B \<longrightarrow> dag_get_acl (bo_kubo B) w' c = Some x"
    using stored_ok(2)[of B "bo_put_acl B" "dag_get_acl (bo_kubo B)"] by (auto simp: publish_acl_def boot_ok_def)
qed (auto intro: boot_keeps_trans boot_keepsD)

interpretation group_publisher: publisher "\<lambda>w w'. boot_ok B \<longrightarrow> boot_keeps B w w'" "publish_group B"
  "\<lambda>w c n ms. boot_ok B \<longrightarrow> dag_get_strings (bo_kubo B) w c = Some ms" for B
proof unfold_locales
  fix w n x w' r c
  show "publish_group B w n x = (w', r) \<Longrightarrow> boot_ok B \<longrightarrow> boot_keeps B w w'"
    using stored_ok(1)[of B "dag_put_strings (bo_kubo B)" "dag_get_strings (bo_kubo B)"]
    by (auto simp: publish_group_def boot_ok_def)
  show "publish_group B w n x = (w', Inr c) \<Longrightarrow> boot_ok B \<longrightarrow> dag_get_strings (bo_kubo B) w' c = Some x"
    using stored_ok(2)[of B "dag_put_strings (bo_kubo B)" "dag_get_strings (bo_kubo B)"]
    by (auto simp: publish_group_def boot_ok_def)
qed (auto intro: boot_keeps_trans boot_keepsD)

text \<open>A pre-published entity is the link itself.\<close>

definition entity_published :: "'w boot_kubo \<Rightarrow> 'w \<Rightarrow> cid \<Rightarrow> bootstrap_entity \<Rightarrow> bool" where
  "entity_published B w c be =
     (case be of BeCid d \<Rightarrow> c = d | BeInline e \<Rightarrow> dag_get_entity (bo_kubo B) w c = Some (entity_of_bootstrap e))"

interpretation entity_publisher: publisher "\<lambda>w w'. boot_ok B \<longrightarrow> boot_keeps B w w'" "publish_entity B acls"
  "\<lambda>w c n be. boot_ok B \<longrightarrow> entity_published B w c be" for B acls
proof unfold_locales
  fix w n x w' r c
  show "publish_entity B acls w n x = (w', r) \<Longrightarrow> boot_ok B \<longrightarrow> boot_keeps B w w'"
    using stored_ok(1)[of B "dag_put_entity (bo_kubo B)" "dag_get_entity (bo_kubo B)"]
    by (auto simp: publish_entity_def boot_ok_def split: bootstrap_entity.splits if_splits)
  show "publish_entity B acls w n x = (w', Inr c) \<Longrightarrow> boot_ok B \<longrightarrow> entity_published B w' c x"
    using stored_ok(2)[of B "dag_put_entity (bo_kubo B)" "dag_get_entity (bo_kubo B)"]
    by (auto simp: publish_entity_def entity_published_def boot_ok_def split: bootstrap_entity.splits if_splits)
qed (auto intro: boot_keeps_trans boot_keepsD simp: entity_published_def split: bootstrap_entity.splits)

lemma pin_root_Inr:
  assumes "boot_ok B" and "pin_root B old root w = (w', Inr c)"
  shows "boot_keeps B w w' \<and> c = root"
proof -
  let ?w = "fst (bo_remote_pin B w root)"
  have "boot_keeps B w ?w" using assms(1) by (simp add: boot_ok_def)
  moreover have "boot_keeps B ?w w' \<and> c = root"
    using assms fst_conv[of w' "True"]
    by (auto simp: pin_root_def boot_ok_def Let_def split: option.splits prod.splits bool.splits) (metis fst_conv)+
  ultimately show ?thesis using boot_keeps_trans[of B w ?w w'] by blast
qed

lemma bind_w_Inr: "bind_w r f = (w', Inr y) \<longleftrightarrow> (\<exists>w x. r = (w, Inr x) \<and> f x w = (w', Inr y))"
  by (auto simp: bind_w_def split: prod.splits sum.splits)

lemma bind_r_Inr: "bind_r r f = Inr y \<longleftrightarrow> (\<exists>x. r = Inr x \<and> f x = Inr y)"
  by (auto simp: bind_r_def split: sum.splits)

lemma list_all2_keeps:
  "list_all2 (\<lambda>(n, x) (m, c). m = n \<and> P c n x) xs ls \<Longrightarrow> (\<And>c n x. P c n x \<Longrightarrow> Q c n x) \<Longrightarrow>
   list_all2 (\<lambda>(n, x) (m, c). m = n \<and> Q c n x) xs ls"
  by (erule list_all2_mono) auto

lemma build_manifest_Inr:
  assumes ok: "boot_ok B" and "build_manifest B cfg config lang langs old w = (w', Inr root)"
  shows "\<exists>acl acls kinds entities grp.
     dag_get_manifest (bo_kubo B) w' root
       = Some (bootstrap_manifest acl acls (fold (\<lambda>(p, l). insert_protocol p l) kinds []) entities grp config lang langs) \<and>
     list_all2 (\<lambda>(n, x) (m, c). m = n \<and> dag_get_kind (bo_kubo B) w' c = Some (kind_of_bootstrap n x)) (br_kinds cfg) kinds \<and>
     list_all2 (\<lambda>(n, x) (m, c). m = n \<and> entity_published B w' c x) (br_entities cfg) entities \<and>
     list_all2 (\<lambda>(n, x) (m, c). m = n \<and> dag_get_acl (bo_kubo B) w' c = Some x) (br_acls cfg) acls \<and>
     list_all2 (\<lambda>(n, x) (m, c). m = n \<and> dag_get_strings (bo_kubo B) w' c = Some x) (br_grp cfg) grp \<and>
     dag_get_acl (bo_kubo B) w' acl = Some (root_acl_of cfg)"
proof -
  from assms(2) obtain w1 kinds w2 entities w3 acls w4 grp w5 acl w6 c where
    r1: "publish_all (publish_kind B) (br_kinds cfg) w = (w1, Inr kinds)" and
    r2: "publish_all (publish_entity B (br_acls cfg)) (br_entities cfg) w1 = (w2, Inr entities)" and
    r3: "publish_all (publish_acl B) (br_acls cfg) w2 = (w3, Inr acls)" and
    r4: "publish_all (publish_group B) (br_grp cfg) w3 = (w4, Inr grp)" and
    r5: "publish_acl B w4 ''acl'' (root_acl_of cfg) = (w5, Inr acl)" and
    r6: "stored ''root'' (dag_put_manifest (bo_kubo B) w5
           (bootstrap_manifest acl acls (fold (\<lambda>(p, l). insert_protocol p l) kinds []) entities grp config lang langs))
         = (w6, Inr c)" and
    r7: "pin_root B old c w6 = (w', Inr root)"
    by (auto simp: build_manifest_def bind_w_Inr publish_kinds_def publish_entities_def publish_named_acls_def
        publish_groups_def publish_root_acl_def split: prod.splits sum.splits)
  note k = boot_keeps_trans[of B]
  have put: "put_ok B (dag_put_manifest (bo_kubo B)) (dag_get_manifest (bo_kubo B))" using ok by (simp add: boot_ok_def)
  note s7 = pin_root_Inr[OF ok r7]
  have k6: "boot_keeps B w6 w'" using s7 by blast
  have k5: "boot_keeps B w5 w'" using k[OF stored_ok(1)[OF put r6] k6] .
  have k4: "boot_keeps B w4 w'" using k[OF _ k5] acl_publisher.publish_keeps[OF r5] ok by blast
  have k3: "boot_keeps B w3 w'" using k[OF _ k4] group_publisher.publish_all_keeps[OF r4] ok by blast
  have k2: "boot_keeps B w2 w'" using k[OF _ k3] acl_publisher.publish_all_keeps[OF r3] ok by blast
  have k1: "boot_keeps B w1 w'" using k[OF _ k2] entity_publisher.publish_all_keeps[OF r2] ok by blast
  have "dag_get_manifest (bo_kubo B) w' root
       = Some (bootstrap_manifest acl acls (fold (\<lambda>(p, l). insert_protocol p l) kinds []) entities grp config lang langs)"
    using boot_keepsD(5)[OF k6 stored_ok(2)[OF put r6 refl]] s7 by simp
  moreover have "list_all2 (\<lambda>(n, x) (m, c). m = n \<and> dag_get_kind (bo_kubo B) w' c = Some (kind_of_bootstrap n x)) (br_kinds cfg) kinds"
    by (rule list_all2_keeps[OF kind_publisher.publish_all_published[OF r1]]) (use ok boot_keepsD(1)[OF k1] in blast)
  moreover have "list_all2 (\<lambda>(n, x) (m, c). m = n \<and> entity_published B w' c x) (br_entities cfg) entities"
    by (rule list_all2_keeps[OF entity_publisher.publish_all_published[OF r2]])
      (use ok boot_keepsD(2)[OF k2] in \<open>auto simp: entity_published_def split: bootstrap_entity.splits\<close>)
  moreover have "list_all2 (\<lambda>(n, x) (m, c). m = n \<and> dag_get_acl (bo_kubo B) w' c = Some x) (br_acls cfg) acls"
    by (rule list_all2_keeps[OF acl_publisher.publish_all_published[OF r3]]) (use ok boot_keepsD(3)[OF k3] in blast)
  moreover have "list_all2 (\<lambda>(n, x) (m, c). m = n \<and> dag_get_strings (bo_kubo B) w' c = Some x) (br_grp cfg) grp"
    by (rule list_all2_keeps[OF group_publisher.publish_all_published[OF r4]]) (use ok boot_keepsD(4)[OF k4] in blast)
  moreover have "dag_get_acl (bo_kubo B) w' acl = Some (root_acl_of cfg)"
    using acl_publisher.publish_ok[OF r5] ok boot_keepsD(3)[OF k5] by blast
  ultimately show ?thesis by blast
qed


section \<open>Exporting what was built\<close>

lemma fetch_named_Inr:
  "fetch_named get f ls = Inr xs \<longleftrightarrow>
     (\<forall>(n, l)\<in>set ls. get l \<noteq> None) \<and> xs = map (\<lambda>(n, l). (n, f (the (get l)))) ls"
proof (induction ls arbitrary: xs)
  case (Cons nl ls)
  obtain n l where nl: "nl = (n, l)" by (cases nl)
  show ?case
  proof (cases "get l = None \<or> (\<exists>e. fetch_named get f ls = Inl e)")
    case True
    then show ?thesis using nl Cons.IH by (force split: option.splits)
  next
    case False
    then obtain d xs' where "get l = Some d" "fetch_named get f ls = Inr xs'" by (metis not_None_eq sum.exhaust)
    with nl Cons.IH[of xs'] show ?thesis by auto
  qed
qed auto

lemma fetch_published:
  "list_all2 (\<lambda>(n, x) (m, c). m = n \<and> get c = Some (d x)) xs ls \<Longrightarrow>
     fetch_named get f ls = Inr (map (\<lambda>(n, x). (n, f (d x))) xs)"
  by (induction xs ls rule: list_all2_induct) (auto split: prod.splits)

lemma bt_inv_ext:
  assumes "bt_inv a" and "bt_inv b" and "map_of a = map_of b"
  shows "a = b"
proof (rule map_sorted_distinct_set_unique)
  have d: "distinct (map fst a)" "distinct (map fst b)"
    using assms(1,2) unfolding bt_inv_def by (simp_all add: strict_sorted_iff)
  show "set a = set b" using assms(3) d map_of_inject_set[of a b] by simp
  have "inj_on fst (set a)" using d(1) by (simp add: distinct_map)
  with \<open>set a = set b\<close> show "inj_on fst (set a \<union> set b)" by simp
qed (use assms(1,2) in \<open>auto simp: bt_inv_def strict_sorted_iff\<close>)

lemma iter_built_tree:
  assumes "distinct (map fst ls)" and "\<forall>p\<in>set (map fst ls). canonical p"
    and "\<forall>p\<in>set (map fst ls). \<forall>q\<in>set (map fst ls). path_compat (segments p) (segments q)"
  shows "set (iter_protocols (fold (\<lambda>(p, l). insert_protocol p l) ls [])) = set ls"
proof -
  let ?t = "fold (\<lambda>(p, l). insert_protocol p l) ls []"
  let ?ys = "map (\<lambda>(p, l). (segments p, l)) ls"
  have ok: "tree_ok ?t" by (simp add: tree_ok_fold tree_ok_Nil)
  have fold: "?t = fold (\<lambda>(p, l) t. kind_tree_insert t p l) ?ys []"
    by (rule insert_all_map)
  have inj: "segments p = segments q \<Longrightarrow> p = q" if "canonical p" "canonical q" for p q
    using that by (metis canonical_def)
  have uniq: "l = l'" if "(s, l) \<in> set ?ys" "(s, l') \<in> set ?ys" for s l l'
  proof -
    from that obtain p q where pq: "(p, l) \<in> set ls" "(q, l') \<in> set ls" "segments p = segments q" by auto
    have "canonical p" "canonical q" using pq(1,2) assms(2) by force+
    from inj[OF this pq(3)] pq(1,2) show ?thesis using eq_key_imp_eq_value[OF assms(1)] by simp
  qed
  have fit: "\<forall>p\<in>fst ` set ?ys. fits [] p" by (auto simp: fits_Nil segments_path(1))
  have compat: "\<forall>p\<in>fst ` set ?ys. \<forall>q\<in>fst ` set ?ys. path_compat p q" using assms(3) by force
  have "kind_tree_get ?t s = map_of ?ys s" for s
    unfolding fold using kt.get_overlay[OF fit compat, of s] uniq
    by (auto split: option.splits)
  moreover have "map_of ?ys (segments p) = Some l \<longleftrightarrow> (p, l) \<in> set ls" if "canonical p" for p l
  proof
    assume "map_of ?ys (segments p) = Some l"
    then obtain q where "(q, l) \<in> set ls" "segments q = segments p" by (auto dest!: map_of_SomeD)
    with inj[of q p] assms(2) that show "(p, l) \<in> set ls" by force
  next
    assume "(p, l) \<in> set ls"
    then have "(segments p, l) \<in> set ?ys" by force
    then show "map_of ?ys (segments p) = Some l"
      using uniq map_of_SomeD weak_map_of_SomeI[of "segments p" l ?ys] by metis
  qed
  ultimately have "get_protocol ?t p = Some l \<longleftrightarrow> (p, l) \<in> set ls" if "canonical p" for p l
    using that by (simp add: get_protocol_def)
  moreover have "(p, l) \<in> set ls \<Longrightarrow> canonical p" for p l using assms(2) by force
  ultimately have "(p, l) \<in> set (iter_protocols ?t) \<longleftrightarrow> (p, l) \<in> set ls" for p l
    unfolding iter_protocols_iff[OF ok] canonical_def by blast
  then show ?thesis by auto
qed


definition bootstrap_ok :: "bootstrap_runtime \<Rightarrow> bool" where
  "bootstrap_ok cfg =
     (bt_inv (br_kinds cfg) \<and> (\<forall>p\<in>set (map fst (br_kinds cfg)). canonical p) \<and>
      (\<forall>p\<in>set (map fst (br_kinds cfg)). \<forall>q\<in>set (map fst (br_kinds cfg)). path_compat (segments p) (segments q)) \<and>
      (\<forall>(n, be)\<in>set (br_entities cfg). \<exists>e. be = BeInline e))"

lemma bootstrap_of_kind_of [simp]: "bootstrap_of_kind (kind_of_bootstrap p k) = k"
  by (simp add: bootstrap_of_kind_def kind_of_bootstrap_def)

lemma fetch_kinds:
  assumes cfg: "bootstrap_ok cfg"
    and ls: "list_all2 (\<lambda>(n, x) (m, c). m = n \<and> get c = Some (kind_of_bootstrap n x)) (br_kinds cfg) ls"
  shows "\<exists>ks. fetch_named get bootstrap_of_kind (iter_protocols (fold (\<lambda>(p, l). insert_protocol p l) ls [])) = Inr ks
           \<and> fold (\<lambda>(p, k). bt_insert p k) ks [] = br_kinds cfg"
proof -
  let ?L = "iter_protocols (fold (\<lambda>(p, l). insert_protocol p l) ls [])"
  have keys: "map fst ls = map fst (br_kinds cfg)"
    using ls by (induction rule: list_all2_induct) auto
  have kset: "p \<in> fst ` set ls \<longleftrightarrow> p \<in> fst ` set (br_kinds cfg)" for p using keys by (metis list.set_map)
  have "distinct (map fst ls)" using cfg keys by (simp add: bootstrap_ok_def bt_inv_def strict_sorted_iff)
  then have L: "set ?L = set ls"
    by (rule iter_built_tree) (use cfg in \<open>unfold bootstrap_ok_def keys, blast+\<close>)
  have val: "get l = Some (kind_of_bootstrap p (the (map_of (br_kinds cfg) p)))" if "(p, l) \<in> set ls" for p l
  proof -
    from ls that obtain x where "(p, x) \<in> set (br_kinds cfg)" "get l = Some (kind_of_bootstrap p x)"
      by (induction rule: list_all2_induct) auto
    moreover have "distinct (map fst (br_kinds cfg))" using cfg by (simp add: bootstrap_ok_def bt_inv_def strict_sorted_iff)
    ultimately show ?thesis by (simp add: map_of_is_SomeI)
  qed
  let ?f = "\<lambda>p. the (map_of (br_kinds cfg) p)"
  let ?ks = "map (\<lambda>(p, l). (p, bootstrap_of_kind (the (get l)))) ?L"
  have "fetch_named get bootstrap_of_kind ?L = Inr ?ks" using L val by (auto simp: fetch_named_Inr)
  moreover have "?ks = map (\<lambda>p. (p, ?f p)) (map fst ?L)" using L val by auto
  then have fold: "fold (\<lambda>(p, k). bt_insert p k) ?ks [] = fold (\<lambda>p. bt_insert p (?f p)) (map fst ?L) []"
    by (simp only: fold_map comp_def prod.case)
  have "fold (\<lambda>p. bt_insert p (?f p)) (map fst ?L) [] = br_kinds cfg"
  proof (rule bt_inv_ext)
    show "map_of (fold (\<lambda>p. bt_insert p (?f p)) (map fst ?L) []) = map_of (br_kinds cfg)"
    proof
      fix p
      have "p \<in> set (map fst ?L) \<longleftrightarrow> map_of (br_kinds cfg) p \<noteq> None"
        using L kset by (simp add: map_of_eq_None_iff)
      moreover have "map_of (fold (\<lambda>p. bt_insert p (?f p)) (map fst ?L) []) p
          = (if p \<in> set (map fst ?L) then Some (?f p) else None)"
        using bt.fold_ins[of "[]" ?f "map fst ?L" p] by (simp only: bt_inv_Nil map_of.simps simp_thms)
      ultimately show "map_of (fold (\<lambda>p. bt_insert p (?f p)) (map fst ?L) []) p = map_of (br_kinds cfg) p"
        by auto
    qed
  qed (use cfg bt.fold_ins[of "[]" ?f "map fst ?L"] in \<open>simp_all add: bootstrap_ok_def\<close>)
  ultimately show ?thesis using fold by auto
qed

lemma entities_inline:
  assumes "list_all2 (\<lambda>(n, x) (m, c). m = n \<and> entity_published B w c x) xs ls"
    and "\<forall>(n, be)\<in>set xs. \<exists>e. be = BeInline e"
  shows "fetch_named (dag_get_entity (bo_kubo B) w) bootstrap_of_entity ls = Inr xs"
  using assms
  by (induction xs ls rule: list_all2_induct)
    (auto simp: entity_published_def bootstrap_of_entity_def entity_of_bootstrap_def)

subsection \<open>A concrete node and file for the witnesses\<close>

definition mem_boot :: "doc list boot_kubo" where
  "mem_boot =
     \<lparr>bo_kubo = mem_kubo, bo_put_kind = (\<lambda>w k. mem_put w (KindDoc k)), bo_put_acl = (\<lambda>w a. mem_put w (AclDoc a)),
      bo_pin_add = (\<lambda>w c. (w, True)), bo_remote_pin = (\<lambda>w c. (w, False))\<rparr>"

lemma mem_boot_put:
  assumes "\<And>w d. put w d = mem_put w (doc d)" and "\<And>w d. get (w @ [doc d]) (mem_cid (length w)) = Some d"
  shows "put_ok mem_boot put get"
  using mem_kubo_keeps assms
  by (auto simp: put_ok_def mem_boot_def boot_keeps_def mem_put_def mem_get_keeps split: option.splits doc.splits)

lemma mem_boot_ok: "boot_ok mem_boot"
  unfolding boot_ok_def
  by (intro conjI mem_boot_put[where doc = KindDoc] mem_boot_put[where doc = AclDoc] mem_boot_put[where doc = EntityDoc]
      mem_boot_put[where doc = StringsDoc] mem_boot_put[where doc = ManifestDoc])
    (simp_all add: mem_boot_def mem_kubo_def)

definition sample_boot :: bootstrap_runtime where
  "sample_boot =
     \<lparr>br_kinds = [(''/ma/actor'', \<lparr>bk_cid = Some ''bafyWasm'', bk_type = Extism, bk_behaviour = None, bk_host_functions = [],
        bk_attributes = [], bk_extends = None\<rparr>)],
      br_acl = None,
      br_entities = [(''fortune'', BeInline \<lparr>ie_kind = ''/ma/actor'', ie_behaviour = None, ie_acl = ''open'', ie_state = None,
        ie_attributes = [], ie_init = None\<rparr>)],
      br_acls = [(''open'', [(''*'', Allow {''*''})])], br_grp = [(''owners'', [''did:ma:alice''])]\<rparr>"

lemma sample_boot_ok: "bootstrap_ok sample_boot"
  by (simp add: bootstrap_ok_def sample_boot_def canonical_def segments_def trim_start_matches_def path_compat_def bt_inv_def)

lemmas build_defs = build_manifest_def bind_w_def publish_kinds_def publish_entities_def publish_named_acls_def
  publish_groups_def publish_root_acl_def publish_kind_def publish_entity_def publish_acl_def publish_group_def stored_def
  pin_root_def

lemma sample_build:
  "\<exists>w' root. build_manifest mem_boot sample_boot config lang langs None w = (w', Inr root)"
  by (simp add: build_defs sample_boot_def mem_boot_def mem_kubo_def mem_put_def)

text \<open>
  C27 (bootstrap). Building a manifest from a bootstrap file and exporting it gives the file back: every kind, entity,
  named ACL and group is the one the file has, and the root ACL is the file's with every capability for the members
  of the group \<open>owners\<close>.  The file's protocols are written canonically and none is a proper prefix of another (such a
  pair cannot both be in the tree), and its entities are inline.
\<close>

theorem bootstrap_export_roundtrip:
  assumes "boot_ok B" and "bootstrap_ok cfg"
    and "build_manifest B cfg config lang langs old w = (w', Inr root)"
  shows "export_bootstrap (bo_kubo B) root w' = Inr (cfg\<lparr>br_acl := Some (root_acl_of cfg)\<rparr>)"
proof -
  from build_manifest_Inr[OF assms(1,3)] obtain acl acls kinds entities grp where
    m: "dag_get_manifest (bo_kubo B) w' root
       = Some (bootstrap_manifest acl acls (fold (\<lambda>(p, l). insert_protocol p l) kinds []) entities grp config lang langs)"
    and k: "list_all2 (\<lambda>(n, x) (m, c). m = n \<and> dag_get_kind (bo_kubo B) w' c = Some (kind_of_bootstrap n x)) (br_kinds cfg) kinds"
    and e: "list_all2 (\<lambda>(n, x) (m, c). m = n \<and> entity_published B w' c x) (br_entities cfg) entities"
    and a: "list_all2 (\<lambda>(n, x) (m, c). m = n \<and> dag_get_acl (bo_kubo B) w' c = Some x) (br_acls cfg) acls"
    and g: "list_all2 (\<lambda>(n, x) (m, c). m = n \<and> dag_get_strings (bo_kubo B) w' c = Some x) (br_grp cfg) grp"
    and r: "dag_get_acl (bo_kubo B) w' acl = Some (root_acl_of cfg)"
    by blast
  obtain ks where "fetch_named (dag_get_kind (bo_kubo B) w') bootstrap_of_kind
        (iter_protocols (fold (\<lambda>(p, l). insert_protocol p l) kinds [])) = Inr ks"
    and "fold (\<lambda>(p, k). bt_insert p k) ks [] = br_kinds cfg"
    using fetch_kinds[OF assms(2) k] by blast
  moreover have "fetch_named (dag_get_entity (bo_kubo B) w') bootstrap_of_entity entities = Inr (br_entities cfg)"
    using entities_inline[OF e] assms(2) by (simp add: bootstrap_ok_def)
  moreover have "fetch_named (dag_get_acl (bo_kubo B) w') id acls = Inr (br_acls cfg)"
    using fetch_published[OF a, of id] by simp
  moreover have "fetch_named (dag_get_strings (bo_kubo B) w') id grp = Inr (br_grp cfg)"
    using fetch_published[OF g, of id] by simp
  ultimately show ?thesis
    using m r by (simp add: export_bootstrap_def bind_r_def bootstrap_manifest_def fetch_root_acl_def)
qed


theorem bootstrap_export_roundtrip_witness:
  "\<exists>w' root. build_manifest mem_boot sample_boot [] ''en'' [] None [] = (w', Inr root) \<and>
     export_bootstrap mem_kubo root w' = Inr (sample_boot\<lparr>br_acl := Some [(''did:ma:alice'', Allow {''*''})]\<rparr>)"
proof -
  obtain w' root where r: "build_manifest mem_boot sample_boot [] ''en'' [] None [] = (w', Inr root)"
    using sample_build by blast
  from bootstrap_export_roundtrip[OF mem_boot_ok sample_boot_ok this] r show ?thesis
    by (simp add: mem_boot_def root_acl_of_def) (simp add: sample_boot_def)
qed

text \<open>
  What an export followed by a build makes of a running tree: the entities keep their names, kinds, behaviours,
  ACLs, state, attributes and init payloads, but every one loses its parent and its label and counts as not yet
  initialised; the configuration is the caller's, not the exported manifest's.
\<close>

theorem export_forgets_tree:
  assumes "boot_ok B" and "dag_get_manifest (bo_kubo B) w root = Some m"
    and "export_bootstrap (bo_kubo B) root w = Inr cfg"
    and "build_manifest B cfg config lang langs old w = (w', Inr root')"
  shows "\<exists>m'. dag_get_manifest (bo_kubo B) w' root' = Some m' \<and>
      list_all2 (\<lambda>(n, l) (n', l'). n' = n \<and> (\<exists>e. dag_get_entity (bo_kubo B) w l = Some e \<and>
          dag_get_entity (bo_kubo B) w' l'
            = Some (e\<lparr>en_parent := None, en_label := None, en_initialised := False, en_reload_error := None\<rparr>)))
        (rm_entities m) (rm_entities m') \<and>
      rm_config m' = (if map_of langs lang \<noteq> None then bt_insert ''i18n'' (YString lang) config else config)"
proof -
  let ?get = "dag_get_entity (bo_kubo B) w"
  from assms(2,3) have all: "\<forall>(n, l)\<in>set (rm_entities m). ?get l \<noteq> None"
    and es: "br_entities cfg = map (\<lambda>(n, l). (n, bootstrap_of_entity (the (?get l)))) (rm_entities m)"
    by (auto simp: export_bootstrap_def bind_r_Inr fetch_named_Inr)
  from build_manifest_Inr[OF assms(1,4)] obtain acl acls kinds entities grp where
    m': "dag_get_manifest (bo_kubo B) w' root'
       = Some (bootstrap_manifest acl acls (fold (\<lambda>(p, l). insert_protocol p l) kinds []) entities grp config lang langs)"
    and e: "list_all2 (\<lambda>(n, x) (m, c). m = n \<and> entity_published B w' c x) (br_entities cfg) entities"
    by blast
  have "list_all2 (\<lambda>(n, l) (n', l'). n' = n \<and> (\<exists>e. ?get l = Some e \<and> dag_get_entity (bo_kubo B) w' l'
      = Some (e\<lparr>en_parent := None, en_label := None, en_initialised := False, en_reload_error := None\<rparr>)))
    (rm_entities m) entities"
    using e all unfolding es list_all2_map1
    by (elim list.rel_mono_strong)
      (fastforce simp: entity_published_def bootstrap_of_entity_def entity_of_bootstrap_def)
  with m' show ?thesis by (simp add: bootstrap_manifest_def)
qed


definition sample_child :: entity_node where
  "sample_child = sample_entity\<lparr>en_acl := [], en_parent := Some ''lobby'', en_initialised := True\<rparr>"

definition sample_tree :: "doc list" where
  "sample_tree = [EntityDoc sample_child, ManifestDoc (empty_manifest\<lparr>rm_entities := [(''fortune'', mem_cid 0)]\<rparr>)]"

theorem export_forgets_tree_witness:
  "\<exists>cfg w' root' m' l e. export_bootstrap mem_kubo (mem_cid 1) sample_tree = Inr cfg \<and>
     build_manifest mem_boot cfg [] ''en'' [] None sample_tree = (w', Inr root') \<and>
     dag_get_manifest mem_kubo w' root' = Some m' \<and> rm_entities m' = [(''fortune'', l)] \<and>
     en_parent sample_child = Some ''lobby'' \<and> dag_get_entity mem_kubo w' l = Some e \<and> en_parent e = None"
proof -
  let ?m = "empty_manifest\<lparr>rm_entities := [(''fortune'', mem_cid 0)]\<rparr>"
  have m: "dag_get_manifest (bo_kubo mem_boot) sample_tree (mem_cid 1) = Some ?m"
    by (simp add: mem_boot_def sample_tree_def)
  let ?cfg = "\<lparr>br_kinds = [], br_acl = None, br_entities = [(''fortune'', bootstrap_of_entity sample_child)],
      br_acls = [], br_grp = []\<rparr>"
  have cfg: "export_bootstrap (bo_kubo mem_boot) (mem_cid 1) sample_tree = Inr ?cfg"
    by (simp add: export_bootstrap_def mem_boot_def sample_tree_def empty_manifest_def bind_r_def fetch_root_acl_def
        iter_protocols_def protocol_ids_def)
  obtain w' root' where w: "build_manifest mem_boot ?cfg [] ''en'' [] None sample_tree = (w', Inr root')"
    by (simp add: build_defs mem_boot_def mem_kubo_def mem_put_def bootstrap_of_entity_def sample_child_def)
  from export_forgets_tree[OF mem_boot_ok m cfg w] m cfg w show ?thesis
    by (auto simp: list_all2_Cons1 mem_boot_def sample_tree_def sample_child_def)
qed

end
