(* ===== verification/Startup.thy ===== *)
theory Startup
  imports Settings Loading Bootstrap
begin

text \<open>
  The staged start of the daemon (\<open>src/boot.rs\<close>, with \<open>apply_kinds_overlay\<close> and \<open>run_bootstrap\<close> of \<open>src/bootstrap.rs\<close> and
  \<open>bootstrap_minimal_manifest\<close> of \<open>src/status.rs\<close>): command line and configuration, the choice of the runtime head, the
  loading of entities, ACLs, groups and owners, and the state the event loop starts from.  What comes from outside (files, \<open>ma_core\<close>,
  the readiness of Kubo) is in the record \<open>start_env\<close>.  The secret bundle, the network endpoint, logging and the status server
  are left out.
\<close>

section \<open>Command line and environment\<close>

record cli =
  cl_owner :: "string list"
  cl_gen_root_cid :: "string option"
  cl_gen_kinds_cid :: "string option"
  cl_bootstrap :: "string option"
  cl_root_cid :: "cid option"
  cl_kinds_cid :: "cid option"
  cl_poll_ms :: "u64 option"
  cl_i18n :: "string option"
  cl_status_bind :: "string option"

text \<open>
  \<open>su_read_yaml\<close> reads and parses a bootstrap file, \<open>su_put_kinds\<close> stores a kind tree, \<open>su_config\<close> is \<open>su_file\<close>, the content of
  \<open>config.yaml\<close>, with the arguments applied, \<open>su_generated\<close> the configuration of a first run, \<open>su_ipns_id\<close> the IPNS ID of the runtime's key, \<open>su_save_ok\<close> whether \<open>config.yaml\<close> can be written.
\<close>

record ('g, 'a, 'w) start_env =
  su_boot :: "'w boot_kubo"
  su_load :: "('g, 'a, 'w) boot_env"
  su_node :: "'w ipns_node"
  su_put_kinds :: "'w \<Rightarrow> kind_tree \<Rightarrow> 'w \<times> cid option"
  su_read_yaml :: "string \<Rightarrow> bootstrap_runtime option"
  su_langs :: "ipld_link hash_map"
  su_is_cid :: "string \<Rightarrow> bool"
  su_parse_addr :: "string \<Rightarrow> string option"
  su_exists :: "string \<Rightarrow> bool"
  su_config :: daemon_config
  su_file :: daemon_config
  su_generated :: "daemon_config option"
  su_config_path :: "string option"
  su_bundle_path :: string
  su_save_ok :: bool
  su_kubo_ready :: bool
  su_ipns_id :: string
  su_passphrase :: bool
  su_our_did :: string

abbreviation su_kubo :: "('g, 'a, 'w) start_env \<Rightarrow> 'w kubo" where
  "su_kubo E \<equiv> bo_kubo (su_boot E)"

datatype boot_failure =
    BfStart start_error | BfGenerate | BfNoBundle string | BfYaml string | BfBootstrap boot_error | BfSave | BfKuboReady

definition parse_and_sanitise :: "cli \<Rightarrow> cli" where
  "parse_and_sanitise c =
     c\<lparr>cl_root_cid := (case cl_root_cid c of None \<Rightarrow> None | Some r \<Rightarrow> if trim r = [] then None else Some (trim r))\<rparr>"

section \<open>Configuration\<close>

record started =
  sd_config :: daemon_config
  sd_lang :: "string option"
  sd_poll_ms :: u64
  sd_status_bind :: string

definition boot_new :: "('g, 'a, 'w) start_env \<Rightarrow> cli \<Rightarrow> boot_failure + started" where
  "boot_new E c =
     (let lang = (case cl_i18n c of
                    Some l \<Rightarrow> Some l
                  | None \<Rightarrow> Option.bind (map_of (dc_extra (su_config E)) ''i18n'') yaml_as_str);
          config = (if should_generate_headless_config (su_exists E) (su_config_path E) (su_bundle_path E)
                    then (case su_generated E of Some cfg \<Rightarrow> Inr cfg | None \<Rightarrow> Inl BfGenerate)
                    else if \<not> su_exists E (su_bundle_path E) then Inl (BfNoBundle (su_bundle_path E))
                    else Inr (su_config E))
      in case config of
           Inl e \<Rightarrow> Inl e
         | Inr cfg \<Rightarrow>
             (case select_poll_ms (cl_poll_ms c) cfg of
                Inl e \<Rightarrow> Inl (BfStart e)
              | Inr poll \<Rightarrow>
                  (case select_status_bind (su_parse_addr E) (cl_status_bind c) cfg of
                     Inl e \<Rightarrow> Inl (BfStart e)
                   | Inr bind \<Rightarrow> Inr \<lparr>sd_config = cfg, sd_lang = lang, sd_poll_ms = poll, sd_status_bind = bind\<rparr>)))"

section \<open>Early commands\<close>

definition run_bootstrap ::
  "('g, 'a, 'w) start_env \<Rightarrow> string \<Rightarrow> yaml btree_map \<Rightarrow> string \<Rightarrow> cid option \<Rightarrow> 'w \<Rightarrow> 'w \<times> (boot_failure + cid)" where
  "run_bootstrap E yaml_path config lang old w =
     (case su_read_yaml E yaml_path of
        None \<Rightarrow> (w, Inl (BfYaml yaml_path))
      | Some cfg \<Rightarrow>
          (case build_manifest (su_boot E) cfg config lang (su_langs E) old w of
             (w', Inl e) \<Rightarrow> (w', Inl (BfBootstrap e)) | (w', Inr root) \<Rightarrow> (w', Inr root)))"

definition run_kinds_bootstrap :: "('g, 'a, 'w) start_env \<Rightarrow> string \<Rightarrow> 'w \<Rightarrow> 'w \<times> (boot_failure + cid)" where
  "run_kinds_bootstrap E yaml_path w =
     (case su_read_yaml E yaml_path of
        None \<Rightarrow> (w, Inl (BfYaml yaml_path))
      | Some cfg \<Rightarrow>
          (case bind_w (publish_kinds (su_boot E) cfg w) (\<lambda>kinds w.
                 bind_w (stored ''kinds'' (su_put_kinds E w kinds)) (\<lambda>c w.
                 (case bo_pin_add (su_boot E) w c of (w', ok) \<Rightarrow> (w', if ok then Inr c else Inl BoPin)))) of
             (w', Inl e) \<Rightarrow> (w', Inl (BfBootstrap e)) | (w', Inr c) \<Rightarrow> (w', Inr c)))"

definition publish_bootstrap_manifest ::
  "('g, 'a, 'w) start_env \<Rightarrow> string \<Rightarrow> daemon_config \<Rightarrow> string option \<Rightarrow> cid option \<Rightarrow> 'w \<Rightarrow> 'w \<times> (boot_failure + cid)" where
  "publish_bootstrap_manifest E yaml_path cfg lang cli_root w =
     (if \<not> su_kubo_ready E then (w, Inl BfKuboReady)
      else run_bootstrap E yaml_path (runtime_manifest_config cfg) (case lang of None \<Rightarrow> ''nb'' | Some l \<Rightarrow> l) cli_root w)"

text \<open>The output of a command that ends the process, or the head that \<open>--bootstrap\<close> published.\<close>

datatype flow = Break string | Continue "cid option"

definition check_cid :: "(string \<Rightarrow> bool) \<Rightarrow> (cid \<Rightarrow> start_error) \<Rightarrow> cid option \<Rightarrow> boot_failure + unit" where
  "check_cid is_cid err c =
     (case c of None \<Rightarrow> Inr () | Some v \<Rightarrow> if is_cid v then Inr () else Inl (BfStart (err v)))"

definition bootstrap_head ::
  "('g, 'a, 'w) start_env \<Rightarrow> cli \<Rightarrow> started \<Rightarrow> 'w \<Rightarrow> 'w \<times> (boot_failure + cid option)" where
  "bootstrap_head E c st w =
     (case cl_bootstrap c of
        None \<Rightarrow> (w, Inr None)
      | Some path \<Rightarrow>
          bind_w (publish_bootstrap_manifest E path (sd_config st) (sd_lang st) (cl_root_cid c) w) (\<lambda>root w. (w, Inr (Some root))))"

definition run_cli_subcommands ::
  "('g, 'a, 'w) start_env \<Rightarrow> cli \<Rightarrow> started \<Rightarrow> 'w \<Rightarrow> 'w \<times> (boot_failure + flow)" where
  "run_cli_subcommands E c st w =
     (case (cl_gen_root_cid c, cl_gen_kinds_cid c) of
        (Some path, _) \<Rightarrow>
          bind_w (publish_bootstrap_manifest E path (sd_config st) (sd_lang st) (cl_root_cid c) w) (\<lambda>root w. (w, Inr (Break root)))
      | (None, Some path) \<Rightarrow>
          if \<not> su_kubo_ready E then (w, Inl BfKuboReady)
          else bind_w (run_kinds_bootstrap E path w) (\<lambda>k w. (w, Inr (Break k)))
      | (None, None) \<Rightarrow>
          bind_w (bootstrap_head E c st w) (\<lambda>bootstrap_root w.
            (case check_cid (su_is_cid E) SeRootCid (cl_root_cid c) of
               Inl e \<Rightarrow> (w, Inl e)
             | Inr _ \<Rightarrow>
                 (case check_cid (su_is_cid E) SeKindsCid (cl_kinds_cid c) of
                    Inl e \<Rightarrow> (w, Inl e) | Inr _ \<Rightarrow> (w, Inr (Continue bootstrap_root))))))"

section \<open>The head\<close>

definition apply_kinds_overlay :: "'w kubo \<Rightarrow> cid \<Rightarrow> cid \<Rightarrow> 'w \<Rightarrow> 'w \<times> (start_error + cid \<times> string list)" where
  "apply_kinds_overlay K root kinds_cid w =
     (case dag_get_manifest K w root of
        None \<Rightarrow> (w, Inl (SeManifest root))
      | Some m \<Rightarrow>
     (case dag_get_kinds K w kinds_cid of
        None \<Rightarrow> (w, Inl (SeKinds kinds_cid))
      | Some kinds \<Rightarrow>
     (case apply_kinds_tree_overlay (dag_get_kind K w) kinds m of
        Inl e \<Rightarrow> (w, Inl (SeOverlay e))
      | Inr (m', changed) \<Rightarrow>
          if changed = [] then (w, Inr (root, changed))
          else (case dag_put_manifest K w m' of
                  (w1, None) \<Rightarrow> (w1, Inl SePut)
                | (w1, Some new_root) \<Rightarrow> (fst (Documents.pin_update K w1 root new_root), Inr (new_root, changed))))))"

definition minimal_acl :: "string list \<Rightarrow> acl_map" where
  "minimal_acl owners =
     (if owners = [] then [(''*'', Allow {''*''})] else fold (\<lambda>d. AList.update d (Allow {''*''})) owners [])"

definition minimal_manifest :: "cid \<Rightarrow> cid \<Rightarrow> runtime_manifest" where
  "minimal_manifest acl_cid owners_cid =
     \<lparr>rm_acl = Some acl_cid, rm_acls = [], rm_protocol = [], rm_kinds = [], rm_entities = [], rm_i18n = [],
      rm_grp = [(''owners'', owners_cid)],
      rm_config = bt_insert ''description'' (YString DEFAULT_RUNTIME_DESCRIPTION)
                    (bt_insert ''name'' (YString DEFAULT_RUNTIME_NAME) [])\<rparr>"

definition bootstrap_minimal_manifest :: "'w boot_kubo \<Rightarrow> string list \<Rightarrow> 'w \<Rightarrow> 'w \<times> (boot_error + cid)" where
  "bootstrap_minimal_manifest B owners w =
     bind_w (stored ''acl'' (bo_put_acl B w (minimal_acl owners))) (\<lambda>acl_cid w.
     bind_w (stored ''owners'' (dag_put_strings (bo_kubo B) w owners)) (\<lambda>owners_cid w.
     bind_w (stored ''manifest'' (dag_put_manifest (bo_kubo B) w (minimal_manifest acl_cid owners_cid))) (\<lambda>root w.
     (case bo_pin_add B w root of (w', ok) \<Rightarrow> (w', if ok then Inr root else Inl BoPin)))))"

text \<open>
  Without a selected head it is looked up in IPNS; if there is none, a minimal manifest is published, and a failure of that leaves the
  daemon without a head.
\<close>

definition find_root ::
  "('g, 'a, 'w) start_env \<Rightarrow> cid option \<Rightarrow> cid option \<Rightarrow> 'w \<Rightarrow> 'w \<times> (start_error + cid option)" where
  "find_root E kinds_cid root w =
     (if root \<noteq> None then (w, Inr root)
      else (case resolve_runtime_root_cid_by_ipns_id (su_node E) (su_ipns_id E) w of
              Inl e \<Rightarrow> (w, Inl (SeIpns e))
            | Inr found \<Rightarrow>
                (case require_kinds_overlay_base kinds_cid found of
                   Inl e \<Rightarrow> (w, Inl e)
                 | Inr _ \<Rightarrow>
                     if found \<noteq> None then (w, Inr found)
                     else (case bootstrap_minimal_manifest (su_boot E) [] w of
                             (w', Inl e) \<Rightarrow> (w', Inr None) | (w', Inr c) \<Rightarrow> (w', Inr (Some c))))))"

definition resolve_startup_root_cid ::
  "('g, 'a, 'w) start_env \<Rightarrow> cid option \<Rightarrow> cid option \<Rightarrow> 'w \<Rightarrow> 'w \<times> (start_error + cid option)" where
  "resolve_startup_root_cid E kinds_cid root w =
     bind_w (find_root E kinds_cid root w) (\<lambda>root w.
       case (root, kinds_cid) of
         (Some rc, Some k) \<Rightarrow> bind_w (apply_kinds_overlay (su_kubo E) rc k w) (\<lambda>(new_root, changed) w. (w, Inr (Some new_root)))
       | _ \<Rightarrow> (w, Inr root))"

text \<open>The selected head is saved at once; a head found in IPNS or made here is not.\<close>

record headed =
  hd_config :: daemon_config
  hd_saved :: "daemon_config list"
  hd_root :: "cid option"
  hd_capacity :: u64
  hd_attempts :: u64

definition materialise_head :: "'w kubo \<Rightarrow> cid option \<Rightarrow> 'w \<Rightarrow> 'w \<times> (start_error + cid option \<times> u64)" where
  "materialise_head K root w =
     (case root of
        None \<Rightarrow> (w, Inr (None, DEFAULT_PLUGIN_ENVELOPE_QUEUE_CAPACITY))
      | Some rc \<Rightarrow> bind_w (materialise_plugin_envelope_queue_capacity K rc w) (\<lambda>(rc', n) w. (w, Inr (Some rc', n))))"

definition lift_start :: "'w \<times> (start_error + 'x) \<Rightarrow> 'w \<times> (boot_failure + 'x)" where
  "lift_start r = (case r of (w, Inl e) \<Rightarrow> (w, Inl (BfStart e)) | (w, Inr x) \<Rightarrow> (w, Inr x))"

definition persist_selected ::
  "bool \<Rightarrow> cid option \<Rightarrow> daemon_config \<Rightarrow> boot_failure + daemon_config \<times> daemon_config list" where
  "persist_selected save_ok root cfg =
     (case root of
        None \<Rightarrow> Inr (cfg, [])
      | Some rc \<Rightarrow>
          if root_cid_setting cfg = Some rc then Inr (cfg, [])
          else if \<not> save_ok then Inl BfSave
          else Inr (put_extra ''root_cid'' (YString rc) cfg, [put_extra ''root_cid'' (YString rc) cfg]))"

definition build_identity_and_resolve_root ::
  "('g, 'a, 'w) start_env \<Rightarrow> cli \<Rightarrow> started \<Rightarrow> cid option \<Rightarrow> 'w \<Rightarrow> 'w \<times> (boot_failure + headed)" where
  "build_identity_and_resolve_root E c st bootstrap_root w =
     (case select_root_cid (su_is_cid E) (cl_root_cid c) bootstrap_root (sd_config st) of
        Inl e \<Rightarrow> (w, Inl (BfStart e))
      | Inr selected \<Rightarrow>
     (case persist_selected (su_save_ok E) selected (sd_config st) of
        Inl e \<Rightarrow> (w, Inl e)
      | Inr (cfg, saved) \<Rightarrow>
          if (case selected of None \<Rightarrow> False | Some rc \<Rightarrow> \<not> su_is_cid E rc) then (w, Inl (BfStart (SeRootCid (the selected))))
          else if \<not> su_kubo_ready E then (w, Inl BfKuboReady)
          else
            bind_w (lift_start (resolve_startup_root_cid E (cl_kinds_cid c) selected w)) (\<lambda>root w.
            bind_w (lift_start (materialise_head (su_kubo E) root w)) (\<lambda>(root, capacity) w.
              (case outbox_backoff_attempts (map_of (dc_extra cfg) ''outbox_backoff_attempts'') of
                 Inl e \<Rightarrow> (w, Inl (BfStart (SeSetting e)))
               | Inr attempts \<Rightarrow>
                   (w, Inr \<lparr>hd_config = cfg, hd_saved = saved, hd_root = root, hd_capacity = capacity, hd_attempts = attempts\<rparr>))))))"

section \<open>ACLs, groups and owners\<close>

text \<open>Documents that cannot be loaded are skipped with a warning; the first match in a hash map is the only one.\<close>

definition load_all :: "(cid \<Rightarrow> 'd option) \<Rightarrow> (string \<Rightarrow> string) \<Rightarrow> ipld_link hash_map \<Rightarrow> (string \<times> 'd) list" where
  "load_all fetch key links = List.map_filter (\<lambda>(name, link). map_option (Pair (key name)) (fetch link)) links"

definition insert_all :: "(string \<times> 'd) list \<Rightarrow> 'd hash_map \<Rightarrow> 'd hash_map" where
  "insert_all = fold (\<lambda>(k, v). AList.update k v)"

record caches =
  ca_acl :: acl_map
  ca_acls :: acl_cache
  ca_groups :: group_cache
  ca_owners :: "string list"

definition populate_acl_and_group_caches :: "'w kubo \<Rightarrow> 'w \<Rightarrow> cid option \<Rightarrow> caches" where
  "populate_acl_and_group_caches K w root =
     (let empty = \<lparr>ca_acl = [], ca_acls = [], ca_groups = [], ca_owners = []\<rparr> in
      case Option.bind root (dag_get_manifest K w) of
        None \<Rightarrow> empty
      | Some m \<Rightarrow>
          (let groups = load_all (dag_get_strings K w) id (rm_grp m);
               acls = load_all (dag_get_acl K w) acl_cache_key (rm_acls m)
           in \<lparr>ca_acl = (case Option.bind (rm_acl m) (dag_get_acl K w) of None \<Rightarrow> [] | Some a \<Rightarrow> a),
               ca_acls = insert_all acls [],
               ca_groups = insert_all groups [],
               ca_owners = fold (\<lambda>(name, members) os. if name = OWNERS_GROUP then members else os) groups []\<rparr>))"

fun owners_setting_of :: "yaml option \<Rightarrow> owners_setting option" where
  "owners_setting_of None = None"
| "owners_setting_of (Some (YSeq vs)) = Some (OwnersSeq (map yaml_as_str vs))"
| "owners_setting_of (Some (YString s)) = Some (OwnersString s)"
| "owners_setting_of (Some _) = Some OwnersOther"

text \<open>\<open>persist_owners_to_config\<close> reads the file again, so it changes the file and not the configuration in memory.\<close>

definition persist_owners_file :: "string list \<Rightarrow> daemon_config \<Rightarrow> daemon_config" where
  "persist_owners_file owners file = put_extra ''owners'' (YSeq (map YString owners)) file"

definition file_content :: "daemon_config \<Rightarrow> daemon_config list \<Rightarrow> daemon_config" where
  "file_content file saved = (case saved of [] \<Rightarrow> file | cfg # _ \<Rightarrow> cfg)"

section \<open>The last phase\<close>

text \<open>Without owners there is nothing to publish; failures are only logged.\<close>

definition reconcile_owners_into_manifest :: "'w kubo \<Rightarrow> 'w \<times> crud_state \<Rightarrow> 'w \<times> crud_state" where
  "reconcile_owners_into_manifest K = (\<lambda>(w, s).
     let merged = ct_owners s in
     if merged = [] then (w, s)
     else (case dag_put_strings K w merged of
             (w1, None) \<Rightarrow> (w1, s)
           | (w1, Some c) \<Rightarrow>
               (case mutate K (\<lambda>m. Inr (m\<lparr>rm_grp := AList.update OWNERS_GROUP c (rm_grp m)\<rparr>)) w1 (ct_writer s) of
                  (w2, wr, Inl e) \<Rightarrow> (w2, s\<lparr>ct_writer := wr\<rparr>)
                | (w2, wr, Inr _) \<Rightarrow>
                    (w2, s\<lparr>ct_writer := wr, ct_group_cache := AList.update OWNERS_GROUP merged (ct_group_cache s)\<rparr>))))"

definition or_insert :: "string \<Rightarrow> yaml \<Rightarrow> yaml btree_map \<Rightarrow> yaml btree_map" where
  "or_insert key v c = (if map_of c key = None then bt_insert key v c else c)"

definition populate_default_config_root :: "'w kubo \<Rightarrow> string \<Rightarrow> 'w \<times> crud_state \<Rightarrow> 'w \<times> crud_state" where
  "populate_default_config_root K our_did = (\<lambda>(w, s).
     if map_of (ct_plugins s) ''root'' = None then (w, s)
     else (case Option.bind (mw_root_cid (ct_writer s)) (dag_get_manifest K w) of
             None \<Rightarrow> (w, s)
           | Some m \<Rightarrow>
               if map_of (rm_config m) ''root'' \<noteq> None \<and> map_of (rm_config m) ''start'' \<noteq> None then (w, s)
               else (case mutate K (\<lambda>m. Inr (m\<lparr>rm_config :=
                              or_insert ''start'' (YString (our_did @ ''#concourse''))
                                (or_insert ''root'' (YString (our_did @ ''#root'')) (rm_config m))\<rparr>)) w (ct_writer s) of
                       (w', wr, r) \<Rightarrow> (w', s\<lparr>ct_writer := wr\<rparr>))))"

text \<open>The state of the services; plugins are known by their position in the registry.\<close>

definition service_state_of ::
  "headed \<Rightarrow> daemon_config list \<Rightarrow> cid option \<Rightarrow> caches \<Rightarrow> resolved_owners \<Rightarrow> string list \<Rightarrow> kind_node hash_map \<Rightarrow> bool \<Rightarrow> crud_state" where
  "service_state_of h saved root ca ro names kinds ipfs =
     \<lparr>ct_writer = writer_new (case root of None \<Rightarrow> [] | Some c \<Rightarrow> c) root, ct_owners = ro_owners ro, ct_entity_names = names,
      ct_plugins = zip names [0..<length names], ct_kinds = kinds, ct_config = hd_config h, ct_acl_cache = ca_acls ca,
      ct_group_cache = ca_groups ca, ct_root_acl = ro_acl ro, ct_backoff = (if ipfs then Some (hd_attempts h) else None),
      ct_refresh = None, ct_saved = saved, ct_langs = [], ct_terminated = [], ct_reloads = []\<rparr>"

definition finalize_startup ::
  "'w kubo \<Rightarrow> string \<Rightarrow> bool \<Rightarrow> bool \<Rightarrow> crud_state \<Rightarrow> 'w \<Rightarrow> 'w \<times> (start_error + crud_state)" where
  "finalize_startup K our_did passphrase needs_sync s w =
     (let (w1, s1) = (if needs_sync then reconcile_owners_into_manifest K (w, s) else (w, s));
          (w2, s2) = populate_default_config_root K our_did (w1, s1)
      in (w2, if passphrase then Inr s2 else Inl SePassphrase))"

section \<open>The whole start\<close>

definition empty_boot :: "'w \<Rightarrow> ('g, 'a, 'w) boot_state" where
  "empty_boot w =
     \<lparr>bs_shared = \<lparr>hs_world = w, hs_outbox = [], hs_closed = False, hs_registry = []\<rparr>, bs_plugins = [], bs_kinds = []\<rparr>"

definition load_phase ::
  "('g, 'a, 'w) start_env \<Rightarrow> headed \<Rightarrow> 'w \<Rightarrow> ('g, 'a, 'w) boot_state \<times> cid option" where
  "load_phase E h w =
     (case hd_root h of
        None \<Rightarrow> (empty_boot w, None)
      | Some rc \<Rightarrow>
          (case load_entities ((su_load E)\<lparr>be_config := hd_config h\<rparr>) rc (empty_boot w) of
             (bs, n, updated) \<Rightarrow> (bs, Some (case updated of Some new_root \<Rightarrow> new_root | None \<Rightarrow> rc))))"

definition finish_start ::
  "('g, 'a, 'w) start_env \<Rightarrow> cli \<Rightarrow> headed \<Rightarrow> 'w
     \<Rightarrow> ('g, 'a, 'w) boot_state \<times> (boot_failure + crud_state \<times> u64)" where
  "finish_start E c h w =
     (let (bs, root) = load_phase E h w;
          ca = populate_acl_and_group_caches (su_kubo E) (boot_world bs) root;
          ro = resolve_and_seed_owners (owners_setting_of (map_of (dc_extra (hd_config h)) ''owners'')) (su_config_path E)
                 (cl_owner c) (ca_owners ca) (ca_acl ca);
          ipfs = get_bool_setting (hd_config h) ''ipfs_publisher'' True;
          saved = (if ro_persist ro \<and> su_save_ok E
                   then persist_owners_file (ro_owners ro) (file_content (su_file E) (hd_saved h)) # hd_saved h else hd_saved h);
          s = service_state_of h saved root ca ro (map fst (bs_plugins bs)) (bs_kinds bs) ipfs
      in case finalize_startup (su_kubo E) (su_our_did E) (su_passphrase E) (ro_needs_manifest_sync ro) s (boot_world bs) of
           (w', Inl e) \<Rightarrow> (put_boot_world w' bs, Inl (BfStart e))
         | (w', Inr s') \<Rightarrow>
             (put_boot_world w' bs,
              case did_refresh_interval_secs (map_of (dc_extra (hd_config h)) ''did_refresh_interval_secs'') of
                Inl e \<Rightarrow> Inl (BfStart (SeSetting e))
              | Inr refresh \<Rightarrow> Inr (s'\<lparr>ct_refresh := Some refresh\<rparr>, hd_capacity h)))"

datatype ('g, 'a, 'w) start_result =
    Printed string
  | Started "('g, 'a, 'w) boot_state" crud_state u64 started

definition start :: "('g, 'a, 'w) start_env \<Rightarrow> cli \<Rightarrow> 'w \<Rightarrow> 'w \<times> (boot_failure + ('g, 'a, 'w) start_result)" where
  "start E args w =
     (let c = parse_and_sanitise args in
      case boot_new E c of
        Inl e \<Rightarrow> (w, Inl e)
      | Inr st \<Rightarrow>
          bind_w (run_cli_subcommands E c st w) (\<lambda>flow w.
            case flow of
              Break out \<Rightarrow> (w, Inr (Printed out))
            | Continue bootstrap_root \<Rightarrow>
                bind_w (build_identity_and_resolve_root E c st bootstrap_root w) (\<lambda>h w.
                  case finish_start E c h w of
                    (bs, Inl e) \<Rightarrow> (boot_world bs, Inl e)
                  | (bs, Inr (s, capacity)) \<Rightarrow> (boot_world bs, Inr (Started bs s capacity st)))))"

section \<open>What a start keeps of the head\<close>

text \<open>What the stored manifest keeps from the selected head to the one the services start from.\<close>

definition head_kept :: "runtime_manifest \<Rightarrow> runtime_manifest \<Rightarrow> bool" where
  "head_kept m m' \<longleftrightarrow>
     rm_acl m' = rm_acl m \<and> rm_acls m' = rm_acls m \<and> rm_protocol m' = rm_protocol m \<and> rm_i18n m' = rm_i18n m
     \<and> map fst (rm_entities m') = map fst (rm_entities m)
     \<and> (\<forall>g. g \<noteq> OWNERS_GROUP \<longrightarrow> map_of (rm_grp m') g = map_of (rm_grp m) g)
     \<and> (\<forall>k v. map_of (rm_config m) k = Some v \<longrightarrow> map_of (rm_config m') k = Some v)
     \<and> (bt_inv (rm_config m) \<longrightarrow> bt_inv (rm_config m'))"

lemma head_kept_refl [simp]: "head_kept m m"
  by (simp add: head_kept_def)

lemma head_kept_trans: "head_kept m m' \<Longrightarrow> head_kept m' m'' \<Longrightarrow> head_kept m m''"
  unfolding head_kept_def by simp

text \<open>\<open>head_at K w c m\<close>: the node has a manifest under \<open>c\<close> that keeps \<open>m\<close>.\<close>

definition head_at :: "'w kubo \<Rightarrow> 'w \<Rightarrow> cid \<Rightarrow> runtime_manifest \<Rightarrow> bool" where
  "head_at K w c m \<longleftrightarrow> (\<exists>m'. dag_get_manifest K w c = Some m' \<and> head_kept m m')"

lemma head_at_put:
  assumes "kubo_ok K" and "dag_put_manifest K w m' = (w1, Some c)" and "head_kept m m'"
  shows "node_keeps K w (fst (Documents.pin_update K w1 old c)) \<and> head_at K (fst (Documents.pin_update K w1 old c)) c m
     \<and> dag_get_manifest K (fst (Documents.pin_update K w1 old c)) c = Some m'"
proof -
  let ?w2 = "fst (Documents.pin_update K w1 old c)"
  have pin: "node_keeps K w1 ?w2" using kubo_okD(5)[OF assms(1)] by (metis prod.collapse)
  have "node_keeps K w ?w2" using node_keeps_trans[OF kubo_okD(1)[OF assms(1,2)] pin] .
  moreover have "dag_get_manifest K ?w2 c = Some m'" using node_keeps_manifest[OF pin kubo_okD(2)[OF assms(1,2)]] .
  ultimately show ?thesis using assms(3) by (auto simp: head_at_def)
qed

lemma overlay_head:
  assumes "apply_kinds_tree_overlay fetch overlay m = Inr (m', changed)"
  shows "head_kept m m'"
  using assms by (auto simp: apply_kinds_tree_overlay_def head_kept_def split: sum.splits prod.splits)

lemma apply_kinds_overlay_head:
  assumes "kubo_ok K" and "apply_kinds_overlay K root k w = (w', Inr (root', changed))" and "dag_get_manifest K w root = Some m"
  shows "node_keeps K w w' \<and> head_at K w' root' m"
proof -
  obtain kinds m' where ov: "dag_get_kinds K w k = Some kinds" "apply_kinds_tree_overlay (dag_get_kind K w) kinds m = Inr (m', changed)"
    using assms(2,3) by (auto simp: apply_kinds_overlay_def split: option.splits sum.splits prod.splits if_splits)
  note kept = overlay_head[OF ov(2)]
  show ?thesis
  proof (cases "changed = []")
    case True
    then have "w' = w" "root' = root" using assms(2,3) ov by (simp_all add: apply_kinds_overlay_def)
    with assms(3) show ?thesis by (auto simp: head_at_def)
  next
    case False
    then obtain w1 where put: "dag_put_manifest K w m' = (w1, Some root')" "w' = fst (Documents.pin_update K w1 root root')"
      using assms(2,3) ov by (auto simp: apply_kinds_overlay_def split: prod.splits option.splits)
    show ?thesis using head_at_put[OF assms(1) put(1) kept] put(2) by simp
  qed
qed

lemma materialise_head:
  assumes "kubo_ok K" and "materialise_plugin_envelope_queue_capacity K root w = (w', Inr (root', n))"
    and "dag_get_manifest K w root = Some m"
  shows "node_keeps K w w' \<and> head_at K w' root' m
     \<and> (\<exists>m' v. dag_get_manifest K w' root' = Some m' \<and> map_of (rm_config m') ''plugin_envelope_queue_capacity'' = Some v
          \<and> plugin_envelope_queue_capacity (Some v) = Inr n)"
proof -
  let ?key = "''plugin_envelope_queue_capacity''"
  let ?m = "m\<lparr>rm_config := bt_insert ?key (yaml_u64 n) (rm_config m)\<rparr>"
  have n: "plugin_envelope_queue_capacity (map_of (rm_config m) ?key) = Inr n"
    using assms(2,3) by (auto simp: materialise_plugin_envelope_queue_capacity_def split: sum.splits if_splits prod.splits option.splits)
  show ?thesis
  proof (cases "map_of (rm_config m) ?key")
    case (Some v)
    then have "w' = w" "root' = root"
      using assms(2,3) n by (simp_all add: materialise_plugin_envelope_queue_capacity_def)
    with assms(3) n Some show ?thesis by (auto simp: head_at_def)
  next
    case None
    then obtain w1 where put: "dag_put_manifest K w ?m = (w1, Some root')" "w' = fst (Documents.pin_update K w1 root root')"
      using assms(2,3) n by (auto simp: materialise_plugin_envelope_queue_capacity_def split: prod.splits option.splits)
    have kept: "head_kept m ?m" using None by (auto simp: head_kept_def map_of_bt_insert bt_insert_inv)
    have "n = DEFAULT_PLUGIN_ENVELOPE_QUEUE_CAPACITY" using None n by (simp add: plugin_envelope_queue_capacity_def positive_setting_def)
    then have "map_of (rm_config ?m) ?key = Some (yaml_u64 n) \<and> plugin_envelope_queue_capacity (Some (yaml_u64 n)) = Inr n"
      by (simp add: map_of_bt_insert plugin_envelope_queue_capacity_def positive_setting_def DEFAULT_PLUGIN_ENVELOPE_QUEUE_CAPACITY_def)
    moreover have "dag_get_manifest K w' root' = Some ?m"
      using head_at_put[OF assms(1) put(1) kept] put(2) by simp
    ultimately show ?thesis using head_at_put[OF assms(1) put(1) kept] put(2) by auto
  qed
qed

lemma resolve_startup_head:
  assumes "kubo_ok (su_kubo E)" and "resolve_startup_root_cid E k (Some root) w = (w', Inr r)"
    and "dag_get_manifest (su_kubo E) w root = Some m"
  shows "node_keeps (su_kubo E) w w' \<and> (\<exists>rc. r = Some rc \<and> head_at (su_kubo E) w' rc m)"
proof (cases k)
  case None
  then have "w' = w" "r = Some root"
    using assms(2) by (simp_all add: resolve_startup_root_cid_def find_root_def bind_w_def)
  with assms(3) show ?thesis by (auto simp: head_at_def)
next
  case (Some kc)
  then obtain rc changed where "apply_kinds_overlay (su_kubo E) root kc w = (w', Inr (rc, changed))" "r = Some rc"
    using assms(2) by (auto simp: resolve_startup_root_cid_def find_root_def bind_w_def split: prod.splits sum.splits)
  with apply_kinds_overlay_head[OF assms(1) _ assms(3)] show ?thesis by blast
qed

lemma head_at_trans:
  "head_at K w c m1 \<Longrightarrow> head_kept m m1 \<Longrightarrow> head_at K w c m"
  unfolding head_at_def using head_kept_trans by blast

definition start_ok :: "('g, 'a, 'w) start_env \<Rightarrow> bool" where
  "start_ok E \<longleftrightarrow> boot_ok (su_boot E) \<and> kubo_ok (su_kubo E) \<and> boot_env_ok (su_load E) \<and> be_kubo (su_load E) = su_kubo E"

lemma load_phase_head:
  assumes "start_ok E" and "hd_root h = Some root" and "dag_get_manifest (su_kubo E) w root = Some m"
    and "hm_inv (rm_entities m)" and "load_phase E h w = (bs, r)"
  shows "node_keeps (su_kubo E) w (boot_world bs) \<and> (\<exists>rc m'. r = Some rc \<and> dag_get_manifest (su_kubo E) (boot_world bs) rc = Some m'
     \<and> m' = m\<lparr>rm_entities := rm_entities m'\<rparr> \<and> map fst (rm_entities m') = map fst (rm_entities m))"
proof -
  let ?E = "(su_load E)\<lparr>be_config := hd_config h\<rparr>"
  let ?s = "empty_boot w :: ('a, 'b, 'c) boot_state"
  let ?ks = "fst (hydrate_kind_registry (be_kubo ?E) (boot_world ?s) m (bs_kinds ?s))"
  have "boot_env_ok ?E = boot_env_ok (su_load E)" by (simp add: boot_env_ok_def)
  then have K: "be_kubo ?E = su_kubo E" and ok: "boot_env_ok ?E" and kubo: "kubo_ok (su_kubo E)"
    using assms(1) by (simp_all add: start_ok_def)
  have m: "dag_get_manifest (be_kubo ?E) (boot_world ?s) root = Some m" using assms(3) K by (simp add: empty_boot_def)
  obtain n updated where l: "load_entities ?E root ?s = (bs, n, updated)"
    "r = Some (case updated of Some new_root \<Rightarrow> new_root | None \<Rightarrow> root)"
    using assms(2,5) by (auto simp: load_phase_def split: prod.splits)
  obtain s1 p where loop: "load_loop ?E (public_plugin_config (be_fmt ?E) m (be_config ?E)) (rm_entities m) (?s\<lparr>bs_kinds := ?ks\<rparr>)
      \<lparr>lp_manifest = m, lp_loaded = 0, lp_updated = False\<rparr> = (s1, p)" by fastforce
  have distinct: "distinct (map fst (rm_entities m))" using assms(4) by (simp add: hm_inv_def)
  then have "\<forall>(name, link)\<in>set (rm_entities m). map_of (rm_entities m) name = Some link" by auto
  with load_loop_entries[OF ok loop distinct] have
    c: "loads ?E (?s\<lparr>bs_kinds := ?ks\<rparr>) s1" "lp_manifest p = m\<lparr>rm_entities := rm_entities (lp_manifest p)\<rparr>"
      "map fst (rm_entities (lp_manifest p)) = map fst (rm_entities m)" by (simp_all add: entries_changed_def)
  have keeps: "node_keeps (su_kubo E) w (boot_world s1)" using c(1) K by (simp add: loads_def empty_boot_def)
  show ?thesis
  proof (cases updated)
    case (Some new_root)
    from load_entities_new_root[OF l(1)[unfolded Some] m] loop K obtain w2 where
      put: "dag_put_manifest (su_kubo E) (boot_world s1) (lp_manifest p) = (w2, Some new_root)"
      "bs = put_boot_world (fst (Documents.pin_update (su_kubo E) w2 root new_root)) s1" by auto
    have p: "node_keeps (su_kubo E) (boot_world s1) (boot_world bs)"
      "dag_get_manifest (su_kubo E) (boot_world bs) new_root = Some (lp_manifest p)"
      using head_at_put[OF kubo put(1) head_kept_refl, of root] put(2) by (simp_all add: put_boot_world_def)
    with node_keeps_trans[OF keeps p(1)] c(2,3) l(2) Some show ?thesis by auto
  next
    case None
    have "boot_world bs = boot_world s1 \<or> boot_world bs = fst (dag_put_manifest (su_kubo E) (boot_world s1) (lp_manifest p))"
      using l(1) None m loop K by (auto simp: load_entities_def Let_def put_boot_world_def split: prod.splits option.splits if_splits)
    then have "node_keeps (su_kubo E) (boot_world s1) (boot_world bs)"
      using kubo_okD(1)[OF kubo] by (metis node_keeps_refl prod.collapse)
    with keeps have "node_keeps (su_kubo E) w (boot_world bs)" by (rule node_keeps_trans)
    with node_keeps_manifest[OF this assms(3)] l(2) None show ?thesis by auto
  qed
qed

lemma mutate_head:
  assumes "coherent K (w, wr)" and "current K (w, wr) = Some m1" and "head_kept m m1"
    and "\<And>m1. head_kept m m1 \<Longrightarrow> head_kept m (f m1)" and "mutate K (\<lambda>m. Inr (f m)) w wr = (w', wr', r)"
  shows "coherent K (w', wr') \<and> (\<exists>m2. current K (w', wr') = Some m2 \<and> head_kept m m2) \<and> node_keeps K w w'"
proof (cases r)
  case (Inl e)
  from mutate_err[OF assms(1) assms(5)[unfolded Inl]] keeps_current[OF _ _ assms(2)] assms(3) show ?thesis by blast
next
  case (Inr c)
  from mutate_ok[OF assms(1) assms(5)[unfolded Inr]] assms(2-4) show ?thesis by auto
qed

text \<open>The state of the services stands for a manifest that keeps \<open>m\<close>.\<close>

definition serves :: "'w kubo \<Rightarrow> runtime_manifest \<Rightarrow> 'w \<times> crud_state \<Rightarrow> bool" where
  "serves K m = (\<lambda>(w, s). coherent K (w, ct_writer s) \<and> (\<exists>m'. current K (w, ct_writer s) = Some m' \<and> head_kept m m'))"

lemma reconcile_serves:
  assumes "serves K m (w, s)" and "reconcile_owners_into_manifest K (w, s) = (w', s')"
  shows "serves K m (w', s') \<and> node_keeps K w w' \<and> ct_config s' = ct_config s \<and> ct_root_acl s' = ct_root_acl s
     \<and> ct_saved s' = ct_saved s \<and> ct_owners s' = ct_owners s"
proof -
  obtain m1 where c: "coherent K (w, ct_writer s)" "current K (w, ct_writer s) = Some m1" "head_kept m m1"
    using assms(1) by (auto simp: serves_def)
  then have ok: "kubo_ok K" by (simp add: coherent_def)
  obtain w1 r where put: "dag_put_strings K w (ct_owners s) = (w1, r)" by fastforce
  note keeps = kubo_okD(7)[OF ok put]
  have c1: "coherent K (w1, ct_writer s)" "current K (w1, ct_writer s) = Some m1"
    using keeps_coherent[OF c(1) keeps] keeps_current[OF keeps _ c(2)] by simp_all
  show ?thesis
  proof (cases "ct_owners s = [] \<or> r = None")
    case True
    then have "(w' = w \<or> w' = w1) \<and> s' = s"
      using assms(2) put by (auto simp: reconcile_owners_into_manifest_def Let_def split: if_splits)
    with c c1 keeps show ?thesis by (auto simp: serves_def)
  next
    case False
    then obtain oc where r: "r = Some oc" "ct_owners s \<noteq> []" by auto
    let ?f = "\<lambda>m. m\<lparr>rm_grp := AList.update OWNERS_GROUP oc (rm_grp m)\<rparr>"
    obtain w2 wr res where mu: "mutate K (\<lambda>m. Inr (?f m)) w1 (ct_writer s) = (w2, wr, res)" using prod_cases3 by blast
    have "head_kept m (?f m1)" if "head_kept m m1" for m1 using that by (simp add: head_kept_def map_of_update)
    from mutate_head[OF c1 c(3) this mu] node_keeps_trans[OF keeps] assms(2) put r mu show ?thesis
      by (auto simp: reconcile_owners_into_manifest_def Let_def serves_def split: sum.splits)
  qed
qed

lemma or_insert_simps:
  "map_of (or_insert k v c) k' = (if k' = k \<and> map_of c k = None then Some v else map_of c k')"
  "bt_inv c \<Longrightarrow> bt_inv (or_insert k v c)"
  by (simp_all add: or_insert_def map_of_bt_insert bt_insert_inv)

lemma populate_serves:
  assumes "serves K m (w, s)" and "populate_default_config_root K did (w, s) = (w', s')"
  shows "serves K m (w', s') \<and> node_keeps K w w' \<and> ct_config s' = ct_config s \<and> ct_root_acl s' = ct_root_acl s
     \<and> ct_saved s' = ct_saved s \<and> ct_owners s' = ct_owners s"
proof -
  let ?f = "\<lambda>m. m\<lparr>rm_config := or_insert ''start'' (YString (did @ ''#concourse''))
              (or_insert ''root'' (YString (did @ ''#root'')) (rm_config m))\<rparr>"
  obtain m1 where c: "coherent K (w, ct_writer s)" "current K (w, ct_writer s) = Some m1" "head_kept m m1"
    using assms(1) by (auto simp: serves_def)
  obtain w2 wr res where mu: "mutate K (\<lambda>m. Inr (?f m)) w (ct_writer s) = (w2, wr, res)" using prod_cases3 by blast
  have "head_kept m (?f m1)" if "head_kept m m1" for m1
    using that by (auto simp: head_kept_def or_insert_simps)
  from mutate_head[OF c this mu] have s2: "serves K m (w2, s\<lparr>ct_writer := wr\<rparr>)" "node_keeps K w w2"
    by (auto simp: serves_def)
  have "(w', s') = (w, s) \<or> (w', s') = (w2, s\<lparr>ct_writer := wr\<rparr>)"
    using assms(2) mu by (auto simp: populate_default_config_root_def split: if_splits option.splits)
  then show ?thesis
  proof
    assume "(w', s') = (w, s)"
    with assms(1) show ?thesis by simp
  next
    assume "(w', s') = (w2, s\<lparr>ct_writer := wr\<rparr>)"
    with s2 show ?thesis by simp
  qed
qed

lemma finalize_serves:
  assumes "serves K m (w, s)" and "finalize_startup K did pass needs s w = (w', Inr s')"
  shows "serves K m (w', s') \<and> ct_config s' = ct_config s \<and> ct_root_acl s' = ct_root_acl s \<and> ct_saved s' = ct_saved s
     \<and> ct_owners s' = ct_owners s"
proof -
  obtain w1 s1 where r: "(if needs then reconcile_owners_into_manifest K (w, s) else (w, s)) = (w1, s1)" by fastforce
  have 1: "serves K m (w1, s1) \<and> ct_config s1 = ct_config s \<and> ct_root_acl s1 = ct_root_acl s \<and> ct_saved s1 = ct_saved s
     \<and> ct_owners s1 = ct_owners s"
    using r reconcile_serves[OF assms(1), of w1 s1] assms(1) by (cases needs) auto
  obtain w2 s2 where p: "populate_default_config_root K did (w1, s1) = (w2, s2)" by fastforce
  have "w' = w2 \<and> s' = s2" using assms(2) r p by (simp add: finalize_startup_def split: if_splits)
  with populate_serves[OF conjunct1[OF 1] p] 1 show ?thesis by simp
qed

lemma start_Started:
  assumes "start E args w = (w', Inr (Started bs s cap st))"
  shows "\<exists>w1 b w2 h. boot_new E (parse_and_sanitise args) = Inr st
     \<and> run_cli_subcommands E (parse_and_sanitise args) st w = (w1, Inr (Continue b))
     \<and> build_identity_and_resolve_root E (parse_and_sanitise args) st b w1 = (w2, Inr h)
     \<and> finish_start E (parse_and_sanitise args) h w2 = (bs, Inr (s, cap)) \<and> w' = boot_world bs"
  using assms
  by (auto simp: start_def Let_def bind_w_def split: sum.splits prod.splits flow.splits)

lemma boot_world_put [simp]: "boot_world (put_boot_world w bs) = w"
  by (simp add: put_boot_world_def)

text \<open>Without early commands the node is untouched until the head is resolved.\<close>

lemma run_cli_plain:
  assumes "cl_bootstrap c = None" and "run_cli_subcommands E c st w = (w1, Inr (Continue b))"
  shows "w1 = w \<and> b = None"
  using assms
  by (auto simp: run_cli_subcommands_def bootstrap_head_def bind_w_def split: option.splits sum.splits prod.splits if_splits)

lemma parse_and_sanitise_simps [simp]:
  "cl_bootstrap (parse_and_sanitise c) = cl_bootstrap c" "cl_kinds_cid (parse_and_sanitise c) = cl_kinds_cid c"
  "cl_owner (parse_and_sanitise c) = cl_owner c"
  by (simp_all add: parse_and_sanitise_def)

text \<open>The steps of a resolution that succeeds.\<close>

lemma build_identity_Inr:
  assumes "build_identity_and_resolve_root E c st b w = (w', Inr h)"
  shows "\<exists>selected cfg saved w1 root n. select_root_cid (su_is_cid E) (cl_root_cid c) b (sd_config st) = Inr selected
     \<and> persist_selected (su_save_ok E) selected (sd_config st) = Inr (cfg, saved)
     \<and> resolve_startup_root_cid E (cl_kinds_cid c) selected w = (w1, Inr root)
     \<and> materialise_head (su_kubo E) root w1 = (w', Inr (hd_root h, hd_capacity h))
     \<and> outbox_backoff_attempts (map_of (dc_extra cfg) ''outbox_backoff_attempts'') = Inr n
     \<and> hd_config h = cfg \<and> hd_saved h = saved"
  using assms unfolding build_identity_and_resolve_root_def bind_w_def lift_start_def
  by (auto split: sum.splits prod.splits if_splits option.splits)

lemma finish_start_Inr:
  assumes "finish_start E c h w = (bs', Inr (s, cap))" and "load_phase E h w = (bs, root)"
  shows "\<exists>saved w' s' refresh. let ca = populate_acl_and_group_caches (su_kubo E) (boot_world bs) root;
             ro = resolve_and_seed_owners (owners_setting_of (map_of (dc_extra (hd_config h)) ''owners'')) (su_config_path E)
                    (cl_owner c) (ca_owners ca) (ca_acl ca);
             s0 = service_state_of h saved root ca ro (map fst (bs_plugins bs)) (bs_kinds bs)
                    (get_bool_setting (hd_config h) ''ipfs_publisher'' True)
         in finalize_startup (su_kubo E) (su_our_did E) (su_passphrase E) (ro_needs_manifest_sync ro) s0 (boot_world bs) = (w', Inr s')
          \<and> did_refresh_interval_secs (map_of (dc_extra (hd_config h)) ''did_refresh_interval_secs'') = Inr refresh
          \<and> s = s'\<lparr>ct_refresh := Some refresh\<rparr> \<and> boot_world bs' = w' \<and> cap = hd_capacity h"
  using assms unfolding finish_start_def Let_def
  by (auto simp del: boot_world_put simp: boot_world_put split: sum.splits prod.splits) blast+

lemma minimal_manifest_stored:
  assumes "boot_ok B" and "bootstrap_minimal_manifest B owners w = (w', Inr root)"
  shows "\<exists>acl oc. dag_get_manifest (bo_kubo B) w' root = Some (minimal_manifest acl oc)
     \<and> dag_get_acl (bo_kubo B) w' acl = Some (minimal_acl owners) \<and> dag_get_strings (bo_kubo B) w' oc = Some owners"
proof -
  obtain w1 acl w2 oc w3 where r: "stored ''acl'' (bo_put_acl B w (minimal_acl owners)) = (w1, Inr acl)"
    "stored ''owners'' (dag_put_strings (bo_kubo B) w1 owners) = (w2, Inr oc)"
    "stored ''manifest'' (dag_put_manifest (bo_kubo B) w2 (minimal_manifest acl oc)) = (w3, Inr root)"
    "bo_pin_add B w3 root = (w', True)"
    using assms(2) by (auto simp: bootstrap_minimal_manifest_def bind_w_def split: prod.splits sum.splits if_splits)
  have puts: "put_ok B (bo_put_acl B) (dag_get_acl (bo_kubo B))" "put_ok B (dag_put_strings (bo_kubo B)) (dag_get_strings (bo_kubo B))"
    "put_ok B (dag_put_manifest (bo_kubo B)) (dag_get_manifest (bo_kubo B))" "boot_keeps B w3 w'"
    using assms(1) r(4) unfolding boot_ok_def by (auto dest: spec[of _ w3]) (metis fst_conv)
  note a = stored_ok[OF puts(1) r(1)] and o = stored_ok[OF puts(2) r(2)] and m = stored_ok[OF puts(3) r(3)]
  have "dag_get_acl (bo_kubo B) w' acl = Some (minimal_acl owners)"
    using boot_keepsD(3)[OF puts(4) boot_keepsD(3)[OF m(1) boot_keepsD(3)[OF o(1) a(2)[OF refl]]]] .
  moreover have "dag_get_strings (bo_kubo B) w' oc = Some owners"
    using boot_keepsD(4)[OF puts(4) boot_keepsD(4)[OF m(1) o(2)[OF refl]]] .
  moreover have "dag_get_manifest (bo_kubo B) w' root = Some (minimal_manifest acl oc)"
    using boot_keepsD(5)[OF puts(4) m(2)[OF refl]] .
  ultimately show ?thesis by blast
qed

text \<open>A grant to everybody survives every claim, since claims only add grants.\<close>

lemma grants_keep_wildcard:
  "map_of acl ''*'' = Some (Allow {''*''}) \<Longrightarrow> map_of (grant_owners_in_acl acl owners) ''*'' = Some (Allow {''*''})"
  unfolding grant_owners_in_acl_def by (induction owners arbitrary: acl) (simp_all add: map_of_update)

lemma claims_keep_wildcard:
  "map_of (cs_acl s) ''*'' = Some (Allow {''*''}) \<Longrightarrow> map_of (cs_acl (snd (run_claims save_ok bs s))) ''*'' = Some (Allow {''*''})"
proof (induction bs arbitrary: s)
  case (Cons b bs)
  have "map_of (cs_acl (snd (handle_claim save_ok b s))) ''*'' = Some (Allow {''*''})"
    using Cons.prems grants_keep_wildcard[OF Cons.prems]
    by (simp add: handle_claim_def claim_grant_def claim_write_def split: option.splits)
  from Cons.IH[OF this] show ?case by (simp add: case_prod_beta Let_def)
qed simp

subsection \<open>A daemon for the witnesses\<close>

definition idle_node :: "doc list ipns_node" where
  "idle_node = \<lparr>nd_key_list = (\<lambda>w. Some []), nd_key_import = (\<lambda>w n b. (w, None)), nd_name_publish = (\<lambda>w a k. (w, None)),
     nd_name_resolve = (\<lambda>w a. None), nd_dag_put_cbor = (\<lambda>w b. (w, None)), nd_dag_put_json = (\<lambda>w v. (w, None)),
     nd_add_unpinned = (\<lambda>w b. (w, None)), nd_pin_add = (\<lambda>w c. (w, True)), nd_pin_update = (\<lambda>w c d. (w, True))\<rparr>"

definition sample_start :: "(nat, unit, doc list) start_env" where
  "sample_start = \<lparr>su_boot = mem_boot, su_load = sample_boot_env, su_node = idle_node, su_put_kinds = (\<lambda>w t. mem_put w (KindsDoc t)),
     su_read_yaml = (\<lambda>_. None), su_langs = [], su_is_cid = (\<lambda>c. starts_with ''bafy'' c), su_parse_addr = Some, su_exists = (\<lambda>_. True),
     su_config = sample_config, su_file = sample_config, su_generated = None, su_config_path = Some ''ma.yaml'',
     su_bundle_path = ''ma.bin'', su_save_ok = True, su_kubo_ready = True, su_ipns_id = ''k51'', su_passphrase = True,
     su_our_did = ''did:ma:us''\<rparr>"

definition sample_cli :: cli where
  "sample_cli = \<lparr>cl_owner = [''did:ma:alice''], cl_gen_root_cid = None, cl_gen_kinds_cid = None, cl_bootstrap = None, cl_root_cid = None,
     cl_kinds_cid = None, cl_poll_ms = None, cl_i18n = None, cl_status_bind = None\<rparr>"

lemma sample_start_ok: "start_ok sample_start"
  using mem_boot_ok mem_kubo_ok sample_boot_env_ok
  by (simp add: start_ok_def sample_start_def mem_boot_def) (simp add: sample_boot_env_def sample_host_def)

lemma sample_start_simps [simp]:
  "su_boot sample_start = mem_boot" "su_load sample_start = sample_boot_env" "su_node sample_start = idle_node"
  "su_is_cid sample_start = (\<lambda>c. starts_with ''bafy'' c)" "su_parse_addr sample_start = Some" "su_exists sample_start = (\<lambda>_. True)"
  "su_config sample_start = sample_config" "su_file sample_start = sample_config" "su_config_path sample_start = Some ''ma.yaml''"
  "su_save_ok sample_start = True" "su_kubo_ready sample_start = True" "su_passphrase sample_start = True"
  "su_our_did sample_start = ''did:ma:us''" "su_bundle_path sample_start = ''ma.bin''" "bo_kubo mem_boot = mem_kubo"
  "dc_extra sample_config = []"
  by (simp_all add: sample_start_def mem_boot_def sample_config_def)

definition sample_st :: started where
  "sample_st = \<lparr>sd_config = sample_config, sd_lang = None, sd_poll_ms = 100, sd_status_bind = DEFAULT_STATUS_BIND\<rparr>"

abbreviation cli_from :: "cid option \<Rightarrow> cli" where "cli_from r \<equiv> sample_cli\<lparr>cl_root_cid := r\<rparr>"

lemma cli_from_simps [simp]:
  "parse_and_sanitise (cli_from None) = cli_from None" "parse_and_sanitise (cli_from (Some ''bafy'')) = cli_from (Some ''bafy'')"
  "cl_gen_root_cid (cli_from r) = None" "cl_gen_kinds_cid (cli_from r) = None" "cl_bootstrap (cli_from r) = None"
  "cl_kinds_cid (cli_from r) = None" "cl_poll_ms (cli_from r) = None" "cl_status_bind (cli_from r) = None"
  "cl_i18n (cli_from r) = None" "cl_owner (cli_from r) = [''did:ma:alice'']"
  by (simp_all add: parse_and_sanitise_def sample_cli_def trim_visible)

lemma sample_boot_new: "boot_new sample_start (cli_from r) = Inr sample_st"
  by (simp add: boot_new_def Let_def should_generate_headless_config_def select_poll_ms_def DEFAULT_POLL_MS_def
      select_status_bind_def sample_st_def)

lemma sample_select: "select_root_cid P r None sample_config = Inr r"
  by (cases r) (simp_all add: select_root_cid_def root_cid_setting_def)

lemma sample_identity:
  assumes "mem_get w root = Some (ManifestDoc m)" and "map_of (rm_config m) ''plugin_envelope_queue_capacity'' = None"
    and "resolve_startup_root_cid sample_start None r w0 = (w, Inr (Some root))"
    and "\<forall>c. r = Some c \<longrightarrow> starts_with ''bafy'' c"
  shows "\<exists>h. build_identity_and_resolve_root sample_start (cli_from r) sample_st None w0
       = (w @ [ManifestDoc (m\<lparr>rm_config := bt_insert ''plugin_envelope_queue_capacity'' (yaml_u64 1024) (rm_config m)\<rparr>)], Inr h)
     \<and> hd_root h = Some (mem_cid (length w)) \<and> dc_extra (hd_config h) = (case r of None \<Rightarrow> [] | Some c \<Rightarrow> [(''root_cid'', YString c)])"
  using assms
  by (cases r)
     (simp_all add: build_identity_and_resolve_root_def sample_st_def sample_select persist_selected_def bind_w_def lift_start_def
      materialise_head_def materialise_plugin_envelope_queue_capacity_def plugin_envelope_queue_capacity_def positive_setting_def
      DEFAULT_PLUGIN_ENVELOPE_QUEUE_CAPACITY_def mem_kubo_def mem_put_def outbox_backoff_attempts_def root_cid_setting_def
      put_extra_def)

lemma sample_finish:
  assumes "map_of (dc_extra (hd_config h)) ''did_refresh_interval_secs'' = None"
  shows "\<exists>bs s cap. finish_start sample_start (cli_from r) h w = (bs, Inr (s, cap))"
proof -
  obtain bs r' where l: "load_phase sample_start h w = (bs, r')" by fastforce
  have pass: "finalize_startup mem_kubo ''did:ma:us'' True needs s0 w1 =
      (let p = populate_default_config_root mem_kubo ''did:ma:us''
                 (if needs then reconcile_owners_into_manifest mem_kubo (w1, s0) else (w1, s0)) in (fst p, Inr (snd p)))" for needs s0 w1
    by (simp add: finalize_startup_def Let_def case_prod_beta)
  show ?thesis
    using assms l by (simp add: finish_start_def Let_def did_refresh_interval_secs_def pass)
qed

lemma sample_started:
  assumes "resolve_startup_root_cid sample_start None r w0 = (w, Inr (Some root))" and "mem_get w root = Some (ManifestDoc m)"
    and "map_of (rm_config m) ''plugin_envelope_queue_capacity'' = None"
    and "r = None \<or> r = Some ''bafy''"
  shows "\<exists>w' bs s cap. start sample_start (cli_from r) w0 = (w', Inr (Started bs s cap sample_st))"
proof -
  let ?m = "m\<lparr>rm_config := bt_insert ''plugin_envelope_queue_capacity'' (yaml_u64 1024) (rm_config m)\<rparr>"
  have "\<forall>c. r = Some c \<longrightarrow> starts_with ''bafy'' c" using assms(4) by (auto simp: starts_with_def)
  from sample_identity[OF assms(2,3,1) this] obtain h where
    h: "build_identity_and_resolve_root sample_start (cli_from r) sample_st None w0 = (w @ [ManifestDoc ?m], Inr h)"
    "hd_root h = Some (mem_cid (length w))" "dc_extra (hd_config h) = (case r of None \<Rightarrow> [] | Some c \<Rightarrow> [(''root_cid'', YString c)])" by blast
  have "map_of (dc_extra (hd_config h)) ''did_refresh_interval_secs'' = None" using h(3) by (cases r) simp_all
  then obtain bs s cap where f: "finish_start sample_start (cli_from r) h (w @ [ManifestDoc ?m]) = (bs, Inr (s, cap))"
    using sample_finish by blast
  have cids: "check_cid (su_is_cid sample_start) SeRootCid (cl_root_cid (cli_from r)) = Inr ()"
    using assms(4) by (auto simp: check_cid_def starts_with_def)
  then have "run_cli_subcommands sample_start (cli_from r) sample_st w0 = (w0, Inr (Continue None))"
    by (simp add: run_cli_subcommands_def bootstrap_head_def bind_w_def) (simp add: check_cid_def)
  moreover have "parse_and_sanitise (cli_from r) = cli_from r" using assms(4) by auto
  ultimately show ?thesis using h(1) f by (simp add: start_def Let_def sample_boot_new bind_w_def)
qed

lemma sample_kept_run:
  "\<exists>w' bs s cap. start sample_start (cli_from (Some ''bafy'')) [ManifestDoc empty_manifest] = (w', Inr (Started bs s cap sample_st))"
proof (rule sample_started)
  show "resolve_startup_root_cid sample_start None (Some ''bafy'') [ManifestDoc empty_manifest]
      = ([ManifestDoc empty_manifest], Inr (Some ''bafy''))"
    by (simp add: resolve_startup_root_cid_def find_root_def bind_w_def)
  show "mem_get [ManifestDoc empty_manifest] ''bafy'' = Some (ManifestDoc empty_manifest)" by (simp add: mem_get_def mem_cid_def)
qed (simp_all add: empty_manifest_def)

lemma sample_minimal:
  "\<exists>w root m. bootstrap_minimal_manifest mem_boot [] [] = (w, Inr root) \<and> mem_get w root = Some (ManifestDoc m)
     \<and> map_of (rm_config m) ''plugin_envelope_queue_capacity'' = None"
  by (simp add: bootstrap_minimal_manifest_def bind_w_def stored_def mem_boot_def mem_kubo_def mem_put_def minimal_manifest_def
      map_of_bt_insert mem_get_def)

lemma sample_fresh_run:
  "\<exists>w' bs s cap. start sample_start (cli_from None) [] = (w', Inr (Started bs s cap sample_st))"
proof -
  obtain w root m where b: "bootstrap_minimal_manifest mem_boot [] [] = (w, Inr root)" "mem_get w root = Some (ManifestDoc m)"
    "map_of (rm_config m) ''plugin_envelope_queue_capacity'' = None" using sample_minimal by blast
  have "resolve_startup_root_cid sample_start None None [] = (w, Inr (Some root))"
    using b(1) by (simp add: resolve_startup_root_cid_def find_root_def bind_w_def require_kinds_overlay_base_def
        resolve_runtime_root_cid_by_ipns_id_def list_keys_def idle_node_def)
  from sample_started[OF this b(2,3)] show ?thesis by simp
qed

section \<open>Properties\<close>

text \<open>
  C30 (startup). A start establishes what requests rely on and changes the head only where it must: if the daemon starts from a
  selected head with manifest \<open>m\<close>, the writer stands for a manifest with \<open>m\<close>'s ACL, named ACLs, languages, entity names
  and groups other than \<open>owners\<close>, and with every configuration entry of \<open>m\<close>; its queue capacity is the one the daemon runs
  with, and the settings in memory are valid.
\<close>

theorem start_keeps_head:
  assumes "start_ok E" and "start E args w = (w', Inr (Started bs s cap st))" and "cl_bootstrap args = None"
    and "select_root_cid (su_is_cid E) (cl_root_cid (parse_and_sanitise args)) None (sd_config st) = Inr (Some root)"
    and "dag_get_manifest (su_kubo E) w root = Some m" and "hm_inv (rm_entities m)" and "bt_inv (rm_config m)"
  shows "coherent (su_kubo E) (w', ct_writer s) \<and> daemon_typed (ct_config s)
     \<and> (\<exists>m'. current (su_kubo E) (w', ct_writer s) = Some m'
          \<and> rm_acl m' = rm_acl m \<and> rm_acls m' = rm_acls m \<and> rm_i18n m' = rm_i18n m
          \<and> map fst (rm_entities m') = map fst (rm_entities m)
          \<and> (\<forall>g. g \<noteq> ''owners'' \<longrightarrow> map_of (rm_grp m') g = map_of (rm_grp m) g)
          \<and> (\<forall>k v. map_of (rm_config m) k = Some v \<longrightarrow> map_of (rm_config m') k = Some v)
          \<and> config_typed (rm_config m')
          \<and> plugin_envelope_queue_capacity (map_of (rm_config m') ''plugin_envelope_queue_capacity'') = Inr cap)"
proof -
  let ?c = "parse_and_sanitise args" and ?K = "su_kubo E" and ?key = "''plugin_envelope_queue_capacity''"
  have ok: "kubo_ok ?K" using assms(1) by (simp add: start_ok_def)
  obtain w1 b w2 h where st: "run_cli_subcommands E ?c st w = (w1, Inr (Continue b))"
    "build_identity_and_resolve_root E ?c st b w1 = (w2, Inr h)" "finish_start E ?c h w2 = (bs, Inr (s, cap))" "w' = boot_world bs"
    using start_Started[OF assms(2)] by blast
  have w1: "w1 = w" "b = None" using run_cli_plain[OF _ st(1)] assms(3) by simp_all
  obtain w3 rc n where id: "resolve_startup_root_cid E (cl_kinds_cid ?c) (Some root) w = (w3, Inr rc)"
    "materialise_head ?K rc w3 = (w2, Inr (hd_root h, hd_capacity h))"
    "outbox_backoff_attempts (map_of (dc_extra (hd_config h)) ''outbox_backoff_attempts'') = Inr n"
    using build_identity_Inr[OF st(2)] assms(4) w1 by auto
  obtain r1 m1 where h1: "rc = Some r1" "dag_get_manifest ?K w3 r1 = Some m1" "head_kept m m1"
    using resolve_startup_head[OF ok id(1) assms(5)] by (auto simp: head_at_def)
  obtain r2 where r2: "hd_root h = Some r2"
    "materialise_plugin_envelope_queue_capacity ?K r1 w3 = (w2, Inr (r2, hd_capacity h))"
    using id(2) h1(1) by (auto simp: materialise_head_def bind_w_def split: sum.splits prod.splits)
  from materialise_head[OF ok r2(2) h1(2)] obtain m2 v where m2: "dag_get_manifest ?K w2 r2 = Some m2" "head_kept m1 m2"
    "map_of (rm_config m2) ?key = Some v" "plugin_envelope_queue_capacity (Some v) = Inr (hd_capacity h)"
    by (auto simp: head_at_def)
  have kept2: "head_kept m m2" using head_kept_trans[OF h1(3) m2(2)] .
  then have inv2: "hm_inv (rm_entities m2)" using assms(6) by (simp add: head_kept_def hm_inv_def)
  obtain bs1 root3 where l: "load_phase E h w2 = (bs1, root3)" by fastforce
  obtain rc3 m3 where m3: "root3 = Some rc3" "dag_get_manifest ?K (boot_world bs1) rc3 = Some m3"
    "m3 = m2\<lparr>rm_entities := rm_entities m3\<rparr>" "map fst (rm_entities m3) = map fst (rm_entities m2)"
    using load_phase_head[OF assms(1) r2(1) m2(1) inv2 l] by blast
  have kept3: "head_kept m2 m3" using m3(4) by (subst m3(3)) (simp add: head_kept_def)
  obtain saved w4 s' refresh ca ro where fin:
    "finalize_startup ?K (su_our_did E) (su_passphrase E) (ro_needs_manifest_sync ro)
        (service_state_of h saved root3 ca ro (map fst (bs_plugins bs1)) (bs_kinds bs1)
            (get_bool_setting (hd_config h) ''ipfs_publisher'' True)) (boot_world bs1) = (w4, Inr s')"
    "did_refresh_interval_secs (map_of (dc_extra (hd_config h)) ''did_refresh_interval_secs'') = Inr refresh"
    "s = s'\<lparr>ct_refresh := Some refresh\<rparr>" "boot_world bs = w4" "cap = hd_capacity h"
    using finish_start_Inr[OF st(3) l] unfolding Let_def by blast
  have s0: "serves ?K m2 (boot_world bs1, service_state_of h saved root3 ca ro names kinds ipfs)" for names kinds ipfs
    using m3(1,2) kept3 ok by (simp add: serves_def service_state_of_def writer_new_def coherent_def current_def)
  from finalize_serves[OF s0 fin(1)] obtain m4 where m4: "coherent ?K (w4, ct_writer s')" "current ?K (w4, ct_writer s') = Some m4"
    "head_kept m2 m4" "ct_config s' = hd_config h"
    by (auto simp: serves_def service_state_of_def)
  have cap: "map_of (rm_config m4) ?key = Some v" using m4(3) m2(3) by (simp add: head_kept_def)
  have "bt_inv (rm_config m4)" using head_kept_trans[OF kept2 m4(3)] assms(7) by (simp add: head_kept_def)
  then have "config_typed (rm_config m4)" using cap m2(4) by (simp add: config_typed_def)
  moreover have "daemon_typed (ct_config s)" using id(3) fin(2,3) m4(4) by (simp add: daemon_typed_def)
  moreover have "head_kept m m4" using head_kept_trans[OF kept2 m4(3)] .
  ultimately show ?thesis
    using m4(1,2) fin(3,4,5) st(4) cap m2(4) by (auto simp: head_kept_def OWNERS_GROUP_def)
qed

theorem start_keeps_head_witness:
  "\<exists>w' bs s cap. start sample_start (cli_from (Some ''bafy'')) [ManifestDoc empty_manifest] = (w', Inr (Started bs s cap sample_st))
     \<and> daemon_typed (ct_config s)"
proof -
  obtain w' bs s cap where run: "start sample_start (cli_from (Some ''bafy'')) [ManifestDoc empty_manifest]
      = (w', Inr (Started bs s cap sample_st))" using sample_kept_run by blast
  have m: "dag_get_manifest (su_kubo sample_start) [ManifestDoc empty_manifest] ''bafy'' = Some empty_manifest"
    by (simp add: mem_get_def mem_cid_def)
  have "select_root_cid (su_is_cid sample_start) (cl_root_cid (parse_and_sanitise (cli_from (Some ''bafy'')))) None (sd_config sample_st)
      = Inr (Some ''bafy'')" by (simp add: sample_st_def sample_select)
  from start_keeps_head[OF sample_start_ok run _ this m] run show ?thesis
    by (auto simp: empty_manifest_def hm_inv_def)
qed

text \<open>
  C31 (startup). A runtime that starts for the first time stays open to everybody: the minimal manifest is made without owners even
  if the configuration or the command line names some, so its ACL grants every capability to \<open>*\<close>; the start adds grants for the
  owners and no claim, by whomever and however many, removes that entry.
\<close>

theorem fresh_start_stays_open:
  assumes "start_ok E" and "start E args w = (w', Inr (Started bs s cap st))"
    and "cl_bootstrap args = None" and "cl_kinds_cid args = None"
    and "select_root_cid (su_is_cid E) (cl_root_cid (parse_and_sanitise args)) None (sd_config st) = Inr None"
    and "resolve_runtime_root_cid_by_ipns_id (su_node E) (su_ipns_id E) w = Inr None"
    and "snd (bootstrap_minimal_manifest (su_boot E) [] w) = Inr root"
  shows "map_of (ct_root_acl s) ''*'' = Some (Allow {''*''})
     \<and> set (owners_from_config (owners_setting_of (map_of (dc_extra (sd_config st)) ''owners''))) \<union> set (cl_owner args) \<subseteq> set (ct_owners s)
     \<and> (\<forall>d\<in>set (ct_owners s). map_of (ct_root_acl s) d = Some (Allow {''*''}))
     \<and> (\<forall>save_ok claims. map_of (cs_acl (snd (run_claims save_ok claims
          \<lparr>cs_owners = ct_owners s, cs_acl = ct_root_acl s, cs_config_path = su_config_path E, cs_saved = []\<rparr>))) ''*'' = Some (Allow {''*''}))"
proof -
  let ?c = "parse_and_sanitise args" and ?K = "su_kubo E" and ?cfg = "sd_config st"
  let ?setting = "owners_setting_of (map_of (dc_extra ?cfg) ''owners'')"
  have ok: "kubo_ok ?K" "boot_ok (su_boot E)" using assms(1) by (simp_all add: start_ok_def)
  obtain w1 b w2 h where st: "run_cli_subcommands E ?c st w = (w1, Inr (Continue b))"
    "build_identity_and_resolve_root E ?c st b w1 = (w2, Inr h)" "finish_start E ?c h w2 = (bs, Inr (s, cap))"
    using start_Started[OF assms(2)] by blast
  have w1: "w1 = w" "b = None" using run_cli_plain[OF _ st(1)] assms(3) by simp_all
  obtain w3 where mini: "bootstrap_minimal_manifest (su_boot E) [] w = (w3, Inr root)"
    using assms(7) by (metis prod.collapse)
  obtain rc where id: "resolve_startup_root_cid E None None w = (w3, Inr (Some rc))" "rc = root"
    using mini assms(6) by (simp add: resolve_startup_root_cid_def find_root_def bind_w_def require_kinds_overlay_base_def)
  have h: "materialise_head ?K (Some root) w3 = (w2, Inr (hd_root h, hd_capacity h))" "hd_config h = ?cfg"
    using build_identity_Inr[OF st(2)] assms(4,5) w1 id by (auto simp: persist_selected_def)
  obtain acl oc where m: "dag_get_manifest ?K w3 root = Some (minimal_manifest acl oc)"
    "dag_get_acl ?K w3 acl = Some [(''*'', Allow {''*''})]" "dag_get_strings ?K w3 oc = Some []"
    using minimal_manifest_stored[OF ok(2) mini] by (auto simp: minimal_acl_def)
  obtain r2 where r2: "hd_root h = Some r2"
    "materialise_plugin_envelope_queue_capacity ?K root w3 = (w2, Inr (r2, hd_capacity h))"
    using h(1) by (auto simp: materialise_head_def bind_w_def split: sum.splits prod.splits)
  obtain m2 where m2: "dag_get_manifest ?K w2 r2 = Some m2" "head_kept (minimal_manifest acl oc) m2" "node_keeps ?K w3 w2"
    using materialise_head[OF ok(1) r2(2) m(1)] by (auto simp: head_at_def)
  have m2': "rm_acl m2 = Some acl" "hm_inv (rm_entities m2)"
    using m2(2) by (simp_all add: head_kept_def minimal_manifest_def hm_inv_def)
  obtain bs1 root3 where l: "load_phase E h w2 = (bs1, root3)" by fastforce
  obtain rc3 m3 where m3: "root3 = Some rc3" "dag_get_manifest ?K (boot_world bs1) rc3 = Some m3"
    "m3 = m2\<lparr>rm_entities := rm_entities m3\<rparr>" and keeps: "node_keeps ?K w2 (boot_world bs1)"
    using load_phase_head[OF assms(1) r2(1) m2(1) m2'(2) l] by blast
  have acl3: "rm_acl m3 = Some acl" using m2'(1) by (subst m3(3)) simp
  define ca where "ca = populate_acl_and_group_caches ?K (boot_world bs1) root3"
  define ro where "ro = resolve_and_seed_owners ?setting (su_config_path E) (cl_owner args) (ca_owners ca) (ca_acl ca)"
  obtain saved w4 s' refresh where fin:
    "finalize_startup ?K (su_our_did E) (su_passphrase E) (ro_needs_manifest_sync ro)
        (service_state_of h saved root3 ca ro (map fst (bs_plugins bs1)) (bs_kinds bs1)
            (get_bool_setting ?cfg ''ipfs_publisher'' True)) (boot_world bs1) = (w4, Inr s')"
    "s = s'\<lparr>ct_refresh := Some refresh\<rparr>"
    using finish_start_Inr[OF st(3) l] unfolding Let_def h(2) ca_def ro_def parse_and_sanitise_simps by blast
  have "dag_get_acl ?K (boot_world bs1) acl = Some [(''*'', Allow {''*''})]"
    using node_keeps_acl[OF keeps node_keeps_acl[OF m2(3) m(2)]] .
  then have ca: "ca_acl ca = [(''*'', Allow {''*''})]"
    using m3(1,2) acl3 by (simp add: ca_def populate_acl_and_group_caches_def Let_def)
  have inv: "hm_inv (ca_acl ca)" by (simp add: ca hm_inv_def)
  have ro: "set (ro_owners ro) = set (owners_from_config ?setting) \<union> set (cl_owner args) \<union> set (ca_owners ca)"
    "ro_acl ro = grant_owners_in_acl (ca_acl ca) (ro_owners ro)"
    unfolding ro_def resolve_and_seed_owners_def Let_def by (auto simp: grant_owners_in_acl_def)
  have s0: "serves ?K m3 (boot_world bs1, service_state_of h saved root3 ca ro names kinds ipfs)" for names kinds ipfs
    using m3(1,2) ok(1) by (simp add: serves_def service_state_of_def writer_new_def coherent_def current_def)
  have s: "ct_root_acl s = ro_acl ro" "ct_owners s = ro_owners ro"
    using finalize_serves[OF s0 fin(1)] fin(2) by (simp_all add: service_state_of_def)
  have star: "map_of (ct_root_acl s) ''*'' = Some (Allow {''*''})"
    using s(1) ro(2) ca by (simp add: grants_keep_wildcard)
  then show ?thesis
    using s ro grant_owners_lookup[OF inv] claims_keep_wildcard by auto
qed

theorem fresh_start_stays_open_witness:
  "\<exists>w' bs s cap. start sample_start (cli_from None) [] = (w', Inr (Started bs s cap sample_st))
     \<and> map_of (ct_root_acl s) ''*'' = Some (Allow {''*''}) \<and> ''did:ma:alice'' \<in> set (ct_owners s)"
proof -
  obtain w' bs s cap where run: "start sample_start (cli_from None) [] = (w', Inr (Started bs s cap sample_st))"
    using sample_fresh_run by blast
  obtain w root where b: "bootstrap_minimal_manifest mem_boot [] [] = (w, Inr root)" using sample_minimal by blast
  have select: "select_root_cid (su_is_cid sample_start) (cl_root_cid (parse_and_sanitise (cli_from None))) None (sd_config sample_st)
      = Inr None" by (simp add: sample_st_def sample_select)
  have ipns: "resolve_runtime_root_cid_by_ipns_id (su_node sample_start) (su_ipns_id sample_start) [] = Inr None"
    by (simp add: resolve_runtime_root_cid_by_ipns_id_def list_keys_def idle_node_def)
  have mini: "snd (bootstrap_minimal_manifest (su_boot sample_start) [] []) = Inr root" using b by simp
  from fresh_start_stays_open[OF sample_start_ok run _ _ select ipns mini] run show ?thesis by auto
qed

text \<open>
  A claim does not survive: \<open>POST /claim\<close> writes the owner into \<open>config.yaml\<close> and a start from that file knows it, but the
  configuration in memory is left alone, so the next save of it (here of a new head, at a republish or the shutdown) drops
  the owner again; after the restart the runtime is unclaimed and whoever asks first becomes its owner.
\<close>

theorem saved_config_forgets_claim:
  assumes "cs_owners c = []"
    and "owners_from_config (owners_setting_of (map_of (dc_extra (ct_config s)) ''owners'')) = []"
    and "root_cid_setting (ct_config s) \<noteq> Some root"
  shows "let restarted_owners = (\<lambda>file. ro_owners (resolve_and_seed_owners
               (owners_setting_of (map_of (dc_extra file) ''owners'')) path [] [] acl));
             claimed = persist_owners_file [b] disk;
             later = file_content claimed (ct_saved (persist_root_cid root (s\<lparr>ct_saved := []\<rparr>)))
         in fst (handle_claim save_ok b c) = Claimed [b]
          \<and> restarted_owners claimed = [b]
          \<and> restarted_owners later = []
          \<and> fst (handle_claim save_ok b' (c\<lparr>cs_owners := restarted_owners later\<rparr>)) = Claimed [b']"
proof -
  have owners: "owners_from_config (owners_setting_of (Some (YSeq (map YString os)))) = os" for os
    by (induction os) simp_all
  have missing: "push_missing [] xs = xs" for xs by (simp add: push_missing_def)
  have ro: "ro_owners (resolve_and_seed_owners set path [] [] acl) = owners_from_config set" for set
    by (simp add: resolve_and_seed_owners_def Let_def missing)
  have claim: "fst (handle_claim save_ok d (c\<lparr>cs_owners := []\<rparr>)) = Claimed [d]" for d
    by (rule handle_claim_fresh(1)) simp
  have "c\<lparr>cs_owners := []\<rparr> = c" using assms(1) by simp
  moreover have "map_of (dc_extra (file_content f (ct_saved (persist_root_cid root (s\<lparr>ct_saved := []\<rparr>))))) ''owners''
      = map_of (dc_extra (ct_config s)) ''owners''" for f
    using assms(3) by (simp add: persist_root_cid_def file_content_def Let_def map_of_update)
  ultimately show ?thesis
    using claim[of b] claim[of b'] assms(2) owners[of "[b]"]
    by (simp add: Let_def ro persist_owners_file_def put_extra_lookup)
qed

theorem saved_config_forgets_claim_witness:
  "ro_owners (resolve_and_seed_owners (owners_setting_of (map_of (dc_extra
      (file_content (persist_owners_file [''did:ma:alice''] sample_config)
         (ct_saved (persist_root_cid ''bafyNew'' (sample_crud\<lparr>ct_saved := []\<rparr>))))) ''owners'')) None [] [] []) = []"
proof -
  have "cs_owners \<lparr>cs_owners = [], cs_acl = [], cs_config_path = None, cs_saved = []\<rparr> = []" by simp
  moreover have "owners_from_config (owners_setting_of (map_of (dc_extra (ct_config sample_crud)) ''owners'')) = []"
    "root_cid_setting (ct_config sample_crud) \<noteq> Some ''bafyNew''"
    by (simp_all add: sample_crud_def sample_config_def root_cid_setting_def)
  ultimately show ?thesis
    using saved_config_forgets_claim[where b = "''did:ma:alice''" and disk = sample_config and s = sample_crud and root = "''bafyNew''"
        and path = None and acl = "[]"] unfolding Let_def by blast
qed

end
