(* ===== verification/Dispatch.thy ===== *)
theory Dispatch
  imports Reload Outbox
begin

text \<open>
  Delivery of inbox messages to entities (\<open>src/dispatch.rs\<close>): the entry point, the verb gate, the
  dispatch itself and what the runtime does with the requests a dispatch returns.  The state is the
  world, the service state of \<open>Crud\<close> with the registry of handles, and logs of what is
  sent or spawned.  Calls into workers are the fields of \<open>runtime_env\<close> whose
  behaviour is the subject of \<open>Worker\<close>; \<open>loader_ok\<close> says what is used of them.
\<close>

section \<open>State\<close>

record 'w runtime =
  rt_world :: 'w
  rt_svc :: crud_state
  rt_handles :: "nat \<Rightarrow> entity_handle"
  rt_outbox :: "(string \<times> send_envelope) list"
  rt_replies :: "(local_message \<times> bytes) list"
  rt_persists :: "(nat \<times> bytes) list"
  rt_inserts :: "(string \<times> entity_node) list"

text \<open>
  \<open>re_reply_ok\<close> tells whether a reply to the message can be built (the sender is a DID and signing
  succeeds); \<open>re_publish_root\<close> is \<open>publish_runtime_root_cid\<close> under its timeout.
\<close>

record 'w runtime_env =
  re_crud :: "'w crud_env"
  re_did :: did_parser
  re_our_did :: string
  re_capacity :: nat
  re_node_id :: string
  re_started_at :: u64
  re_load :: "load_args \<Rightarrow> 'w \<Rightarrow> 'w \<times> (load_error + nat \<times> entity_handle \<times> lifecycle)"
  re_load_retry :: "load_args \<Rightarrow> 'w \<Rightarrow> 'w \<times> (load_error + nat \<times> entity_handle \<times> lifecycle)"
  re_prepare_save :: "nat \<Rightarrow> 'w \<Rightarrow> 'w \<times> (save_error + cid option)"
  re_trigger_save :: "nat \<Rightarrow> 'w \<Rightarrow> 'w \<times> (save_error + cid option)"
  re_on_message :: "nat \<Rightarrow> local_message \<Rightarrow> 'w \<Rightarrow> 'w \<times> (dispatch_error + dispatch_result)"
  re_reply_ok :: "local_message \<Rightarrow> bool"
  re_publish_root :: "cid \<Rightarrow> 'w \<Rightarrow> 'w \<times> (string + unit)"
  re_encode :: "cbor \<Rightarrow> bytes"
  re_decode :: "bytes \<Rightarrow> cbor option"

text \<open>A loaded entity's handle is built from the arguments of the load.\<close>

definition loader_ok :: "'w runtime_env \<Rightarrow> bool" where
  "loader_ok E =
     (\<forall>a w w' h eh lc.
        (re_load E a w = (w', Inr (h, eh, lc)) \<or> re_load_retry E a w = (w', Inr (h, eh, lc))) \<longrightarrow>
        eh = new_handle a False)"

lemma load_handle: "snd (load HE G dec build in_time a sh) = Inr (eh, wk, lc) \<Longrightarrow> eh = new_handle a False"
  by (auto simp: load_def Let_def split: if_splits sum.splits prod.splits option.splits)

datatype actor_error =
    AeAcl entity_acl_error | AePlugin | AeBehaviour cid_error | AeNoRoot | AeFetch cid | AeNotInManifest string
  | AeWriter writer_error | AeKind string | AeLoad load_error | AeReply

type_synonym 'w step_result = "'w runtime \<times> (actor_error + unit)"

abbreviation plugins :: "'w runtime \<Rightarrow> nat hash_map" where
  "plugins rt \<equiv> ct_plugins (rt_svc rt)"

definition map_svc :: "(crud_state \<Rightarrow> crud_state) \<Rightarrow> 'w runtime \<Rightarrow> 'w runtime" where
  "map_svc f rt = rt\<lparr>rt_svc := f (rt_svc rt)\<rparr>"

definition register_entity :: "string \<Rightarrow> nat \<Rightarrow> entity_handle \<Rightarrow> 'w runtime \<Rightarrow> 'w runtime" where
  "register_entity name h eh rt = map_svc (install_plugin name h) (rt\<lparr>rt_handles := (rt_handles rt)(h := eh)\<rparr>)"

definition run_writer ::
  "('w \<Rightarrow> writer \<Rightarrow> 'w \<times> writer \<times> (writer_error + 'a)) \<Rightarrow> 'w runtime \<Rightarrow> 'w runtime \<times> (writer_error + 'a)" where
  "run_writer f rt =
     (case f (rt_world rt) (ct_writer (rt_svc rt)) of
        (w, wr, r) \<Rightarrow> (map_svc (\<lambda>s. s\<lparr>ct_writer := wr\<rparr>) (rt\<lparr>rt_world := w\<rparr>), r))"

text \<open>A configuration that cannot be built is replaced by the empty one.\<close>

definition public_config :: "'w runtime_env \<Rightarrow> 'w runtime \<Rightarrow> string btree_map" where
  "public_config E rt =
     (case snd (runtime_config_snapshot (re_crud E) (rt_world rt, rt_svc rt)) of Inr c \<Rightarrow> c | Inl e \<Rightarrow> [])"

section \<open>Replies\<close>

definition send_reply :: "'w runtime_env \<Rightarrow> local_message \<Rightarrow> bytes \<Rightarrow> 'w runtime \<Rightarrow> 'w step_result" where
  "send_reply E msg content rt =
     (if re_reply_ok E msg then (rt\<lparr>rt_replies := (msg, content) # rt_replies rt\<rparr>, Inr ()) else (rt, Inl AeReply))"

definition send_error_reply :: "'w runtime_env \<Rightarrow> local_message \<Rightarrow> string \<Rightarrow> 'w runtime \<Rightarrow> 'w step_result" where
  "send_error_reply E msg reason rt = send_reply E msg (re_encode E (CArray [CText '':error'', CText reason])) rt"

definition handle_ping :: "'w runtime_env \<Rightarrow> local_message \<Rightarrow> cbor \<Rightarrow> 'w runtime \<Rightarrow> 'w step_result" where
  "handle_ping E msg term rt =
     (if term = CText '':ping'' then send_reply E msg (re_encode E (CText '':pong'')) rt else (rt, Inr ()))"

fun term_verb :: "cbor \<Rightarrow> string option" where
  "term_verb (CText verb) = Some verb"
| "term_verb (CArray (CText verb # _)) = Some verb"
| "term_verb _ = None"

definition handle_root_publish :: "'w runtime_env \<Rightarrow> local_message \<Rightarrow> 'w runtime \<Rightarrow> 'w step_result" where
  "handle_root_publish E msg rt =
     (if \<not> is_owner (ce_core (re_crud E)) (ct_owners (rt_svc rt)) (lm_from msg)
      then send_error_reply E msg ''owner required'' rt
      else (case mw_root_cid (ct_writer (rt_svc rt)) of
              None \<Rightarrow> send_error_reply E msg ''no manifest root CID available'' rt
            | Some root \<Rightarrow>
                (case re_publish_root E root (rt_world rt) of
                   (w, Inl e) \<Rightarrow> send_error_reply E msg e (rt\<lparr>rt_world := w\<rparr>)
                 | (w, Inr _) \<Rightarrow>
                     send_reply E msg (re_encode E (CArray [CText '':ok'', CText root])) (rt\<lparr>rt_world := w\<rparr>))))"

section \<open>Behaviour requests\<close>

definition load_entity_node_for_update ::
  "'w runtime_env \<Rightarrow> string \<Rightarrow> cid option \<Rightarrow> 'w runtime \<Rightarrow> actor_error + entity_node" where
  "load_entity_node_for_update E fragment behaviour rt =
     (let K = ce_kubo (re_crud E); w = rt_world rt in
      case mw_root_cid (ct_writer (rt_svc rt)) of
        None \<Rightarrow> Inl AeNoRoot
      | Some root \<Rightarrow>
          (case dag_get_manifest K w root of
             None \<Rightarrow> Inl (AeFetch root)
           | Some m \<Rightarrow>
               (case map_of (rm_entities m) fragment of
                  None \<Rightarrow> Inl (AeNotInManifest fragment)
                | Some link \<Rightarrow>
                    (case dag_get_entity K w link of
                       None \<Rightarrow> Inl (AeFetch link)
                     | Some node \<Rightarrow> Inr (node\<lparr>en_behaviour := behaviour\<rparr>)))))"

definition requested_behaviour :: "string option \<Rightarrow> actor_error + cid option" where
  "requested_behaviour b =
     (case b of
        None \<Rightarrow> Inr None
      | Some v \<Rightarrow> (case normalize_behaviour_cid v of Inl e \<Rightarrow> Inl (AeBehaviour e) | Inr c \<Rightarrow> Inr (Some c)))"

text \<open>A state that cannot be saved does not stop the replacement here; one that cannot be published does.\<close>

definition save_current_state :: "'w runtime_env \<Rightarrow> string \<Rightarrow> nat option \<Rightarrow> 'w runtime \<Rightarrow> 'w step_result" where
  "save_current_state E fragment running rt =
     (case running of
        None \<Rightarrow> (rt, Inr ())
      | Some h \<Rightarrow>
          (case re_prepare_save E h (rt_world rt) of
             (w, Inr (Some c)) \<Rightarrow>
               (case run_writer (set_entity_state (ce_kubo (re_crud E)) fragment c) (rt\<lparr>rt_world := w\<rparr>) of
                  (rt', Inl e) \<Rightarrow> (rt', Inl (AeWriter e)) | (rt', Inr root) \<Rightarrow> (rt', Inr ()))
           | (w, _) \<Rightarrow> (rt\<lparr>rt_world := w\<rparr>, Inr ())))"

definition behaviour_load_args ::
  "'w runtime_env \<Rightarrow> string \<Rightarrow> entity_node \<Rightarrow> kind_node \<Rightarrow> 'w runtime \<Rightarrow> load_args" where
  "behaviour_load_args E fragment node kind rt =
     \<lparr>la_fragment = fragment, la_node = node, la_kind = kind, la_node_id = re_node_id E,
      la_started_at = re_started_at E, la_runtime_config = public_config E rt, la_init_payload = None\<rparr>"

definition install_behaviour ::
  "'w runtime_env \<Rightarrow> string \<Rightarrow> cid option \<Rightarrow> nat option \<Rightarrow> nat \<Rightarrow> entity_handle \<Rightarrow> 'w runtime \<Rightarrow> 'w step_result" where
  "install_behaviour E fragment behaviour running h eh rt0 =
     (let K = ce_kubo (re_crud E);
          (w1, saved) = re_trigger_save E h (rt_world rt0);
          rt1 = rt0\<lparr>rt_world := w1\<rparr>
      in case run_writer (set_entity_behaviour K fragment behaviour) rt1 of
           (rt2, Inl e) \<Rightarrow> (rt2, Inl (AeWriter e))
         | (rt2, Inr root) \<Rightarrow>
             (let rt3 = (case saved of
                           Inr (Some c) \<Rightarrow> fst (run_writer (set_entity_state K fragment c) rt2) | _ \<Rightarrow> rt2)
              in (map_svc (terminate_worker running) (register_entity fragment h eh rt3), Inr ())))"

definition apply_behaviour_request :: "'w runtime_env \<Rightarrow> set_behaviour_request \<Rightarrow> 'w runtime \<Rightarrow> 'w step_result" where
  "apply_behaviour_request E req rt0 =
     (case requested_behaviour (sb_behaviour_cid req) of
        Inl e \<Rightarrow> (rt0, Inl e)
      | Inr behaviour \<Rightarrow>
          (let fragment = sb_fragment req; running = map_of (plugins rt0) fragment in
           case save_current_state E fragment running rt0 of
             (rt1, Inl e) \<Rightarrow> (rt1, Inl e)
           | (rt1, Inr _) \<Rightarrow>
               (case load_entity_node_for_update E fragment behaviour rt1 of
                  Inl e \<Rightarrow> (rt1, Inl e)
                | Inr node0 \<Rightarrow>
                    (let node = (if running \<noteq> None then node0\<lparr>en_initialised := True\<rparr> else node0) in
                     case map_of (ct_kinds (rt_svc rt1)) (en_kind node) of
                       None \<Rightarrow> (rt1, Inl (AeKind (en_kind node)))
                     | Some kind \<Rightarrow>
                         (case re_load_retry E (behaviour_load_args E fragment node kind rt1) (rt_world rt1) of
                            (w, Inl e) \<Rightarrow> (rt1\<lparr>rt_world := w\<rparr>, Inl (AeLoad e))
                          | (w, Inr (h, eh, lc)) \<Rightarrow>
                              install_behaviour E fragment behaviour running h eh (rt1\<lparr>rt_world := w\<rparr>))))))"

fun apply_behaviour_requests :: "'w runtime_env \<Rightarrow> set_behaviour_request list \<Rightarrow> 'w runtime \<Rightarrow> 'w step_result" where
  "apply_behaviour_requests E [] rt = (rt, Inr ())"
| "apply_behaviour_requests E (req # reqs) rt =
     (case apply_behaviour_request E req rt of
        (rt', Inl e) \<Rightarrow> (rt', Inl e) | (rt', Inr _) \<Rightarrow> apply_behaviour_requests E reqs rt')"

section \<open>Creation requests\<close>

definition created_node :: "create_entity_request \<Rightarrow> entity_handle \<Rightarrow> cid option \<Rightarrow> entity_node" where
  "created_node req creator behaviour =
     \<lparr>en_kind = cr_kind_protocol req, en_behaviour = behaviour, en_acl = eh_acl creator, en_state = None,
      en_parent = Some (eh_fragment creator), en_label = None, en_attributes = [], en_init = None,
      en_initialised = False, en_reload_error = None\<rparr>"

definition create_load_args ::
  "'w runtime_env \<Rightarrow> create_entity_request \<Rightarrow> entity_node \<Rightarrow> kind_node \<Rightarrow> 'w runtime \<Rightarrow> load_args" where
  "create_load_args E req node kind rt =
     \<lparr>la_fragment = cr_fragment req, la_node = node, la_kind = kind, la_node_id = re_node_id E,
      la_started_at = re_started_at E, la_runtime_config = public_config E rt, la_init_payload = cr_init_payload req\<rparr>"

text \<open>The node of a created entity after its first start, with the state it queued if that could be saved.\<close>

definition running_node :: "entity_node \<Rightarrow> save_error + cid option \<Rightarrow> entity_node" where
  "running_node node saved =
     (case saved of Inr (Some c) \<Rightarrow> node\<lparr>en_initialised := True, en_state := Some c\<rparr> | _ \<Rightarrow> node\<lparr>en_initialised := True\<rparr>)"

text \<open>The manifest entry is written by a spawned task.\<close>

definition finish_created_entity ::
  "'w runtime_env \<Rightarrow> create_entity_request \<Rightarrow> entity_node \<Rightarrow> nat \<Rightarrow> entity_handle \<Rightarrow> 'w runtime \<Rightarrow> 'w runtime" where
  "finish_created_entity E req node h eh rt =
     (let (w, saved) = re_trigger_save E h (rt_world rt);
          rt1 = register_entity (cr_fragment req) h eh (rt\<lparr>rt_world := w\<rparr>)
      in rt1\<lparr>rt_inserts := (cr_fragment req, running_node node saved) # rt_inserts rt1\<rparr>)"

definition enqueue_runtime :: "'w runtime_env \<Rightarrow> string \<Rightarrow> send_envelope \<Rightarrow> 'w runtime \<Rightarrow> 'w runtime" where
  "enqueue_runtime E fragment envelope rt =
     (if length (rt_outbox rt) \<ge> re_capacity E then rt
      else rt\<lparr>rt_outbox := rt_outbox rt @ [(fragment, envelope)]\<rparr>)"

definition report_create_init_error :: "'w runtime_env \<Rightarrow> create_entity_request \<Rightarrow> 'w runtime \<Rightarrow> 'w runtime" where
  "report_create_init_error E req rt =
     (let actor = local_actor_url (re_did E) (re_our_did E) (cr_fragment req) in
      enqueue_runtime E (cr_parent req)
        \<lparr>se_to = re_our_did E @ ''#'' @ cr_parent req, se_content_type = ''application/vnd.ma.term'',
         se_message_type = None,
         se_content = re_encode E (CArray [CText '':error'', CText (''init() failed for '' @ actor), CText actor]),
         se_reply_to = None\<rparr> rt)"

definition create_entity_from_request ::
  "'w runtime_env \<Rightarrow> entity_handle \<Rightarrow> create_entity_request \<Rightarrow> kind_node \<Rightarrow> 'w runtime \<Rightarrow> 'w step_result" where
  "create_entity_from_request E creator req kind rt =
     (case requested_behaviour (cr_behaviour_cid req) of
        Inl e \<Rightarrow> (rt, Inl e)
      | Inr behaviour \<Rightarrow>
          (let node = created_node req creator behaviour in
           case re_load E (create_load_args E req node kind rt) (rt_world rt) of
             (w, Inl e) \<Rightarrow> (rt\<lparr>rt_world := w\<rparr>, Inr ())
           | (w, Inr (h, eh, Running)) \<Rightarrow> (finish_created_entity E req node h eh (rt\<lparr>rt_world := w\<rparr>), Inr ())
           | (w, Inr (h, eh, Error)) \<Rightarrow> (report_create_init_error E req (rt\<lparr>rt_world := w\<rparr>), Inr ())))"

fun process_entity_create_requests ::
  "'w runtime_env \<Rightarrow> entity_handle \<Rightarrow> create_entity_request list \<Rightarrow> 'w runtime \<Rightarrow> 'w step_result" where
  "process_entity_create_requests E creator [] rt = (rt, Inr ())"
| "process_entity_create_requests E creator (req # reqs) rt =
     (case map_of (ct_kinds (rt_svc rt)) (cr_kind_protocol req) of
        None \<Rightarrow> process_entity_create_requests E creator reqs rt
      | Some kind \<Rightarrow>
          (case create_entity_from_request E creator req kind rt of
             (rt', Inl e) \<Rightarrow> (rt', Inl e)
           | (rt', Inr _) \<Rightarrow> process_entity_create_requests E creator reqs rt'))"

section \<open>Deletion requests\<close>

definition has_children :: "string \<Rightarrow> 'w runtime \<Rightarrow> bool" where
  "has_children fragment rt = list_ex (\<lambda>(name, h). eh_parent (rt_handles rt h) = Some fragment) (plugins rt)"

definition delete_entity :: "entity_handle \<Rightarrow> string \<Rightarrow> 'w runtime \<Rightarrow> 'w runtime" where
  "delete_entity caller target rt =
     (case map_of (plugins rt) target of
        None \<Rightarrow> rt
      | Some h \<Rightarrow>
          if \<not> (eh_parent (rt_handles rt h) = Some (eh_fragment caller) \<or> target = eh_fragment caller) then rt
          else if has_children target rt then rt
          else map_svc (remove_plugin target) rt)"

definition process_entity_delete_requests :: "entity_handle \<Rightarrow> string list \<Rightarrow> 'w runtime \<Rightarrow> 'w runtime" where
  "process_entity_delete_requests caller targets rt = fold (delete_entity caller) targets rt"

section \<open>Dispatch\<close>

definition dispatched_message :: "local_message \<Rightarrow> bytes \<Rightarrow> local_message" where
  "dispatched_message msg content = msg\<lparr>lm_content := content\<rparr>"

definition spawn_persist :: "nat \<Rightarrow> bytes option \<Rightarrow> 'w runtime \<Rightarrow> 'w runtime" where
  "spawn_persist h pending rt =
     (case pending of None \<Rightarrow> rt | Some b \<Rightarrow> rt\<lparr>rt_persists := (h, b) # rt_persists rt\<rparr>)"

definition dispatch_entity_message ::
  "'w runtime_env \<Rightarrow> local_message \<Rightarrow> cbor \<Rightarrow> nat \<Rightarrow> 'w runtime \<Rightarrow> 'w runtime \<times> (actor_error + bytes option)" where
  "dispatch_entity_message E msg term h rt =
     (let entity = rt_handles rt h; s = rt_svc rt in
      case enforce_entity_acl (ce_core (re_crud E)) (re_our_did E) (ct_acl_cache s) (ct_group_cache s)
             (eh_acl entity) (lm_from msg) (term_verb term) of
        Inl e \<Rightarrow> (rt, Inl (AeAcl e))
      | Inr _ \<Rightarrow>
          (case re_on_message E h (dispatched_message msg (re_encode E term)) (rt_world rt) of
             (w, Inl e) \<Rightarrow> (rt\<lparr>rt_world := w\<rparr>, Inl AePlugin)
           | (w, Inr dr) \<Rightarrow>
               (case process_entity_create_requests E entity (dr_create dr)
                       (spawn_persist h (dr_pending dr) (rt\<lparr>rt_world := w\<rparr>)) of
                  (rt1, Inl e) \<Rightarrow> (rt1, Inl e)
                | (rt1, Inr _) \<Rightarrow>
                    (case apply_behaviour_requests E (dr_behaviour dr)
                            (process_entity_delete_requests entity (dr_delete dr) rt1) of
                       (rt2, Inl e) \<Rightarrow> (rt2, Inl e)
                     | (rt2, Inr _) \<Rightarrow>
                         (rt2, Inr (if eh_native entity \<and> dr_output dr \<noteq> [] then Some (dr_output dr) else None))))))"

text \<open>An empty or undecodable message, and a dispatch that fails, are logged and answered with nothing.\<close>

definition dispatch_actor_message :: "'w runtime_env \<Rightarrow> local_message \<Rightarrow> 'w runtime \<Rightarrow> 'w step_result" where
  "dispatch_actor_message E msg rt =
     (if lm_content msg = [] then (rt, Inr ())
      else (case re_decode E (lm_content msg) of
              None \<Rightarrow> (rt, Inr ())
            | Some term \<Rightarrow>
                (case local_target_fragment (re_did E) (lm_to msg) (re_our_did E) of
                   None \<Rightarrow> handle_ping E msg term rt
                 | Some fragment \<Rightarrow>
                     if fragment = ''root'' \<and> term_verb term = Some '':publish'' then handle_root_publish E msg rt
                     else (case map_of (plugins rt) fragment of
                             None \<Rightarrow> send_error_reply E msg (''unknown entity fragment: '' @ fragment) rt
                           | Some h \<Rightarrow>
                               (case dispatch_entity_message E msg term h rt of
                                  (rt', Inr (Some content)) \<Rightarrow> send_reply E msg content rt'
                                | (rt', Inr None) \<Rightarrow> (rt', Inr ())
                                | (rt', Inl e) \<Rightarrow> (rt', Inr ()))))))"

section \<open>Lemmas\<close>

lemma map_svc_simps [simp]:
  "rt_svc (map_svc f rt) = f (rt_svc rt)" "rt_world (map_svc f rt) = rt_world rt"
  "rt_handles (map_svc f rt) = rt_handles rt" "rt_outbox (map_svc f rt) = rt_outbox rt"
  "rt_replies (map_svc f rt) = rt_replies rt" "rt_persists (map_svc f rt) = rt_persists rt"
  "rt_inserts (map_svc f rt) = rt_inserts rt"
  by (simp_all add: map_svc_def)

lemma register_entity_simps [simp]:
  "map_of (plugins (register_entity name h eh rt)) k = (if k = name then Some h else map_of (plugins rt) k)"
  "rt_handles (register_entity name h eh rt) = (rt_handles rt)(h := eh)"
  "ct_terminated (rt_svc (register_entity name h eh rt)) = ct_terminated (rt_svc rt)"
  "rt_world (register_entity name h eh rt) = rt_world rt" "rt_outbox (register_entity name h eh rt) = rt_outbox rt"
  "rt_persists (register_entity name h eh rt) = rt_persists rt" "rt_inserts (register_entity name h eh rt) = rt_inserts rt"
  by (simp_all add: register_entity_def map_of_update)

lemma enforce_entity_acl_Inr:
  assumes "enforce_entity_acl A our acls groups name from verb = Inr u"
  shows "name \<noteq> [] \<and> (\<exists>acl. map_of acls (''acls.'' @ name) = Some acl
     \<and> check_full A acl (local_caller our from) [(case verb of None \<Rightarrow> ''*'' | Some v \<Rightarrow> v), ''*''] (resolve_in_cache groups) = Inr ())"
  using assms by (auto simp: enforce_entity_acl_def split: if_splits option.splits sum.splits)

lemma has_children_iff: "has_children f rt \<longleftrightarrow> (\<exists>(name, h) \<in> set (plugins rt). eh_parent (rt_handles rt h) = Some f)"
  by (auto simp: has_children_def list_ex_iff)

text \<open>The registry is a forest when the parent of every entity is registered.\<close>

definition parents_registered :: "'w runtime \<Rightarrow> bool" where
  "parents_registered rt =
     (\<forall>name h p. map_of (plugins rt) name = Some h \<longrightarrow> eh_parent (rt_handles rt h) = Some p \<longrightarrow> map_of (plugins rt) p \<noteq> None)"

definition may_delete :: "entity_handle \<Rightarrow> 'w runtime \<Rightarrow> string \<Rightarrow> nat \<Rightarrow> bool" where
  "may_delete caller rt name h \<longleftrightarrow> eh_parent (rt_handles rt h) = Some (eh_fragment caller) \<or> name = eh_fragment caller"

lemma delete_entity_frame:
  "rt_world (delete_entity caller t rt) = rt_world rt" "rt_handles (delete_entity caller t rt) = rt_handles rt"
  "ct_writer (rt_svc (delete_entity caller t rt)) = ct_writer (rt_svc rt)"
  "rt_inserts (delete_entity caller t rt) = rt_inserts rt"
  by (simp_all add: delete_entity_def split: option.splits)

lemma delete_entity_cases:
  "delete_entity caller t rt = rt
   \<or> (\<exists>h. map_of (plugins rt) t = Some h \<and> may_delete caller rt t h \<and> \<not> has_children t rt
        \<and> plugins (delete_entity caller t rt) = AList.delete t (plugins rt))"
  by (auto simp: delete_entity_def may_delete_def split: option.splits)

lemma delete_entity_parents:
  assumes "parents_registered rt"
  shows "parents_registered (delete_entity caller t rt)"
  using delete_entity_cases[of caller t rt]
proof
  assume d: "\<exists>h. map_of (plugins rt) t = Some h \<and> may_delete caller rt t h \<and> \<not> has_children t rt
        \<and> plugins (delete_entity caller t rt) = AList.delete t (plugins rt)"
  then have "eh_parent (rt_handles rt h) \<noteq> Some t" if "map_of (plugins rt) name = Some h" for name h
    using that by (auto simp: has_children_iff dest: map_of_SomeD)
  with assms d show ?thesis
    unfolding parents_registered_def by (fastforce simp: delete_entity_frame map_of_delete split: if_splits)
qed (use assms in simp)

lemma delete_entity_registry:
  assumes "map_of (plugins rt) k = Some h"
  shows "map_of (plugins (delete_entity caller t rt)) k = Some h \<or> (k = t \<and> may_delete caller rt k h)"
  using delete_entity_cases[of caller t rt] assms by (auto simp: map_of_delete split: if_splits)

lemma deletions_frame:
  "rt_world (process_entity_delete_requests caller ts rt) = rt_world rt
   \<and> rt_handles (process_entity_delete_requests caller ts rt) = rt_handles rt
   \<and> ct_writer (rt_svc (process_entity_delete_requests caller ts rt)) = ct_writer (rt_svc rt)"
  unfolding process_entity_delete_requests_def
  by (induction ts arbitrary: rt) (simp_all add: delete_entity_frame)

lemma deletions_parents:
  "parents_registered rt \<Longrightarrow> parents_registered (process_entity_delete_requests caller ts rt)"
  unfolding process_entity_delete_requests_def
  by (induction ts arbitrary: rt) (simp_all add: delete_entity_parents)

lemma deletions_registry:
  "map_of (plugins rt) k = Some h \<Longrightarrow>
   map_of (plugins (process_entity_delete_requests caller ts rt)) k = Some h \<or> (k \<in> set ts \<and> may_delete caller rt k h)"
  unfolding process_entity_delete_requests_def
proof (induction ts arbitrary: rt)
  case (Cons t ts)
  have same: "may_delete caller (delete_entity caller t rt) k h = may_delete caller rt k h"
    by (simp add: may_delete_def delete_entity_frame)
  from delete_entity_registry[OF Cons.prems, of caller t] show ?case
    using Cons.IH[of "delete_entity caller t rt"] same by auto
qed simp

section \<open>A runtime for the witnesses\<close>

definition sample_runtime_env :: "doc list runtime_env" where
  "sample_runtime_env = \<lparr>re_crud = sample_env, re_did = split_did, re_our_did = ''did:ma:us'', re_capacity = 16,
     re_node_id = [], re_started_at = 0, re_load = (\<lambda>a w. (w, Inr (8, new_handle a False, Running))),
     re_load_retry = (\<lambda>a w. (w, Inr (8, new_handle a False, Running))),
     re_prepare_save = (\<lambda>h w. (w, Inr None)), re_trigger_save = (\<lambda>h w. (w, Inr None)),
     re_on_message = (\<lambda>h m w. (w, Inr \<lparr>dr_output = [], dr_pending = Some [7], dr_create = [], dr_delete = [], dr_behaviour = []\<rparr>)),
     re_reply_ok = (\<lambda>_. True), re_publish_root = (\<lambda>c w. (w, Inr ())), re_encode = (\<lambda>_. [1]),
     re_decode = (\<lambda>_. Some (CText '':help''))\<rparr>"

definition fortune_handle :: entity_handle where
  "fortune_handle = \<lparr>eh_fragment = ''fortune'', eh_kind = Stateful, eh_acl = ''room'', eh_parent = Some ''lobby'', eh_native = False\<rparr>"

definition lobby_handle :: entity_handle where
  "lobby_handle = \<lparr>eh_fragment = ''lobby'', eh_kind = Stateful, eh_acl = ''lobby'', eh_parent = None, eh_native = False\<rparr>"

definition sample_runtime :: "doc list runtime" where
  "sample_runtime = \<lparr>rt_world = sample_world,
     rt_svc = sample_running\<lparr>ct_plugins := [(''fortune'', 7), (''lobby'', 6)],
        ct_acl_cache := [(''acls.room'', [(''did:ma:bob'', Allow {'':help''})])]\<rparr>,
     rt_handles = (\<lambda>h. if h = 7 then fortune_handle else lobby_handle), rt_outbox = [], rt_replies = [], rt_persists = [],
     rt_inserts = []\<rparr>"

definition help_message :: "string \<Rightarrow> local_message" where
  "help_message from = sample_input\<lparr>lm_from := from, lm_to := ''did:ma:us#fortune'', lm_content := [1]\<rparr>"

lemmas sample_runtime_defs = sample_runtime_env_def sample_runtime_def help_message_def fortune_handle_def lobby_handle_def

lemma sample_loader_ok: "loader_ok sample_runtime_env"
  by (auto simp: loader_ok_def sample_runtime_env_def)

lemma fortune_target: "local_target_fragment split_did ''did:ma:us#fortune'' ''did:ma:us'' = Some ''fortune''"
  by code_simp

section \<open>Properties\<close>

text \<open>
  C18 (dispatch). A message reaches an entity only through its ACL: whatever an inbox message addressed to an entity changes or
  sends back, the entity has a named ACL that is in the cache and admits the caller for the message's verb
  or for all verbs; otherwise state, outbox and replies are as they were.
\<close>

theorem entity_reached_through_acl:
  assumes "re_decode E (lm_content msg) = Some term"
    and "local_target_fragment (re_did E) (lm_to msg) (re_our_did E) = Some fragment"
    and "\<not> (fragment = ''root'' \<and> term_verb term = Some '':publish'')"
    and "map_of (plugins rt) fragment = Some h"
    and "dispatch_actor_message E msg rt \<noteq> (rt, Inr ())"
  shows "eh_acl (rt_handles rt h) \<noteq> [] \<and> (\<exists>acl. map_of (ct_acl_cache (rt_svc rt)) (''acls.'' @ eh_acl (rt_handles rt h)) = Some acl
     \<and> check_full (ce_core (re_crud E)) acl (local_caller (re_our_did E) (lm_from msg))
         [(case term_verb term of None \<Rightarrow> ''*'' | Some v \<Rightarrow> v), ''*''] (resolve_in_cache (ct_group_cache (rt_svc rt))) = Inr ())"
proof (cases "enforce_entity_acl (ce_core (re_crud E)) (re_our_did E) (ct_acl_cache (rt_svc rt)) (ct_group_cache (rt_svc rt))
    (eh_acl (rt_handles rt h)) (lm_from msg) (term_verb term)")
  case (Inl e)
  then have "dispatch_entity_message E msg term h rt = (rt, Inl (AeAcl e))"
    by (simp add: dispatch_entity_message_def Let_def)
  with assms show ?thesis by (auto simp: dispatch_actor_message_def split: if_splits)
next
  case (Inr u)
  from enforce_entity_acl_Inr[OF this] show ?thesis .
qed

theorem entity_reached_through_acl_witness:
  "rt_persists (fst (dispatch_actor_message sample_runtime_env (help_message ''did:ma:bob'') sample_runtime)) = [(7, [7])]
   \<and> (\<exists>acl. map_of (ct_acl_cache (rt_svc sample_runtime)) ''acls.room'' = Some acl
        \<and> check_full sample_core acl (local_caller ''did:ma:us'' ''did:ma:bob'') ['':help'', ''*''] (resolve_in_cache []) = Inr ())"
proof -
  have p: "rt_persists (fst (dispatch_actor_message sample_runtime_env (help_message ''did:ma:bob'') sample_runtime)) = [(7, [7])]"
    by (simp add: dispatch_actor_message_def dispatch_entity_message_def enforce_entity_acl_def sample_runtime_defs fortune_target
        check_full_def sample_defs local_caller_def starts_with_def spawn_persist_def process_entity_delete_requests_def)
  then have n: "dispatch_actor_message sample_runtime_env (help_message ''did:ma:bob'') sample_runtime \<noteq> (sample_runtime, Inr ())"
    by (auto simp: sample_runtime_def)
  have h: "map_of (plugins sample_runtime) ''fortune'' = Some 7" "rt_handles sample_runtime 7 = fortune_handle"
    "ct_group_cache (rt_svc sample_runtime) = []"
    by (simp_all add: sample_runtime_def sample_running_def sample_crud_def)
  have e: "re_decode sample_runtime_env (lm_content (help_message ''did:ma:bob'')) = Some (CText '':help'')"
    "local_target_fragment (re_did sample_runtime_env) (lm_to (help_message ''did:ma:bob'')) (re_our_did sample_runtime_env) = Some ''fortune''"
    "ce_core (re_crud sample_runtime_env) = sample_core" "re_our_did sample_runtime_env = ''did:ma:us''"
    "lm_from (help_message ''did:ma:bob'') = ''did:ma:bob''"
    by (simp_all add: sample_runtime_env_def help_message_def fortune_target)
  from entity_reached_through_acl[OF e(1,2) _ h(1) n] p h e show ?thesis by (simp add: fortune_handle_def)
qed

text \<open>
  C19 (dispatch). Deletions by entities keep the registry a forest: if the parent of every registered entity is registered, so it
  is afterwards, and an entity disappears only when it was named and the caller is its parent or the entity
  itself.  The world and the manifest writer are not touched, so the manifest keeps the entry of
  every entity deleted this way and the next start loads it again.
\<close>

theorem deletion_respects_parents:
  assumes "parents_registered rt"
  shows "parents_registered (process_entity_delete_requests caller targets rt)
     \<and> (\<forall>k h. map_of (plugins rt) k = Some h \<longrightarrow> map_of (plugins (process_entity_delete_requests caller targets rt)) k \<noteq> Some h \<longrightarrow>
          k \<in> set targets \<and> (eh_parent (rt_handles rt h) = Some (eh_fragment caller) \<or> k = eh_fragment caller))
     \<and> rt_world (process_entity_delete_requests caller targets rt) = rt_world rt
     \<and> ct_writer (rt_svc (process_entity_delete_requests caller targets rt)) = ct_writer (rt_svc rt)"
  using deletions_parents[OF assms] deletions_registry[of rt] deletions_frame[of caller targets rt]
  unfolding may_delete_def by blast

theorem deletion_respects_parents_witness:
  "plugins (process_entity_delete_requests lobby_handle [''lobby'', ''fortune'', ''fortune''] sample_runtime) = [(''lobby'', 6)]
   \<and> parents_registered (process_entity_delete_requests lobby_handle [''lobby'', ''fortune'', ''fortune''] sample_runtime)"
proof -
  have "parents_registered sample_runtime"
    by (auto simp: parents_registered_def sample_runtime_def fortune_handle_def lobby_handle_def split: if_splits)
  from deletion_respects_parents[OF this, of lobby_handle "[''lobby'', ''fortune'', ''fortune'']"] show ?thesis
    by (simp add: process_entity_delete_requests_def delete_entity_def has_children_def sample_runtime_def
        fortune_handle_def lobby_handle_def map_svc_def)
qed

text \<open>
  A created entity takes over the name of any other: when an entity asks for a fragment that is in use and the new
  plugin starts, it replaces the registered one, whoever the parent of that was, carries the creator's ACL,
  and the spawned task overwrites the manifest entry.  Nothing terminates the worker of the old one.
\<close>

theorem create_takes_over_name:
  assumes "map_of (plugins rt) (cr_fragment req) = Some victim"
    and "map_of (ct_kinds (rt_svc rt)) (cr_kind_protocol req) = Some kind"
    and "requested_behaviour (cr_behaviour_cid req) = Inr behaviour" and "loader_ok E"
    and "re_load E (create_load_args E req (created_node req creator behaviour) kind rt) (rt_world rt) = (w, Inr (h, eh, Running))"
  shows "\<exists>rt' node. process_entity_create_requests E creator [req] rt = (rt', Inr ())
     \<and> map_of (plugins rt') (cr_fragment req) = Some h \<and> eh_acl (rt_handles rt' h) = eh_acl creator
     \<and> eh_parent (rt_handles rt' h) = Some (eh_fragment creator)
     \<and> rt_inserts rt' = (cr_fragment req, node) # rt_inserts rt \<and> en_parent node = Some (eh_fragment creator)
     \<and> ct_terminated (rt_svc rt') = ct_terminated (rt_svc rt)"
proof -
  have eh: "eh = new_handle (create_load_args E req (created_node req creator behaviour) kind rt) False"
    using assms(4,5) unfolding loader_ok_def by blast
  show ?thesis
    using assms(2,3,5) eh
    by (auto simp: create_entity_from_request_def finish_created_entity_def Let_def new_handle_def create_load_args_def
        created_node_def running_node_def split: prod.splits sum.splits option.splits)
qed

theorem create_takes_over_name_witness:
  "\<exists>rt'. process_entity_create_requests sample_runtime_env (fortune_handle\<lparr>eh_acl := ''mine''\<rparr>)
       [\<lparr>cr_fragment = ''lobby'', cr_kind_protocol = ''/ma/actor'', cr_behaviour_cid = None, cr_init_payload = None,
         cr_parent = ''fortune''\<rparr>] sample_runtime = (rt', Inr ())
     \<and> map_of (plugins sample_runtime) ''lobby'' = Some 6 \<and> map_of (plugins rt') ''lobby'' = Some 8
     \<and> eh_acl (rt_handles rt' 8) = ''mine''"
proof -
  let ?req = "\<lparr>cr_fragment = ''lobby'', cr_kind_protocol = ''/ma/actor'', cr_behaviour_cid = None, cr_init_payload = None,
         cr_parent = ''fortune''\<rparr>"
  let ?creator = "fortune_handle\<lparr>eh_acl := ''mine''\<rparr>"
  have p: "map_of (plugins sample_runtime) ''lobby'' = Some 6"
    "map_of (ct_kinds (rt_svc sample_runtime)) ''/ma/actor'' = Some stateful_base"
    by (simp_all add: sample_runtime_def)
  have l: "re_load sample_runtime_env a (rt_world sample_runtime) = (rt_world sample_runtime, Inr (8, new_handle a False, Running))" for a
    by (simp add: sample_runtime_env_def)
  have r: "requested_behaviour None = Inr None" by (simp add: requested_behaviour_def)
  obtain rt' where "process_entity_create_requests sample_runtime_env ?creator [?req] sample_runtime = (rt', Inr ())"
    "map_of (plugins rt') ''lobby'' = Some 8" "eh_acl (rt_handles rt' 8) = eh_acl ?creator"
    using create_takes_over_name[of sample_runtime ?req 6 stateful_base None sample_runtime_env ?creator "rt_world sample_runtime" 8]
      p l r sample_loader_ok by (auto simp del: process_entity_create_requests.simps)
  with p show ?thesis by simp
qed

end
