(* ===== verification/EventLoop.thy ===== *)
theory EventLoop
  imports Dispatch
begin

text \<open>
  The event loop (\<open>src/eventloop.rs\<close>): what happens to the envelopes entities send.  A drain takes up to
  64 of them from the outbox channel (\<open>rt_outbox\<close> of a \<open>runtime\<close>) in order; those for entities of this runtime become local dispatches, the
  others remote deliveries, each a spawned task.  The second part is the body of a local
  dispatch with the creation requests it serves.
\<close>

section \<open>Protocols\<close>

definition MESSAGE_TYPE_IPFS_REQUEST :: string where
  "MESSAGE_TYPE_IPFS_REQUEST = ''application/vnd.ma.ipfs.request''"

definition MESSAGE_TYPE_IDENTITY_PUBLISH_REQUEST :: string where
  "MESSAGE_TYPE_IDENTITY_PUBLISH_REQUEST = ''application/vnd.ma.identity.publish.request''"

definition MESSAGE_TYPE_CRUD_REPLY :: string where
  "MESSAGE_TYPE_CRUD_REPLY = ''application/vnd.ma.crud.reply''"

definition protocol_for :: "string \<Rightarrow> string" where
  "protocol_for msg_type =
     (if msg_type \<in> {MESSAGE_TYPE_IPFS_REQUEST, MESSAGE_TYPE_IDENTITY_PUBLISH_REQUEST} then ''/ma/ipfs/0.0.1''
      else if msg_type \<in> {MESSAGE_TYPE_CRUD, MESSAGE_TYPE_CRUD_REPLY} then ''/ma/crud/0.0.1''
      else ''/ma/inbox/0.0.1'')"

section \<open>Draining the plugin outbox\<close>

definition PLUGIN_OUTBOX_DRAIN_BUDGET :: nat where "PLUGIN_OUTBOX_DRAIN_BUDGET = 64"
definition REMOTE_PLUGIN_DELIVERY_LIMIT :: nat where "REMOTE_PLUGIN_DELIVERY_LIMIT = 16"

text \<open>\<open>LocalDispatchArgs\<close> and a remote delivery with its signed message.\<close>

record local_task =
  lt_sender :: string
  lt_target :: string
  lt_env :: send_envelope
  lt_type :: string

record remote_task =
  rk_sender :: string
  rk_recipient :: did
  rk_env :: send_envelope
  rk_type :: string
  rk_protocol :: string

text \<open>
  \<open>le_message_type\<close> is the default \<open>MESSAGE_TYPE_MESSAGE\<close>, \<open>le_build\<close> tells whether \<open>ma_core\<close> can build
  and sign the message.  The free permits of the remote gate are part of the state; a delivery that ends gives
  its permit back.  The local gate is awaited and never closed, so it only delays.
\<close>

record loop_env =
  le_did :: did_parser
  le_our_did :: string
  le_message_type :: string
  le_build :: "string \<Rightarrow> string \<Rightarrow> send_envelope \<Rightarrow> bool"

record event_loop =
  el_outbox :: "(string \<times> send_envelope) list"
  el_permits :: nat
  el_local :: "local_task list"
  el_remote :: "remote_task list"

definition dispatch_envelope_locally :: "string \<Rightarrow> string \<Rightarrow> send_envelope \<Rightarrow> string \<Rightarrow> event_loop \<Rightarrow> event_loop" where
  "dispatch_envelope_locally fragment target env msg_type L =
     (if se_reply_to env \<noteq> None then L
      else L\<lparr>el_local := el_local L @ [\<lparr>lt_sender = fragment, lt_target = target, lt_env = env, lt_type = msg_type\<rparr>]\<rparr>)"

definition dispatch_envelope_remotely :: "loop_env \<Rightarrow> string \<Rightarrow> send_envelope \<Rightarrow> string \<Rightarrow> event_loop \<Rightarrow> event_loop" where
  "dispatch_envelope_remotely E fragment env msg_type L =
     (let sender = le_our_did E @ ''#'' @ fragment in
      case le_did E (se_to env) of
        None \<Rightarrow> L
      | Some recipient \<Rightarrow>
          if \<not> le_build E sender msg_type env then L
          else if el_permits L = 0 then L
          else L\<lparr>el_permits := el_permits L - 1,
                 el_remote := el_remote L @ [\<lparr>rk_sender = sender, rk_recipient = recipient, rk_env = env,
                    rk_type = msg_type, rk_protocol = protocol_for msg_type\<rparr>]\<rparr>)"

definition envelope_type :: "loop_env \<Rightarrow> send_envelope \<Rightarrow> string" where
  "envelope_type E env = (case se_message_type env of None \<Rightarrow> le_message_type E | Some t \<Rightarrow> t)"

definition handle_envelope :: "loop_env \<Rightarrow> string \<times> send_envelope \<Rightarrow> event_loop \<Rightarrow> event_loop" where
  "handle_envelope E e L =
     (let (fragment, env) = e in
      case local_target_fragment (le_did E) (se_to env) (le_our_did E) of
        Some target \<Rightarrow> dispatch_envelope_locally fragment target env (envelope_type E env) L
      | None \<Rightarrow> dispatch_envelope_remotely E fragment env (envelope_type E env) L)"

fun drain :: "loop_env \<Rightarrow> nat \<Rightarrow> event_loop \<Rightarrow> event_loop" where
  "drain E 0 L = L"
| "drain E (Suc budget) L =
     (case el_outbox L of
        [] \<Rightarrow> L
      | e # rest \<Rightarrow> drain E budget (handle_envelope E e (L\<lparr>el_outbox := rest\<rparr>)))"

definition drain_plugin_envelopes :: "loop_env \<Rightarrow> event_loop \<Rightarrow> event_loop" where
  "drain_plugin_envelopes E L = drain E PLUGIN_OUTBOX_DRAIN_BUDGET L"

section \<open>A local dispatch\<close>

text \<open>
  The target is looked up forty times with a pause in between; \<open>registry i\<close> is what the registry
  holds at attempt \<open>i\<close>.
\<close>

fun lookup_attempts :: "(nat \<Rightarrow> nat hash_map) \<Rightarrow> string \<Rightarrow> nat \<Rightarrow> nat \<Rightarrow> nat option" where
  "lookup_attempts registry target attempt 0 = None"
| "lookup_attempts registry target attempt (Suc left) =
     (case map_of (registry attempt) target of
        Some h \<Rightarrow> Some h | None \<Rightarrow> lookup_attempts registry target (attempt + 1) left)"

definition lookup_local_entity :: "(nat \<Rightarrow> nat hash_map) \<Rightarrow> string \<Rightarrow> nat option" where
  "lookup_local_entity registry target = lookup_attempts registry target 0 40"

definition local_message_of :: "'w runtime_env \<Rightarrow> string \<Rightarrow> u64 \<Rightarrow> local_task \<Rightarrow> local_message" where
  "local_message_of E mid now t =
     \<lparr>lm_id = mid, lm_from = local_actor_url (re_did E) (re_our_did E) (lt_sender t),
      lm_to = local_actor_url (re_did E) (re_our_did E) (lt_target t), lm_created_at = now, lm_exp = 0,
      lm_reply_to = se_reply_to (lt_env t), lm_message_type = lt_type t,
      lm_content_type = se_content_type (lt_env t), lm_content = se_content (lt_env t)\<rparr>"

definition insert_if_absent :: "string \<Rightarrow> 'v \<Rightarrow> 'v hash_map \<Rightarrow> 'v hash_map \<times> bool" where
  "insert_if_absent key v registry =
     (if map_of registry key = None then (AList.update key v registry, True) else (registry, False))"

definition register_created_entity :: "string \<Rightarrow> nat \<Rightarrow> entity_handle \<Rightarrow> 'w runtime \<Rightarrow> 'w runtime \<times> bool" where
  "register_created_entity fragment h eh rt =
     (case insert_if_absent fragment h (plugins rt) of
        (registry, True) \<Rightarrow>
          (map_svc (\<lambda>s. s\<lparr>ct_plugins := registry\<rparr>) (rt\<lparr>rt_handles := (rt_handles rt)(h := eh)\<rparr>), True)
      | (registry, False) \<Rightarrow> (rt, False))"

definition finish_create_request ::
  "'w runtime_env \<Rightarrow> create_entity_request \<Rightarrow> entity_node \<Rightarrow> load_error + nat \<times> entity_handle \<times> lifecycle
     \<Rightarrow> 'w runtime \<Rightarrow> 'w runtime" where
  "finish_create_request E req node loaded rt =
     (case loaded of
        Inr (h, eh, Running) \<Rightarrow>
          (let (w, saved) = re_trigger_save E h (rt_world rt);
               (rt1, registered) = register_created_entity (cr_fragment req) h eh (rt\<lparr>rt_world := w\<rparr>)
           in if registered then rt1\<lparr>rt_inserts := (cr_fragment req, running_node node saved) # rt_inserts rt1\<rparr> else rt1)
      | Inr (h, eh, Error) \<Rightarrow> report_create_init_error E req rt
      | Inl e \<Rightarrow> rt)"

text \<open>
  The gate serialises the requests of local dispatches; the other tasks of the runtime go on while the
  plugin loads, and \<open>meanwhile\<close> is what they do.
\<close>

definition handle_create_request ::
  "'w runtime_env \<Rightarrow> ('w runtime \<Rightarrow> 'w runtime) \<Rightarrow> entity_handle \<Rightarrow> create_entity_request \<Rightarrow> 'w runtime \<Rightarrow> 'w runtime" where
  "handle_create_request E meanwhile creator req rt =
     (if map_of (plugins rt) (cr_fragment req) \<noteq> None then rt
      else (case map_of (ct_kinds (rt_svc rt)) (cr_kind_protocol req) of
              None \<Rightarrow> rt
            | Some kind \<Rightarrow>
                (case requested_behaviour (cr_behaviour_cid req) of
                   Inl e \<Rightarrow> rt
                 | Inr behaviour \<Rightarrow>
                     (let node = created_node req creator behaviour;
                          (w, loaded) = re_load_retry E (create_load_args E req node kind rt) (rt_world rt)
                      in finish_create_request E req node loaded (meanwhile (rt\<lparr>rt_world := w\<rparr>))))))"

definition dispatch_local_plugin_envelope ::
  "'w runtime_env \<Rightarrow> ('w runtime \<Rightarrow> 'w runtime) \<Rightarrow> (nat \<Rightarrow> nat hash_map) \<Rightarrow> string \<Rightarrow> u64 \<Rightarrow> local_task \<Rightarrow> 'w runtime \<Rightarrow> 'w runtime" where
  "dispatch_local_plugin_envelope E meanwhile registry mid now t rt =
     (case lookup_local_entity registry (lt_target t) of
        None \<Rightarrow> rt
      | Some h \<Rightarrow>
          (case re_on_message E h (local_message_of E mid now t) (rt_world rt) of
             (w, Inl e) \<Rightarrow> rt\<lparr>rt_world := w\<rparr>
           | (w, Inr dr) \<Rightarrow>
               fold (handle_create_request E meanwhile (rt_handles rt h)) (dr_create dr)
                 (spawn_persist h (dr_pending dr) (rt\<lparr>rt_world := w\<rparr>))))"

section \<open>Lemmas\<close>

lemma handle_envelope_outbox [simp]: "el_outbox (handle_envelope E e L) = el_outbox L"
  by (auto simp: handle_envelope_def dispatch_envelope_locally_def dispatch_envelope_remotely_def Let_def
      split: option.splits prod.splits)

lemma drain_outbox: "el_outbox (drain E n L) = drop n (el_outbox L)"
  by (induction E n L rule: drain.induct) (auto split: list.splits)

text \<open>What one envelope becomes: a local task, a delivery that only lacks a permit, or nothing.\<close>

definition local_task_of :: "loop_env \<Rightarrow> string \<times> send_envelope \<Rightarrow> local_task list" where
  "local_task_of E e =
     (case local_target_fragment (le_did E) (se_to (snd e)) (le_our_did E) of
        Some target \<Rightarrow>
          if se_reply_to (snd e) = None
          then [\<lparr>lt_sender = fst e, lt_target = target, lt_env = snd e, lt_type = envelope_type E (snd e)\<rparr>] else []
      | None \<Rightarrow> [])"

definition remote_task_of :: "loop_env \<Rightarrow> string \<times> send_envelope \<Rightarrow> remote_task list" where
  "remote_task_of E e =
     (case local_target_fragment (le_did E) (se_to (snd e)) (le_our_did E) of
        Some target \<Rightarrow> []
      | None \<Rightarrow>
          (case le_did E (se_to (snd e)) of
             None \<Rightarrow> []
           | Some recipient \<Rightarrow>
               if le_build E (le_our_did E @ ''#'' @ fst e) (envelope_type E (snd e)) (snd e)
               then [\<lparr>rk_sender = le_our_did E @ ''#'' @ fst e, rk_recipient = recipient, rk_env = snd e,
                      rk_type = envelope_type E (snd e), rk_protocol = protocol_for (envelope_type E (snd e))\<rparr>] else []))"

lemma handle_envelope_spec:
  "el_local (handle_envelope E e L) = el_local L @ local_task_of E e
   \<and> el_remote (handle_envelope E e L) = el_remote L @ take (el_permits L) (remote_task_of E e)
   \<and> el_permits (handle_envelope E e L) = el_permits L - length (remote_task_of E e)"
  by (cases e) (auto simp: handle_envelope_def dispatch_envelope_locally_def dispatch_envelope_remotely_def local_task_of_def
      remote_task_of_def Let_def split: option.splits)

lemma drain_spec:
  "el_local (drain E n L) = el_local L @ concat (map (local_task_of E) (take n (el_outbox L)))
   \<and> el_remote (drain E n L) = el_remote L @ take (el_permits L) (concat (map (remote_task_of E) (take n (el_outbox L))))
   \<and> el_permits (drain E n L) = el_permits L - length (concat (map (remote_task_of E) (take n (el_outbox L))))"
proof (induction E n L rule: drain.induct)
  case (2 E budget L)
  show ?case
  proof (cases "el_outbox L")
    case (Cons e rest)
    note h = handle_envelope_spec[of E e "L\<lparr>el_outbox := rest\<rparr>"]
    from 2[OF Cons] h Cons show ?thesis by (simp del: length_concat)
  qed simp
qed simp

lemma drain_iterated: "el_outbox ((drain_plugin_envelopes E ^^ k) L) = drop (64 * k) (el_outbox L)"
  by (induction k) (simp_all add: drain_plugin_envelopes_def PLUGIN_OUTBOX_DRAIN_BUDGET_def drain_outbox add.commute)

lemma lookup_attempts_finds:
  "i < n \<Longrightarrow> map_of (registry (a + i)) target \<noteq> None \<Longrightarrow> lookup_attempts registry target a n \<noteq> None"
proof (induction n arbitrary: a i)
  case (Suc n)
  show ?case
  proof (cases i)
    case 0
    with Suc.prems show ?thesis by auto
  next
    case (Suc j)
    with Suc.prems have "lookup_attempts registry target (a + 1) n \<noteq> None" by (intro Suc.IH[of j]) simp_all
    then show ?thesis by (simp split: option.splits)
  qed
qed simp

lemma lookup_attempts_sound:
  "lookup_attempts registry target a n = Some h \<Longrightarrow> \<exists>i<n. map_of (registry (a + i)) target = Some h"
proof (induction n arbitrary: a)
  case (Suc n)
  show ?case
  proof (cases "map_of (registry a) target")
    case None
    with Suc.prems have "lookup_attempts registry target (a + 1) n = Some h" by simp
    from Suc.IH[OF this] obtain i where "i < n" "map_of (registry (a + 1 + i)) target = Some h" by blast
    then show ?thesis by (intro exI[of _ "Suc i"]) simp
  qed (use Suc.prems in \<open>auto intro: exI[of _ 0]\<close>)
qed simp

lemma lookup_unchanged: "map_of registry target = Some h \<Longrightarrow> lookup_local_entity (\<lambda>_. registry) target = Some h"
  by (simp add: lookup_local_entity_def eval_nat_numeral)

lemma register_created_keeps:
  assumes "register_created_entity f h eh rt = (rt', b)" and "map_of (plugins rt) k = Some h0"
  shows "map_of (plugins rt') k = Some h0"
  using assms by (auto simp: register_created_entity_def insert_if_absent_def map_of_update split: if_splits)

lemma report_create_init_error_frame [simp]:
  "rt_svc (report_create_init_error E req rt) = rt_svc rt" "rt_inserts (report_create_init_error E req rt) = rt_inserts rt"
  "rt_persists (report_create_init_error E req rt) = rt_persists rt"
  by (simp_all add: report_create_init_error_def enqueue_runtime_def Let_def)

lemma finish_create_keeps:
  assumes "map_of (plugins rt) k = Some h0"
  shows "map_of (plugins (finish_create_request E req node loaded rt)) k = Some h0"
proof (cases loaded)
  case (Inr r)
  obtain h eh lc where r: "r = (h, eh, lc)" using prod_cases3 by blast
  show ?thesis
  proof (cases lc)
    case Running
    obtain w saved where s: "re_trigger_save E h (rt_world rt) = (w, saved)" by fastforce
    obtain rt1 b where g: "register_created_entity (cr_fragment req) h eh (rt\<lparr>rt_world := w\<rparr>) = (rt1, b)" by fastforce
    have "map_of (plugins rt1) k = Some h0" using register_created_keeps[OF g] assms by simp
    with Inr r Running s g show ?thesis by (simp add: finish_create_request_def)
  next
    case Error
    with Inr r assms show ?thesis by (simp add: finish_create_request_def)
  qed
qed (use assms in \<open>simp add: finish_create_request_def\<close>)

lemma finish_create_taken:
  assumes "map_of (plugins rt) (cr_fragment req) \<noteq> None"
  shows "rt_inserts (finish_create_request E req node loaded rt) = rt_inserts rt"
  using assms
  by (auto simp: finish_create_request_def register_created_entity_def insert_if_absent_def Let_def
      split: sum.splits prod.splits lifecycle.splits)

text \<open>The same runtime with other deletion and behaviour requests in the results of its dispatches.\<close>

definition replace_requests ::
  "(dispatch_result \<Rightarrow> string list) \<Rightarrow> (dispatch_result \<Rightarrow> set_behaviour_request list) \<Rightarrow> 'w runtime_env \<Rightarrow> 'w runtime_env" where
  "replace_requests del beh E =
     E\<lparr>re_on_message := (\<lambda>h m w.
        case re_on_message E h m w of
          (w', Inl e) \<Rightarrow> (w', Inl e)
        | (w', Inr dr) \<Rightarrow> (w', Inr (dr\<lparr>dr_delete := del dr, dr_behaviour := beh dr\<rparr>)))\<rparr>"

lemma replace_requests_fields [simp]:
  "re_crud (replace_requests del beh E) = re_crud E" "re_did (replace_requests del beh E) = re_did E"
  "re_our_did (replace_requests del beh E) = re_our_did E" "re_capacity (replace_requests del beh E) = re_capacity E"
  "re_node_id (replace_requests del beh E) = re_node_id E" "re_started_at (replace_requests del beh E) = re_started_at E"
  "re_load_retry (replace_requests del beh E) = re_load_retry E"
  "re_trigger_save (replace_requests del beh E) = re_trigger_save E" "re_encode (replace_requests del beh E) = re_encode E"
  by (simp_all add: replace_requests_def)

lemma replaced_parts:
  "public_config (replace_requests del beh E) = public_config E"
  "create_load_args (replace_requests del beh E) = create_load_args E"
  "report_create_init_error (replace_requests del beh E) = report_create_init_error E"
  by (intro ext, simp add: public_config_def create_load_args_def report_create_init_error_def enqueue_runtime_def)+

lemma finish_create_request_replaced:
  "finish_create_request (replace_requests del beh E) = finish_create_request E"
  by (intro ext) (simp only: finish_create_request_def replaced_parts replace_requests_fields)

lemma handle_create_request_replaced:
  "handle_create_request (replace_requests del beh E) = handle_create_request E"
  by (intro ext) (simp only: handle_create_request_def finish_create_request_replaced replaced_parts replace_requests_fields)

lemma local_message_replaced: "local_message_of (replace_requests del beh E) = local_message_of E"
  by (intro ext) (simp add: local_message_of_def)

lemma on_message_replaced:
  "re_on_message (replace_requests del beh E) h m w =
     (case re_on_message E h m w of
        (w', Inl e) \<Rightarrow> (w', Inl e) | (w', Inr dr) \<Rightarrow> (w', Inr (dr\<lparr>dr_delete := del dr, dr_behaviour := beh dr\<rparr>)))"
  by (simp add: replace_requests_def)

section \<open>Properties\<close>

text \<open>
  C23 (event loop). A drain is bounded and in order: it takes the first 64 envelopes, appends the local tasks they stand for and as
  many of the remote deliveries as permits are free, each in the order of the outbox, and leaves the rest
  in place; so an outbox that is not refilled is empty after as many ticks as it holds batches of 64.
\<close>

theorem drain_bounded_in_order:
  "el_outbox (drain_plugin_envelopes E L) = drop 64 (el_outbox L)
   \<and> el_local (drain_plugin_envelopes E L) = el_local L @ concat (map (local_task_of E) (take 64 (el_outbox L)))
   \<and> el_remote (drain_plugin_envelopes E L)
       = el_remote L @ take (el_permits L) (concat (map (remote_task_of E) (take 64 (el_outbox L))))
   \<and> (length (el_outbox L) \<le> 64 * k \<longrightarrow> el_outbox ((drain_plugin_envelopes E ^^ k) L) = [])"
  using drain_iterated[of k E L]
  by (simp add: drain_plugin_envelopes_def PLUGIN_OUTBOX_DRAIN_BUDGET_def drain_outbox drain_spec)

definition sample_loop_env :: loop_env where
  "sample_loop_env = \<lparr>le_did = split_did, le_our_did = ''did:ma:us'', le_message_type = ''m'', le_build = (\<lambda>_ _ _. True)\<rparr>"

definition envelope_to :: "string \<Rightarrow> send_envelope" where
  "envelope_to target = \<lparr>se_to = target, se_content_type = [], se_message_type = None, se_content = [1], se_reply_to = None\<rparr>"

theorem drain_bounded_in_order_witness:
  "el_outbox ((drain_plugin_envelopes sample_loop_env ^^ 2)
      \<lparr>el_outbox = replicate 100 (''lobby'', envelope_to ''did:ma:us#fortune''), el_permits = 16, el_local = [], el_remote = []\<rparr>) = []"
  using drain_bounded_in_order[of sample_loop_env "\<lparr>el_outbox = replicate 100 (''lobby'', envelope_to ''did:ma:us#fortune''),
      el_permits = 16, el_local = [], el_remote = []\<rparr>" 2]
  by simp

text \<open>
  Local messages bypass the ACL: an envelope from an entity of the same runtime is delivered and has its effects
  even where the target's ACL denies the sender, while the same message through the inbox changes nothing.
\<close>

theorem local_delivery_bypasses_acl:
  assumes "map_of (plugins rt) (lt_target t) = Some h"
    and "local_target_fragment (re_did E) (local_actor_url (re_did E) (re_our_did E) (lt_target t)) (re_our_did E) = Some (lt_target t)"
    and "se_content (lt_env t) \<noteq> []" and "re_decode E (se_content (lt_env t)) = Some term"
    and "\<not> (lt_target t = ''root'' \<and> term_verb term = Some '':publish'')"
    and "enforce_entity_acl (ce_core (re_crud E)) (re_our_did E) (ct_acl_cache (rt_svc rt)) (ct_group_cache (rt_svc rt))
           (eh_acl (rt_handles rt h)) (local_actor_url (re_did E) (re_our_did E) (lt_sender t)) (term_verb term) = Inl denied"
    and "re_on_message E h (local_message_of E mid now t) (rt_world rt) = (w, Inr dr)"
    and "dr_create dr = []" and "dr_pending dr = Some b"
  shows "rt_persists (dispatch_local_plugin_envelope E meanwhile (\<lambda>_. plugins rt) mid now t rt) = (h, b) # rt_persists rt
     \<and> rt_world (dispatch_local_plugin_envelope E meanwhile (\<lambda>_. plugins rt) mid now t rt) = w
     \<and> dispatch_actor_message E (local_message_of E mid now t) rt = (rt, Inr ())"
proof -
  have "dispatch_entity_message E (local_message_of E mid now t) term h rt = (rt, Inl (AeAcl denied))"
    using assms(6) by (simp add: dispatch_entity_message_def local_message_of_def)
  then show ?thesis
    using assms(1-5,7-9)
    by (auto simp: dispatch_local_plugin_envelope_def lookup_unchanged spawn_persist_def dispatch_actor_message_def
        local_message_of_def)
qed

definition sample_task :: local_task where
  "sample_task = \<lparr>lt_sender = ''lobby'', lt_target = ''fortune'', lt_env = envelope_to ''did:ma:us#fortune'', lt_type = ''m''\<rparr>"

lemma sample_urls:
  "local_actor_url split_did ''did:ma:us'' ''fortune'' = ''did:ma:us#fortune''"
  "local_actor_url split_did ''did:ma:us'' ''lobby'' = ''did:ma:us#lobby''"
  by code_simp+

theorem local_delivery_bypasses_acl_witness:
  "rt_persists (dispatch_local_plugin_envelope sample_runtime_env id (\<lambda>_. plugins sample_runtime) ''1'' 0 sample_task sample_runtime)
     = [(7, [7])]
   \<and> dispatch_actor_message sample_runtime_env (local_message_of sample_runtime_env ''1'' 0 sample_task) sample_runtime
       = (sample_runtime, Inr ())"
proof -
  obtain denied where d: "enforce_entity_acl sample_core ''did:ma:us'' (ct_acl_cache (rt_svc sample_runtime))
      (ct_group_cache (rt_svc sample_runtime)) ''room'' ''did:ma:us#lobby'' (Some '':help'') = Inl denied"
    by (simp add: enforce_entity_acl_def sample_runtime_def sample_running_def sample_crud_def check_full_def sample_defs
        local_caller_def starts_with_def group_prefix_def)
  show ?thesis
    using local_delivery_bypasses_acl[of sample_runtime sample_task 7 sample_runtime_env "CText '':help''" denied "''1''" 0
        "rt_world sample_runtime" "\<lparr>dr_output = [], dr_pending = Some [7], dr_create = [], dr_delete = [], dr_behaviour = []\<rparr>" "[7]" id] d
    by (simp add: sample_runtime_env_def sample_task_def envelope_to_def sample_urls fortune_target)
       (simp add: sample_runtime_def fortune_handle_def)
qed

text \<open>
  What an entity asks for in a local dispatch is lost except for creations: whatever it requests to delete, itself
  included, and whichever behaviour changes it requests, the outcome of the dispatch is the same.
\<close>

theorem local_requests_dropped:
  "dispatch_local_plugin_envelope (replace_requests del beh E) meanwhile registry mid now t rt
     = dispatch_local_plugin_envelope E meanwhile registry mid now t rt"
  unfolding dispatch_local_plugin_envelope_def local_message_replaced on_message_replaced handle_create_request_replaced
  by (simp split: option.split prod.split sum.split)

text \<open>
  Creation through a local dispatch never replaces an entity: whatever the other tasks do while the plugin loads, every
  entity registered when they are done keeps its plugin, and if the name is taken by then nothing is written to
  the manifest.
\<close>

theorem local_creation_keeps_first:
  assumes "map_of (plugins (meanwhile (rt\<lparr>rt_world := w\<rparr>))) k = Some h0" and "map_of (plugins rt) (cr_fragment req) = None"
    and "map_of (ct_kinds (rt_svc rt)) (cr_kind_protocol req) = Some kind" and "requested_behaviour (cr_behaviour_cid req) = Inr behaviour"
    and "re_load_retry E (create_load_args E req (created_node req creator behaviour) kind rt) (rt_world rt) = (w, loaded)"
  shows "map_of (plugins (handle_create_request E meanwhile creator req rt)) k = Some h0
     \<and> (k = cr_fragment req \<longrightarrow> rt_inserts (handle_create_request E meanwhile creator req rt) = rt_inserts (meanwhile (rt\<lparr>rt_world := w\<rparr>)))"
proof -
  let ?rt = "meanwhile (rt\<lparr>rt_world := w\<rparr>)"
  have "handle_create_request E meanwhile creator req rt = finish_create_request E req (created_node req creator behaviour) loaded ?rt"
    using assms by (simp add: handle_create_request_def Let_def)
  with finish_create_keeps[OF assms(1), of E req "created_node req creator behaviour" loaded] finish_create_taken[of ?rt req E] assms(1)
  show ?thesis by auto
qed

theorem local_creation_keeps_first_witness:
  "map_of (plugins (handle_create_request sample_runtime_env (map_svc (install_plugin ''lamp'' 9)) fortune_handle
      \<lparr>cr_fragment = ''lamp'', cr_kind_protocol = ''/ma/actor'', cr_behaviour_cid = None, cr_init_payload = None, cr_parent = ''fortune''\<rparr>
      sample_runtime)) ''lamp'' = Some 9"
proof -
  let ?req = "\<lparr>cr_fragment = ''lamp'', cr_kind_protocol = ''/ma/actor'', cr_behaviour_cid = None, cr_init_payload = None, cr_parent = ''fortune''\<rparr>"
  have "map_of (plugins (map_svc (install_plugin ''lamp'' 9) (sample_runtime\<lparr>rt_world := sample_world\<rparr>))) ''lamp'' = Some 9"
    by (simp add: map_of_update)
  moreover have "re_load_retry sample_runtime_env a (rt_world sample_runtime) = (sample_world, Inr (8, new_handle a False, Running))" for a
    by (simp add: sample_runtime_env_def sample_runtime_def)
  moreover have "map_of (plugins sample_runtime) ''lamp'' = None" "map_of (ct_kinds (rt_svc sample_runtime)) ''/ma/actor'' = Some stateful_base"
    "requested_behaviour None = Inr None"
    by (simp_all add: sample_runtime_def requested_behaviour_def)
  ultimately show ?thesis
    using local_creation_keeps_first[where meanwhile = "map_svc (install_plugin ''lamp'' 9)" and rt = sample_runtime
        and w = sample_world and k = "''lamp''" and req = ?req and E = sample_runtime_env and creator = fortune_handle]
    by simp
qed

end
