(* ===== verification/Republish.thy ===== *)
theory Republish
  imports Settings
begin

text \<open>
  Publishing the runtime's own DID document (\<open>do_publish_own_document\<close> in \<open>src/ipfs.rs\<close>) and the task that
  publishes the head again while the runtime runs (\<open>src/republish.rs\<close>).  Documents, the secret bundle's file
  format, the RFC 3339 parser and \<open>ma_core\<close>'s publisher are parameters.
\<close>

section \<open>Names of remote pins\<close>

definition pad_digits :: "nat \<Rightarrow> nat \<Rightarrow> string" where
  "pad_digits width n = replicate (width - length (nat_digits n)) (CHR ''0'') @ nat_digits n"

text \<open>The day is the one of the clock: year, month, day.\<close>

definition dated :: "nat \<times> nat \<times> nat \<Rightarrow> string" where
  "dated = (\<lambda>(year, month, day). pad_digits 4 year @ ''-'' @ pad_digits 2 month @ ''-'' @ pad_digits 2 day)"

definition default_remote_root_pin_name :: "nat \<times> nat \<times> nat \<Rightarrow> string \<Rightarrow> string" where
  "default_remote_root_pin_name today slug = ''ma-runtime-'' @ slug @ ''-root-'' @ dated today"

definition owner_did_remote_pin_name :: "(string \<Rightarrow> string) \<Rightarrow> nat \<times> nat \<times> nat \<Rightarrow> string \<Rightarrow> string" where
  "owner_did_remote_pin_name blake3_hex today did = ''ma-agent-blake3'' @ take 16 (blake3_hex did) @ ''-'' @ dated today"

text \<open>
  \<open>remote_pin_config_with_default_name\<close> is \<open>ma_core\<close>'s; a configuration it rejects counts as none.  A remote pin is a
  service and a name.
\<close>

definition runtime_remote_pin_config ::
  "(daemon_config \<Rightarrow> string \<Rightarrow> string + (string \<times> string) option) \<Rightarrow> string \<Rightarrow> nat \<times> nat \<times> nat \<Rightarrow> daemon_config
     \<Rightarrow> (string \<times> string) option" where
  "runtime_remote_pin_config remote_of slug today cfg =
     (case remote_of cfg (default_remote_root_pin_name today slug) of Inr remote \<Rightarrow> remote | Inl e \<Rightarrow> None)"

section \<open>Publishing the own document\<close>

record publish_options =
  po_key_parts :: "string list"
  po_timeout_secs :: nat
  po_allow_offline :: bool
  po_lifetime :: string
  po_resolve :: bool
  po_remote_pin :: "(string \<times> string) option"
  po_overwrite :: bool

record ('w, 'd) own_publisher =
  op_decode :: "bytes \<Rightarrow> 'd option"
  op_validate :: "'d \<Rightarrow> bool"
  op_verify :: "'d \<Rightarrow> bool"
  op_create :: bool
  op_ready :: "'w \<Rightarrow> bool"
  op_publish :: "bytes \<Rightarrow> bytes \<Rightarrow> publish_options \<Rightarrow> 'w \<Rightarrow> 'w \<times> bool"

datatype own_error = OeDecode | OeValidate | OeVerify | OePublisher | OeNotReady | OePublish

definition own_publish_options ::
  "string \<Rightarrow> ipns_publish_settings \<Rightarrow> (string \<times> string) option \<Rightarrow> bool \<Rightarrow> publish_options" where
  "own_publish_options slug settings remote_pin overwrite =
     \<lparr>po_key_parts = [''runtime'', slug], po_timeout_secs = max (unat (ps_timeout_secs settings)) 1,
      po_allow_offline = ps_allow_offline settings, po_lifetime = nat_digits (unat (ps_lifetime_hours settings)) @ ''h'',
      po_resolve = ps_resolve settings, po_remote_pin = remote_pin, po_overwrite = overwrite\<rparr>"

definition do_publish_own_document ::
  "('w, 'd) own_publisher \<Rightarrow> string \<Rightarrow> bytes \<Rightarrow> bytes \<Rightarrow> ipns_publish_settings \<Rightarrow> (string \<times> string) option \<Rightarrow> bool \<Rightarrow> 'w
     \<Rightarrow> 'w \<times> (own_error + unit)" where
  "do_publish_own_document P slug doc_cbor ipns_secret_key settings remote_pin overwrite w =
     (case op_decode P doc_cbor of
        None \<Rightarrow> (w, Inl OeDecode)
      | Some document \<Rightarrow>
          if \<not> op_validate P document then (w, Inl OeValidate)
          else if \<not> op_verify P document then (w, Inl OeVerify)
          else if \<not> op_create P then (w, Inl OePublisher)
          else if \<not> op_ready P w then (w, Inl OeNotReady)
          else (case op_publish P doc_cbor ipns_secret_key (own_publish_options slug settings remote_pin overwrite) w of
                  (w', True) \<Rightarrow> (w', Inr ()) | (w', False) \<Rightarrow> (w', Inl OePublish)))"

section \<open>The periodic task\<close>

text \<open>The fields of \<open>SecretBundle\<close> the code uses.\<close>

record secret_bundle =
  sb_created_at :: string
  sb_ipns_secret_key :: bytes

text \<open>\<open>rfc3339\<close> parses a time stamp and formats it again with whole seconds, if it can.\<close>

definition canonicalise_bundle_created_at :: "(string \<Rightarrow> string option) \<Rightarrow> secret_bundle \<Rightarrow> secret_bundle" where
  "canonicalise_bundle_created_at rfc3339 bundle =
     (case rfc3339 (sb_created_at bundle) of Some t \<Rightarrow> bundle\<lparr>sb_created_at := t\<rparr> | None \<Rightarrow> bundle)"

definition qa_prepare_bundle_timestamps_for_publish :: "(string \<Rightarrow> string option) \<Rightarrow> secret_bundle \<Rightarrow> secret_bundle" where
  "qa_prepare_bundle_timestamps_for_publish = canonicalise_bundle_created_at"

text \<open>
  \<open>PeriodicDidPublishContext\<close>.  \<open>pb_bundle\<close> is \<open>SecretBundle::load\<close>, \<open>pb_build\<close> the signed document whose extension
  links the given head, \<open>pb_cut_did\<close> and \<open>pb_cut_ipns\<close> what a publication leaves behind when its time is up.
\<close>

record ('w, 'd) republish_env =
  pb_is_cid :: "string \<Rightarrow> bool"
  pb_bundle :: "secret_bundle option"
  pb_rfc3339 :: "string \<Rightarrow> string option"
  pb_build :: "secret_bundle \<Rightarrow> string \<Rightarrow> 'd option"
  pb_encode :: "'d \<Rightarrow> bytes option"
  pb_publisher :: "('w, 'd) own_publisher"
  pb_node :: "'w ipns_node"
  pb_to_protobuf :: "bytes \<Rightarrow> bytes option"
  pb_ipns_id_of :: "bytes \<Rightarrow> string option"
  pb_key_name_of :: "string list \<Rightarrow> string \<Rightarrow> string"
  pb_slug :: string
  pb_runtime_ipns_key :: bytes
  pb_settings :: ipns_publish_settings
  pb_remote_of :: "daemon_config \<Rightarrow> string \<Rightarrow> string + (string \<times> string) option"
  pb_today :: "nat \<times> nat \<times> nat"
  pb_overwrite :: "daemon_config \<Rightarrow> bool"
  pb_cut_did :: "'w \<Rightarrow> 'w option"
  pb_cut_ipns :: "'w \<Rightarrow> 'w option"
  pb_cache_warm :: nat

definition build_did_publish_payload :: "('w, 'd) republish_env \<Rightarrow> cid \<Rightarrow> (bytes \<times> bytes) option" where
  "build_did_publish_payload E root =
     (if \<not> pb_is_cid E root then None
      else (case pb_bundle E of
              None \<Rightarrow> None
            | Some loaded \<Rightarrow>
                (let bundle = qa_prepare_bundle_timestamps_for_publish (pb_rfc3339 E) loaded in
                 case pb_build E bundle root of
                   None \<Rightarrow> None
                 | Some document \<Rightarrow>
                     (case pb_encode E document of
                        None \<Rightarrow> None | Some doc_cbor \<Rightarrow> Some (doc_cbor, sb_ipns_secret_key bundle)))))"

text \<open>\<open>tokio::time::timeout\<close> around a publication; what went wrong is only logged.\<close>

definition limited :: "('w \<Rightarrow> 'w option) \<Rightarrow> ('w \<Rightarrow> 'w \<times> ('e + 'a)) \<Rightarrow> 'w \<Rightarrow> 'w \<times> bool" where
  "limited late f w =
     (case late w of
        Some w' \<Rightarrow> (w', False)
      | None \<Rightarrow> (case f w of (w', Inr _) \<Rightarrow> (w', True) | (w', Inl _) \<Rightarrow> (w', False)))"

definition publish_did_document ::
  "('w, 'd) republish_env \<Rightarrow> bytes \<Rightarrow> bytes \<Rightarrow> (string \<times> string) option \<Rightarrow> bool \<Rightarrow> 'w \<Rightarrow> 'w \<times> bool" where
  "publish_did_document E doc_cbor ipns_key remote_pin pin_overwrite =
     limited (pb_cut_did E)
       (do_publish_own_document (pb_publisher E) (pb_slug E) doc_cbor ipns_key (pb_settings E) remote_pin pin_overwrite)"

definition publish_runtime_ipns :: "('w, 'd) republish_env \<Rightarrow> cid \<Rightarrow> 'w \<Rightarrow> 'w \<times> bool" where
  "publish_runtime_ipns E root =
     limited (pb_cut_ipns E)
       (publish_runtime_root_cid (pb_node E) (pb_to_protobuf E) (pb_ipns_id_of E) (pb_key_name_of E) (pb_slug E)
          (pb_runtime_ipns_key E) root)"

text \<open>
  What the task remembers.  Instants are in some unit since the clock started; the first publication is due
  at once.
\<close>

record republisher =
  rp_cid :: "cid option"
  rp_at :: nat

definition republisher_new :: "nat \<Rightarrow> nat \<Rightarrow> republisher" where
  "republisher_new now cache_warm = \<lparr>rp_cid = None, rp_at = (if cache_warm \<le> now then now - cache_warm else now)\<rparr>"

definition due :: "nat \<Rightarrow> nat \<Rightarrow> cid \<Rightarrow> republisher \<Rightarrow> bool" where
  "due cache_warm now root R = (rp_cid R \<noteq> Some root \<or> now - rp_at R \<ge> cache_warm)"

text \<open>
  Where the task is.  It waits in four places while others go on: for the configuration's lock, in the publication of the document,
  in the one of the IPNS record, and for the configuration's lock again.  Each state holds the local variables of the code
  there: the head read at first, the payload, what the configuration said, how the publications ended.
\<close>

datatype republish_task =
    Waiting
  | Prepared cid bytes bytes
  | Configured cid bytes bytes "(string \<times> string) option" bool
  | DocumentTried cid bool
  | RecordTried cid bool bool

text \<open>A tick reads the head; the payload is built without waiting, and without one nothing is published.\<close>

definition republish_begin :: "('w, 'd) republish_env \<Rightarrow> nat \<Rightarrow> republisher \<Rightarrow> cid option \<Rightarrow> republish_task" where
  "republish_begin E now R head =
     (case head of
        None \<Rightarrow> Waiting
      | Some root \<Rightarrow>
          if \<not> due (pb_cache_warm E) now root R then Waiting
          else (case build_did_publish_payload E root of
                  None \<Rightarrow> RecordTried root False False
                | Some (doc_cbor, ipns_key) \<Rightarrow> Prepared root doc_cbor ipns_key))"

text \<open>
  The next piece of work, up to the next wait.  The record is published whether or not the document was; only
  when both are is the head saved and remembered.
\<close>

fun republish_advance ::
  "('w, 'd) republish_env \<Rightarrow> nat \<Rightarrow> republish_task \<Rightarrow> republisher \<Rightarrow> 'w service \<Rightarrow> republish_task \<times> republisher \<times> 'w service" where
  "republish_advance E finished Waiting R ws = (Waiting, R, ws)"
| "republish_advance E finished (Prepared root doc_cbor ipns_key) R (w, s) =
     (Configured root doc_cbor ipns_key (runtime_remote_pin_config (pb_remote_of E) (pb_slug E) (pb_today E) (ct_config s))
        (pb_overwrite E (ct_config s)), R, (w, s))"
| "republish_advance E finished (Configured root doc_cbor ipns_key remote_pin pin_overwrite) R (w, s) =
     (let (w', did_ok) = publish_did_document E doc_cbor ipns_key remote_pin pin_overwrite w in (DocumentTried root did_ok, R, (w', s)))"
| "republish_advance E finished (DocumentTried root did_ok) R (w, s) =
     (let (w', ipns_ok) = publish_runtime_ipns E root w in (RecordTried root did_ok ipns_ok, R, (w', s)))"
| "republish_advance E finished (RecordTried root did_ok ipns_ok) R (w, s) =
     (if did_ok \<and> ipns_ok then (Waiting, \<lparr>rp_cid = Some root, rp_at = finished\<rparr>, (w, persist_root_cid root s))
      else (Waiting, R, (w, s)))"

text \<open>
  A whole tick, begun at \<open>now\<close> and finished at \<open>finished\<close>, with \<open>others i\<close> what the other tasks do to the service during its
  \<open>i\<close>-th wait.  The last component says which head was attempted and how its two publications ended.
\<close>

definition republish_tick ::
  "('w, 'd) republish_env \<Rightarrow> (nat \<Rightarrow> 'w service \<Rightarrow> 'w service) \<Rightarrow> nat \<Rightarrow> nat \<Rightarrow> republisher \<Rightarrow> 'w service
     \<Rightarrow> republisher \<times> 'w service \<times> (cid \<times> bool \<times> bool) option" where
  "republish_tick E others now finished R ws0 =
     (case republish_begin E now R (mw_root_cid (ct_writer (snd ws0))) of
        Waiting \<Rightarrow> (R, ws0, None)
      | RecordTried root did_ok ipns_ok \<Rightarrow> (R, ws0, Some (root, did_ok, ipns_ok))
      | task \<Rightarrow>
          (let (t1, R1, ws1) = republish_advance E finished task R (others 0 ws0);
               (t2, R2, ws2) = republish_advance E finished t1 R1 (others 1 ws1);
               (t3, R3, ws3) = republish_advance E finished t2 R2 (others 2 ws2);
               (t4, R4, ws4) = republish_advance E finished t3 R3 (others 3 ws3)
           in (R4, ws4, case t3 of RecordTried root did_ok ipns_ok \<Rightarrow> Some (root, did_ok, ipns_ok) | _ \<Rightarrow> None)))"

text \<open>A run of the task: every tick finds the service the others have left for it.\<close>

record 'w tick =
  tk_now :: nat
  tk_finished :: nat
  tk_others :: "nat \<Rightarrow> 'w service \<Rightarrow> 'w service"
  tk_service :: "'w service"

fun republish_run ::
  "('w, 'd) republish_env \<Rightarrow> republisher \<Rightarrow> 'w tick list \<Rightarrow> republisher \<times> (cid \<times> bool \<times> bool) option list" where
  "republish_run E R [] = (R, [])"
| "republish_run E R (t # ts) =
     (let (R1, _, a) = republish_tick E (tk_others t) (tk_now t) (tk_finished t) R (tk_service t);
          (R2, as) = republish_run E R1 ts
      in (R2, a # as))"

section \<open>Lemmas\<close>

abbreviation head_of :: "'w service \<Rightarrow> cid option" where
  "head_of ws \<equiv> mw_root_cid (ct_writer (snd ws))"

text \<open>
  What the publications of a tick would report: the document is published with the configuration of the first wait and on the
  node of the second, the record on the node of the third; one that runs out of time counts as failed.
\<close>

definition publications ::
  "('w, 'd) republish_env \<Rightarrow> cid \<Rightarrow> (nat \<Rightarrow> 'w service \<Rightarrow> 'w service) \<Rightarrow> 'w service \<Rightarrow> bool \<times> bool" where
  "publications E root others ws0 =
     (case build_did_publish_payload E root of
        None \<Rightarrow> (False, False)
      | Some (doc_cbor, ipns_key) \<Rightarrow>
          (let cfg = ct_config (snd (others 0 ws0));
               (w1, s1) = others 1 (others 0 ws0);
               (w2, did) = do_publish_own_document (pb_publisher E) (pb_slug E) doc_cbor ipns_key (pb_settings E)
                 (runtime_remote_pin_config (pb_remote_of E) (pb_slug E) (pb_today E) cfg) (pb_overwrite E cfg) w1;
               w3 = fst (others 2 (case pb_cut_did E w1 of Some w \<Rightarrow> w | None \<Rightarrow> w2, s1));
               (w4, record) = publish_runtime_root_cid (pb_node E) (pb_to_protobuf E) (pb_ipns_id_of E) (pb_key_name_of E)
                 (pb_slug E) (pb_runtime_ipns_key E) root w3
           in (pb_cut_did E w1 = None \<and> did = Inr (), pb_cut_ipns E w3 = None \<and> (\<exists>v. record = Inr v))))"

lemma tick_idle:
  "head_of ws = Some root \<Longrightarrow> \<not> due (pb_cache_warm E) now root R \<Longrightarrow> republish_tick E m now fin R ws = (R, ws, None)"
  by (simp add: republish_tick_def republish_begin_def)

lemma limited_result:
  "snd (limited late f w) = (late w = None \<and> (\<exists>v. snd (f w) = Inr v))"
  "fst (limited late f w) = (case late w of Some w' \<Rightarrow> w' | None \<Rightarrow> fst (f w))"
  by (auto simp: limited_def split: option.splits prod.splits sum.splits)

lemma tick_published:
  assumes "head_of ws = Some root" and "due (pb_cache_warm E) now root R"
    and "build_did_publish_payload E root = Some (doc, key)" and "others 0 ws = (w0, s0)" and "others 1 (w0, s0) = (w1, s1)"
    and "publish_did_document E doc key (runtime_remote_pin_config (pb_remote_of E) (pb_slug E) (pb_today E) (ct_config s0))
           (pb_overwrite E (ct_config s0)) w1 = (w2, d)"
    and "others 2 (w2, s1) = (w3, s3)" and "publish_runtime_ipns E root w3 = (w4, i)" and "others 3 (w4, s3) = (w5, s5)"
  shows "republish_tick E others now fin R ws =
     (if d \<and> i then \<lparr>rp_cid = Some root, rp_at = fin\<rparr> else R, (w5, if d \<and> i then persist_root_cid root s5 else s5), Some (root, d, i))"
proof -
  have "republish_begin E now R (head_of ws) = Prepared root doc key" using assms(1-3) by (simp add: republish_begin_def)
  with assms(4-9) show ?thesis by (simp add: republish_tick_def)
qed

lemma tick_without_payload:
  assumes "head_of ws = Some root" and "due (pb_cache_warm E) now root R" and "build_did_publish_payload E root = None"
  shows "republish_tick E others now fin R ws = (R, ws, Some (root, False, False))"
  using assms by (simp add: republish_tick_def republish_begin_def)

lemma tick_outcomes:
  assumes "head_of ws = Some root" and "due (pb_cache_warm E) now root R"
  obtains ws' d i where "publications E root others ws = (d, i)"
    "republish_tick E others now fin R ws = (if d \<and> i then \<lparr>rp_cid = Some root, rp_at = fin\<rparr> else R, ws', Some (root, d, i))"
proof (cases "build_did_publish_payload E root")
  case None
  with tick_without_payload[OF assms this] that[of False False ws] show ?thesis by (simp add: publications_def)
next
  case (Some payload)
  obtain doc key where p: "payload = (doc, key)" by fastforce
  obtain w0 s0 where o0: "others 0 ws = (w0, s0)" by fastforce
  obtain w1 s1 where o1: "others 1 (w0, s0) = (w1, s1)" by fastforce
  let ?pin = "runtime_remote_pin_config (pb_remote_of E) (pb_slug E) (pb_today E) (ct_config s0)"
  obtain w2 d where d: "publish_did_document E doc key ?pin (pb_overwrite E (ct_config s0)) w1 = (w2, d)" by fastforce
  obtain w3 s3 where o2: "others 2 (w2, s1) = (w3, s3)" by fastforce
  obtain w4 i where i: "publish_runtime_ipns E root w3 = (w4, i)" by fastforce
  obtain w5 s5 where o3: "others 3 (w4, s3) = (w5, s5)" by fastforce
  let ?do = "do_publish_own_document (pb_publisher E) (pb_slug E) doc key (pb_settings E) ?pin (pb_overwrite E (ct_config s0)) w1"
  have "w2 = fst (publish_did_document E doc key ?pin (pb_overwrite E (ct_config s0)) w1)"
    "d = snd (publish_did_document E doc key ?pin (pb_overwrite E (ct_config s0)) w1)"
    "i = snd (publish_runtime_ipns E root w3)" using d i by simp_all
  then have w2: "w2 = (case pb_cut_did E w1 of Some w \<Rightarrow> w | None \<Rightarrow> fst ?do)"
    and dv: "d = (pb_cut_did E w1 = None \<and> snd ?do = Inr ())"
    and iv: "i = (pb_cut_ipns E w3 = None \<and> (\<exists>v. snd (publish_runtime_root_cid (pb_node E) (pb_to_protobuf E) (pb_ipns_id_of E)
      (pb_key_name_of E) (pb_slug E) (pb_runtime_ipns_key E) root w3) = Inr v))"
    by (simp_all add: publish_did_document_def publish_runtime_ipns_def limited_result)
  have w3: "w3 = fst (others 2 (case pb_cut_did E w1 of Some w \<Rightarrow> w | None \<Rightarrow> fst ?do, s1))" using o2 w2 by simp
  have "publications E root others ws = (d, i)"
    unfolding dv iv unfolding w3 using o1 by (simp add: publications_def Some p o0 Let_def case_prod_beta cong: option.case_cong)
  with tick_published[OF assms Some[unfolded p] o0 o1 d o2 i o3, of fin] that show ?thesis by blast
qed

text \<open>The ticks of one task do not overlap.\<close>

fun in_order :: "nat \<Rightarrow> 'w tick list \<Rightarrow> bool" where
  "in_order t [] = True"
| "in_order t (k # ks) = (t \<le> tk_now k \<and> tk_now k \<le> tk_finished k \<and> in_order (tk_finished k) ks)"

abbreviation published :: "(cid \<times> bool \<times> bool) option \<Rightarrow> bool" where
  "published a \<equiv> \<exists>r. a = Some (r, True, True)"

definition successes :: "(cid \<times> bool \<times> bool) option list \<Rightarrow> nat" where
  "successes as = length (filter (\<lambda>a. published a) as)"

lemma successes_simps [simp]:
  "successes [] = 0" "successes (None # as) = successes as"
  "successes (Some (r, d, i) # as) = (if d \<and> i then Suc (successes as) else successes as)"
  by (auto simp: successes_def)

text \<open>Skipped and failed ticks leave the task as it was.\<close>

lemma run_first:
  assumes "\<forall>t\<in>set (t # ts). head_of (tk_service t) = Some root" and "republish_run E R (t # ts) = (R', as)"
  obtains (idle) as' where "\<not> due (pb_cache_warm E) (tk_now t) root R" "as = None # as'" "republish_run E R ts = (R', as')"
  | (failed) as' d i where "due (pb_cache_warm E) (tk_now t) root R" "\<not> (d \<and> i)" "as = Some (root, d, i) # as'"
      "publications E root (tk_others t) (tk_service t) = (d, i)" "republish_run E R ts = (R', as')"
  | (ok) as' where "due (pb_cache_warm E) (tk_now t) root R" "as = Some (root, True, True) # as'"
      "publications E root (tk_others t) (tk_service t) = (True, True)"
      "republish_run E \<lparr>rp_cid = Some root, rp_at = tk_finished t\<rparr> ts = (R', as')"
proof (cases "due (pb_cache_warm E) (tk_now t) root R")
  case False
  with assms idle show ?thesis by (auto simp: tick_idle split: prod.splits)
next
  case True
  have h: "head_of (tk_service t) = Some root" using assms(1) by simp
  obtain ws' d i where o: "publications E root (tk_others t) (tk_service t) = (d, i)"
    "republish_tick E (tk_others t) (tk_now t) (tk_finished t) R (tk_service t)
       = (if d \<and> i then \<lparr>rp_cid = Some root, rp_at = tk_finished t\<rparr> else R, ws', Some (root, d, i))"
    using tick_outcomes[OF h True] by blast
  obtain as' where rest: "republish_run E (if d \<and> i then \<lparr>rp_cid = Some root, rp_at = tk_finished t\<rparr> else R) ts = (R', as')"
    "as = Some (root, d, i) # as'"
    using o(2) assms(2) by (auto split: prod.splits)
  show ?thesis
  proof (cases "d \<and> i")
    case True
    with o(1) rest \<open>due _ _ _ _\<close> show ?thesis by (intro ok[of as']) simp_all
  next
    case False
    with o(1) rest \<open>due _ _ _ _\<close> show ?thesis by (intro failed[of d i as']) simp_all
  qed
qed

lemma in_order_first: "in_order t0 (t # ts) \<Longrightarrow> tk_now t \<le> tk_now (last (t # ts))"
  by (induction ts arbitrary: t t0) (auto, (meson le_trans)+)

text \<open>
  After a publication the next one of the same head is a cache-warm interval later, so \<open>n\<close> further ones take
  at least \<open>n\<close> intervals.
\<close>

lemma successes_after:
  assumes "\<forall>t\<in>set ts. head_of (tk_service t) = Some root" and "in_order t0 ts" and "rp_cid R = Some root" and "rp_at R \<le> t0"
    and "ts \<noteq> []" and "republish_run E R ts = (R', as)"
  shows "successes as * pb_cache_warm E \<le> tk_now (last ts) - rp_at R"
  using assms
proof (induction ts arbitrary: t0 R R' as)
  case (Cons t ts)
  note mono = in_order_first[OF Cons.prems(2)]
  have later: "successes as' * pb_cache_warm E \<le> tk_now (last (t # ts)) - rp_at R1"
    if "republish_run E R1 ts = (R', as')" "rp_cid R1 = Some root" "rp_at R1 \<le> tk_finished t" for R1 as'
  proof (cases "ts = []")
    case False
    then show ?thesis using Cons.IH[of "tk_finished t" R1 R' as'] Cons.prems that by simp
  qed (use that in simp)
  show ?case
  proof (rule run_first[OF Cons.prems(1,6)])
    fix as' assume "as = None # as'" "republish_run E R ts = (R', as')"
    then show ?thesis using later[of R as'] Cons.prems(2-4) by simp
  next
    fix as' d i assume "\<not> (d \<and> i)" "as = Some (root, d, i) # as'" "republish_run E R ts = (R', as')"
    then show ?thesis using later[of R as'] Cons.prems(2-4) by auto
  next
    fix as' assume r: "due (pb_cache_warm E) (tk_now t) root R" "as = Some (root, True, True) # as'"
      "republish_run E \<lparr>rp_cid = Some root, rp_at = tk_finished t\<rparr> ts = (R', as')"
    have gap: "pb_cache_warm E \<le> tk_now t - rp_at R" using r(1) Cons.prems(3) by (simp add: due_def)
    show ?thesis
    proof (cases "ts = []")
      case False
      have "successes as' * pb_cache_warm E \<le> tk_now (last ts) - tk_finished t"
        using later[OF r(3)] False by simp
      with gap mono Cons.prems(2,4) False have "pb_cache_warm E + successes as' * pb_cache_warm E \<le> tk_now (last (t # ts)) - rp_at R"
        by simp linarith
      then show ?thesis using r(2) by simp
    qed (use r gap in simp)
  qed
qed simp

text \<open>What a run reports is what the publications said.\<close>

lemma run_reports:
  assumes "\<forall>t\<in>set ts. head_of (tk_service t) = Some root" and "republish_run E R ts = (R', as)"
  shows "list_all2 (\<lambda>t a. a = None \<or> a = Some (root, publications E root (tk_others t) (tk_service t))) ts as"
  using assms
proof (induction ts arbitrary: R as)
  case (Cons t ts)
  have h: "\<forall>t\<in>set ts. head_of (tk_service t) = Some root" using Cons.prems(1) by simp
  show ?case
    by (rule run_first[OF Cons.prems]) (use Cons.IH[OF h] in auto)
qed simp

lemma retry_until_success:
  assumes "\<forall>t\<in>set ts. head_of (tk_service t) = Some root" and "in_order t0 ts"
    and "\<forall>now\<ge>t0. due (pb_cache_warm E) now root R" and "republish_run E R ts = (R', as)"
  shows "\<exists>failures rest. as = failures @ rest \<and> (\<forall>a\<in>set failures. \<exists>d i. a = Some (root, d, i) \<and> \<not> (d \<and> i)) \<and> (rest = [] \<or> hd rest = Some (root, True, True))"
  using assms
proof (induction ts arbitrary: t0 as)
  case (Cons t ts)
  show ?case
  proof (rule run_first[OF Cons.prems(1,4)])
    fix as' assume "\<not> due (pb_cache_warm E) (tk_now t) root R"
    then show ?thesis using Cons.prems(2,3) by simp
  next
    fix as' d i assume f: "\<not> (d \<and> i)" "as = Some (root, d, i) # as'" "republish_run E R ts = (R', as')"
    have "\<exists>failures rest. as' = failures @ rest \<and> (\<forall>a\<in>set failures. \<exists>d i. a = Some (root, d, i) \<and> \<not> (d \<and> i)) \<and> (rest = [] \<or> hd rest = Some (root, True, True))"
      by (rule Cons.IH[of "tk_finished t"]) (use Cons.prems f in auto)
    then obtain failures rest where "as' = failures @ rest" "\<forall>a\<in>set failures. \<exists>d i. a = Some (root, d, i) \<and> \<not> (d \<and> i)"
      "rest = [] \<or> hd rest = Some (root, True, True)"
      by blast
    with f show ?thesis by (intro exI[of _ "Some (root, d, i) # failures"] exI[of _ rest]) auto
  next
    fix as' assume "as = Some (root, True, True) # as'"
    then show ?thesis by (intro exI[of _ "[]"] exI[of _ as]) simp
  qed
qed simp

lemma in_order_later: "in_order t0 ts \<Longrightarrow> ts \<noteq> [] \<Longrightarrow> t0 \<le> tk_now (hd ts) \<and> tk_now (hd ts) \<le> tk_now (last ts)"
proof (induction ts arbitrary: t0)
  case (Cons t ts)
  show ?case
  proof (cases "ts = []")
    case False
    then show ?thesis using Cons.IH[of "tk_finished t"] Cons.prems by simp
  qed (use Cons.prems in simp)
qed simp

lemma successes_bound:
  assumes "\<forall>t\<in>set ts. head_of (tk_service t) = Some root" and "in_order t0 ts" and "ts \<noteq> []" and "republish_run E R ts = (R', as)"
  shows "(successes as - 1) * pb_cache_warm E \<le> tk_now (last ts) - tk_now (hd ts)"
  using assms
proof (induction ts arbitrary: t0 as)
  case (Cons t ts)
  have o1: "in_order (tk_finished t) ts" and le: "tk_now t \<le> tk_finished t" using Cons.prems(2) by simp_all
  have step: "(successes as' - 1) * pb_cache_warm E \<le> tk_now (last (t # ts)) - tk_now t"
    if "republish_run E R ts = (R', as')" for as'
  proof (cases "ts = []")
    case False
    have "(successes as' - 1) * pb_cache_warm E \<le> tk_now (last ts) - tk_now (hd ts)"
      by (rule Cons.IH[OF _ o1 False that]) (use Cons.prems in simp)
    moreover have "tk_now (last ts) - tk_now (hd ts) \<le> tk_now (last ts) - tk_now t"
      using in_order_later[OF o1 False] le by (intro diff_le_mono2) simp
    ultimately show ?thesis using False by simp
  qed (use that in simp)
  show ?case
  proof (rule run_first[OF Cons.prems(1,4)])
    fix as' assume "as = None # as'" "republish_run E R ts = (R', as')"
    then show ?thesis using step by simp
  next
    fix as' d i assume "\<not> (d \<and> i)" "as = Some (root, d, i) # as'" "republish_run E R ts = (R', as')"
    then show ?thesis using step by auto
  next
    fix as' assume r: "as = Some (root, True, True) # as'"
      "republish_run E \<lparr>rp_cid = Some root, rp_at = tk_finished t\<rparr> ts = (R', as')"
    show ?thesis
    proof (cases "ts = []")
      case False
      have "successes as' * pb_cache_warm E \<le> tk_now (last ts) - tk_finished t"
        using successes_after[OF _ o1 _ _ False r(2)] Cons.prems(1) by simp
      with r le False show ?thesis by simp
    qed (use r in simp)
  qed
qed simp

lemma persisted_setting:
  assumes "trim root = root" and "root \<noteq> []"
  shows "root_cid_setting (ct_config (persist_root_cid root s)) = Some root"
  using assms
  by (cases "root_cid_setting (ct_config s) = Some root")
     (simp_all add: persist_root_cid_def root_cid_setting_def map_of_update Let_def)

lemma persist_root_writer [simp]: "ct_writer (persist_root_cid root s) = ct_writer s"
  by (simp add: persist_root_cid_def Let_def)

text \<open>A tick that succeeded, in its pieces.\<close>

lemma tick_succeeded:
  assumes "republish_tick E others now fin R ws = (R', (w', s'), Some (root, True, True))"
  obtains w0 s0 w1 s1 w2 w3 s3 w4 s5 where "pb_is_cid E root" "others 0 ws = (w0, s0)" "others 1 (w0, s0) = (w1, s1)"
    "others 2 (w2, s1) = (w3, s3)" "publish_runtime_ipns E root w3 = (w4, True)" "others 3 (w4, s3) = (w', s5)"
    "R' = \<lparr>rp_cid = Some root, rp_at = fin\<rparr>" "s' = persist_root_cid root s5"
proof -
  obtain r where h0: "head_of ws = Some r"
    using assms by (cases "head_of ws") (simp_all add: republish_tick_def republish_begin_def)
  have due0: "due (pb_cache_warm E) now r R" using tick_idle[OF h0, of E now R others fin] assms by auto
  have "r = root" by (rule tick_outcomes[OF h0 due0, of others fin]) (use assms in simp)
  with h0 due0 have h: "head_of ws = Some root" and due: "due (pb_cache_warm E) now root R" by simp_all
  have "build_did_publish_payload E root \<noteq> None"
    by (rule notI) (use tick_without_payload[OF h due, of others fin] assms in simp)
  then obtain doc key where p: "build_did_publish_payload E root = Some (doc, key)"
    by (cases "build_did_publish_payload E root") auto
  then have cid: "pb_is_cid E root" by (auto simp: build_did_publish_payload_def split: if_splits)
  obtain w0 s0 where o0: "others 0 ws = (w0, s0)" by fastforce
  obtain w1 s1 where o1: "others 1 (w0, s0) = (w1, s1)" by fastforce
  let ?pin = "runtime_remote_pin_config (pb_remote_of E) (pb_slug E) (pb_today E) (ct_config s0)"
  obtain w2 d where d: "publish_did_document E doc key ?pin (pb_overwrite E (ct_config s0)) w1 = (w2, d)" by fastforce
  obtain w3 s3 where o2: "others 2 (w2, s1) = (w3, s3)" by fastforce
  obtain w4 i where i: "publish_runtime_ipns E root w3 = (w4, i)" by fastforce
  obtain w5 s5 where o3: "others 3 (w4, s3) = (w5, s5)" by fastforce
  from tick_published[OF h due p o0 o1 d o2 i o3, of fin] assms
  have "i" "w5 = w'" "R' = \<lparr>rp_cid = Some root, rp_at = fin\<rparr>" "s' = persist_root_cid root s5" by (auto split: if_splits)
  then show ?thesis using that[OF cid o0 o1 o2 _ _ _ _, of w4] i o3 by simp
qed

lemma runtime_ipns_ok:
  "publish_runtime_ipns E root w = (w', True) \<Longrightarrow>
     \<exists>v. publish_runtime_root_cid (pb_node E) (pb_to_protobuf E) (pb_ipns_id_of E) (pb_key_name_of E) (pb_slug E)
       (pb_runtime_ipns_key E) root w = (w', Inr v)"
  by (auto simp: publish_runtime_ipns_def limited_def split: option.splits prod.splits sum.splits)

lemma persist_saves:
  "root_cid_setting (ct_config s) \<noteq> Some root \<Longrightarrow> ct_saved (persist_root_cid root s) = ct_config (persist_root_cid root s) # ct_saved s"
  by (simp add: persist_root_cid_def Let_def)

text \<open>What another task saves during one wait and nobody touches in the later ones is there when the task saves.\<close>

lemma left_by_others:
  assumes "k < (4 :: nat)" and "\<And>ws. P (snd (others k ws))" and "\<And>j ws. k < j \<Longrightarrow> P (snd ws) \<Longrightarrow> P (snd (others j ws))"
    and "others 0 ws = (w0, s0)" "others 1 (w0, s0) = (w1, s1)" "others 2 (w2, s1) = (w3, s3)" "others 3 (w4, s3) = (w5, s5)"
  shows "P s5"
proof -
  have a: "P s0" if "k = 0" using assms(2)[of ws] assms(4) that by simp
  have keep: "P s'" if "k \<le> j" "k < j \<Longrightarrow> P s" "others j (w, s) = (w', s')" for j w s w' s'
    using assms(2)[of "(w, s)"] assms(3)[of j "(w, s)"] that
    by (auto simp: le_less)
  have b: "P s1" if "k \<le> 1" by (rule keep[OF that _ assms(5)]) (use a in simp)
  have c: "P s3" if "k \<le> 2" by (rule keep[OF that _ assms(6)]) (use b in simp)
  show ?thesis by (rule keep[OF _ _ assms(7)]) (use assms(1) c in simp_all)
qed

section \<open>A publisher for the witnesses\<close>

text \<open>The node can be away: then its world is \<open>down\<close> and nothing is published in time.\<close>

definition sample_publisher :: "((string \<times> string), bytes) own_publisher" where
  "sample_publisher = \<lparr>op_decode = Some, op_validate = (\<lambda>_. True), op_verify = (\<lambda>_. True), op_create = True,
     op_ready = (\<lambda>_. True), op_publish = (\<lambda>doc key options w. (w, True))\<rparr>"

definition sample_republish :: "((string \<times> string), bytes) republish_env" where
  "sample_republish = \<lparr>pb_is_cid = (\<lambda>_. True), pb_bundle = Some \<lparr>sb_created_at = [], sb_ipns_secret_key = [7]\<rparr>,
     pb_rfc3339 = (\<lambda>_. None), pb_build = (\<lambda>bundle root. Some [1]), pb_encode = Some, pb_publisher = sample_publisher,
     pb_node = one_key_node, pb_to_protobuf = Some, pb_ipns_id_of = (\<lambda>_. Some ''k51''), pb_key_name_of = (\<lambda>_ _. ''root''),
     pb_slug = ''ma'', pb_runtime_ipns_key = replicate 32 0,
     pb_settings = \<lparr>ps_lifetime_hours = 8760, ps_allow_offline = True, ps_resolve = False, ps_timeout_secs = 120\<rparr>,
     pb_remote_of = (\<lambda>_ _. Inr None), pb_today = (2026, 8, 9), pb_overwrite = (\<lambda>_. False),
     pb_cut_did = (\<lambda>w. None), pb_cut_ipns = (\<lambda>w. if fst w = ''down'' then Some w else None), pb_cache_warm = 60\<rparr>"

definition headed :: "cid \<Rightarrow> crud_state" where
  "headed root = sample_crud\<lparr>ct_writer := writer_new root (Some root)\<rparr>"

lemma head_headed [simp]: "mw_root_cid (ct_writer (headed root)) = Some root"
  by (simp add: headed_def writer_new_def)

lemma sample_payload: "build_did_publish_payload sample_republish root = Some ([1], [7])"
  by (simp add: build_did_publish_payload_def sample_republish_def qa_prepare_bundle_timestamps_for_publish_def
      canonicalise_bundle_created_at_def)

lemma sample_document: "publish_did_document sample_republish doc key pin over w = (w, True)"
  by (simp add: publish_did_document_def limited_def do_publish_own_document_def sample_publisher_def sample_republish_def)

lemma trim_sample: "trim ''root'' = ''root''" "trim ([] :: string) = []"
  by (simp add: trim_visible) (simp add: trim_def trim_start_def trim_end_def)

text \<open>A node that has the key, or none, takes the record.\<close>

lemma sample_record:
  assumes "c \<noteq> []" and "hd c \<noteq> CHR ''/''" and "\<not> starts_with ''ipfs/'' c" and "name = ''root'' \<or> name = []"
  shows "publish_runtime_ipns sample_republish c (name, path) = ((''root'', ''/ipfs/'' @ c), True)"
proof -
  have "publish_runtime_root_cid one_key_node Some (\<lambda>_. Some ''k51'') (\<lambda>_ _. ''root'') ''ma'' (replicate 32 0) c (name, path)
      = ((''root'', ''/ipfs/'' @ c), Inr (''/ipfs/'' @ c))"
    using assms(4)
    by (auto simp: publish_runtime_root_cid_def ensure_kubo_ipns_key_def one_key_list trim_sample import_key_def name_publish_def
        publish_arg_bare[OF assms(1-3)])
       (simp_all add: one_key_node_def trim_k51 trim_sample upper_or_lower_def)
  then show ?thesis using assms(4) by (auto simp: publish_runtime_ipns_def limited_def sample_republish_def)
qed

lemma sample_record_down: "publish_runtime_ipns sample_republish c (''down'', path) = ((''down'', path), False)"
  by (simp add: publish_runtime_ipns_def limited_def sample_republish_def)

lemma sample_laws: "ipns_laws one_key_node"
  by (auto simp: ipns_laws_def one_key_list) (auto simp: one_key_node_def trimmed_or_def trim_k51 split: if_splits)

section \<open>Properties\<close>

text \<open>
  C32 (Republishing). While the head stays the same: a tick either leaves it or attempts it, and reports what the two publications
  of that tick really said; a head that is due is attempted at every tick until both its document and its IPNS record are published
  by the same tick, whatever fails before; and after that it is published again at most once per cache-warm interval: \<open>n + 1\<close>
  publications under both names take \<open>n\<close> intervals.
\<close>

theorem republish_schedule:
  assumes "\<forall>t\<in>set ts. mw_root_cid (ct_writer (snd (tk_service t))) = Some root" and "in_order t0 ts" and "ts \<noteq> []"
    and "republish_run E R ts = (R', as)"
  shows "list_all2 (\<lambda>t a. a = None \<or> a = Some (root, publications E root (tk_others t) (tk_service t))) ts as
     \<and> ((\<forall>now\<ge>t0. due (pb_cache_warm E) now root R) \<longrightarrow>
       (\<exists>failures rest. as = failures @ rest \<and> (\<forall>a\<in>set failures. \<exists>d i. a = Some (root, d, i) \<and> \<not> (d \<and> i))
          \<and> (rest = [] \<or> hd rest = Some (root, True, True))))
     \<and> (length (filter (\<lambda>a. \<exists>r. a = Some (r, True, True)) as) - 1) * pb_cache_warm E \<le> tk_now (last ts) - tk_now (hd ts)"
  using run_reports[OF assms(1,4)] retry_until_success[OF assms(1,2) _ assms(4)] successes_bound[OF assms]
  by (simp add: successes_def)

definition sample_tick :: "nat \<Rightarrow> string \<Rightarrow> (string \<times> string) tick" where
  "sample_tick now node = \<lparr>tk_now = now, tk_finished = now + 5, tk_others = (\<lambda>_ ws. ws),
     tk_service = ((node, []), headed ''bafyA'')\<rparr>"

lemma sample_tick_up:
  assumes "due 60 now ''bafyA'' R"
  shows "\<exists>ws. republish_tick sample_republish (\<lambda>_ ws. ws) now fin R (([], []), headed ''bafyA'')
    = (\<lparr>rp_cid = Some ''bafyA'', rp_at = fin\<rparr>, ws, Some (''bafyA'', True, True))"
proof -
  have "due (pb_cache_warm sample_republish) now ''bafyA'' R" using assms by (simp add: sample_republish_def)
  from tick_published[OF _ this sample_payload _ _ sample_document, of _ "\<lambda>_ ws. ws" _ _ _ _ _ _ "(''root'', ''/ipfs/bafyA'')" True _ _ fin]
  show ?thesis using sample_record[of "''bafyA''" "[]" "[]"] by (auto simp: starts_with_def)
qed

lemma sample_tick_down:
  assumes "due 60 now ''bafyA'' R"
  shows "\<exists>ws. republish_tick sample_republish (\<lambda>_ ws. ws) now fin R ((''down'', []), headed ''bafyA'')
    = (R, ws, Some (''bafyA'', True, False))"
proof -
  have "due (pb_cache_warm sample_republish) now ''bafyA'' R" using assms by (simp add: sample_republish_def)
  from tick_published[OF _ this sample_payload _ _ sample_document, of _ "\<lambda>_ ws. ws" _ _ _ _ _ _ "(''down'', [])" False _ _ fin]
  show ?thesis using sample_record_down[of "''bafyA''" "[]"] by auto
qed

theorem republish_schedule_witness:
  "\<exists>R'. let ts = [sample_tick 100 ''down'', sample_tick 110 [], sample_tick 120 []];
       as = [Some (''bafyA'', True, False), Some (''bafyA'', True, True), None]
     in republish_run sample_republish (republisher_new 100 60) ts = (R', as)
       \<and> list_all2 (\<lambda>t a. a = None \<or> a = Some (''bafyA'', publications sample_republish ''bafyA'' (tk_others t) (tk_service t))) ts as
       \<and> (\<exists>failures rest. as = failures @ rest \<and> (\<forall>a\<in>set failures. \<exists>d i. a = Some (''bafyA'', d, i) \<and> \<not> (d \<and> i))
            \<and> (rest = [] \<or> hd rest = Some (''bafyA'', True, True)))"
proof -
  let ?ts = "[sample_tick 100 ''down'', sample_tick 110 [], sample_tick 120 []]" and ?R = "republisher_new 100 60"
  let ?as = "[Some (''bafyA'', True, False), Some (''bafyA'', True, True), None]"
  have due: "due 60 now ''bafyA'' ?R" for now by (simp add: due_def republisher_new_def)
  have idle: "\<not> due (pb_cache_warm sample_republish) 120 ''bafyA'' \<lparr>rp_cid = Some ''bafyA'', rp_at = 115\<rparr>"
    by (simp add: due_def sample_republish_def)
  obtain w1 where 1: "republish_tick sample_republish (\<lambda>_ ws. ws) 100 105 ?R ((''down'', []), headed ''bafyA'')
      = (?R, w1, Some (''bafyA'', True, False))" using sample_tick_down[OF due] by blast
  obtain w2 where 2: "republish_tick sample_republish (\<lambda>_ ws. ws) 110 115 ?R (([], []), headed ''bafyA'')
      = (\<lparr>rp_cid = Some ''bafyA'', rp_at = 115\<rparr>, w2, Some (''bafyA'', True, True))" using sample_tick_up[OF due] by blast
  have run: "republish_run sample_republish ?R ?ts = (\<lparr>rp_cid = Some ''bafyA'', rp_at = 115\<rparr>, ?as)"
    using 1 2 tick_idle[OF _ idle, of "(([], []), headed ''bafyA'')" "\<lambda>_ ws. ws" 125] by (simp add: sample_tick_def)
  have d: "\<forall>now\<ge>100. due (pb_cache_warm sample_republish) now ''bafyA'' ?R" using due by (simp add: sample_republish_def)
  have p: "\<forall>t\<in>set ?ts. mw_root_cid (ct_writer (snd (tk_service t))) = Some ''bafyA''" "in_order 100 ?ts" "?ts \<noteq> []"
    by (simp_all add: sample_tick_def)
  from republish_schedule[OF p run] d run show ?thesis unfolding Let_def by blast
qed

text \<open>
  C33 (Republishing). A publication that is under way when the head changes turns the runtime back: if both publications of a
  tick succeed, and during any of its four waits another task replaces the head and saves the new one (as the shutdown does),
  which the later waits leave alone, then the new head stays in memory, but the configuration, in memory and in the file
  written last, names the older one, from which the next start goes on; and so does the runtime's IPNS record, unless it is
  published again during the last wait.
\<close>

theorem late_republish_reverts_head:
  assumes "republish_tick E others now finished R ws = (R', (w', s'), Some (old, True, True))"
    and "k < (4 :: nat)" and "\<forall>ws. mw_root_cid (ct_writer (snd (others k ws))) = Some new
        \<and> root_cid_setting (ct_config (snd (others k ws))) = Some new"
    and "\<forall>j ws. k < j \<longrightarrow> mw_root_cid (ct_writer (snd (others j ws))) = mw_root_cid (ct_writer (snd ws))
        \<and> ct_config (snd (others j ws)) = ct_config (snd ws)" and "old \<noteq> new"
    and "ipns_laws (pb_node E)" and "pb_ipns_id_of E (pb_runtime_ipns_key E) = Some ipns_id"
    and "name = pb_key_name_of E [''runtime'', pb_slug E, ''runtime''] ipns_id" and "trim name = name" and "name \<noteq> []"
    and "old \<noteq> []" and "hd old \<noteq> CHR ''/''" and "\<not> starts_with ''ipfs/'' old" and "trim old = old"
    and "trim (''/ipfs/'' @ old) = ''/ipfs/'' @ old"
  shows "mw_root_cid (ct_writer s') = Some new \<and> rp_cid R' = Some old
     \<and> select_root_cid (pb_is_cid E) None None (ct_config s') = Inr (Some old)
     \<and> (\<exists>before. ct_saved s' = ct_config s' # before)
     \<and> ((\<forall>w s. resolve_runtime_root_cid_by_ipns_id (pb_node E) ipns_id (fst (others 3 (w, s)))
           = resolve_runtime_root_cid_by_ipns_id (pb_node E) ipns_id w) \<longrightarrow>
         resolve_runtime_root_cid_by_ipns_id (pb_node E) ipns_id w' = Inr (Some old))"
proof -
  obtain w0 s0 w1 s1 w2 w3 s3 w4 s5 where t: "pb_is_cid E old" "others 0 ws = (w0, s0)" "others 1 (w0, s0) = (w1, s1)"
    "others 2 (w2, s1) = (w3, s3)" "publish_runtime_ipns E old w3 = (w4, True)" "others 3 (w4, s3) = (w', s5)"
    "R' = \<lparr>rp_cid = Some old, rp_at = finished\<rparr>" "s' = persist_root_cid old s5"
    by (rule tick_succeeded[OF assms(1)])
  have left: "mw_root_cid (ct_writer s5) = Some new \<and> root_cid_setting (ct_config s5) = Some new"
    by (rule left_by_others[OF assms(2) _ _ t(2-4,6)]) (rule assms(3)[rule_format], metis assms(4))
  have cfg: "root_cid_setting (ct_config s') = Some old" unfolding t(8) by (rule persisted_setting[OF assms(14,11)])
  have saved: "ct_saved s' = ct_config s' # ct_saved s5" using persist_saves[of s5 old] left assms(5) t(8) by simp
  obtain v where "publish_runtime_root_cid (pb_node E) (pb_to_protobuf E) (pb_ipns_id_of E) (pb_key_name_of E) (pb_slug E)
     (pb_runtime_ipns_key E) old w3 = (w4, Inr v)" using runtime_ipns_ok[OF t(5)] by blast
  from publish_then_resolve[OF assms(6) this assms(7-13,15)]
  have names: "resolve_runtime_root_cid_by_ipns_id (pb_node E) ipns_id w4 = Inr (Some old)" .
  have "resolve_runtime_root_cid_by_ipns_id (pb_node E) ipns_id w' = Inr (Some old)"
    if "\<forall>w s. resolve_runtime_root_cid_by_ipns_id (pb_node E) ipns_id (fst (others 3 (w, s)))
           = resolve_runtime_root_cid_by_ipns_id (pb_node E) ipns_id w"
    using that[rule_format, of w4 s3] t(6) names by simp
  with t(1,7,8) left cfg saved show ?thesis by (simp add: select_root_cid_def)
qed

text \<open>A shutdown during the publication of the document: it saves the new head and publishes its record.\<close>

definition closing_down :: "nat \<Rightarrow> (string \<times> string) service \<Rightarrow> (string \<times> string) service" where
  "closing_down i = (\<lambda>(w, s).
     if i = 2 then ((''root'', ''/ipfs/bafyB''), persist_root_cid ''bafyB'' (s\<lparr>ct_writer := (ct_writer s)\<lparr>mw_root_cid := Some ''bafyB''\<rparr>\<rparr>))
     else (w, s))"

theorem late_republish_reverts_head_witness:
  "\<exists>R' w' s'. republish_tick sample_republish closing_down 100 105 (republisher_new 100 60) (([], []), headed ''bafyA'')
       = (R', (w', s'), Some (''bafyA'', True, True))
     \<and> mw_root_cid (ct_writer s') = Some ''bafyB''
     \<and> select_root_cid (\<lambda>_. True) None None (ct_config s') = Inr (Some ''bafyA'')
     \<and> (\<exists>before. ct_saved s' = ct_config s' # before)
     \<and> resolve_runtime_root_cid_by_ipns_id one_key_node ''k51'' w' = Inr (Some ''bafyA'')"
proof -
  have t: "trim ''bafyA'' = ''bafyA''" "trim ''bafyB'' = ''bafyB''" "trim ''/ipfs/bafyA'' = ''/ipfs/bafyA''"
    by (simp_all add: trim_visible)
  have due: "due (pb_cache_warm sample_republish) 100 ''bafyA'' (republisher_new 100 60)" by (simp add: due_def republisher_new_def)
  have rec: "publish_runtime_ipns sample_republish ''bafyA'' (''root'', ''/ipfs/bafyB'') = ((''root'', ''/ipfs/bafyA''), True)"
    using sample_record[of "''bafyA''"] by (simp add: starts_with_def)
  obtain s' where run: "republish_tick sample_republish closing_down 100 105 (republisher_new 100 60) (([], []), headed ''bafyA'')
      = (\<lparr>rp_cid = Some ''bafyA'', rp_at = 105\<rparr>, ((''root'', ''/ipfs/bafyA''), s'), Some (''bafyA'', True, True))"
    using tick_published[OF _ due sample_payload _ _ sample_document _ rec, of "(([], []), headed ''bafyA'')" closing_down]
    by (simp add: closing_down_def)
  have setting: "root_cid_setting (ct_config (persist_root_cid ''bafyB'' s)) = Some ''bafyB''" for s
    by (rule persisted_setting) (simp_all add: t)
  have "mw_root_cid (ct_writer s') = Some ''bafyB'' \<and> rp_cid \<lparr>rp_cid = Some ''bafyA'', rp_at = 105\<rparr> = Some ''bafyA''
     \<and> select_root_cid (pb_is_cid sample_republish) None None (ct_config s') = Inr (Some ''bafyA'')
     \<and> (\<exists>before. ct_saved s' = ct_config s' # before)
     \<and> ((\<forall>w s. resolve_runtime_root_cid_by_ipns_id (pb_node sample_republish) ''k51'' (fst (closing_down 3 (w, s)))
           = resolve_runtime_root_cid_by_ipns_id (pb_node sample_republish) ''k51'' w) \<longrightarrow>
         resolve_runtime_root_cid_by_ipns_id (pb_node sample_republish) ''k51'' (''root'', ''/ipfs/bafyA'') = Inr (Some ''bafyA''))"
    by (rule late_republish_reverts_head[where k = 2 and new = "''bafyB''" and name = "''root''", OF run])
       (simp_all add: closing_down_def case_prod_beta setting t trim_sample starts_with_def,
        simp_all add: sample_republish_def sample_laws)
  moreover have "fst (closing_down 3 (w, s)) = w" for w s by (simp add: closing_down_def)
  ultimately show ?thesis using run by (auto simp: sample_republish_def)
qed

end
