(* ===== verification/Schedule.thy ===== *)
theory Schedule
  imports Documents
begin

text \<open>
  Schedule requests: the CBOR request parser of the native \<open>#scheduler\<close> actor
  (\<open>src/scheduler_actor.rs\<close>), the duration parser and the job a request becomes
  (\<open>src/schedule.rs\<close>).  \<open>u64\<close> arithmetic wraps (the release profile has no overflow checks);
  \<open>i64\<close> values are integers with the wrap-around of the subtraction written out.  The CBOR
  encoder and decoder (\<open>ciborium\<close>) are the parameters \<open>enc\<close> and \<open>dec\<close>.
\<close>

section \<open>Durations\<close>

datatype duration_error = BadNumber | UnknownUnit char | NoUnit | ZeroDuration

definition unit_secs :: "char \<Rightarrow> u64 \<Rightarrow> u64 option" where
  "unit_secs ch n =
     (if ch = CHR ''s'' then Some n
      else if ch = CHR ''m'' then Some (n * 60)
      else if ch = CHR ''h'' then Some (n * 3600)
      else if ch = CHR ''d'' then Some (n * 86400)
      else None)"

fun duration_loop :: "u64 \<Rightarrow> string \<Rightarrow> string \<Rightarrow> duration_error + u64 \<times> string" where
  "duration_loop tot buf [] = Inr (tot, buf)"
| "duration_loop tot buf (ch # cs) =
     (if is_ascii_digit ch then duration_loop tot (buf @ [ch]) cs
      else (case parse_u64_digits buf of
              None \<Rightarrow> Inl BadNumber
            | Some n \<Rightarrow>
                (case unit_secs ch n of
                   None \<Rightarrow> Inl (UnknownUnit ch)
                 | Some secs \<Rightarrow> duration_loop (tot + secs) [] cs)))"

definition parse_duration :: "string \<Rightarrow> duration_error + u64" where
  "parse_duration s =
     (case duration_loop 0 [] s of
        Inl e \<Rightarrow> Inl e
      | Inr (tot, buf) \<Rightarrow>
          if buf \<noteq> [] then Inl NoUnit
          else if tot = 0 then Inl ZeroDuration
          else Inr tot)"

section \<open>Requests\<close>

datatype schedule_request =
    RCron string bytes
  | RInterval u64 bytes
  | RAt int bytes
  | RIn u64 bytes
  | RRandom u64 bytes

record parsed_request =
  pr_schedule_key :: string
  pr_fragment :: string
  pr_request :: schedule_request

datatype schedule_error =
    ENotArray | ETooShort nat | EEmptyName | ENameNotText | ETypeNotText | ENoFragment
  | EBadVerb | EEncode | EBadSpec string | EDuration duration_error | ETimestampRange
  | EUnknownType string

fun is_help_request :: "cbor \<Rightarrow> bool" where
  "is_help_request (CText s) = (s = '':help'')"
| "is_help_request (CArray [CText s]) = (s = '':help'')"
| "is_help_request _ = False"

definition encode_verb_content ::
  "(cbor \<Rightarrow> bytes option) \<Rightarrow> cbor list \<Rightarrow> schedule_error + bytes" where
  "encode_verb_content enc items =
     (let args = drop 4 items;
          value = (case items ! 3 of
                     CText v \<Rightarrow> if args = [] then Some (CText v) else Some (CArray (CText v # args))
                   | CArray xs \<Rightarrow> Some (CArray xs)
                   | _ \<Rightarrow> None)
      in case value of
           None \<Rightarrow> Inl EBadVerb
         | Some v \<Rightarrow> (case enc v of None \<Rightarrow> Inl EEncode | Some out \<Rightarrow> Inr out))"

definition i64_try_from :: "int \<Rightarrow> int option" where
  "i64_try_from n = (if - (2 ^ 63) \<le> n \<and> n < 2 ^ 63 then Some n else None)"

definition u64_try_from :: "int \<Rightarrow> u64 option" where
  "u64_try_from n = (if 0 \<le> n \<and> n < 2 ^ 64 then Some (word_of_int n) else None)"

definition parse_spec :: "string \<Rightarrow> cbor \<Rightarrow> bytes \<Rightarrow> schedule_error + schedule_request" where
  "parse_spec type_verb spec content =
     (if type_verb = '':cron'' then
        (case spec of CText s \<Rightarrow> Inr (RCron s content) | _ \<Rightarrow> Inl (EBadSpec type_verb))
      else if type_verb = '':interval'' then
        (case spec of
           CText s \<Rightarrow> (case parse_duration s of Inl e \<Rightarrow> Inl (EDuration e) | Inr secs \<Rightarrow> Inr (RInterval secs content))
         | _ \<Rightarrow> Inl (EBadSpec type_verb))
      else if type_verb = '':at'' then
        (case spec of
           CInteger n \<Rightarrow> (case i64_try_from n of None \<Rightarrow> Inl ETimestampRange | Some ts \<Rightarrow> Inr (RAt ts content))
         | _ \<Rightarrow> Inl (EBadSpec type_verb))
      else if type_verb = '':in'' then
        (case spec of
           CText s \<Rightarrow> (case parse_duration s of Inl e \<Rightarrow> Inl (EDuration e) | Inr secs \<Rightarrow> Inr (RIn secs content))
         | _ \<Rightarrow> Inl (EBadSpec type_verb))
      else if type_verb = '':random'' then
        (case spec of
           CInteger n \<Rightarrow> Inr (RRandom (case u64_try_from n of None \<Rightarrow> 60 | Some m \<Rightarrow> m) content)
         | _ \<Rightarrow> Inl (EBadSpec type_verb))
      else Inl (EUnknownType type_verb))"

text \<open>\<open>from.split_once('#')\<close>, with an empty fragment refused.\<close>

definition sender_fragment :: "string \<Rightarrow> string option" where
  "sender_fragment from =
     (case split_once (CHR ''#'') from of
        Some (_, frag) \<Rightarrow> if frag = [] then None else Some frag
      | None \<Rightarrow> None)"

definition parse_schedule_request ::
  "(cbor \<Rightarrow> bytes option) \<Rightarrow> cbor \<Rightarrow> string \<Rightarrow> schedule_error + parsed_request" where
  "parse_schedule_request enc term from =
     (case term of
        CArray items \<Rightarrow>
          if length items < 4 then Inl (ETooShort (length items))
          else (case items ! 0 of
                  CText name \<Rightarrow>
                    if name = [] then Inl EEmptyName
                    else (case items ! 1 of
                            CText type_verb \<Rightarrow>
                              (case sender_fragment from of
                                 None \<Rightarrow> Inl ENoFragment
                               | Some fragment \<Rightarrow>
                                   (case encode_verb_content enc items of
                                      Inl e \<Rightarrow> Inl e
                                    | Inr content \<Rightarrow>
                                        (case parse_spec type_verb (items ! 2) content of
                                           Inl e \<Rightarrow> Inl e
                                         | Inr request \<Rightarrow>
                                             Inr \<lparr>pr_schedule_key = from @ ''-'' @ name,
                                                  pr_fragment = fragment, pr_request = request\<rparr>)))
                          | _ \<Rightarrow> Inl ETypeNotText)
                | _ \<Rightarrow> Inl ENameNotText)
      | _ \<Rightarrow> Inl ENotArray)"

text \<open>
  \<open>native_actor\<close>: the reply of the actor and the registration task it spawns.  Undecodable
  input and parse errors are returned to the caller.
\<close>

datatype actor_error = BadCbor | BadRequest schedule_error | ReplyEncode

definition scheduler_on_message ::
  "(bytes \<Rightarrow> cbor option) \<Rightarrow> (cbor \<Rightarrow> bytes option) \<Rightarrow> string \<Rightarrow> string \<Rightarrow> bytes
     \<Rightarrow> (actor_error + bytes) \<times> parsed_request option" where
  "scheduler_on_message dec enc help_text from content =
     (case dec content of
        None \<Rightarrow> (Inl BadCbor, None)
      | Some term \<Rightarrow>
          if is_help_request term
          then (case enc (CText help_text) of None \<Rightarrow> (Inl ReplyEncode, None) | Some out \<Rightarrow> (Inr out, None))
          else (case parse_schedule_request enc term from of
                  Inl e \<Rightarrow> (Inl (BadRequest e), None)
                | Inr req \<Rightarrow>
                    (case enc (CText '':ok'') of
                       None \<Rightarrow> (Inl ReplyEncode, Some req)
                     | Some out \<Rightarrow> (Inr out, Some req))))"

section \<open>Jobs\<close>

datatype job_spec = JCron string | JRepeated u64 | JOneShot u64 | JRandom u64

definition i64_saturating_add :: "int \<Rightarrow> int \<Rightarrow> int" where
  "i64_saturating_add a b = max (- (2 ^ 63)) (min (2 ^ 63 - 1) (a + b))"

text \<open>\<open>timestamp_ms - now_ms()\<close> on \<open>i64\<close> wraps; a negative difference is clamped to zero.\<close>

definition at_delay_ms :: "int \<Rightarrow> int \<Rightarrow> u64" where
  "at_delay_ms now timestamp_ms =
     (let diff = sint (word_of_int (timestamp_ms - now) :: 64 word)
      in case u64_try_from (max diff 0) of None \<Rightarrow> 0 | Some d \<Rightarrow> d)"

definition in_timestamp_ms :: "int \<Rightarrow> u64 \<Rightarrow> int" where
  "in_timestamp_ms now secs =
     i64_saturating_add now
       (case i64_try_from (uint (u64_saturating_mul secs 1000)) of None \<Rightarrow> 2 ^ 63 - 1 | Some m \<Rightarrow> m)"

text \<open>The job that \<open>register_schedule\<close> adds; \<open>now\<close> and \<open>now'\<close> are its two clock readings.\<close>

fun schedule_job :: "int \<Rightarrow> int \<Rightarrow> schedule_request \<Rightarrow> job_spec" where
  "schedule_job now now' (RCron spec content) = JCron spec"
| "schedule_job now now' (RInterval secs content) = JRepeated secs"
| "schedule_job now now' (RAt ts content) = JOneShot (at_delay_ms now' ts)"
| "schedule_job now now' (RIn secs content) = JOneShot (at_delay_ms now' (in_timestamp_ms now secs))"
| "schedule_job now now' (RRandom max_secs content) = JRandom max_secs"

text \<open>\<open>random_range(1..=max_secs.max(1))\<close>: the range the delay of a random job is drawn from.\<close>

definition rand_delay_range :: "u64 \<Rightarrow> u64 set" where
  "rand_delay_range max_secs = {d. 1 \<le> d \<and> d \<le> max max_secs 1}"

text \<open>The message a firing job hands to its entity (\<open>dispatch_scheduled\<close>).\<close>

definition scheduled_message :: "string \<Rightarrow> string \<Rightarrow> u64 \<Rightarrow> string \<Rightarrow> string \<Rightarrow> string \<Rightarrow> bytes \<Rightarrow> local_message" where
  "scheduled_message our_did fragment now_secs ident message_type term_type content = \<lparr>
     lm_id = ident, lm_from = our_did @ ''#scheduler'', lm_to = our_did @ ''#'' @ fragment,
     lm_created_at = now_secs, lm_exp = 0, lm_reply_to = None, lm_message_type = message_type,
     lm_content_type = term_type, lm_content = content\<rparr>"

section \<open>Lemmas\<close>

lemma parse_spec_content:
  "parse_spec tv spec content = Inr r \<Longrightarrow>
     r \<in> range (\<lambda>s. RCron s content) \<union> range (\<lambda>n. RInterval n content) \<union> range (\<lambda>t. RAt t content)
         \<union> range (\<lambda>n. RIn n content) \<union> range (\<lambda>n. RRandom n content)"
  by (auto simp: parse_spec_def split: if_splits cbor.splits sum.splits option.splits)

lemma parse_schedule_request_Inr:
  assumes "parse_schedule_request enc term from = Inr r"
  shows "\<exists>items name base. term = CArray items \<and> items ! 0 = CText name \<and> name \<noteq> []
     \<and> pr_schedule_key r = from @ ''-'' @ name
     \<and> from = base @ ''#'' @ pr_fragment r \<and> CHR ''#'' \<notin> set base \<and> pr_fragment r \<noteq> []"
  using assms
  by (auto simp: parse_schedule_request_def sender_fragment_def split_once_Some_iff
      split: cbor.splits if_splits option.splits sum.splits prod.splits)

subsection \<open>Decimal numbers\<close>

lemma digits_value_append: "digits_value acc (xs @ ys) = digits_value (digits_value acc xs) ys"
  by (induction acc xs rule: digits_value.induct) auto

lemma digit_char [simp]:
  "d < 10 \<Longrightarrow> (of_char (char_of (48 + d :: nat)) :: nat) = 48 + d"
  by simp

lemma nat_digits_value: "digits_value 0 (nat_digits n) = n"
proof (induction n rule: nat_digits.induct)
  case (1 n)
  show ?case
  proof (cases "n < 10")
    case True
    then show ?thesis by (simp add: nat_digits.simps[of n])
  next
    case False
    have "n mod 10 < 10" by simp
    with False 1 show ?thesis
      by (simp add: nat_digits.simps[of n] digits_value_append)
  qed
qed

lemma nat_digits_digits: "c \<in> set (nat_digits n) \<Longrightarrow> is_ascii_digit c"
proof (induction n rule: nat_digits.induct)
  case (1 n)
  have "n mod 10 < 10" by simp
  with 1 show ?case
    by (auto simp: nat_digits.simps[of n] is_ascii_digit_def split: if_splits)
qed

lemma nat_digits_not_Nil [simp]: "nat_digits n \<noteq> []"
  by (simp add: nat_digits.simps[of n])

lemma duration_loop_digits:
  "\<forall>c\<in>set ds. is_ascii_digit c \<Longrightarrow> duration_loop tot buf (ds @ cs) = duration_loop tot (buf @ ds) cs"
  by (induction ds arbitrary: buf) auto

definition unit_char :: "nat \<Rightarrow> char" where
  "unit_char f = (if f = 1 then CHR ''s'' else if f = 60 then CHR ''m''
                  else if f = 3600 then CHR ''h'' else CHR ''d'')"

definition format_duration :: "(nat \<times> nat) list \<Rightarrow> string" where
  "format_duration parts = concat (map (\<lambda>(n, f). nat_digits n @ [unit_char f]) parts)"

lemma duration_loop_format:
  assumes "\<forall>(n, f)\<in>set parts. n < 2 ^ 64 \<and> f \<in> {1, 60, 3600, 86400}"
  shows "duration_loop tot [] (format_duration parts) =
           Inr (tot + of_nat (\<Sum>(n, f)\<leftarrow>parts. n * f), [])"
  using assms
proof (induction parts arbitrary: tot)
  case (Cons p parts)
  obtain n f where p: "p = (n, f)" by (cases p)
  have f: "f \<in> {1, 60, 3600, 86400}" and n: "n < 2 ^ 64" using Cons.prems p by auto
  have unit: "unit_secs (unit_char f) (of_nat n) = Some (of_nat (n * f))"
    using f by (auto simp: unit_secs_def unit_char_def)
  have parse: "parse_u64_digits (nat_digits n) = Some (of_nat n)"
    using n by (simp add: parse_u64_digits_def nat_digits_value)
  have nondigit: "\<not> is_ascii_digit (unit_char f)"
    using f by (auto simp: is_ascii_digit_def unit_char_def)
  have "duration_loop tot [] (format_duration (p # parts)) =
      duration_loop tot (nat_digits n) (unit_char f # format_duration parts)"
    using duration_loop_digits[of "nat_digits n" tot "[]"] nat_digits_digits
    by (auto simp: format_duration_def p)
  also have "\<dots> = duration_loop (tot + of_nat (n * f)) [] (format_duration parts)"
    by (simp only: duration_loop.simps nondigit if_False parse unit option.case)
  finally show ?case using Cons p by (simp add: add.assoc)
qed (simp add: format_duration_def)

lemma sint_wrap64:
  "- (2 ^ 63) \<le> n \<Longrightarrow> n < 2 ^ 63 \<Longrightarrow> sint (word_of_int n :: 64 word) = n"
  by (simp add: int_word_sint)

lemma sint_wrap64_under:
  assumes "- (2 ^ 64) \<le> n" "n < - (2 ^ 63)"
  shows "sint (word_of_int n :: 64 word) = n + 2 ^ 64"
proof -
  have "(word_of_int n :: 64 word) = word_of_int (n + 2 ^ 64)"
    by (simp add: word_of_int_eq_iff take_bit_eq_mod)
  also have "sint \<dots> = n + 2 ^ 64" using assms by (intro sint_wrap64) auto
  finally show ?thesis .
qed

section \<open>Properties\<close>

text \<open>
  C11 (schedules). Durations written as number-unit pairs parse to their sum in seconds, in any number and
  order of units, and a zero sum is refused.  The sum is taken modulo 2 to the 64.
\<close>

theorem parse_duration_format:
  assumes "\<forall>(n, f)\<in>set parts. n < 2 ^ 64 \<and> f \<in> {1, 60, 3600, 86400}"
  shows "parse_duration (format_duration parts) =
     (let tot = (\<Sum>(n, f)\<leftarrow>parts. n * f) mod 2 ^ 64
      in if tot = 0 then Inl ZeroDuration else Inr (of_nat tot))"
proof -
  let ?t = "\<Sum>(n, f)\<leftarrow>parts. n * f"
  have w: "(of_nat (?t mod 2 ^ 64) :: u64) = of_nat ?t"
    by (simp add: word_of_nat_eq_iff take_bit_eq_mod)
  have z: "(of_nat ?t :: u64) = 0 \<longleftrightarrow> ?t mod 2 ^ 64 = 0"
    by (simp add: word_of_nat_eq_0_iff dvd_eq_mod_eq_0)
  show ?thesis
    using duration_loop_format[OF assms, of 0] w z by (simp add: parse_duration_def Let_def)
qed

theorem parse_duration_format_witness:
  "parse_duration ''2h30m'' = Inr 9000 \<and> parse_duration ''307445734561825861m'' = Inr 44"
proof -
  have d: "nat_digits 2 = ''2''" "nat_digits 30 = ''30''"
    "nat_digits 307445734561825861 = ''307445734561825861''"
    by (simp_all add: nat_digits.simps char_of_def bit_Suc_0_iff)
  have "format_duration [(2, 3600), (30, 60)] = ''2h30m''"
    "format_duration [(307445734561825861, 60)] = ''307445734561825861m''"
    by (simp_all add: format_duration_def unit_char_def d)
  then show ?thesis
    using parse_duration_format[of "[(2, 3600), (30, 60)]"]
      parse_duration_format[of "[(307445734561825861, 60)]"]
    by simp
qed

text \<open>
  A registered schedule always targets its sender: when a request parses, the dispatch target
  is the fragment of the sender's own DID-URL, the key begins with the sender, and a sender
  without a fragment cannot register anything.
\<close>

theorem schedule_is_caller_owned:
  "(parse_schedule_request enc term from = Inr r \<longrightarrow>
      (\<exists>base name. from = base @ ''#'' @ pr_fragment r \<and> pr_fragment r \<noteq> [] \<and> name \<noteq> []
          \<and> pr_schedule_key r = from @ ''-'' @ name)) \<and>
   (CHR ''#'' \<notin> set from \<longrightarrow> (\<exists>e. parse_schedule_request enc term from = Inl e))"
proof (intro conjI impI)
  assume "parse_schedule_request enc term from = Inr r"
  from parse_schedule_request_Inr[OF this] show "\<exists>base name. from = base @ ''#'' @ pr_fragment r
      \<and> pr_fragment r \<noteq> [] \<and> name \<noteq> [] \<and> pr_schedule_key r = from @ ''-'' @ name" by blast
next
  assume none: "CHR ''#'' \<notin> set from"
  show "\<exists>e. parse_schedule_request enc term from = Inl e"
  proof (cases "parse_schedule_request enc term from")
    case (Inr r)
    from parse_schedule_request_Inr[OF this] have "CHR ''#'' \<in> set from" by auto
    with none show ?thesis by simp
  qed simp
qed

definition ping_request :: "string \<Rightarrow> cbor" where
  "ping_request name = CArray [CText name, CText '':interval'', CText ''5s'', CText '':ping'']"

lemma ping_request_parses:
  "parse_schedule_request (\<lambda>v. Some []) (ping_request name) (base @ CHR ''#'' # frag) =
     Inr \<lparr>pr_schedule_key = (base @ CHR ''#'' # frag) @ ''-'' @ name, pr_fragment = frag,
          pr_request = RInterval 5 []\<rparr>"
  if "name \<noteq> []" "frag \<noteq> []" "CHR ''#'' \<notin> set base"
  using that by (simp add: parse_schedule_request_def ping_request_def sender_fragment_def
      encode_verb_content_def parse_spec_def parse_duration_def is_ascii_digit_def unit_secs_def
      parse_u64_digits_def)

theorem schedule_is_caller_owned_witness:
  "pr_fragment (projr (parse_schedule_request (\<lambda>v. Some []) (ping_request ''tick'') ''did:ma:x#room'')) = ''room''"
proof -
  have p: "parse_schedule_request (\<lambda>v. Some []) (ping_request ''tick'') ''did:ma:x#room'' =
      Inr \<lparr>pr_schedule_key = ''did:ma:x#room-tick'', pr_fragment = ''room'', pr_request = RInterval 5 []\<rparr>"
    using ping_request_parses[of "''tick''" "''room''" "''did:ma:x''"] by simp
  with schedule_is_caller_owned[of "\<lambda>v. Some []" "ping_request ''tick''" "''did:ma:x#room''"] show ?thesis by simp
qed

text \<open>
  The registry key does not separate callers: an entity whose fragment is a prefix of
  another's up to a hyphen can pick a name that gives it the other's key, so its registration
  replaces the other entity's schedule although both target their own sender.
\<close>

theorem schedule_key_collision:
  assumes "CHR ''#'' \<notin> set base" and "frag \<noteq> []" and "tl_frag \<noteq> []" and "name \<noteq> []"
  shows "\<exists>r r'. parse_schedule_request (\<lambda>v. Some []) (ping_request (tl_frag @ ''-'' @ name)) (base @ ''#'' @ frag) = Inr r
     \<and> parse_schedule_request (\<lambda>v. Some []) (ping_request name) (base @ ''#'' @ frag @ ''-'' @ tl_frag) = Inr r'
     \<and> pr_schedule_key r = pr_schedule_key r' \<and> pr_fragment r \<noteq> pr_fragment r'"
  using assms ping_request_parses[of "tl_frag @ ''-'' @ name" frag base]
    ping_request_parses[of name "frag @ ''-'' @ tl_frag" base]
  by simp

theorem schedule_key_collision_witness:
  "pr_schedule_key (projr (parse_schedule_request (\<lambda>v. Some []) (ping_request ''b-tick'') ''did:ma:x#a'')) =
   pr_schedule_key (projr (parse_schedule_request (\<lambda>v. Some []) (ping_request ''tick'') ''did:ma:x#a-b''))"
  using schedule_key_collision[of "''did:ma:x''" "''a''" "''b''" "''tick''"] by auto

text \<open>
  The delay of a one-shot job is the distance to its timestamp and zero for a timestamp in the
  past; only a timestamp more than 2 to the 63 milliseconds in the past escapes the clamp: the
  subtraction wraps and the job is scheduled hundreds of millions of years ahead.  A relative
  request never wraps.
\<close>

theorem at_delay_spec:
  assumes "0 \<le> now" and "now < 2 ^ 63" and "- (2 ^ 63) \<le> ts" and "ts < 2 ^ 63"
  shows "uint (at_delay_ms now ts) =
           (if ts - now < - (2 ^ 63) then ts - now + 2 ^ 64 else max 0 (ts - now))
       \<and> uint (at_delay_ms now (in_timestamp_ms now secs)) = min (1000 * uint secs) (2 ^ 63 - 1 - now)"
proof -
  have clamp: "uint (case u64_try_from (max d 0) of None \<Rightarrow> 0 | Some x \<Rightarrow> x) = max 0 d"
    if "d < 2 ^ 64" for d
    using that by (simp add: u64_try_from_def uint_word_of_int_eq take_bit_int_eq_self max_def)
  have spec: "uint (at_delay_ms now t) =
      (if t - now < - (2 ^ 63) then t - now + 2 ^ 64 else max 0 (t - now))"
    if t: "- (2 ^ 63) \<le> t" "t < 2 ^ 63" for t
  proof (cases "t - now < - (2 ^ 63)")
    case True
    have "sint (word_of_int (t - now) :: 64 word) = t - now + 2 ^ 64"
      using sint_wrap64_under[of "t - now"] True t assms by simp
    with True t assms clamp[of "t - now + 2 ^ 64"] show ?thesis by (simp add: at_delay_ms_def)
  next
    case False
    have "sint (word_of_int (t - now) :: 64 word) = t - now"
      using sint_wrap64[of "t - now"] False t assms by simp
    with False t assms clamp[of "t - now"] show ?thesis by (simp add: at_delay_ms_def)
  qed
  let ?m = "u64_saturating_mul secs 1000"
  have mul: "uint ?m = min (1000 * uint secs) (2 ^ 64 - 1)"
    using uint_saturating_mul[of secs 1000] by (simp add: mult.commute)
  obtain u where u: "uint secs = u" "0 \<le> u" by simp
  have ts: "in_timestamp_ms now secs = min (now + 1000 * u) (2 ^ 63 - 1)"
    using assms u(2)
    by (auto simp: in_timestamp_ms_def i64_saturating_add_def i64_try_from_def mul u(1) min_def max_def)
  with spec[of "in_timestamp_ms now secs"] assms u(2)
  have "uint (at_delay_ms now (in_timestamp_ms now secs)) = min (1000 * u) (2 ^ 63 - 1 - now)"
    by (auto simp: min_def max_def)
  with spec[of ts] assms u(1) show ?thesis by simp
qed

theorem at_delay_spec_witness:
  "uint (at_delay_ms 1000 (- (2 ^ 63))) = 2 ^ 63 - 1000 \<and> uint (at_delay_ms 1000 500) = 0
   \<and> uint (at_delay_ms 1000 4000) = 3000"
  using at_delay_spec[of 1000 "- (2 ^ 63)" 0] at_delay_spec[of 1000 500 0] at_delay_spec[of 1000 4000 0]
  by simp

end
