(* ===== verification/Scheduler.thy ===== *)
theory Scheduler
  imports Schedule
begin

text \<open>
  The schedule registry and the life of a registration (\<open>ScheduleRegistry\<close>,
  \<open>process_schedule_registration\<close>, \<open>handle_registered_schedule_job\<close> in
  \<open>src/scheduler_actor.rs\<close>; \<open>dispatch_if_active\<close>, \<open>make_random_job\<close>, \<open>dispatch_scheduled\<close> in
  \<open>src/schedule.rs\<close>).  Registrations are spawned tasks, so they interleave with each other and
  with the callbacks of jobs: each access to the registry, to the cron library and to an entity is one step, so a
  callback that has checked its guard may be overtaken before it dispatches.
\<close>

section \<open>The registry\<close>

record tracked_job =
  tj_version :: u64
  tj_job_id :: "nat option"

type_synonym registry = "tracked_job hash_map"

record registration_attempt =
  ra_version :: u64
  ra_previous_job :: "nat option"

datatype registration_commit = Active | Superseded

definition begin_registration :: "string \<Rightarrow> registry \<Rightarrow> registry \<times> registration_attempt" where
  "begin_registration key reg =
     (let previous = map_of reg key;
          version = (case previous of None \<Rightarrow> 1 | Some e \<Rightarrow> u64_saturating_add (tj_version e) 1)
      in (AList.update key \<lparr>tj_version = version, tj_job_id = None\<rparr> reg,
          \<lparr>ra_version = version, ra_previous_job = Option.bind previous tj_job_id\<rparr>))"

definition active_guard :: "string \<Rightarrow> u64 \<Rightarrow> registry \<Rightarrow> bool" where
  "active_guard key version reg =
     (case map_of reg key of None \<Rightarrow> False | Some e \<Rightarrow> tj_version e = version)"

definition commit_registration ::
  "string \<Rightarrow> u64 \<Rightarrow> nat \<Rightarrow> registry \<Rightarrow> registry \<times> registration_commit" where
  "commit_registration key version job_id reg =
     (if active_guard key version reg
      then (AList.update key \<lparr>tj_version = version, tj_job_id = Some job_id\<rparr> reg, Active)
      else (reg, Superseded))"

definition rollback_registration :: "string \<Rightarrow> u64 \<Rightarrow> registry \<Rightarrow> registry" where
  "rollback_registration key version reg =
     (if active_guard key version reg then AList.delete key reg else reg)"

definition deactivate_all :: "registry \<Rightarrow> registry" where
  "deactivate_all reg = []"

subsection \<open>The contract of a versioned registry\<close>

locale versioned_registry =
  fixes start :: "string \<Rightarrow> 'r \<Rightarrow> 'r \<times> 'v"
    and commit :: "string \<Rightarrow> 'v \<Rightarrow> nat \<Rightarrow> 'r \<Rightarrow> 'r \<times> bool"
    and guard :: "string \<Rightarrow> 'v \<Rightarrow> 'r \<Rightarrow> bool"
  assumes guard_start: "start k r = (r', v) \<Longrightarrow> guard k v r'"
    and guard_start_other: "start k r = (r', v) \<Longrightarrow> k' \<noteq> k \<Longrightarrow> guard k' v' r' = guard k' v' r"
    and guard_commit: "commit k v j r = (r', b) \<Longrightarrow> guard k' v' r' = guard k' v' r"
    and commit_iff: "commit k v j r = (r', b) \<Longrightarrow> b = guard k v r"
    and guard_unique: "guard k v r \<Longrightarrow> guard k v' r \<Longrightarrow> v = v'"
begin

text \<open>Two registrations of one key that both begin before they commit: only the later one is active.\<close>

lemma later_wins:
  assumes "start k r0 = (r1, v)" and "start k r1 = (r2, v')" and "v' \<noteq> v"
    and "commit k v j r2 = (r3, b)" and "commit k v' j' r3 = (r4, b')"
  shows "\<not> b \<and> b'" and "guard k v' r4" and "\<not> guard k v r4"
proof -
  have v': "guard k v' r2" using guard_start[OF assms(2)] .
  then have "\<not> guard k v r2" using guard_unique assms(3) by blast
  with v' show "\<not> b \<and> b'"
    using commit_iff[OF assms(4)] commit_iff[OF assms(5)] guard_commit[OF assms(4)] by blast
  show "guard k v' r4" "\<not> guard k v r4"
    using guard_commit[OF assms(4)] guard_commit[OF assms(5)] v' \<open>\<not> guard k v r2\<close> by blast+
qed

end

lemma active_guard_begin:
  "begin_registration key reg = (reg', att) \<Longrightarrow>
     active_guard k v reg' = (if k = key then v = ra_version att else active_guard k v reg)"
  by (auto simp: begin_registration_def active_guard_def Let_def map_of_update split: option.splits)

lemma active_guard_commit:
  "commit_registration key version j reg = (reg', c) \<Longrightarrow> active_guard k v reg' = active_guard k v reg"
  by (auto simp: commit_registration_def active_guard_def map_of_update split: option.splits if_splits)

lemma active_guard_rollback:
  "active_guard k v (rollback_registration key version reg) =
     (active_guard k v reg \<and> \<not> (k = key \<and> v = version))"
  by (auto simp: rollback_registration_def active_guard_def map_of_delete split: option.splits)

interpretation sr: versioned_registry
  "\<lambda>k r. (fst (begin_registration k r), ra_version (snd (begin_registration k r)))"
  "\<lambda>k v j r. (fst (commit_registration k v j r), snd (commit_registration k v j r) = Active)"
  active_guard
proof unfold_locales
  fix k k' v v' j and r :: registry and r' b
  show "active_guard k v r'"
    if "(fst (begin_registration k r), ra_version (snd (begin_registration k r))) = (r', v)"
    using that active_guard_begin[of k r r' "snd (begin_registration k r)" k v]
    by (cases "begin_registration k r") simp
  show "active_guard k' v' r' = active_guard k' v' r"
    if "(fst (begin_registration k r), ra_version (snd (begin_registration k r))) = (r', v)" "k' \<noteq> k"
    using that active_guard_begin[of k r r' "snd (begin_registration k r)" k' v']
    by (cases "begin_registration k r") simp
  show "active_guard k' v' r' = active_guard k' v' r" "b = active_guard k v r"
    if "(fst (commit_registration k v j r), snd (commit_registration k v j r) = Active) = (r', b)"
    using that active_guard_commit[of k v j r r' "snd (commit_registration k v j r)" k' v']
    by (auto simp: commit_registration_def split: if_splits)
  show "v = v'" if "active_guard k v r" "active_guard k v' r"
    using that by (auto simp: active_guard_def split: option.splits)
qed

section \<open>Registrations and firing jobs\<close>

text \<open>
  Registration \<open>i\<close> is the \<open>i\<close>-th spawned task; its request is \<open>req i\<close>.  A live job carries its
  schedule key, the version its guard was created for, and the registration that created it.
\<close>

datatype job_kind = Recurring | OneShot | RandomChain

fun request_kind :: "schedule_request \<Rightarrow> job_kind" where
  "request_kind (RCron _ _) = Recurring"
| "request_kind (RInterval _ _) = Recurring"
| "request_kind (RAt _ _) = OneShot"
| "request_kind (RIn _ _) = OneShot"
| "request_kind (RRandom _ _) = RandomChain"

record live_job =
  lj_id :: nat
  lj_key :: string
  lj_version :: u64
  lj_kind :: job_kind
  lj_owner :: nat

datatype reg_pc =
    TSpawned
  | TBegun u64 "nat option"   \<comment> \<open>the previous job is still to be removed\<close>
  | TReady u64
  | TRegistered u64 nat
  | TSuperseded nat
  | TDone

text \<open>
  A callback has been called, has passed its guard and is to dispatch, is done with that (or was refused), or is about to add the
  next link of a random chain.  \<open>sy_last\<close> is a ghost: the registration that most recently began on a key.
\<close>

datatype callback_phase = Called | Admitted | Finished | Chaining

record sched_sys =
  sy_reg :: registry
  sy_live :: "live_job list"
  sy_firing :: "(live_job \<times> callback_phase) list"
  sy_task :: "nat \<Rightarrow> reg_pc"
  sy_log :: "(string \<times> nat) list"
  sy_last :: "string \<Rightarrow> nat option"

definition sched_init :: sched_sys where
  "sched_init = \<lparr>sy_reg = [], sy_live = [], sy_firing = [], sy_task = (\<lambda>_. TSpawned), sy_log = [],
     sy_last = (\<lambda>_. None)\<rparr>"

definition fresh_id :: "sched_sys \<Rightarrow> nat \<Rightarrow> bool" where
  "fresh_id s j = (j \<notin> lj_id ` (set (sy_live s) \<union> fst ` set (sy_firing s)))"

definition remove_job :: "nat \<Rightarrow> sched_sys \<Rightarrow> sched_sys" where
  "remove_job j s = s\<lparr>sy_live := filter (\<lambda>x. lj_id x \<noteq> j) (sy_live s)\<rparr>"

definition set_task :: "nat \<Rightarrow> reg_pc \<Rightarrow> sched_sys \<Rightarrow> sched_sys" where
  "set_task i pc s = s\<lparr>sy_task := (sy_task s)(i := pc)\<rparr>"

text \<open>A callback goes on to another phase.\<close>

definition set_phase :: "live_job \<Rightarrow> callback_phase \<Rightarrow> callback_phase \<Rightarrow> sched_sys \<Rightarrow> sched_sys" where
  "set_phase x ph ph' s = s\<lparr>sy_firing := (x, ph') # remove1 (x, ph) (sy_firing s)\<rparr>"

text \<open>
  \<open>dispatch_if_active\<close> up to the await: the guard decides whether the callback goes on to its dispatch.  The dispatch
  is logged with the key and the registration it stems from.
\<close>

definition dispatch_if_active :: "live_job \<Rightarrow> sched_sys \<Rightarrow> sched_sys" where
  "dispatch_if_active x s =
     set_phase x Called (if active_guard (lj_key x) (lj_version x) (sy_reg s) then Admitted else Finished) s"

definition scheduled_dispatch :: "live_job \<Rightarrow> sched_sys \<Rightarrow> sched_sys" where
  "scheduled_dispatch x s = set_phase x Admitted Finished (s\<lparr>sy_log := (lj_key x, lj_owner x) # sy_log s\<rparr>)"

definition new_job :: "nat \<Rightarrow> parsed_request \<Rightarrow> u64 \<Rightarrow> nat \<Rightarrow> live_job" where
  "new_job j r version i = \<lparr>lj_id = j, lj_key = pr_schedule_key r, lj_version = version,
     lj_kind = request_kind (pr_request r), lj_owner = i\<rparr>"

text \<open>
  The labels: \<open>LBegin v\<close> is the start of a registration that got version \<open>v\<close>; \<open>LFail\<close>,
  \<open>LComplete\<close> and \<open>LShutdown\<close> are the steps that take an entry out of the registry (a failed
  registration, a completed one-shot job, a shutdown); \<open>LAdmit key i\<close> is a passed guard of a callback of
  registration \<open>i\<close>, \<open>LFire key i\<close> its dispatch; everything else is \<open>LOther\<close>.
\<close>

datatype sched_label = LBegin u64 | LFail | LComplete | LShutdown | LAdmit string nat | LFire string nat | LOther

inductive sched_step :: "(nat \<Rightarrow> parsed_request) \<Rightarrow> sched_label \<Rightarrow> sched_sys \<Rightarrow> sched_sys \<Rightarrow> bool"
  for req :: "nat \<Rightarrow> parsed_request" where
  begin_reg: "sy_task s i = TSpawned \<Longrightarrow>
     begin_registration (pr_schedule_key (req i)) (sy_reg s) = (reg, att) \<Longrightarrow>
     sched_step req (LBegin (ra_version att)) s
       (set_task i (TBegun (ra_version att) (ra_previous_job att))
          (s\<lparr>sy_reg := reg, sy_last := (sy_last s)(pr_schedule_key (req i) := Some i)\<rparr>))"
| remove_ok: "sy_task s i = TBegun v (Some j) \<Longrightarrow>
     sched_step req LOther s (set_task i (TReady v) (remove_job j s))"
| remove_skip: "sy_task s i = TBegun v prev \<Longrightarrow>
     sched_step req LOther s (set_task i (TReady v) s)"
| register_ok: "sy_task s i = TReady v \<Longrightarrow> fresh_id s j \<Longrightarrow>
     sched_step req LOther s
       (set_task i (TRegistered v j) (s\<lparr>sy_live := sy_live s @ [new_job j (req i) v i]\<rparr>))"
| register_err: "sy_task s i = TReady v \<Longrightarrow>
     sched_step req LFail s
       (set_task i TDone (s\<lparr>sy_reg := rollback_registration (pr_schedule_key (req i)) v (sy_reg s)\<rparr>))"
| commit_active: "sy_task s i = TRegistered v j \<Longrightarrow>
     commit_registration (pr_schedule_key (req i)) v j (sy_reg s) = (reg, Active) \<Longrightarrow>
     sched_step req LOther s (set_task i TDone (s\<lparr>sy_reg := reg\<rparr>))"
| commit_late: "sy_task s i = TRegistered v j \<Longrightarrow>
     commit_registration (pr_schedule_key (req i)) v j (sy_reg s) = (reg, Superseded) \<Longrightarrow>
     sched_step req LOther s (set_task i (TSuperseded j) (s\<lparr>sy_reg := reg\<rparr>))"
| drop_ok: "sy_task s i = TSuperseded j \<Longrightarrow>
     sched_step req LOther s (set_task i TDone (remove_job j s))"
| drop_fail: "sy_task s i = TSuperseded j \<Longrightarrow> sched_step req LOther s (set_task i TDone s)"
| call_recurring: "x \<in> set (sy_live s) \<Longrightarrow> lj_kind x = Recurring \<Longrightarrow>
     sched_step req LOther s (s\<lparr>sy_firing := (x, Called) # sy_firing s\<rparr>)"
| call_once: "x \<in> set (sy_live s) \<Longrightarrow> lj_kind x \<noteq> Recurring \<Longrightarrow>
     sched_step req LOther s (s\<lparr>sy_live := remove1 x (sy_live s), sy_firing := (x, Called) # sy_firing s\<rparr>)"
| admit: "(x, Called) \<in> set (sy_firing s) \<Longrightarrow>
     sched_step req (if active_guard (lj_key x) (lj_version x) (sy_reg s) then LAdmit (lj_key x) (lj_owner x) else LOther)
       s (dispatch_if_active x s)"
| fire: "(x, Admitted) \<in> set (sy_firing s) \<Longrightarrow>
     sched_step req (LFire (lj_key x) (lj_owner x)) s (scheduled_dispatch x s)"
| end_recurring: "(x, Finished) \<in> set (sy_firing s) \<Longrightarrow> lj_kind x = Recurring \<Longrightarrow>
     sched_step req LOther s (s\<lparr>sy_firing := remove1 (x, Finished) (sy_firing s)\<rparr>)"
| complete_once: "(x, Finished) \<in> set (sy_firing s) \<Longrightarrow> lj_kind x = OneShot \<Longrightarrow>
     sched_step req LComplete s
       (s\<lparr>sy_firing := remove1 (x, Finished) (sy_firing s),
          sy_reg := rollback_registration (lj_key x) (lj_version x) (sy_reg s)\<rparr>)"
| chain_check: "(x, Finished) \<in> set (sy_firing s) \<Longrightarrow> lj_kind x = RandomChain \<Longrightarrow>
     active_guard (lj_key x) (lj_version x) (sy_reg s) \<Longrightarrow> sched_step req LOther s (set_phase x Finished Chaining s)"
| chain_stop: "(x, Finished) \<in> set (sy_firing s) \<Longrightarrow> lj_kind x = RandomChain \<Longrightarrow>
     \<not> active_guard (lj_key x) (lj_version x) (sy_reg s) \<Longrightarrow>
     sched_step req LOther s (s\<lparr>sy_firing := remove1 (x, Finished) (sy_firing s)\<rparr>)"
| chain_next: "(x, Chaining) \<in> set (sy_firing s) \<Longrightarrow> fresh_id s j \<Longrightarrow>
     sched_step req LOther s
       (s\<lparr>sy_firing := remove1 (x, Chaining) (sy_firing s), sy_live := sy_live s @ [x\<lparr>lj_id := j\<rparr>]\<rparr>)"
| chain_fail: "(x, Chaining) \<in> set (sy_firing s) \<Longrightarrow>
     sched_step req LOther s (s\<lparr>sy_firing := remove1 (x, Chaining) (sy_firing s)\<rparr>)"
| shutdown: "sched_step req LShutdown s (s\<lparr>sy_reg := deactivate_all (sy_reg s)\<rparr>)"

inductive_cases sched_step_elim: "sched_step req l s s'"

text \<open>A step that forgets no registration and does not exhaust the version counter.\<close>

definition keeping_step :: "(nat \<Rightarrow> parsed_request) \<Rightarrow> sched_sys \<Rightarrow> sched_sys \<Rightarrow> bool" where
  "keeping_step req s s' = (\<exists>l. sched_step req l s s' \<and> l \<notin> {LFail, LComplete, LShutdown} \<and> l \<noteq> LBegin (- 1))"

text \<open>A step in which no registration fails and the actor is not shut down.\<close>

definition normal_step :: "(nat \<Rightarrow> parsed_request) \<Rightarrow> sched_sys \<Rightarrow> sched_sys \<Rightarrow> bool" where
  "normal_step req s s' = (\<exists>l. sched_step req l s s' \<and> l \<noteq> LFail \<and> l \<noteq> LShutdown)"

text \<open>What a firing job's dispatch does once the plugin has answered (\<open>dispatch_scheduled\<close>).\<close>

datatype dispatch_outcome = NoEntity | PluginError | NoWriter | Persist bytes | NothingPending

definition dispatch_scheduled ::
  "('p hash_map) \<Rightarrow> ('p \<Rightarrow> local_message \<Rightarrow> (bytes option) option) \<Rightarrow> bool \<Rightarrow> string \<Rightarrow> local_message \<Rightarrow> dispatch_outcome" where
  "dispatch_scheduled entities on_message has_writer fragment msg =
     (case map_of entities fragment of
        None \<Rightarrow> NoEntity
      | Some plugin \<Rightarrow>
          (case on_message plugin msg of
             None \<Rightarrow> PluginError
           | Some None \<Rightarrow> NothingPending
           | Some (Some state_bytes) \<Rightarrow> if has_writer then Persist state_bytes else NoWriter))"

section \<open>The invariant\<close>

text \<open>
  The version a thing carries for a key: never above the registry's, and equal to it only if it
  belongs to the latest registration of the key.
\<close>

definition belongs :: "sched_sys \<Rightarrow> string \<Rightarrow> u64 \<Rightarrow> nat \<Rightarrow> bool" where
  "belongs s key v i =
     (\<exists>e. map_of (sy_reg s) key = Some e \<and> v \<le> tj_version e
          \<and> (v = tj_version e \<longrightarrow> sy_last s key = Some i))"

fun pc_version :: "reg_pc \<Rightarrow> u64 option" where
  "pc_version (TBegun v _) = Some v"
| "pc_version (TReady v) = Some v"
| "pc_version (TRegistered v _) = Some v"
| "pc_version _ = None"

definition sched_inv :: "(nat \<Rightarrow> parsed_request) \<Rightarrow> sched_sys \<Rightarrow> bool" where
  "sched_inv req s =
     ((\<forall>x\<in>set (sy_live s) \<union> fst ` set (sy_firing s). belongs s (lj_key x) (lj_version x) (lj_owner x)) \<and>
      (\<forall>i v. pc_version (sy_task s i) = Some v \<longrightarrow> belongs s (pr_schedule_key (req i)) v i))"

lemma sched_init_inv: "sched_inv req sched_init"
  by (simp add: sched_inv_def sched_init_def)

lemma sched_inv_jobs:
  assumes "sched_inv req s" and "sy_reg s' = sy_reg s" and "sy_last s' = sy_last s"
    and "\<And>x. x \<in> set (sy_live s') \<union> fst ` set (sy_firing s') \<Longrightarrow>
           belongs s (lj_key x) (lj_version x) (lj_owner x)"
    and "\<And>i v. pc_version (sy_task s' i) = Some v \<Longrightarrow> pc_version (sy_task s i) = Some v"
  shows "sched_inv req s'"
proof -
  have "belongs s' k v i = belongs s k v i" for k v i
    using assms(2,3) by (simp add: belongs_def)
  then show ?thesis
    unfolding sched_inv_def using assms(1,4,5) by (intro conjI ballI allI impI) (simp_all add: sched_inv_def)
qed

lemma sched_inv_callback:
  assumes "sched_inv req s" and "sy_reg s' = sy_reg s" and "sy_last s' = sy_last s" and "sy_task s' = sy_task s"
    and "set (sy_live s') \<subseteq> set (sy_live s)" and "fst ` set (sy_firing s') \<subseteq> set (sy_live s) \<union> fst ` set (sy_firing s)"
  shows "sched_inv req s'"
proof (rule sched_inv_jobs[OF assms(1-3)])
  show "belongs s (lj_key x) (lj_version x) (lj_owner x)" if "x \<in> set (sy_live s') \<union> fst ` set (sy_firing s')" for x
    using that assms(1,5,6) unfolding sched_inv_def by blast
qed (simp add: assms(4))

lemma saturating_succ_less:
  assumes "u64_saturating_add v 1 \<noteq> - 1"
  shows "v < u64_saturating_add v 1"
proof -
  have "unat v + 1 < 2 ^ 64"
    using assms by (auto simp: u64_saturating_add_def split: if_splits)
  then have "unat (u64_saturating_add v 1) = unat v + 1" using unat_saturating_add[of v 1] by simp
  then show ?thesis by (simp add: word_less_nat_alt)
qed

lemma belongs_begin:
  assumes "begin_registration key (sy_reg s) = (reg, att)" and "ra_version att \<noteq> - 1"
    and "sy_reg s' = reg" and "sy_last s' = (sy_last s)(key := Some i)"
  shows "belongs s k v j \<Longrightarrow> belongs s' k v j" and "belongs s' key (ra_version att) i"
proof -
  let ?new = "case map_of (sy_reg s) key of None \<Rightarrow> 1 | Some e \<Rightarrow> u64_saturating_add (tj_version e) 1"
  have reg: "reg = AList.update key \<lparr>tj_version = ?new, tj_job_id = None\<rparr> (sy_reg s)" and v: "ra_version att = ?new"
    using assms(1) by (auto simp: begin_registration_def Let_def)
  then show "belongs s' key (ra_version att) i"
    using assms(3,4) by (simp add: belongs_def map_of_update)
  show "belongs s' k v j" if b: "belongs s k v j"
  proof (cases "k = key")
    case True
    with b obtain e where e: "map_of (sy_reg s) key = Some e" "v \<le> tj_version e" by (auto simp: belongs_def)
    with assms(2) v saturating_succ_less have "tj_version e < ?new" by simp
    with e(2) have "v \<le> ?new \<and> v \<noteq> ?new" by auto
    with True reg assms(3) show ?thesis by (simp add: belongs_def map_of_update)
  next
    case False
    with b reg assms(3,4) show ?thesis by (simp add: belongs_def map_of_update)
  qed
qed

lemma belongs_alt:
  "belongs s key v i =
     (\<exists>w. map_option tj_version (map_of (sy_reg s) key) = Some w \<and> v \<le> w \<and> (v = w \<longrightarrow> sy_last s key = Some i))"
  by (auto simp: belongs_def)

lemma belongs_commit:
  assumes "commit_registration key version j (sy_reg s) = (reg, c)" and "sy_reg s' = reg" and "sy_last s' = sy_last s"
  shows "belongs s' k v i = belongs s k v i"
proof -
  have "map_option tj_version (map_of reg k) = map_option tj_version (map_of (sy_reg s) k)"
    using assms(1)
    by (auto simp: commit_registration_def active_guard_def map_of_update split: if_splits option.splits)
  then show ?thesis unfolding belongs_alt assms(2,3) by simp
qed

lemmas sys_update_defs = set_task_def remove_job_def dispatch_if_active_def scheduled_dispatch_def set_phase_def

lemma set_phase_frame [simp]:
  "sy_reg (set_phase x p q s) = sy_reg s" "sy_live (set_phase x p q s) = sy_live s" "sy_task (set_phase x p q s) = sy_task s"
  "sy_last (set_phase x p q s) = sy_last s"
  by (simp_all add: set_phase_def)

lemma dispatch_frame [simp]:
  "sy_reg (dispatch_if_active x s) = sy_reg s" "sy_live (dispatch_if_active x s) = sy_live s"
  "sy_task (dispatch_if_active x s) = sy_task s" "sy_last (dispatch_if_active x s) = sy_last s"
  "sy_reg (scheduled_dispatch x s) = sy_reg s" "sy_live (scheduled_dispatch x s) = sy_live s"
  "sy_task (scheduled_dispatch x s) = sy_task s" "sy_last (scheduled_dispatch x s) = sy_last s"
  by (simp_all add: dispatch_if_active_def scheduled_dispatch_def)

lemma firing_scheduled: "sy_firing (scheduled_dispatch x s) = sy_firing (set_phase x Admitted Finished s)"
  by (simp add: scheduled_dispatch_def set_phase_def)

text \<open>A callback that only goes on, or ends, adds no job.\<close>

lemma ended_jobs: "fst ` set (remove1 y (sy_firing s)) \<subseteq> set (sy_live s) \<union> fst ` set (sy_firing s)"
  using set_remove1_subset[of y "sy_firing s"] by blast

lemma phase_jobs:
  assumes "(x, p) \<in> set (sy_firing s)"
  shows "fst ` set (sy_firing (set_phase x p q s)) \<subseteq> set (sy_live s) \<union> fst ` set (sy_firing s)"
proof -
  have "x \<in> fst ` set (sy_firing s)" using assms by force
  with ended_jobs[of "(x, p)" s] show ?thesis by (simp add: set_phase_def)
qed

lemma sched_inv_step:
  assumes "sched_step req l s s'" and "sched_inv req s" and "l \<notin> {LFail, LComplete, LShutdown}" and "l \<noteq> LBegin (- 1)"
  shows "sched_inv req s'"
  using assms
proof (induction rule: sched_step.induct)
  case (begin_reg s i reg att)
  let ?s' = "set_task i (TBegun (ra_version att) (ra_previous_job att))
      (s\<lparr>sy_reg := reg, sy_last := (sy_last s)(pr_schedule_key (req i) := Some i)\<rparr>)"
  have "ra_version att \<noteq> - 1" using begin_reg by simp
  note b = belongs_begin[OF begin_reg(2) this, of ?s' i]
  show ?case
    using begin_reg(3) b unfolding sched_inv_def by (auto simp: set_task_def)
next
  case (register_ok s i v j)
  then have "belongs s (pr_schedule_key (req i)) v i" by (simp add: sched_inv_def)
  with register_ok show ?case
    by (intro sched_inv_jobs[OF register_ok(3)]) (auto simp: set_task_def new_job_def sched_inv_def split: if_splits)
next
  case (commit_active s i v j reg)
  let ?s' = "set_task i TDone (s\<lparr>sy_reg := reg\<rparr>)"
  have "belongs ?s' k w n = belongs s k w n" for k w n
    by (rule belongs_commit[OF commit_active(2)]) (simp_all add: set_task_def)
  with commit_active(3) show ?case unfolding sched_inv_def by (auto simp: set_task_def)
next
  case (commit_late s i v j reg)
  let ?s' = "set_task i (TSuperseded j) (s\<lparr>sy_reg := reg\<rparr>)"
  have "belongs ?s' k w n = belongs s k w n" for k w n
    by (rule belongs_commit[OF commit_late(2)]) (simp_all add: set_task_def)
  with commit_late(3) show ?case unfolding sched_inv_def by (auto simp: set_task_def)
next
  case (call_recurring x s)
  then show ?case by (intro sched_inv_callback[OF call_recurring(3)]) auto
next
  case (call_once x s)
  then show ?case
    using set_remove1_subset[of x "sy_live s"] by (intro sched_inv_callback[OF call_once(3)]) auto
next
  case (admit x s)
  then show ?case
    using phase_jobs[OF admit(1)] by (intro sched_inv_callback[OF admit(2)]) (simp_all add: dispatch_if_active_def)
next
  case (fire x s)
  then show ?case
    using phase_jobs[OF fire(1)] by (intro sched_inv_callback[OF fire(2)]) (simp_all add: firing_scheduled)
next
  case (end_recurring x s)
  then show ?case using ended_jobs by (intro sched_inv_callback[OF end_recurring(3)]) simp_all
next
  case (chain_check x s)
  then show ?case using phase_jobs[OF chain_check(1)] by (intro sched_inv_callback[OF chain_check(4)]) simp_all
next
  case (chain_stop x s)
  then show ?case using ended_jobs by (intro sched_inv_callback[OF chain_stop(4)]) simp_all
next
  case (chain_next x s j)
  have "x \<in> fst ` set (sy_firing s)" using chain_next(1) by force
  then have x: "belongs s (lj_key x) (lj_version x) (lj_owner x)" using chain_next(3) by (simp add: sched_inv_def)
  let ?s = "s\<lparr>sy_firing := remove1 (x, Chaining) (sy_firing s)\<rparr>"
  have inv: "sched_inv req ?s" using ended_jobs by (intro sched_inv_callback[OF chain_next(3)]) simp_all
  have "belongs ?s k v i = belongs s k v i" for k v i by (simp add: belongs_def)
  with x inv show ?case
    by (intro sched_inv_jobs[OF inv]) (auto simp: sched_inv_def)
next
  case (chain_fail x s)
  then show ?case using ended_jobs by (intro sched_inv_callback[OF chain_fail(2)]) simp_all
next
  case (remove_ok s i v j)
  show ?case
    by (rule sched_inv_jobs[OF remove_ok(2)]) (use remove_ok in \<open>auto simp: sys_update_defs sched_inv_def split: if_splits\<close>)
next
  case (remove_skip s i v prev)
  show ?case
    by (rule sched_inv_jobs[OF remove_skip(2)]) (use remove_skip in \<open>auto simp: sys_update_defs sched_inv_def split: if_splits\<close>)
next
  case (drop_ok s i j)
  show ?case
    by (rule sched_inv_jobs[OF drop_ok(2)]) (use drop_ok in \<open>auto simp: sys_update_defs sched_inv_def split: if_splits\<close>)
next
  case (drop_fail s i j)
  show ?case
    by (rule sched_inv_jobs[OF drop_fail(2)]) (use drop_fail in \<open>auto simp: sys_update_defs sched_inv_def split: if_splits\<close>)
qed simp_all

lemma keeping_inv: "(keeping_step req)\<^sup>*\<^sup>* sched_init s \<Longrightarrow> sched_inv req s"
  by (induction rule: rtranclp_induct) (auto simp: sched_init_inv keeping_step_def intro: sched_inv_step)

lemma admit_belongs:
  assumes "sched_step req (LAdmit key i) s s'" and "sched_inv req s"
  shows "sy_last s key = Some i"
proof -
  from assms(1) obtain x where x: "(x, Called) \<in> set (sy_firing s)" "lj_key x = key" "lj_owner x = i"
    "active_guard key (lj_version x) (sy_reg s)"
    by (cases rule: sched_step.cases) (auto split: if_splits)
  with assms(2) have "belongs s key (lj_version x) i" by (force simp: sched_inv_def)
  with x(4) show ?thesis by (auto simp: belongs_def active_guard_def)
qed

text \<open>A callback that is to dispatch has passed its guard earlier in the run.\<close>

definition admitted_before :: "(nat \<Rightarrow> parsed_request) \<Rightarrow> sched_sys \<Rightarrow> string \<Rightarrow> nat \<Rightarrow> bool" where
  "admitted_before req s key i \<longleftrightarrow>
     (\<exists>s0 s1. (keeping_step req)\<^sup>*\<^sup>* sched_init s0 \<and> sched_step req (LAdmit key i) s0 s1 \<and> (keeping_step req)\<^sup>*\<^sup>* s1 s)"

lemma step_admitted:
  assumes "sched_step req l s s'" and "(x, Admitted) \<in> set (sy_firing s')"
  shows "(x, Admitted) \<in> set (sy_firing s) \<or> l = LAdmit (lj_key x) (lj_owner x)"
  using assms
  by (cases rule: sched_step.cases)
    (auto simp: sys_update_defs split: if_splits dest: set_remove1_subset[THEN subsetD])

lemma admitted_inv:
  "(keeping_step req)\<^sup>*\<^sup>* sched_init s \<Longrightarrow> (x, Admitted) \<in> set (sy_firing s) \<Longrightarrow> admitted_before req s (lj_key x) (lj_owner x)"
proof (induction arbitrary: x rule: rtranclp_induct)
  case base
  then show ?case by (simp add: sched_init_def)
next
  case (step s s')
  from step.hyps(2) obtain l where l: "sched_step req l s s'" "l \<notin> {LFail, LComplete, LShutdown}" "l \<noteq> LBegin (- 1)"
    by (auto simp: keeping_step_def)
  from step_admitted[OF l(1) step.prems] show ?case
  proof
    assume "(x, Admitted) \<in> set (sy_firing s)"
    from step.IH[OF this] step.hyps(2) show ?thesis
      unfolding admitted_before_def by (meson rtranclp.rtrancl_into_rtrancl)
  next
    assume "l = LAdmit (lj_key x) (lj_owner x)"
    with l(1) step.hyps(1) show ?thesis unfolding admitted_before_def by blast
  qed
qed

section \<open>Properties\<close>

text \<open>
  C12 (scheduler). As long as no registration is forgotten, in every interleaving of concurrent registrations and callbacks, the guard of a
  callback lets through only the registration that most recently began on its key, whether or not the jobs it replaced could be
  removed from the cron library; and every dispatch under a key is one of a callback that was let through earlier in the run, at
  a moment when its registration was the most recent one.  A callback that was let through and then overtaken by a new registration still
  dispatches (\<open>overtaken_callback_fires\<close>).
\<close>

theorem only_latest_fires:
  assumes "(keeping_step req)\<^sup>*\<^sup>* sched_init s"
  shows "(sched_step req (LAdmit key i) s s' \<longrightarrow> sy_last s key = Some i)
    \<and> (sched_step req (LFire key i) s s' \<longrightarrow>
         (\<exists>s0 s1. (keeping_step req)\<^sup>*\<^sup>* sched_init s0 \<and> sy_last s0 key = Some i
            \<and> sched_step req (LAdmit key i) s0 s1 \<and> (keeping_step req)\<^sup>*\<^sup>* s1 s))"
proof (intro conjI impI)
  show "sy_last s key = Some i" if "sched_step req (LAdmit key i) s s'"
    using admit_belongs[OF that keeping_inv[OF assms]] .
  assume "sched_step req (LFire key i) s s'"
  then obtain x where "(x, Admitted) \<in> set (sy_firing s)" "lj_key x = key" "lj_owner x = i"
    by (cases rule: sched_step.cases) (auto split: if_splits)
  with admitted_inv[OF assms] have "admitted_before req s key i" by blast
  then show "\<exists>s0 s1. (keeping_step req)\<^sup>*\<^sup>* sched_init s0 \<and> sy_last s0 key = Some i
      \<and> sched_step req (LAdmit key i) s0 s1 \<and> (keeping_step req)\<^sup>*\<^sup>* s1 s"
    unfolding admitted_before_def using admit_belongs keeping_inv by blast
qed

definition sample_req :: "nat \<Rightarrow> parsed_request" where
  "sample_req i = \<lparr>pr_schedule_key = ''k'', pr_fragment = ''room'',
     pr_request = (if i = 0 then RRandom 60 [] else if i = 1 then RIn 1 [] else RInterval 5 [])\<rparr>"

text \<open>States of a run of the first three registrations of the key \<open>k\<close>.\<close>

definition run_state ::
  "registry \<Rightarrow> live_job list \<Rightarrow> (live_job \<times> callback_phase) list \<Rightarrow> reg_pc \<Rightarrow> reg_pc \<Rightarrow> reg_pc \<Rightarrow> (string \<times> nat) list \<Rightarrow> nat option \<Rightarrow> sched_sys" where
  "run_state reg live firing p0 p1 p2 log latest = \<lparr>sy_reg = reg, sy_live = live, sy_firing = firing,
     sy_task = (\<lambda>_. TSpawned)(0 := p0, 1 := p1, 2 := p2), sy_log = log,
     sy_last = (\<lambda>_. None)(''k'' := latest)\<rparr>"

lemma run_state_init: "run_state [] [] [] TSpawned TSpawned TSpawned [] None = sched_init"
  by (simp add: run_state_def sched_init_def fun_eq_iff)

lemma step_eq: "sched_step req l s s1 \<Longrightarrow> s1 = s' \<Longrightarrow> sched_step req l s s'"
  by simp

abbreviation entry :: "u64 \<Rightarrow> nat option \<Rightarrow> registry" where
  "entry v j \<equiv> [(''k'', \<lparr>tj_version = v, tj_job_id = j\<rparr>)]"

abbreviation sample_job :: "nat \<Rightarrow> u64 \<Rightarrow> nat \<Rightarrow> live_job" where
  "sample_job j v i \<equiv> new_job j (sample_req i) v i"

lemmas run_simps = run_state_def set_task_def remove_job_def fun_eq_iff sample_req_def new_job_def
  fresh_id_def active_guard_def begin_registration_def commit_registration_def
  rollback_registration_def dispatch_if_active_def scheduled_dispatch_def set_phase_def u64_saturating_add_def

lemma run_begin0:
  "sched_step sample_req (LBegin 1) (run_state [] [] [] TSpawned TSpawned TSpawned [] None)
     (run_state (entry 1 None) [] [] (TBegun 1 None) TSpawned TSpawned [] (Some 0))"
  by (rule step_eq[OF sched_step.begin_reg[where i = 0 and reg = "entry 1 None"
          and att = "\<lparr>ra_version = 1, ra_previous_job = None\<rparr>", simplified]])
     (simp_all add: run_simps)

lemma run_ready0:
  "sched_step sample_req LOther (run_state (entry 1 None) [] [] (TBegun 1 None) TSpawned TSpawned [] (Some 0))
     (run_state (entry 1 None) [] [] (TReady 1) TSpawned TSpawned [] (Some 0))"
  by (rule step_eq[OF sched_step.remove_skip[where i = 0 and v = 1 and prev = None]])
     (simp_all add: run_simps)

lemma run_register0:
  "sched_step sample_req LOther (run_state (entry 1 None) [] [] (TReady 1) TSpawned TSpawned [] (Some 0))
     (run_state (entry 1 None) [sample_job 0 1 0] [] (TRegistered 1 0) TSpawned TSpawned [] (Some 0))"
  by (rule step_eq[OF sched_step.register_ok[where i = 0 and v = 1 and j = 0]])
     (simp_all add: run_simps)

lemma run_call0:
  "sched_step sample_req LOther
     (run_state (entry 1 j) [sample_job 0 1 0] [] p0 TSpawned TSpawned log (Some 0))
     (run_state (entry 1 j) [] [(sample_job 0 1 0, Called)] p0 TSpawned TSpawned log (Some 0))"
  by (rule step_eq[OF sched_step.call_once[where x = "sample_job 0 1 0"]]) (simp_all add: run_simps)

lemma run_admit0:
  "sched_step sample_req (LAdmit ''k'' 0)
     (run_state (entry 1 j) live [(sample_job i 1 0, Called)] p0 p1 p2 log latest)
     (run_state (entry 1 j) live [(sample_job i 1 0, Admitted)] p0 p1 p2 log latest)"
proof -
  let ?s = "run_state (entry 1 j) live [(sample_job i 1 0, Called)] p0 p1 p2 log latest"
  have "(if active_guard (lj_key (sample_job i 1 0)) (lj_version (sample_job i 1 0)) (sy_reg ?s)
       then LAdmit (lj_key (sample_job i 1 0)) (lj_owner (sample_job i 1 0)) else LOther) = LAdmit ''k'' 0"
    by (simp add: run_simps)
  with sched_step.admit[of "sample_job i 1 0" ?s sample_req] show ?thesis
    by (simp add: run_simps)
qed

lemma run_fire0:
  "sched_step sample_req (LFire ''k'' 0)
     (run_state reg live [(sample_job i 1 0, Admitted)] p0 p1 p2 log latest)
     (run_state reg live [(sample_job i 1 0, Finished)] p0 p1 p2 ((''k'', 0) # log) latest)"
proof -
  let ?s = "run_state reg live [(sample_job i 1 0, Admitted)] p0 p1 p2 log latest"
  have "LFire (lj_key (sample_job i 1 0)) (lj_owner (sample_job i 1 0)) = LFire ''k'' 0" by (simp add: run_simps)
  with sched_step.fire[of "sample_job i 1 0" ?s sample_req] show ?thesis by (simp add: run_simps)
qed

lemma keeping_stepI: "sched_step req l s s' \<Longrightarrow> l \<notin> {LFail, LComplete, LShutdown} \<Longrightarrow> l \<noteq> LBegin (- 1) \<Longrightarrow> keeping_step req s s'"
  unfolding keeping_step_def by blast

lemma run_to_called:
  "(keeping_step sample_req)\<^sup>*\<^sup>* sched_init
     (run_state (entry 1 None) [] [(sample_job 0 1 0, Called)] (TRegistered 1 0) TSpawned TSpawned [] (Some 0))"
proof -
  note k = keeping_stepI[where req = sample_req]
  have "keeping_step sample_req sched_init (run_state (entry 1 None) [] [] (TBegun 1 None) TSpawned TSpawned [] (Some 0))"
    using k[OF run_begin0] unfolding run_state_init by simp
  moreover note k[OF run_ready0] k[OF run_register0] k[OF run_call0[of None "TRegistered 1 0" "[]"]]
  ultimately show ?thesis by (simp add: converse_rtranclp_into_rtranclp r_into_rtranclp)
qed

theorem only_latest_fires_witness:
  "\<exists>s s'. sched_step sample_req (LFire ''k'' 0) s s'
     \<and> (\<exists>s0 s1. (keeping_step sample_req)\<^sup>*\<^sup>* sched_init s0 \<and> sy_last s0 ''k'' = Some 0
          \<and> sched_step sample_req (LAdmit ''k'' 0) s0 s1 \<and> (keeping_step sample_req)\<^sup>*\<^sup>* s1 s)"
proof -
  let ?s = "run_state (entry 1 None) [] [(sample_job 0 1 0, Admitted)] (TRegistered 1 0) TSpawned TSpawned [] (Some 0)"
  have "keeping_step sample_req
      (run_state (entry 1 None) [] [(sample_job 0 1 0, Called)] (TRegistered 1 0) TSpawned TSpawned [] (Some 0)) ?s"
    by (rule keeping_stepI[OF run_admit0]) simp_all
  with run_to_called have "(keeping_step sample_req)\<^sup>*\<^sup>* sched_init ?s" by (rule rtranclp.rtrancl_into_rtrancl)
  from only_latest_fires[OF this, of "''k''" 0] run_fire0 show ?thesis by blast
qed

text \<open>
  The guard is checked before an await and not again: a callback that has passed it dispatches although a new
  registration of its key has begun in between.
\<close>

theorem overtaken_callback_fires:
  "\<exists>s s'. (keeping_step sample_req)\<^sup>*\<^sup>* sched_init s \<and> sy_last s ''k'' = Some 1 \<and> sched_step sample_req (LFire ''k'' 0) s s'"
proof -
  let ?a = "run_state (entry 1 None) [] [(sample_job 0 1 0, Admitted)] (TRegistered 1 0) TSpawned TSpawned [] (Some 0)"
  let ?b = "run_state (entry 2 None) [] [(sample_job 0 1 0, Admitted)] (TRegistered 1 0) (TBegun 2 None) TSpawned [] (Some 1)"
  have "keeping_step sample_req
      (run_state (entry 1 None) [] [(sample_job 0 1 0, Called)] (TRegistered 1 0) TSpawned TSpawned [] (Some 0)) ?a"
    by (rule keeping_stepI[OF run_admit0]) simp_all
  with run_to_called have "(keeping_step sample_req)\<^sup>*\<^sup>* sched_init ?a" by (rule rtranclp.rtrancl_into_rtrancl)
  moreover have "sched_step sample_req (LBegin 2) ?a ?b"
    by (rule step_eq[OF sched_step.begin_reg[where i = 1 and reg = "entry 2 None"
          and att = "\<lparr>ra_version = 2, ra_previous_job = None\<rparr>", simplified]]) (simp_all add: run_simps)
  then have "keeping_step sample_req ?a ?b" by (rule keeping_stepI) simp_all
  ultimately have "(keeping_step sample_req)\<^sup>*\<^sup>* sched_init ?b" by (rule rtranclp.rtrancl_into_rtrancl)
  moreover have "sy_last ?b ''k'' = Some 1" by (simp add: run_state_def)
  ultimately show ?thesis using run_fire0 by blast
qed

text \<open>
  Forgetting an entry restarts its versions at one, which brings a replaced schedule back to
  life: a random schedule is replaced by a one-shot, the one-shot fires and completes, and
  the next registration of the same key re-activates the pending link of the old random
  chain, which then fires under that key although it is two registrations out of date.  No
  registration fails in that run and nothing is shut down.
\<close>

theorem stale_chain_resurrected:
  "\<exists>s s'. (normal_step sample_req)\<^sup>*\<^sup>* sched_init s
     \<and> sy_last s ''k'' = Some 2 \<and> sched_step sample_req (LFire ''k'' 0) s s'"
proof -
  let ?R = "normal_step sample_req"
  have R: "?R a b" if "sched_step sample_req l a b" "l \<noteq> LFail" "l \<noteq> LShutdown" for l a b
    using that unfolding normal_step_def by blast
  let ?J0 = "sample_job 0 1 0" and ?J0' = "sample_job 1 1 0" and ?J1 = "sample_job 2 2 1"
  let ?st = "\<lambda>reg live firing p0 p1 p2. run_state reg live firing p0 p1 p2"
  let ?a = "?st (entry 1 None) [?J0] [] (TRegistered 1 0) TSpawned TSpawned [] (Some 0)"
  let ?a1 = "?st (entry 1 None) [] [] (TBegun 1 None) TSpawned TSpawned [] (Some 0)"
  let ?a2 = "?st (entry 1 None) [] [] (TReady 1) TSpawned TSpawned [] (Some 0)"
  have a1: "?R sched_init ?a1" using R[OF run_begin0] unfolding run_state_init by simp
  have a2: "?R ?a1 ?a2" by (rule R[OF run_ready0]) simp_all
  have a': "?R ?a2 ?a" by (rule R[OF run_register0]) simp_all
  note go = rtranclp.rtrancl_into_rtrancl[where r = ?R]
  let ?b = "?st (entry 1 (Some 0)) [?J0] [] TDone TSpawned TSpawned [] (Some 0)"
  have b': "?R ?a ?b"
    by (rule R[OF step_eq[OF sched_step.commit_active[where i = 0 and v = 1 and j = 0 and reg = "entry 1 (Some 0)"]]])
       (simp_all add: run_simps)
  let ?c = "\<lambda>ph. ?st (entry 1 (Some 0)) [] [(?J0, ph)] TDone TSpawned TSpawned"
  have c1: "?R ?b (?c Called [] (Some 0))" by (rule R[OF run_call0]) simp_all
  have c2: "?R (?c Called [] (Some 0)) (?c Admitted [] (Some 0))" by (rule R[OF run_admit0]) simp_all
  have c3: "?R (?c Admitted [] (Some 0)) (?c Finished [(''k'', 0)] (Some 0))" by (rule R[OF run_fire0]) simp_all
  have c4: "?R (?c Finished [(''k'', 0)] (Some 0)) (?c Chaining [(''k'', 0)] (Some 0))"
    by (rule R[OF step_eq[OF sched_step.chain_check[where x = ?J0]]]) (simp_all add: run_simps)
  let ?d = "?st (entry 1 (Some 0)) [?J0'] [] TDone TSpawned TSpawned [(''k'', 0)] (Some 0)"
  have d': "?R (?c Chaining [(''k'', 0)] (Some 0)) ?d"
    by (rule R[OF step_eq[OF sched_step.chain_next[where x = ?J0 and j = 1]]]) (simp_all add: run_simps)
  let ?e = "?st (entry 2 None) [?J0'] [] TDone (TBegun 2 (Some 0)) TSpawned [(''k'', 0)] (Some 1)"
  have e': "?R ?d ?e"
    by (rule R[OF step_eq[OF sched_step.begin_reg[where i = 1 and reg = "entry 2 None"
            and att = "\<lparr>ra_version = 2, ra_previous_job = Some 0\<rparr>"]]]) (simp_all add: run_simps)
  let ?f = "?st (entry 2 None) [?J0'] [] TDone (TReady 2) TSpawned [(''k'', 0)] (Some 1)"
  have f': "?R ?e ?f"
    by (rule R[OF step_eq[OF sched_step.remove_ok[where i = 1 and v = 2 and j = 0]]]) (simp_all add: run_simps)
  let ?g = "?st (entry 2 None) [?J0', ?J1] [] TDone (TRegistered 2 2) TSpawned [(''k'', 0)] (Some 1)"
  have g': "?R ?f ?g"
    by (rule R[OF step_eq[OF sched_step.register_ok[where i = 1 and v = 2 and j = 2]]]) (simp_all add: run_simps)
  let ?h = "?st (entry 2 (Some 2)) [?J0', ?J1] [] TDone TDone TSpawned [(''k'', 0)] (Some 1)"
  have h': "?R ?g ?h"
    by (rule R[OF step_eq[OF sched_step.commit_active[where i = 1 and v = 2 and j = 2 and reg = "entry 2 (Some 2)"]]])
       (simp_all add: run_simps)
  let ?i = "\<lambda>ph. ?st (entry 2 (Some 2)) [?J0'] [(?J1, ph)] TDone TDone TSpawned [(''k'', 0)] (Some 1)"
  have i1: "?R ?h (?i Called)"
    by (rule R[OF step_eq[OF sched_step.call_once[where x = ?J1]]]) (simp_all add: run_simps)
  have i2: "?R (?i Called) (?i Admitted)"
    by (rule R[OF step_eq[OF sched_step.admit[where x = ?J1]]]) (simp_all add: run_simps)
  let ?i' = "?st (entry 2 (Some 2)) [?J0'] [(?J1, Finished)] TDone TDone TSpawned [(''k'', 1), (''k'', 0)] (Some 1)"
  have i3: "?R (?i Admitted) ?i'"
    by (rule R[OF step_eq[OF sched_step.fire[where x = ?J1]]]) (simp_all add: run_simps)
  let ?j = "?st [] [?J0'] [] TDone TDone TSpawned [(''k'', 1), (''k'', 0)] (Some 1)"
  have j': "?R ?i' ?j"
    by (rule R[OF step_eq[OF sched_step.complete_once[where x = ?J1]]]) (simp_all add: run_simps)
  let ?k = "?st (entry 1 None) [?J0'] [] TDone TDone (TBegun 1 None) [(''k'', 1), (''k'', 0)] (Some 2)"
  have k': "?R ?j ?k"
    by (rule R[OF step_eq[OF sched_step.begin_reg[where i = 2 and reg = "entry 1 None"
            and att = "\<lparr>ra_version = 1, ra_previous_job = None\<rparr>"]]]) (simp_all add: run_simps)
  let ?l = "\<lambda>ph. ?st (entry 1 None) [] [(?J0', ph)] TDone TDone (TBegun 1 None) [(''k'', 1), (''k'', 0)] (Some 2)"
  have l1: "?R ?k (?l Called)"
    by (rule R[OF step_eq[OF sched_step.call_once[where x = ?J0']]]) (simp_all add: run_simps)
  have l2: "?R (?l Called) (?l Admitted)" by (rule R[OF run_admit0]) simp_all
  have "?R\<^sup>*\<^sup>* sched_init ?b" using go[OF go[OF go[OF r_into_rtranclp[where r = ?R, OF a1] a2] a'] b'] .
  from go[OF go[OF go[OF go[OF go[OF this c1] c2] c3] c4] d'] have "?R\<^sup>*\<^sup>* sched_init ?d" .
  from go[OF go[OF go[OF go[OF this e'] f'] g'] h'] have "?R\<^sup>*\<^sup>* sched_init ?h" .
  from go[OF go[OF go[OF go[OF this i1] i2] i3] j'] have "?R\<^sup>*\<^sup>* sched_init ?j" .
  from go[OF go[OF go[OF this k'] l1] l2] have "?R\<^sup>*\<^sup>* sched_init (?l Admitted)" .
  moreover have "sy_last (?l Admitted) ''k'' = Some 2" by (simp add: run_state_def)
  ultimately show ?thesis using run_fire0 by blast
qed

end
