(* ===== verification/Daemon.thy ===== *)
theory Daemon
  imports EventLoop Republish Scheduler
begin

text \<open>
  The running daemon (\<open>EventLoopState\<close> and \<open>run\<close> in \<open>src/eventloop.rs\<close>) with everything that runs beside its loop:
  the dispatches the loop spawns, reload, persist and manifest tasks, scheduled jobs, the
  periodic publication and the claim endpoint of the status server.  Each is a step on one state, so that a run
  is any interleaving of them; a handler is one step, and one whose time is up is left out.  The publication and a
  claim take several: others go on while the one waits for the node, and between the locks the other takes.
\<close>

section \<open>State\<close>

text \<open>
  The drains of a tick, in their order.  What an inbox holds is not part of the state: the messages
  \<open>ma_core\<close>'s inboxes hand out are the labels of the steps.
\<close>

datatype loop_phase = Selecting | DrainIpfs | DrainCrud | DrainInbox | DrainPlugins | Stopped

record ('g, 'v, 'r, 'd, 'p) daemon_env =
  dv_runtime :: "('g, 'v) pool runtime_env"
  dv_service :: "(('g, 'v) pool, 'r, 'd) service_env"
  dv_loop :: loop_env
  dv_stop :: "('g, 'v) stop_env"
  dv_publish :: "(('g, 'v) pool, 'p) republish_env"
  dv_payload :: "local_message \<Rightarrow> bytes"
  dv_order :: "string set \<Rightarrow> string list"
  dv_crud_text :: "crud_error \<Rightarrow> string"
  dv_save_ok :: "string \<Rightarrow> bool"
  dv_background :: "('g, 'v) pool \<Rightarrow> ('g, 'v) pool \<Rightarrow> bool"

text \<open>
  A claim that found no owner has still to write the owner, to grant it the ACL, and to save it to the file whose path it
  read with the owners.
\<close>

datatype claim_work = WriteOwner string "string option" | GrantOwner string "string option" | SaveOwner string "string option"

text \<open>
  \<open>dv_background\<close> is what the workers do to the pool on their own, between the steps and while a reload waits for one.
  \<open>dn_service\<close> is there when the IPFS publisher is enabled; its world is the runtime's.  \<open>dn_tasks\<close> are spawned
  dispatches, \<open>dn_loading\<close> reloads between their two parts.
\<close>

record ('g, 'v, 'r, 'd) daemon =
  dn_runtime :: "('g, 'v) pool runtime"
  dn_service :: "(('g, 'v) pool, 'r, 'd) service_state option"
  dn_requests :: u64
  dn_phase :: loop_phase
  dn_loop :: event_loop
  dn_tasks :: "local_message list"
  dn_loading :: "(string \<times> nat option) list"
  dn_republisher :: republisher
  dn_publishing :: republish_task
  dn_claiming :: "claim_work list"
  dn_config_path :: "string option"
  dn_claims :: "(string \<times> string list) list"

abbreviation dn_svc :: "('g, 'v, 'r, 'd) daemon \<Rightarrow> crud_state" where
  "dn_svc D \<equiv> rt_svc (dn_runtime D)"

definition with_runtime ::
  "('g, 'v) pool runtime \<Rightarrow> ('g, 'v, 'r, 'd) daemon \<Rightarrow> ('g, 'v, 'r, 'd) daemon" where
  "with_runtime rt D = D\<lparr>dn_runtime := rt\<rparr>"

definition service_step ::
  "(('g, 'v) pool service \<Rightarrow> ('g, 'v) pool service) \<Rightarrow> ('g, 'v) pool runtime \<Rightarrow> ('g, 'v) pool runtime" where
  "service_step f rt = (case f (rt_world rt, rt_svc rt) of (w, s) \<Rightarrow> rt\<lparr>rt_world := w, rt_svc := s\<rparr>)"

section \<open>The drains\<close>

definition note_contact ::
  "('g, 'v, 'r, 'd, 'p) daemon_env \<Rightarrow> string \<Rightarrow> ('g, 'v, 'r, 'd) daemon \<Rightarrow> ('g, 'v, 'r, 'd) daemon" where
  "note_contact E from D =
     (case dn_service D of
        None \<Rightarrow> D
      | Some sv \<Rightarrow>
          D\<lparr>dn_service := Some (sv\<lparr>sx_outboxes := record_inbound_contact (re_did (dv_runtime E)) from (sx_outboxes sv)\<rparr>)\<rparr>)"

text \<open>The ACL is the one in force when the message is taken, the groups are the shared cache.\<close>

definition drain_ipfs_message ::
  "('g, 'v, 'r, 'd, 'p) daemon_env \<Rightarrow> local_message \<Rightarrow> ('g, 'v, 'r, 'd) daemon \<Rightarrow> ('g, 'v, 'r, 'd) daemon" where
  "drain_ipfs_message E msg D0 =
     (let D = note_contact E (lm_from msg) D0 in
      case dn_service D of
        None \<Rightarrow> D
      | Some sv \<Rightarrow>
          (let rt = dn_runtime D;
               (sv', r) = handle_ipfs_message ((dv_service E)\<lparr>sv_groups := ct_group_cache (rt_svc rt)\<rparr>)
                            (ct_root_acl (rt_svc rt)) msg (sv\<lparr>sx_world := rt_world rt\<rparr>)
           in D\<lparr>dn_service := Some sv', dn_requests := dn_requests D + 1,
                dn_runtime := rt\<lparr>rt_world := sx_world sv'\<rparr>\<rparr>))"

definition crud_message_of :: "('g, 'v, 'r, 'd, 'p) daemon_env \<Rightarrow> local_message \<Rightarrow> crud_message" where
  "crud_message_of E msg = \<lparr>cm_from = lm_from msg, cm_type = lm_message_type msg, cm_payload = dv_payload E msg\<rparr>"

definition drain_crud_message ::
  "('g, 'v, 'r, 'd, 'p) daemon_env \<Rightarrow> local_message \<Rightarrow> ('g, 'v, 'r, 'd) daemon \<Rightarrow> ('g, 'v, 'r, 'd) daemon" where
  "drain_crud_message E msg D0 =
     (let D = note_contact E (lm_from msg) D0 in
      with_runtime
        (service_step
           (\<lambda>ws. fst (handle_crud_message (re_crud (dv_runtime E)) (dv_order E) (ct_root_acl (snd ws)) (crud_message_of E msg) ws))
           (dn_runtime D)) D)"

definition drain_inbox_message ::
  "('g, 'v, 'r, 'd, 'p) daemon_env \<Rightarrow> local_message \<Rightarrow> ('g, 'v, 'r, 'd) daemon \<Rightarrow> ('g, 'v, 'r, 'd) daemon" where
  "drain_inbox_message E msg D0 =
     (let D = note_contact E (lm_from msg) D0 in D\<lparr>dn_tasks := dn_tasks D @ [msg]\<rparr>)"

definition drain_envelopes ::
  "('g, 'v, 'r, 'd, 'p) daemon_env \<Rightarrow> ('g, 'v, 'r, 'd) daemon \<Rightarrow> ('g, 'v, 'r, 'd) daemon" where
  "drain_envelopes E D =
     (let rt = dn_runtime D;
          L = drain_plugin_envelopes (dv_loop E) ((dn_loop D)\<lparr>el_outbox := rt_outbox rt\<rparr>)
      in D\<lparr>dn_loop := L, dn_runtime := rt\<lparr>rt_outbox := el_outbox L\<rparr>\<rparr>)"

section \<open>Ctrl-C, claims and the other tasks\<close>

definition stop_signal ::
  "('g, 'v, 'r, 'd, 'p) daemon_env \<Rightarrow> ('g, 'v, 'r, 'd) daemon \<Rightarrow> ('g, 'v, 'r, 'd) daemon" where
  "stop_signal E D =
     (let rt = dn_runtime D in
      case handle_shutdown (dv_stop E) (rt_world rt) (rt_svc rt) of
        ((p, s), ends) \<Rightarrow>
          D\<lparr>dn_runtime := rt\<lparr>rt_world := p, rt_svc := s\<rparr>, dn_phase := (if ends then Stopped else Selecting)\<rparr>)"

definition claim_view :: "('g, 'v, 'r, 'd) daemon \<Rightarrow> claim_state" where
  "claim_view D = \<lparr>cs_owners = ct_owners (dn_svc D), cs_acl = ct_root_acl (dn_svc D), cs_config_path = dn_config_path D,
     cs_saved = dn_claims D\<rparr>"

definition with_claim :: "claim_state \<Rightarrow> ('g, 'v, 'r, 'd) daemon \<Rightarrow> ('g, 'v, 'r, 'd) daemon" where
  "with_claim c D = D\<lparr>dn_runtime := map_svc (\<lambda>s. s\<lparr>ct_owners := cs_owners c, ct_root_acl := cs_acl c\<rparr>) (dn_runtime D),
     dn_claims := cs_saved c\<rparr>"

text \<open>The request is answered at once unless the runtime has no owner.\<close>

definition claim_request :: "string \<Rightarrow> ('g, 'v, 'r, 'd) daemon \<Rightarrow> ('g, 'v, 'r, 'd) daemon" where
  "claim_request body D =
     (case claim_decide (ct_owners (dn_svc D)) body of
        Some reply \<Rightarrow> D
      | None \<Rightarrow> D\<lparr>dn_claiming := dn_claiming D @ [WriteOwner body (dn_config_path D)]\<rparr>)"

definition claim_continue ::
  "('g, 'v, 'r, 'd, 'p) daemon_env \<Rightarrow> claim_work \<Rightarrow> ('g, 'v, 'r, 'd) daemon \<Rightarrow> ('g, 'v, 'r, 'd) daemon" where
  "claim_continue E work D =
     (let rest = remove1 work (dn_claiming D) in
      case work of
        WriteOwner body path \<Rightarrow> (with_claim (claim_write body (claim_view D)) D)\<lparr>dn_claiming := rest @ [GrantOwner body path]\<rparr>
      | GrantOwner body path \<Rightarrow> (with_claim (claim_grant body (claim_view D)) D)\<lparr>dn_claiming := rest @ [SaveOwner body path]\<rparr>
      | SaveOwner body path \<Rightarrow>
          (with_claim (persist_owners_to_config (dv_save_ok E) path body (claim_view D)) D)\<lparr>dn_claiming := rest\<rparr>)"

text \<open>A firing job: the entity gets its message, and what it queues is persisted.\<close>

definition fire_schedule ::
  "('w runtime_env) \<Rightarrow> string \<Rightarrow> local_message \<Rightarrow> 'w runtime \<Rightarrow> 'w runtime" where
  "fire_schedule E fragment msg rt =
     (case map_of (plugins rt) fragment of
        None \<Rightarrow> rt
      | Some h \<Rightarrow>
          (let (w, r) = re_on_message E h msg (rt_world rt);
               rt' = rt\<lparr>rt_world := w\<rparr>
           in case dispatch_scheduled (plugins rt) (\<lambda>_ _. case r of Inl e \<Rightarrow> None | Inr dr \<Rightarrow> Some (dr_pending dr)) True fragment msg of
                Persist b \<Rightarrow> spawn_persist h (Some b) rt' | _ \<Rightarrow> rt'))"

section \<open>Steps\<close>

text \<open>
  The labels of requests from outside say whether they passed their check; \<open>LTask\<close> is the work of the runtime
  itself, which goes on until the process ends, also while the endpoint is being closed, and \<open>LOwner\<close> a step of a claim.
\<close>

datatype daemon_label =
    LTick | LIpfs local_message | LCrud local_message bool | LInbox local_message | LPlugins | LStop
  | LDispatch local_message | LClaim string bool | LOwner | LTask

definition crud_admits :: "('g, 'v, 'r, 'd, 'p) daemon_env \<Rightarrow> crud_state \<Rightarrow> string \<Rightarrow> bool" where
  "crud_admits E s from =
     (crud_gate (ce_core (re_crud (dv_runtime E))) (ct_owners s) (ct_root_acl s) (ct_group_cache s) from = Inr ())"

inductive daemon_step ::
  "('g, 'v, 'r, 'd, 'p) daemon_env \<Rightarrow> daemon_label \<Rightarrow> ('g, 'v, 'r, 'd) daemon \<Rightarrow> ('g, 'v, 'r, 'd) daemon \<Rightarrow> bool"
  for E :: "('g, 'v, 'r, 'd, 'p) daemon_env" where
  tick: "dn_phase D = Selecting \<Longrightarrow> daemon_step E LTick D (D\<lparr>dn_phase := DrainIpfs\<rparr>)"
| ipfs: "dn_phase D = DrainIpfs \<Longrightarrow> daemon_step E (LIpfs msg) D (drain_ipfs_message E msg D)"
| ipfs_empty: "dn_phase D = DrainIpfs \<Longrightarrow> daemon_step E LTick D (D\<lparr>dn_phase := DrainCrud\<rparr>)"
| crud: "dn_phase D = DrainCrud \<Longrightarrow>
     daemon_step E (LCrud msg (crud_admits E (dn_svc D) (lm_from msg))) D (drain_crud_message E msg D)"
| crud_empty: "dn_phase D = DrainCrud \<Longrightarrow> daemon_step E LTick D (D\<lparr>dn_phase := DrainInbox\<rparr>)"
| inbox: "dn_phase D = DrainInbox \<Longrightarrow> daemon_step E (LInbox msg) D (drain_inbox_message E msg D)"
| inbox_empty: "dn_phase D = DrainInbox \<Longrightarrow> daemon_step E LTick D (D\<lparr>dn_phase := DrainPlugins\<rparr>)"
| envelopes: "dn_phase D = DrainPlugins \<Longrightarrow>
     daemon_step E LPlugins D ((drain_envelopes E D)\<lparr>dn_phase := Selecting\<rparr>)"
| stop: "dn_phase D = Selecting \<Longrightarrow> daemon_step E LStop D (stop_signal E D)"
| dispatch: "msg \<in> set (dn_tasks D) \<Longrightarrow>
     daemon_step E (LDispatch msg) D
       (with_runtime (fst (dispatch_actor_message (dv_runtime E) msg (dn_runtime D))) D\<lparr>dn_tasks := remove1 msg (dn_tasks D)\<rparr>)"
| local: "t \<in> set (el_local (dn_loop D)) \<Longrightarrow>
     daemon_step E LTask D
       (with_runtime (dispatch_local_plugin_envelope (dv_runtime E) (\<lambda>rt. rt) registry mid now t (dn_runtime D)) D
          \<lparr>dn_loop := (dn_loop D)\<lparr>el_local := remove1 t (el_local (dn_loop D))\<rparr>\<rparr>)"
| delivered: "t \<in> set (el_remote (dn_loop D)) \<Longrightarrow>
     daemon_step E LTask D
       (D\<lparr>dn_loop := (dn_loop D)\<lparr>el_remote := remove1 t (el_remote (dn_loop D)), el_permits := el_permits (dn_loop D) + 1\<rparr>\<rparr>)"
| background: "dv_background E (rt_world (dn_runtime D)) w \<Longrightarrow>
     daemon_step E LTask D (with_runtime ((dn_runtime D)\<lparr>rt_world := w\<rparr>) D)"
| reload_begin: "(name, node) \<in> set (ct_reloads (dn_svc D)) \<Longrightarrow> dv_background E (rt_world (dn_runtime D)) w \<Longrightarrow>
     prepare_reload (re_crud (dv_runtime E)) (dv_crud_text E) name node saved (w, dn_svc D) = ((w', s'), r) \<Longrightarrow>
     daemon_step E LTask D
       (with_runtime ((dn_runtime D)\<lparr>rt_world := w', rt_svc := s'\<lparr>ct_reloads := remove1 (name, node) (ct_reloads s')\<rparr>\<rparr>) D
          \<lparr>dn_loading := (case r of None \<Rightarrow> dn_loading D | Some (kind, old, node') \<Rightarrow> (name, old) # dn_loading D)\<rparr>)"
| reload_end: "(name, old) \<in> set (dn_loading D) \<Longrightarrow> dv_background E (rt_world (dn_runtime D)) w \<Longrightarrow>
     finish_reload (re_crud (dv_runtime E)) name old result replacement (w, dn_svc D) = (w', s') \<Longrightarrow>
     daemon_step E LTask D
       (with_runtime ((dn_runtime D)\<lparr>rt_world := w', rt_svc := s', rt_handles := (rt_handles (dn_runtime D))(h := eh)\<rparr>) D
          \<lparr>dn_loading := remove1 (name, old) (dn_loading D)\<rparr>)"
| persist: "(h, b) \<in> set (rt_persists (dn_runtime D)) \<Longrightarrow>
     publish_state (ce_kubo (re_crud (dv_runtime E))) (eh_fragment (rt_handles (dn_runtime D) h)) b
       (rt_world (dn_runtime D), ct_writer (dn_svc D)) = ((w', wr), ok) \<Longrightarrow>
     daemon_step E LTask D
       (with_runtime (map_svc (\<lambda>s. s\<lparr>ct_writer := wr\<rparr>) ((dn_runtime D)\<lparr>rt_world := w'\<rparr>)) D)"
| insert: "(name, node) \<in> set (rt_inserts (dn_runtime D)) \<Longrightarrow>
     daemon_step E LTask D
       (with_runtime ((fst (run_writer (insert_entity (ce_kubo (re_crud (dv_runtime E))) name node) (dn_runtime D)))
          \<lparr>rt_inserts := remove1 (name, node) (rt_inserts (dn_runtime D))\<rparr>) D)"
| schedule: "daemon_step E LTask D (with_runtime (fire_schedule (dv_runtime E) fragment msg (dn_runtime D)) D)"
| publish_begin: "dn_publishing D = Waiting \<Longrightarrow>
     daemon_step E LTask D
       (D\<lparr>dn_publishing := republish_begin (dv_publish E) now (dn_republisher D) (mw_root_cid (ct_writer (dn_svc D)))\<rparr>)"
| publish_advance: "republish_advance (dv_publish E) finished (dn_publishing D) (dn_republisher D) (rt_world (dn_runtime D), dn_svc D)
        = (task, R, (w, s)) \<Longrightarrow>
     daemon_step E LTask D
       (with_runtime ((dn_runtime D)\<lparr>rt_world := w, rt_svc := s\<rparr>) D\<lparr>dn_republisher := R, dn_publishing := task\<rparr>)"
| claim: "daemon_step E (LClaim body (claim_decide (ct_owners (dn_svc D)) body = None)) D (claim_request body D)"
| owner: "work \<in> set (dn_claiming D) \<Longrightarrow> daemon_step E LOwner D (claim_continue E work D)"

inductive daemon_run ::
  "('g, 'v, 'r, 'd, 'p) daemon_env \<Rightarrow> ('g, 'v, 'r, 'd) daemon \<Rightarrow> daemon_label list \<Rightarrow> ('g, 'v, 'r, 'd) daemon \<Rightarrow> bool"
  for E :: "('g, 'v, 'r, 'd, 'p) daemon_env" where
  nil: "daemon_run E D [] D"
| cons: "daemon_step E l D D1 \<Longrightarrow> daemon_run E D1 ls D2 \<Longrightarrow> daemon_run E D (l # ls) D2"

inductive_cases daemon_run_elim: "daemon_run E D ls D'"

section \<open>Lemmas\<close>

text \<open>Who may do what: the owners, the root ACL, and the caches of named ACLs and groups.\<close>

definition authority :: "crud_state \<Rightarrow> string list \<times> acl_map \<times> acl_cache \<times> group_cache" where
  "authority s = (ct_owners s, ct_root_acl s, ct_acl_cache s, ct_group_cache s)"

named_theorems authority_frame

lemma authority_updates [authority_frame]:
  "authority (s\<lparr>ct_writer := wr\<rparr>) = authority s" "authority (s\<lparr>ct_plugins := ps\<rparr>) = authority s"
  "authority (s\<lparr>ct_reloads := rs\<rparr>) = authority s" "authority (s\<lparr>ct_terminated := ts\<rparr>) = authority s"
  "authority (s\<lparr>ct_config := cfg\<rparr>) = authority s" "authority (s\<lparr>ct_saved := cfgs\<rparr>) = authority s"
  by (simp_all add: authority_def)

lemma authority_plugin_ops [authority_frame]:
  "authority (install_plugin name h s) = authority s" "authority (remove_plugin name s) = authority s"
  "authority (terminate_worker old s) = authority s"
  by (simp_all add: install_plugin_def remove_plugin_def terminate_worker_def authority_frame split: option.split)

lemma authority_run_writer [authority_frame]:
  "authority (rt_svc (fst (run_writer f rt))) = authority (rt_svc rt)"
  by (simp add: run_writer_def authority_frame split: prod.split)


lemma authority_send_reply [authority_frame]:
  "authority (rt_svc (fst (send_reply E msg content rt))) = authority (rt_svc rt)"
  "authority (rt_svc (fst (send_error_reply E msg reason rt))) = authority (rt_svc rt)"
  by (simp_all add: send_error_reply_def send_reply_def)

lemma authority_handle_ping [authority_frame]:
  "authority (rt_svc (fst (handle_ping E msg term rt))) = authority (rt_svc rt)"
  by (simp add: handle_ping_def authority_frame)

lemma authority_root_publish [authority_frame]:
  "authority (rt_svc (fst (handle_root_publish E msg rt))) = authority (rt_svc rt)"
  by (simp add: handle_root_publish_def authority_frame split: option.split prod.split sum.split)

lemma authority_register [authority_frame]:
  "authority (rt_svc (register_entity name h eh rt)) = authority (rt_svc rt)"
  by (simp add: register_entity_def authority_frame)

lemma authority_enqueue [authority_frame]:
  "rt_svc (enqueue_runtime E fragment envelope rt) = rt_svc rt"
  "rt_svc (report_create_init_error E req rt) = rt_svc rt"
  by (simp_all add: report_create_init_error_def enqueue_runtime_def Let_def)

lemma authority_spawn_persist [authority_frame]: "rt_svc (spawn_persist h pending rt) = rt_svc rt"
  by (simp add: spawn_persist_def split: option.split)

text \<open>An operation that ends in a result keeps the authority when the state of its result has it.\<close>

lemma run_writer_authority: "run_writer f rt = (rt', r) \<Longrightarrow> authority (rt_svc rt') = authority (rt_svc rt)"
  by (metis authority_run_writer fst_conv)

lemma authority_save_current [authority_frame]:
  "authority (rt_svc (fst (save_current_state E fragment running rt))) = authority (rt_svc rt)"
  by (auto simp: save_current_state_def split: option.split prod.split sum.split dest!: run_writer_authority)

lemma authority_install_behaviour [authority_frame]:
  "authority (rt_svc (fst (install_behaviour E fragment behaviour running h eh rt))) = authority (rt_svc rt)"
  by (auto simp: install_behaviour_def Let_def authority_frame split: option.split prod.split sum.split dest!: run_writer_authority)

lemma authority_apply_behaviour [authority_frame]:
  "authority (rt_svc (fst (apply_behaviour_request E req rt))) = authority (rt_svc rt)"
proof -
  have "authority (rt_svc rt1) = authority (rt_svc rt)" if "save_current_state E f r rt = (rt1, x)" for f r rt1 x
    using authority_save_current[of E f r rt] that by simp
  then show ?thesis
    by (auto simp: apply_behaviour_request_def Let_def authority_frame split: option.split prod.split sum.split)
qed

lemma authority_apply_behaviours [authority_frame]:
  "authority (rt_svc (fst (apply_behaviour_requests E reqs rt))) = authority (rt_svc rt)"
proof (induction reqs arbitrary: rt)
  case (Cons req reqs)
  have "authority (rt_svc rt1) = authority (rt_svc rt)" if "apply_behaviour_request E req rt = (rt1, x)" for rt1 x
    using authority_apply_behaviour[of E req rt] that by simp
  with Cons show ?case by (auto split: prod.split sum.split)
qed simp

lemma authority_finish_created [authority_frame]:
  "authority (rt_svc (finish_created_entity E req node h eh rt)) = authority (rt_svc rt)"
  by (simp add: finish_created_entity_def Let_def authority_frame split: prod.split)

lemma authority_create_request [authority_frame]:
  "authority (rt_svc (fst (create_entity_from_request E creator req kind rt))) = authority (rt_svc rt)"
  by (auto simp: create_entity_from_request_def Let_def authority_frame split: sum.split prod.split lifecycle.split)

lemma authority_create_requests [authority_frame]:
  "authority (rt_svc (fst (process_entity_create_requests E creator reqs rt))) = authority (rt_svc rt)"
proof (induction reqs arbitrary: rt)
  case (Cons req reqs)
  have "authority (rt_svc rt1) = authority (rt_svc rt)" if "create_entity_from_request E creator req k rt = (rt1, x)" for rt1 x k
    using authority_create_request[of E creator req k rt] that by simp
  with Cons show ?case by (auto split: prod.split sum.split option.split)
qed simp

lemma authority_deletions [authority_frame]:
  "authority (rt_svc (process_entity_delete_requests caller ts rt)) = authority (rt_svc rt)"
proof (induction ts arbitrary: rt)
  case (Cons t ts)
  have "authority (rt_svc (delete_entity caller t rt)) = authority (rt_svc rt)"
    by (simp add: delete_entity_def authority_frame split: option.split)
  with Cons show ?case by (simp add: process_entity_delete_requests_def)
qed (simp add: process_entity_delete_requests_def)

lemma authority_dispatch_entity [authority_frame]:
  "authority (rt_svc (fst (dispatch_entity_message E msg term h rt))) = authority (rt_svc rt)"
proof -
  have 1: "authority (rt_svc rt1) = authority (rt_svc rt0)" if "process_entity_create_requests E c rs rt0 = (rt1, x)" for rt0 rt1 x c rs
    using authority_create_requests[of E c rs rt0] that by simp
  have 2: "authority (rt_svc rt1) = authority (rt_svc rt0)" if "apply_behaviour_requests E rs rt0 = (rt1, x)" for rt0 rt1 x rs
    using authority_apply_behaviours[of E rs rt0] that by simp
  show ?thesis
    by (auto simp: dispatch_entity_message_def Let_def authority_frame split: sum.split prod.split dest!: 1 2)
qed

lemma authority_dispatch [authority_frame]:
  "authority (rt_svc (fst (dispatch_actor_message E msg rt))) = authority (rt_svc rt)"
proof -
  have "authority (rt_svc rt1) = authority (rt_svc rt)" if "dispatch_entity_message E msg v h rt = (rt1, x)" for rt1 x v h
    using authority_dispatch_entity[of E msg v h rt] that by simp
  then show ?thesis
    by (auto simp: dispatch_actor_message_def authority_frame split: option.split sum.split prod.split)
qed

lemma authority_finish_create [authority_frame]:
  "authority (rt_svc (finish_create_request E req node loaded rt)) = authority (rt_svc rt)"
proof -
  have "authority (rt_svc rt2) = authority (rt_svc rt1)" if "register_created_entity f h eh rt1 = (rt2, b)" for f h eh rt1 rt2 b
    using that by (auto simp: register_created_entity_def insert_if_absent_def authority_frame split: if_splits)
  then show ?thesis
    by (fastforce simp: finish_create_request_def Let_def authority_frame split: sum.split prod.split lifecycle.split)
qed

lemma authority_handle_create [authority_frame]:
  "authority (rt_svc (handle_create_request E (\<lambda>rt. rt) creator req rt)) = authority (rt_svc rt)"
  by (simp add: handle_create_request_def Let_def authority_frame split: option.split sum.split prod.split)

lemma authority_handle_creates:
  "authority (rt_svc (fold (handle_create_request E (\<lambda>rt. rt) creator) reqs rt)) = authority (rt_svc rt)"
  by (induction reqs arbitrary: rt) (simp_all add: authority_frame)

lemma authority_local_dispatch [authority_frame]:
  "authority (rt_svc (dispatch_local_plugin_envelope E (\<lambda>rt. rt) registry mid now t rt)) = authority (rt_svc rt)"
  by (simp add: dispatch_local_plugin_envelope_def authority_handle_creates authority_frame split: option.split sum.split prod.split)

lemma authority_mark_failed [authority_frame]:
  "authority (snd (mark_entity_reload_failed E name reason ws)) = authority (snd ws)"
  by (cases ws) (simp add: mark_entity_reload_failed_def authority_frame split: prod.split)

lemma authority_prepare_reload:
  assumes "prepare_reload E msg name node saved ws = (ws', r)"
  shows "authority (snd ws') = authority (snd ws)"
proof -
  obtain w s where ws: "ws = (w, s)" by fastforce
  have 1: "authority (snd ws1) = authority s" if "resolve_kind_node_for_reload E msg name k (w, s) = (ws1, x)" for ws1 k x
    using that by (auto simp: resolve_kind_node_for_reload_def Let_def authority_frame split: option.splits if_splits sum.splits)
  have 2: "authority (snd ws2) = authority (snd ws1)" if "refresh_entity_before_reload E msg name saved ws1 = (ws2, x)" for ws1 ws2 x
    using that by (cases ws1) (auto simp: refresh_entity_before_reload_def reread_entity_def authority_frame
        split: option.splits sum.splits prod.splits)
  from assms 1 2 ws show ?thesis
    by (auto simp: prepare_reload_def split: option.splits prod.splits)
qed

lemma authority_finish_reload:
  assumes "finish_reload E name old result replacement ws = ws'"
  shows "authority (snd ws') = authority (snd ws)"
  using assms[symmetric]
  by (cases ws) (simp add: finish_reload_def Let_def authority_frame split: sum.split prod.split)

lemma authority_persist_root [authority_frame]: "authority (persist_root_cid root s) = authority s"
  by (simp add: persist_root_cid_def Let_def authority_frame)

lemma authority_shutdown:
  assumes "handle_shutdown E p s = ((p', s'), b)"
  shows "authority s' = authority s"
  using assms
  by (auto simp: handle_shutdown_def publish_and_stop_def authority_frame split: option.splits if_splits prod.splits sum.splits)

lemma authority_republish:
  assumes "republish_advance E fin task R ws = (task', R', ws')"
  shows "authority (snd ws') = authority (snd ws)"
  using assms by (cases task; cases ws) (auto simp: authority_frame split: if_splits prod.splits)

lemma authority_schedule [authority_frame]:
  "authority (rt_svc (fire_schedule E fragment msg rt)) = authority (rt_svc rt)"
  by (simp add: fire_schedule_def Let_def authority_frame split: option.split prod.split dispatch_outcome.split)

lemma note_contact_runtime [simp]: "dn_runtime (note_contact E from D) = dn_runtime D"
  by (simp add: note_contact_def split: option.split)

lemma drain_ipfs_svc [simp]: "dn_svc (drain_ipfs_message E msg D) = dn_svc D"
  by (simp add: drain_ipfs_message_def Let_def split: option.split prod.split)

lemma drain_crud_refused:
  assumes "\<not> crud_admits E (dn_svc D) (lm_from msg)"
  shows "dn_runtime (drain_crud_message E msg D) = dn_runtime D"
  using assms
  by (auto simp: drain_crud_message_def service_step_def handle_crud_message_def crud_admits_def with_runtime_def
      crud_message_of_def Let_def split: sum.splits)

lemma claim_request_runtime [simp]: "dn_runtime (claim_request body D) = dn_runtime D"
  by (simp add: claim_request_def split: option.split)

fun grants :: "daemon_label \<Rightarrow> bool" where
  "grants (LCrud msg admitted) = admitted"
| "grants LOwner = True"
| "grants _ = False"

text \<open>Only CRUD requests that pass their check and claims under way change the authority.\<close>

lemma step_authority:
  assumes "daemon_step E l D D'" and "\<not> grants l"
  shows "authority (dn_svc D') = authority (dn_svc D)"
  using assms
proof (induction rule: daemon_step.induct)
  case (crud D msg)
  then show ?case using drain_crud_refused[of E D msg] by simp
next
  case (stop D)
  obtain p s b where "handle_shutdown (dv_stop E) (rt_world (dn_runtime D)) (dn_svc D) = ((p, s), b)" by (metis prod.exhaust)
  with authority_shutdown[OF this] show ?case by (simp add: stop_signal_def Let_def)
next
  case (reload_begin name node D w saved w' s' r)
  from authority_prepare_reload[OF this(3)] show ?case by (simp add: with_runtime_def authority_frame)
next
  case (reload_end name old D w result replacement w' s' h eh)
  from authority_finish_reload[OF this(3)] show ?case by (simp add: with_runtime_def)
next
  case (publish_advance fin D task R w s)
  from authority_republish[OF this(1)] show ?case by (simp add: with_runtime_def)
qed (simp_all add: with_runtime_def drain_inbox_message_def drain_envelopes_def authority_frame Let_def)


inductive_simps daemon_run_Nil [simp]: "daemon_run E D [] D'"
inductive_simps daemon_run_Cons [simp]: "daemon_run E D (l # ls) D'"

inductive_cases crud_step: "daemon_step E (LCrud msg admitted) D D'"
inductive_cases owner_step: "daemon_step E LOwner D D'"

lemma granted_step:
  assumes "daemon_step E l D D'" and "grants l"
  shows "(\<exists>msg. l = LCrud msg True \<and> crud_admits E (dn_svc D) (lm_from msg)) \<or> dn_claiming D \<noteq> []"
proof (cases l)
  case (LCrud msg admitted)
  with assms show ?thesis by (auto elim: crud_step)
next
  case LOwner
  with assms show ?thesis by (auto elim: owner_step)
qed (use assms in simp_all)

text \<open>A claim gets under way only in a runtime without owners.\<close>

lemma step_claiming:
  assumes "daemon_step E l D D'" and "dn_claiming D = []" and "dn_claiming D' \<noteq> []"
  shows "\<exists>body. l = LClaim body True \<and> ct_owners (dn_svc D) = []"
  using assms
proof (induction rule: daemon_step.induct)
  case (claim body D)
  then have "claim_decide (ct_owners (dn_svc D)) body = None" by (auto simp: claim_request_def split: option.splits)
  then show ?case by (auto simp: claim_decide_def split: if_splits)
qed (auto simp: with_runtime_def drain_ipfs_message_def drain_crud_message_def drain_inbox_message_def drain_envelopes_def note_contact_def
    stop_signal_def Let_def split: option.splits prod.splits)

text \<open>The first step that grants anything is judged by the authority the run began with.\<close>

lemma run_authority:
  assumes "daemon_run E D ls D'" and "authority (dn_svc D') \<noteq> authority (dn_svc D)"
  shows "(\<exists>msg. LCrud msg True \<in> set ls \<and> crud_admits E (dn_svc D) (lm_from msg))
     \<or> (\<exists>body. LClaim body True \<in> set ls \<and> ct_owners (dn_svc D) = []) \<or> dn_claiming D \<noteq> []"
  using assms
proof (induction rule: daemon_run.induct)
  case (cons l D D1 ls D2)
  show ?case
  proof (cases "grants l")
    case True
    with granted_step[OF cons.hyps(1)] show ?thesis by auto
  next
    case False
    have same: "authority (dn_svc D1) = authority (dn_svc D)" by (rule step_authority[OF cons.hyps(1) False])
    then have t: "crud_admits E (dn_svc D1) = crud_admits E (dn_svc D)" "ct_owners (dn_svc D1) = ct_owners (dn_svc D)"
      by (auto simp: authority_def crud_admits_def)
    from cons.IH cons.prems same t step_claiming[OF cons.hyps(1)] show ?thesis by auto
  qed
qed simp

section \<open>A daemon for the witnesses\<close>

definition sample_daemon :: "crud_state \<Rightarrow> (nat, doc list, string list, string) daemon" where
  "sample_daemon s = \<lparr>
     dn_runtime = \<lparr>rt_world = stop_pool, rt_svc = s, rt_handles = (\<lambda>_. lobby_handle), rt_outbox = [], rt_replies = [],
       rt_persists = [], rt_inserts = []\<rparr>,
     dn_service = None, dn_requests = 0, dn_phase = Selecting,
     dn_loop = \<lparr>el_outbox = [], el_permits = REMOTE_PLUGIN_DELIVERY_LIMIT, el_local = [], el_remote = []\<rparr>, dn_tasks = [], dn_loading = [],
     dn_republisher = republisher_new 0 60, dn_publishing = Waiting, dn_claiming = [], dn_config_path = None, dn_claims = []\<rparr>"

section \<open>Properties\<close>

text \<open>
  C34 (daemon). Authority has a source: in every interleaving of what the daemon does (requests of all services, entities
  and their requests, reloads, jobs, the parts of publications and claims, a stop), the owners, the root ACL and the cached ACLs
  and groups change only after a CRUD request that the owners, ACL and groups of the beginning admit, or a claim made while there
  is no owner (or already under way at the beginning).
\<close>

theorem authority_has_source:
  assumes "daemon_run E D ls D'" and "authority (dn_svc D') \<noteq> authority (dn_svc D)"
  shows "(\<exists>msg. LCrud msg True \<in> set ls \<and> crud_admits E (dn_svc D) (lm_from msg))
     \<or> (\<exists>body. LClaim body True \<in> set ls \<and> ct_owners (dn_svc D) = []) \<or> dn_claiming D \<noteq> []"
  by (rule run_authority[OF assms])

theorem authority_has_source_witness:
  "\<forall>E :: (nat, doc list, string list, string, string) daemon_env.
     \<exists>D'. daemon_run E (sample_daemon (sample_crud\<lparr>ct_owners := []\<rparr>)) [LTick, LClaim ''did:ma:eve'' True, LOwner] D'
       \<and> ct_owners (dn_svc D') = [''did:ma:eve'']
       \<and> (\<exists>body. LClaim body True \<in> set [LTick, LClaim ''did:ma:eve'' True, LOwner])"
proof
  fix E :: "(nat, doc list, string list, string, string) daemon_env"
  let ?D = "sample_daemon (sample_crud\<lparr>ct_owners := []\<rparr>)" and ?ls = "[LTick, LClaim ''did:ma:eve'' True, LOwner]"
  let ?D1 = "?D\<lparr>dn_phase := DrainIpfs\<rparr>" and ?work = "WriteOwner ''did:ma:eve'' None"
  let ?D2 = "claim_request ''did:ma:eve'' ?D1"
  have s1: "daemon_step E LTick ?D ?D1" by (rule tick) (simp add: sample_daemon_def)
  have d: "claim_decide (ct_owners (dn_svc ?D1)) ''did:ma:eve'' = None" by (simp add: sample_daemon_def claim_decide_def)
  then have s2: "daemon_step E (LClaim ''did:ma:eve'' True) ?D1 ?D2" using claim[of E "''did:ma:eve''" ?D1] by simp
  have "?work \<in> set (dn_claiming ?D2)" using d by (simp add: claim_request_def sample_daemon_def)
  then have s3: "daemon_step E LOwner ?D2 (claim_continue E ?work ?D2)" by (rule owner)
  have run: "daemon_run E ?D ?ls (claim_continue E ?work ?D2)" using s1 s2 s3 by auto
  have o: "ct_owners (dn_svc (claim_continue E ?work ?D2)) = [''did:ma:eve'']"
    by (simp add: claim_continue_def with_claim_def claim_write_def Let_def)
  then have "authority (dn_svc (claim_continue E ?work ?D2)) \<noteq> authority (dn_svc ?D)"
    by (simp add: authority_def sample_daemon_def)
  from authority_has_source[OF run this] have "\<exists>body. LClaim body True \<in> set ?ls"
    by (simp add: sample_daemon_def)
  with run o show "\<exists>D'. daemon_run E ?D ?ls D' \<and> ct_owners (dn_svc D') = [''did:ma:eve'']
       \<and> (\<exists>body. LClaim body True \<in> set ?ls)" by blast
qed

end
