(* ===== verification/Integrity.thy ===== *)
theory Integrity
  imports Daemon
begin

text \<open>
  What every step of \<open>Daemon\<close> keeps: the writer stands for a manifest the node still has, and the configuration in it, in
  memory and in every file written stays readable.  The node is only assumed to keep its documents.
\<close>

section \<open>One node under the pool\<close>

text \<open>The runtime's node as an operation on the pool, which the workers and the writer share.\<close>

definition pool_kubo :: "'v kubo \<Rightarrow> ('g, 'v) pool kubo" where
  "pool_kubo K = \<lparr>
     dag_get_manifest = (\<lambda>p. dag_get_manifest K (pool_world p)),
     dag_put_manifest = (\<lambda>p m. case dag_put_manifest K (pool_world p) m of (w, r) \<Rightarrow> (put_pool_world w p, r)),
     dag_get_entity = (\<lambda>p. dag_get_entity K (pool_world p)),
     dag_put_entity = (\<lambda>p e. case dag_put_entity K (pool_world p) e of (w, r) \<Rightarrow> (put_pool_world w p, r)),
     dag_get_kind = (\<lambda>p. dag_get_kind K (pool_world p)), dag_get_kinds = (\<lambda>p. dag_get_kinds K (pool_world p)),
     dag_get_acl = (\<lambda>p. dag_get_acl K (pool_world p)), dag_get_strings = (\<lambda>p. dag_get_strings K (pool_world p)),
     dag_put_strings = (\<lambda>p ss. case dag_put_strings K (pool_world p) ss of (w, r) \<Rightarrow> (put_pool_world w p, r)),
     resolve_path = (\<lambda>p. resolve_path K (pool_world p)),
     add_bytes_unpinned = (\<lambda>p b. case add_bytes_unpinned K (pool_world p) b of (w, r) \<Rightarrow> (put_pool_world w p, r)),
     cat_bytes = (\<lambda>p. cat_bytes K (pool_world p)),
     pin_update = (\<lambda>p old new. case pin_update K (pool_world p) old new of (w, r) \<Rightarrow> (put_pool_world w p, r))\<rparr>"

lemma node_keeps_pool [simp]: "node_keeps (pool_kubo K) p p' = node_keeps K (pool_world p) (pool_world p')"
  by (simp add: node_keeps_def pool_kubo_def)

lemma current_pool [simp]: "current (pool_kubo K) (p, s) = current K (pool_world p, s)"
  by (simp add: current_def pool_kubo_def)

lemma kubo_ok_pool:
  assumes "kubo_ok K"
  shows "kubo_ok (pool_kubo K)"
  using assms unfolding kubo_ok_def node_keeps_pool by (simp add: pool_kubo_def case_prod_beta)

lemma coherent_pool: "kubo_ok K \<Longrightarrow> coherent (pool_kubo K) (p, s) = coherent K (pool_world p, s)"
  by (simp add: coherent_def kubo_ok_pool)

section \<open>What is assumed of the world\<close>

definition ipns_keeps :: "'w kubo \<Rightarrow> 'w ipns_node \<Rightarrow> bool" where
  "ipns_keeps K N \<longleftrightarrow>
     (\<forall>w name b. node_keeps K w (fst (nd_key_import N w name b))) \<and>
     (\<forall>w arg name. node_keeps K w (fst (nd_name_publish N w arg name))) \<and>
     (\<forall>w b. node_keeps K w (fst (nd_dag_put_cbor N w b))) \<and> (\<forall>w v. node_keeps K w (fst (nd_dag_put_json N w v))) \<and>
     (\<forall>w b. node_keeps K w (fst (nd_add_unpinned N w b))) \<and> (\<forall>w c. node_keeps K w (fst (nd_pin_add N w c))) \<and>
     (\<forall>w old c. node_keeps K w (fst (nd_pin_update N w old c)))"

definition workers_keep :: "'w runtime_env \<Rightarrow> bool" where
  "workers_keep E \<longleftrightarrow>
     (let K = ce_kubo (re_crud E) in
      (\<forall>a w. node_keeps K w (fst (re_load E a w))) \<and> (\<forall>a w. node_keeps K w (fst (re_load_retry E a w))) \<and>
      (\<forall>h w. node_keeps K w (fst (re_prepare_save E h w))) \<and> (\<forall>h w. node_keeps K w (fst (re_trigger_save E h w))) \<and>
      (\<forall>h m w. node_keeps K w (fst (re_on_message E h m w))) \<and> (\<forall>c w. node_keeps K w (fst (re_publish_root E c w))))"

definition publisher_keeps :: "'w kubo \<Rightarrow> ('w, 'd) republish_env \<Rightarrow> bool" where
  "publisher_keeps K E \<longleftrightarrow>
     ipns_keeps K (pb_node E) \<and> (\<forall>d k opts w. node_keeps K w (fst (op_publish (pb_publisher E) d k opts w))) \<and>
     (\<forall>w w'. pb_cut_did E w = Some w' \<longrightarrow> node_keeps K w w') \<and> (\<forall>w w'. pb_cut_ipns E w = Some w' \<longrightarrow> node_keeps K w w')"

definition world_ok :: "('g, 'v, 'r, 'd, 'p) daemon_env \<Rightarrow> bool" where
  "world_ok E \<longleftrightarrow>
     (let K = ce_kubo (re_crud (dv_runtime E)); S = dv_stop E in
      kubo_ok (st_kubo S) \<and> K = pool_kubo (st_kubo S) \<and> (\<forall>h. draws_keep (st_kubo S) (st_host S h)) \<and>
      (\<forall>c w. node_keeps (st_kubo S) w (fst (st_publish S c w))) \<and> workers_keep (dv_runtime E) \<and>
      ipns_keeps K (sv_node (dv_service E)) \<and> publisher_keeps K (dv_publish E) \<and>
      (\<forall>w w'. dv_background E w w' \<longrightarrow> node_keeps K w w'))"

lemma ipns_keepsD:
  assumes "ipns_keeps K N"
  shows "nd_key_import N w name b = (w', r) \<Longrightarrow> node_keeps K w w'"
    and "nd_name_publish N w arg name = (w', r) \<Longrightarrow> node_keeps K w w'"
    and "nd_dag_put_cbor N w b = (w', r2) \<Longrightarrow> node_keeps K w w'" and "nd_dag_put_json N w v = (w', r3) \<Longrightarrow> node_keeps K w w'"
    and "nd_add_unpinned N w b = (w', r3) \<Longrightarrow> node_keeps K w w'" and "nd_pin_add N w c = (w', r4) \<Longrightarrow> node_keeps K w w'"
    and "nd_pin_update N w old c = (w', r4) \<Longrightarrow> node_keeps K w w'"
  using assms unfolding ipns_keeps_def by (metis fst_conv)+

lemma workers_keepD:
  assumes "workers_keep E"
  shows "re_load E a w = (w', r) \<Longrightarrow> node_keeps (ce_kubo (re_crud E)) w w'"
    and "re_load_retry E a w = (w', r) \<Longrightarrow> node_keeps (ce_kubo (re_crud E)) w w'"
    and "re_prepare_save E h w = (w', r2) \<Longrightarrow> node_keeps (ce_kubo (re_crud E)) w w'"
    and "re_trigger_save E h w = (w', r2) \<Longrightarrow> node_keeps (ce_kubo (re_crud E)) w w'"
    and "re_on_message E h msg w = (w', r3) \<Longrightarrow> node_keeps (ce_kubo (re_crud E)) w w'"
    and "re_publish_root E c w = (w', r4) \<Longrightarrow> node_keeps (ce_kubo (re_crud E)) w w'"
  using assms unfolding workers_keep_def Let_def by (metis fst_conv)+

lemma world_okD:
  assumes "world_ok E"
  shows "kubo_ok (st_kubo (dv_stop E))" "ce_kubo (re_crud (dv_runtime E)) = pool_kubo (st_kubo (dv_stop E))"
    "\<forall>h. draws_keep (st_kubo (dv_stop E)) (st_host (dv_stop E) h)"
    "\<forall>c w. node_keeps (st_kubo (dv_stop E)) w (fst (st_publish (dv_stop E) c w))" "workers_keep (dv_runtime E)"
    "ipns_keeps (ce_kubo (re_crud (dv_runtime E))) (sv_node (dv_service E))"
    "publisher_keeps (ce_kubo (re_crud (dv_runtime E))) (dv_publish E)"
    "dv_background E w w' \<Longrightarrow> node_keeps (ce_kubo (re_crud (dv_runtime E))) w w'"
  using assms unfolding world_ok_def Let_def by blast+

section \<open>The IPFS service and the publisher keep the documents\<close>

lemma ensure_key_keeps:
  "ipns_keeps K N \<Longrightarrow> ensure_kubo_ipns_key N enc name expected secret w = (w', r) \<Longrightarrow> node_keeps K w w'"
  by (auto simp: ensure_kubo_ipns_key_def import_key_def dest: ipns_keepsD(1)
      split: sum.splits option.splits if_splits prod.splits)

lemma name_publish_keeps: "ipns_keeps K N \<Longrightarrow> name_publish N name c w = (w', r) \<Longrightarrow> node_keeps K w w'"
  by (auto simp: name_publish_def dest: ipns_keepsD(2) split: prod.splits option.splits)

lemma publish_root_keeps:
  "ipns_keeps K N \<Longrightarrow> publish_runtime_root_cid N enc id_of name_of slug key root w = (w', r) \<Longrightarrow> node_keeps K w w'"
  by (auto simp: publish_runtime_root_cid_def Let_def dest: ensure_key_keeps name_publish_keeps intro: node_keeps_trans
      split: option.splits prod.splits sum.splits)

lemma put_cbor_keeps: "ipns_keeps K N \<Longrightarrow> dag_put_cbor N b w = (w', r) \<Longrightarrow> node_keeps K w w'"
  by (auto simp: dag_put_cbor_def dest: ipns_keepsD(3) split: prod.splits option.splits)

lemma move_pin_keeps: "ipns_keeps K N \<Longrightarrow> node_keeps K w (move_pin N old c w)"
  by (auto simp: move_pin_def ipns_keeps_def split: option.split)

lemma publish_document_keeps:
  assumes "ipns_keeps K (sv_node E)" and "publish_document E v w = (w', r)"
  shows "node_keeps K w w'"
proof -
  note k = ensure_key_keeps[OF assms(1)] put_cbor_keeps[OF assms(1)] name_publish_keeps[OF assms(1)]
  from assms(2) show ?thesis
    by (auto simp: publish_document_def Let_def dest!: k
        intro: node_keeps_trans[OF node_keeps_trans[OF node_keeps_trans[OF _ _] _] move_pin_keeps[OF assms(1)]] node_keeps_trans
        split: prod.splits sum.splits)
qed

lemma store_content_keeps: "ipns_keeps K (sv_node E) \<Longrightarrow> store_content E v w = (w', r) \<Longrightarrow> node_keeps K w w'"
  by (auto simp: store_content_def dest: ipns_keepsD(4,5,6) intro: node_keeps_trans
      split: if_splits option.splits prod.splits bool.splits)

lemma reply_cid_world [simp]: "sx_world (fst (reply_cid E msg c s)) = sx_world s"
  "sx_world (replace_owner_remote_pin E from c s) = sx_world s"
  by (simp_all add: reply_cid_def replace_owner_remote_pin_def split: option.split)

lemma ipfs_message_keeps:
  assumes "ipns_keeps K (sv_node E)"
  shows "node_keeps K (sx_world s) (sx_world (fst (handle_ipfs_message E acl msg s)))"
proof -
  have p: "node_keeps K (sx_world s) (sx_world (fst (handle_did_document_publish E msg v s)))" for v s
    by (auto simp: handle_did_document_publish_def Let_def dest: publish_document_keeps[OF assms]
        split: option.split prod.split sum.split)
  have q: "node_keeps K (sx_world s) (sx_world (fst (handle_ipfs_store E msg v s)))" for v s
    by (auto simp: handle_ipfs_store_def dest: store_content_keeps[OF assms] split: prod.split sum.split)
  have "node_keeps K (sx_world s) (sx_world (fst (handle_validated E msg s)))" for s
    using p q by (simp add: handle_validated_def split: option.split)
  from this[of "s\<lparr>sx_guard := g\<rparr>" for g] show ?thesis
    by (auto simp: handle_ipfs_message_def split: option.split sum.split prod.split bool.split)
qed

lemma limited_keeps:
  assumes "\<And>w'. late w = Some w' \<Longrightarrow> node_keeps K w w'" and "\<And>w' r. f w = (w', r) \<Longrightarrow> node_keeps K w w'"
  shows "limited late f w = (w', b) \<Longrightarrow> node_keeps K w w'"
  using assms by (auto simp: limited_def split: option.splits prod.splits sum.splits)

lemma own_document_keeps:
  assumes "publisher_keeps K E" and "do_publish_own_document (pb_publisher E) slug doc key settings pin over w = (w', r)"
  shows "node_keeps K w w'"
proof -
  have "op_publish (pb_publisher E) d k opts w = (w1, b) \<Longrightarrow> node_keeps K w w1" for d k opts w1 b
    using assms(1) unfolding publisher_keeps_def by (metis fst_conv)
  with assms(2) show ?thesis
    by (auto simp: do_publish_own_document_def split: option.splits if_splits prod.splits bool.splits)
qed

lemma republish_keeps:
  assumes "publisher_keeps K E" and "republish_advance E fin task R (w, s) = (task', R', (w', s'))"
  shows "node_keeps K w w'"
proof -
  have d: "node_keeps K w w1" if "publish_did_document E doc key pin over w = (w1, b1)" for doc key pin over w1 b1
    using that assms(1) unfolding publish_did_document_def
    by (elim limited_keeps[rotated 2]) (auto simp: publisher_keeps_def intro: own_document_keeps[OF assms(1)])
  have i: "node_keeps K w w2" if "publish_runtime_ipns E root w = (w2, b2)" for root w2 b2
    using that assms(1) unfolding publish_runtime_ipns_def
    by (elim limited_keeps[rotated 2]) (auto simp: publisher_keeps_def intro: publish_root_keeps)
  show ?thesis
    using assms(2) by (cases task) (auto dest!: d i split: if_splits prod.splits)
qed

section \<open>Operations of the writer\<close>

text \<open>They leave a manifest the node has, with the configuration of the one before.\<close>

definition writer_keeps :: "'w kubo \<Rightarrow> ('w \<Rightarrow> writer \<Rightarrow> 'w \<times> writer \<times> 'e) \<Rightarrow> bool" where
  "writer_keeps K f \<longleftrightarrow>
     (\<forall>w s m. coherent K (w, s) \<longrightarrow> current K (w, s) = Some m \<longrightarrow>
        (case f w s of (w', s', r) \<Rightarrow> coherent K (w', s') \<and> (\<exists>m'. current K (w', s') = Some m' \<and> rm_config m' = rm_config m)))"

lemma update_entity_keeps: "writer_keeps K (update_entity_node K name f)"
  unfolding writer_keeps_def
proof (intro allI impI)
  fix w s m
  assume c: "coherent K (w, s)" "current K (w, s) = Some m"
  obtain w' s' r where u: "update_entity_node K name f w s = (w', s', r)" using prod_cases3 by blast
  have "coherent K (w', s') \<and> (\<exists>m'. current K (w', s') = Some m' \<and> rm_config m' = rm_config m)"
  proof (cases r)
    case (Inl e)
    from update_entity_err[OF c(1) u[unfolded Inl]] keeps_current[of K w w' s' s m] c(2) show ?thesis by auto
  next
    case (Inr x)
    from update_entity_ok[OF c(1) u[unfolded Inr]] c(2) show ?thesis by (auto split: if_splits)
  qed
  with u show "case update_entity_node K name f w s of (w', s', r) \<Rightarrow>
      coherent K (w', s') \<and> (\<exists>m'. current K (w', s') = Some m' \<and> rm_config m' = rm_config m)" by simp
qed

lemma entity_writers_keep:
  "writer_keeps K (set_entity_state K name c)" "writer_keeps K (set_entity_behaviour K name b)"
  "writer_keeps K (set_entity_reload_error K name reason)" "writer_keeps K (complete_entity_reload K name c')"
  by (simp_all add: set_entity_state_def set_entity_behaviour_def set_entity_reload_error_def complete_entity_reload_def
      update_entity_keeps)

lemma insert_entity_keeps: "writer_keeps K (insert_entity K name node)"
  unfolding writer_keeps_def
proof (intro allI impI)
  fix w s m
  assume c: "coherent K (w, s)" "current K (w, s) = Some m"
  then have ok: "kubo_ok K" by (simp add: coherent_def)
  obtain w1 ec where p: "dag_put_entity K w node = (w1, ec)" by fastforce
  note k = kubo_okD(3)[OF ok p]
  have c1: "coherent K (w1, s)" "current K (w1, s) = Some m"
    using keeps_coherent[OF c(1) k] keeps_current[OF k _ c(2)] by simp_all
  show "case insert_entity K name node w s of (w', s', r) \<Rightarrow>
      coherent K (w', s') \<and> (\<exists>m'. current K (w', s') = Some m' \<and> rm_config m' = rm_config m)"
  proof (cases ec)
    case None
    with p c1 show ?thesis by (simp add: insert_entity_def)
  next
    case (Some e)
    obtain w2 s2 r where mu: "mutate K (insert_entry name e) w1 s = (w2, s2, r)" using prod_cases3 by blast
    show ?thesis
    proof (cases r)
      case (Inl er)
      from mutate_err[OF c1(1) mu[unfolded Inl]] keeps_current[of K w1 w2 s2 s m] c1(2) p Some mu Inl show ?thesis
        by (simp add: insert_entity_def)
    next
      case (Inr x)
      from mutate_ok[OF c1(1) mu[unfolded Inr]] c1(2) p Some mu Inr show ?thesis
        by (auto simp: insert_entity_def insert_entry_def)
    qed
  qed
qed

lemma settings_writer:
  assumes "writer_keeps (ce_kubo E) f" and "settings_inv E P Q (w, s)" and "f w (ct_writer s) = (w', wr, r)"
  shows "settings_inv E P Q (w', s\<lparr>ct_writer := wr\<rparr>)"
  using assms unfolding writer_keeps_def settings_inv_def by (fastforce split: prod.splits)

lemma settings_world:
  assumes "settings_inv E P Q (w, s)" and "node_keeps (ce_kubo E) w w'"
  shows "settings_inv E P Q (w', s)"
proof -
  obtain m where m: "coherent (ce_kubo E) (w, ct_writer s)" "current (ce_kubo E) (w, ct_writer s) = Some m" "P (rm_config m)"
    using assms(1) by (auto simp: settings_inv_def)
  from keeps_coherent[OF m(1) assms(2)] keeps_current[OF assms(2) _ m(2)] m(3) assms(1) show ?thesis
    by (auto simp: settings_inv_def)
qed

lemma settings_same:
  "ct_writer s' = ct_writer s \<Longrightarrow> ct_config s' = ct_config s \<Longrightarrow> ct_saved s' = ct_saved s \<Longrightarrow>
   settings_inv E P Q (w, s') = settings_inv E P Q (w, s)"
  by (simp add: settings_inv_def)

section \<open>The runtime\<close>

abbreviation intact ::
  "'w runtime_env \<Rightarrow> (yaml btree_map \<Rightarrow> bool) \<Rightarrow> (daemon_config \<Rightarrow> bool) \<Rightarrow> 'w runtime \<Rightarrow> bool" where
  "intact E P Q rt \<equiv> settings_inv (re_crud E) P Q (rt_world rt, rt_svc rt)"

lemma intact_world:
  "intact E P Q rt \<Longrightarrow> node_keeps (ce_kubo (re_crud E)) (rt_world rt) w \<Longrightarrow> settings_inv (re_crud E) P Q (w, rt_svc rt)"
  by (rule settings_world)

lemma intact_plugin_ops [simp]:
  "settings_inv C P Q (w, install_plugin name h s) = settings_inv C P Q (w, s)"
  "settings_inv C P Q (w, remove_plugin name s) = settings_inv C P Q (w, s)"
  "settings_inv C P Q (w, terminate_worker old s) = settings_inv C P Q (w, s)"
  by (rule settings_same; simp add: install_plugin_def remove_plugin_def terminate_worker_def split: option.split)+

lemma intact_run_writer:
  assumes "writer_keeps (ce_kubo (re_crud E)) f" and "intact E P Q rt" and "run_writer f rt = (rt', r)"
  shows "intact E P Q rt'"
proof -
  obtain w wr x where f: "f (rt_world rt) (ct_writer (rt_svc rt)) = (w, wr, x)" using prod_cases3 by blast
  from settings_writer[OF assms(1,2) f] f assms(3) show ?thesis by (auto simp: run_writer_def)
qed

lemma intact_replies [simp]:
  "intact E P Q (fst (send_reply E' msg content rt)) = intact E P Q rt"
  "intact E P Q (fst (send_error_reply E' msg reason rt)) = intact E P Q rt"
  "intact E P Q (fst (handle_ping E' msg v rt)) = intact E P Q rt"
  by (simp_all add: handle_ping_def send_error_reply_def send_reply_def)

lemma intact_register [simp]:
  "settings_inv C P Q (w, rt_svc (register_entity name h eh rt)) = settings_inv C P Q (w, rt_svc rt)"
  by (simp add: register_entity_def)

lemma outbox_frame [simp]:
  "rt_world (enqueue_runtime E' fragment envelope rt) = rt_world rt" "rt_svc (enqueue_runtime E' fragment envelope rt) = rt_svc rt"
  "rt_world (report_create_init_error E' req rt) = rt_world rt" "rt_svc (report_create_init_error E' req rt) = rt_svc rt"
  "rt_world (spawn_persist h pending rt) = rt_world rt" "rt_svc (spawn_persist h pending rt) = rt_svc rt"
  by (simp_all add: report_create_init_error_def enqueue_runtime_def spawn_persist_def Let_def split: option.split)

lemma intact_deletions: "intact E P Q rt \<Longrightarrow> intact E P Q (process_entity_delete_requests caller ts rt)"
proof (induction ts arbitrary: rt)
  case (Cons t ts)
  have "intact E P Q (delete_entity caller t rt)"
    using Cons.prems by (simp add: delete_entity_def split: option.split)
  from Cons.IH[OF this] show ?case by (simp add: process_entity_delete_requests_def)
qed (simp add: process_entity_delete_requests_def)

lemma intact_root_publish:
  assumes "workers_keep E" and "intact E P Q rt"
  shows "intact E P Q (fst (handle_root_publish E msg rt))"
  using assms(2) intact_world[OF assms(2)] workers_keepD(6)[OF assms(1)]
  by (auto simp: handle_root_publish_def split: option.split prod.split sum.split)

lemma intact_save_current:
  assumes "workers_keep E" and "intact E P Q rt" and "save_current_state E fragment running rt = (rt', r)"
  shows "intact E P Q rt'"
  using assms(2,3) intact_world[OF assms(2)] workers_keepD(3)[OF assms(1)]
    intact_run_writer[OF entity_writers_keep(1), of E P Q "rt\<lparr>rt_world := w\<rparr>" fragment for w]
  by (fastforce simp: save_current_state_def split: option.splits prod.splits sum.splits)

lemma intact_install_behaviour:
  assumes "workers_keep E" and "intact E P Q rt"
  shows "intact E P Q (fst (install_behaviour E fragment behaviour running h eh rt))"
proof -
  let ?K = "ce_kubo (re_crud E)"
  obtain w1 saved where t: "re_trigger_save E h (rt_world rt) = (w1, saved)" by fastforce
  obtain rt2 r where u: "run_writer (set_entity_behaviour ?K fragment behaviour) (rt\<lparr>rt_world := w1\<rparr>) = (rt2, r)" by fastforce
  have i1: "intact E P Q (rt\<lparr>rt_world := w1\<rparr>)" using intact_world[OF assms(2) workers_keepD(4)[OF assms(1) t]] by simp
  have i2: "intact E P Q rt2" by (rule intact_run_writer[OF entity_writers_keep(2) i1 u])
  have i3: "intact E P Q (fst (run_writer (set_entity_state ?K fragment c) rt2))" for c
    by (rule intact_run_writer[OF entity_writers_keep(1) i2 surjective_pairing])
  from i2 i3 t u show ?thesis
    by (simp add: install_behaviour_def Let_def split: sum.split option.split)
qed

lemma intact_behaviour:
  assumes "workers_keep E" and "intact E P Q rt"
  shows "intact E P Q (fst (apply_behaviour_request E req rt))"
proof -
  have 1: "intact E P Q rt1" if "save_current_state E f r rt = (rt1, x)" for f r rt1 x
    by (rule intact_save_current[OF assms that])
  have 2: "settings_inv (re_crud E) P Q (w, rt_svc rt1)" if "intact E P Q rt1" "re_load_retry E a (rt_world rt1) = (w, x)" for rt1 a w x
    by (rule intact_world[OF that(1) workers_keepD(2)[OF assms(1) that(2)]])
  have 3: "intact E P Q (fst (install_behaviour E f b running h eh (rt1\<lparr>rt_world := w\<rparr>)))"
    if "intact E P Q rt1" "re_load_retry E a (rt_world rt1) = (w, x)" for rt1 a w x f b running h eh
    using intact_install_behaviour[OF assms(1), of P Q "rt1\<lparr>rt_world := w\<rparr>"] 2[OF that] by simp
  from assms(2) show ?thesis
    by (auto simp: apply_behaviour_request_def Let_def dest!: 1 dest: 2 intro: 3
        split: option.split prod.split sum.split)
qed

lemma intact_behaviours:
  "workers_keep E \<Longrightarrow> intact E P Q rt \<Longrightarrow> intact E P Q (fst (apply_behaviour_requests E reqs rt))"
proof (induction reqs arbitrary: rt)
  case (Cons req reqs)
  have "intact E P Q rt1" if "apply_behaviour_request E req rt = (rt1, x)" for rt1 x
    using intact_behaviour[OF Cons.prems, of req] that by simp
  with Cons show ?case by (auto split: prod.split sum.split)
qed simp

lemma intact_finish_created:
  assumes "workers_keep E" and "intact E P Q rt"
  shows "intact E P Q (finish_created_entity E req node h eh rt)"
  using intact_world[OF assms(2)] workers_keepD(4)[OF assms(1)]
  by (auto simp: finish_created_entity_def Let_def split: prod.split)

lemma intact_create:
  assumes "workers_keep E" and "intact E P Q rt"
  shows "intact E P Q (fst (create_entity_from_request E creator req kind rt))"
proof -
  have w: "settings_inv (re_crud E) P Q (w, rt_svc rt)" if "re_load E a (rt_world rt) = (w, x)" for a w x
    by (rule intact_world[OF assms(2) workers_keepD(1)[OF assms(1) that]])
  have f: "intact E P Q (finish_created_entity E req node h eh (rt\<lparr>rt_world := w\<rparr>))"
    if "re_load E a (rt_world rt) = (w, x)" for a w x node h eh
    using intact_finish_created[OF assms(1), of P Q "rt\<lparr>rt_world := w\<rparr>"] w[OF that] by simp
  from assms(2) w f show ?thesis
    by (auto simp: create_entity_from_request_def Let_def split: sum.split prod.split lifecycle.split)
qed

lemma intact_creates:
  "workers_keep E \<Longrightarrow> intact E P Q rt \<Longrightarrow> intact E P Q (fst (process_entity_create_requests E creator reqs rt))"
proof (induction reqs arbitrary: rt)
  case (Cons req reqs)
  have "intact E P Q rt1" if "create_entity_from_request E creator req k rt = (rt1, x)" for k rt1 x
    using intact_create[OF Cons.prems, of creator req k] that by simp
  with Cons show ?case by (auto split: prod.split sum.split option.split)
qed simp

lemma intact_dispatch_entity:
  assumes "workers_keep E" and "intact E P Q rt"
  shows "intact E P Q (fst (dispatch_entity_message E msg v h rt))"
proof -
  have 0: "intact E P Q (spawn_persist h pend (rt\<lparr>rt_world := w\<rparr>))" if "re_on_message E h m (rt_world rt) = (w, x)" for m w x pend
    using intact_world[OF assms(2) workers_keepD(5)[OF assms(1) that]] by simp
  have 1: "intact E P Q rt1" if "process_entity_create_requests E c rs rt0 = (rt1, x)" "intact E P Q rt0" for rt0 rt1 x c rs
    using intact_creates[OF assms(1) that(2), of c rs] that(1) by simp
  have 2: "intact E P Q rt2" if "apply_behaviour_requests E rs rt1 = (rt2, x)" "intact E P Q rt1" for rt1 rt2 x rs
    using intact_behaviours[OF assms(1) that(2), of rs] that(1) by simp
  show ?thesis
  proof (cases "enforce_entity_acl (ce_core (re_crud E)) (re_our_did E) (ct_acl_cache (rt_svc rt)) (ct_group_cache (rt_svc rt))
      (eh_acl (rt_handles rt h)) (lm_from msg) (term_verb v)")
    case (Inl e)
    with assms(2) show ?thesis by (simp add: dispatch_entity_message_def Let_def)
  next
    case (Inr u)
    obtain w r where o: "re_on_message E h (dispatched_message msg (re_encode E v)) (rt_world rt) = (w, r)" by fastforce
    show ?thesis
    proof (cases r)
      case (Inl e)
      with Inr o intact_world[OF assms(2) workers_keepD(5)[OF assms(1) o]] show ?thesis
        by (simp add: dispatch_entity_message_def Let_def)
    next
      case (Inr dr)
      obtain rt1 x where c: "process_entity_create_requests E (rt_handles rt h) (dr_create dr)
          (spawn_persist h (dr_pending dr) (rt\<lparr>rt_world := w\<rparr>)) = (rt1, x)" by fastforce
      have i1: "intact E P Q rt1" by (rule 1[OF c 0[OF o]])
      obtain rt2 y where b: "apply_behaviour_requests E (dr_behaviour dr)
          (process_entity_delete_requests (rt_handles rt h) (dr_delete dr) rt1) = (rt2, y)" by fastforce
      have "intact E P Q rt2" by (rule 2[OF b intact_deletions[OF i1]])
      with i1 \<open>r = Inr dr\<close> Inr o c b \<open>enforce_entity_acl _ _ _ _ _ _ _ = Inr u\<close> show ?thesis
        by (simp add: dispatch_entity_message_def Let_def split: sum.split)
    qed
  qed
qed

lemma intact_dispatch:
  assumes "workers_keep E" and "intact E P Q rt"
  shows "intact E P Q (fst (dispatch_actor_message E msg rt))"
proof -
  have d: "intact E P Q rt1" if "dispatch_entity_message E msg v h rt = (rt1, x)" for rt1 x v h
    using intact_dispatch_entity[OF assms, of msg v h] that by simp
  have r: "intact E P Q (fst (handle_root_publish E msg rt))" by (rule intact_root_publish[OF assms])
  have "intact E P Q (fst (case dispatch_entity_message E msg v h rt of
          (rt', Inr (Some content)) \<Rightarrow> send_reply E msg content rt' | (rt', Inr None) \<Rightarrow> (rt', Inr ())
        | (rt', Inl e) \<Rightarrow> (rt', Inr ())))" for v h
    by (auto simp: d split: prod.split sum.split option.split)
  with r assms(2) show ?thesis
    by (simp add: dispatch_actor_message_def split: option.split)
qed

lemma intact_handle_create:
  assumes "workers_keep E" and "intact E P Q rt"
  shows "intact E P Q (handle_create_request E (\<lambda>rt. rt) creator req rt)"
proof -
  have w: "settings_inv (re_crud E) P Q (w, rt_svc rt)" if "re_load_retry E a (rt_world rt) = (w, x)" for a w x
    by (rule intact_world[OF assms(2) workers_keepD(2)[OF assms(1) that]])
  have g: "intact E P Q rt2" if "register_created_entity f h eh rt1 = (rt2, b)" "intact E P Q rt1" for f h eh rt1 rt2 b
    using that by (auto simp: register_created_entity_def insert_if_absent_def settings_inv_def split: if_splits)
  have f: "intact E P Q (finish_create_request E req node loaded rt1)" if "intact E P Q rt1" for node loaded rt1
  proof (cases loaded)
    case (Inr x)
    obtain h eh lc where x: "x = (h, eh, lc)" using prod_cases3 by blast
    obtain w saved where t: "re_trigger_save E h (rt_world rt1) = (w, saved)" by fastforce
    obtain rt2 b where r: "register_created_entity (cr_fragment req) h eh (rt1\<lparr>rt_world := w\<rparr>) = (rt2, b)" by fastforce
    have "intact E P Q rt2" by (rule g[OF r]) (use intact_world[OF that workers_keepD(4)[OF assms(1) t]] in simp)
    with that Inr x t r show ?thesis by (cases lc) (simp_all add: finish_create_request_def Let_def)
  qed (use that in \<open>simp add: finish_create_request_def\<close>)
  from assms(2) w f show ?thesis
    by (auto simp: handle_create_request_def Let_def split: option.split sum.split prod.split)
qed

lemma intact_local:
  assumes "workers_keep E" and "intact E P Q rt"
  shows "intact E P Q (dispatch_local_plugin_envelope E (\<lambda>rt. rt) registry mid now t rt)"
proof -
  have f: "intact E P Q rt0 \<Longrightarrow> intact E P Q (fold (handle_create_request E (\<lambda>rt. rt) creator) reqs rt0)" for creator reqs rt0
    by (induction reqs arbitrary: rt0) (simp_all add: intact_handle_create[OF assms(1)])
  have w: "settings_inv (re_crud E) P Q (w, rt_svc rt)" if "re_on_message E h m (rt_world rt) = (w, x)" for h m w x
    by (rule intact_world[OF assms(2) workers_keepD(5)[OF assms(1) that]])
  have s: "intact E P Q (spawn_persist h p (rt\<lparr>rt_world := w\<rparr>))" if "settings_inv (re_crud E) P Q (w, rt_svc rt)" for h p w
    using that by simp
  from assms(2) show ?thesis
    by (auto simp: dispatch_local_plugin_envelope_def dest!: w intro!: f s split: option.split sum.split prod.split)
qed

lemma intact_schedule:
  assumes "workers_keep E" and "intact E P Q rt"
  shows "intact E P Q (fire_schedule E fragment msg rt)"
proof (cases "map_of (plugins rt) fragment")
  case (Some h)
  obtain w r where o: "re_on_message E h msg (rt_world rt) = (w, r)" by fastforce
  from intact_world[OF assms(2) workers_keepD(5)[OF assms(1) o]] Some o show ?thesis
    by (simp add: fire_schedule_def Let_def split: dispatch_outcome.split)
qed (use assms(2) in \<open>simp add: fire_schedule_def\<close>)

section \<open>Reloads, the shutdown and the publication\<close>

lemma settings_mark_failed:
  assumes "settings_inv E P Q ws"
  shows "settings_inv E P Q (mark_entity_reload_failed E name reason ws)"
proof -
  obtain w s where ws: "ws = (w, s)" by fastforce
  obtain w' wr r where f: "set_entity_reload_error (ce_kubo E) name (Some reason) w (ct_writer s) = (w', wr, r)"
    using prod_cases3 by blast
  from settings_writer[OF entity_writers_keep(3) assms[unfolded ws] f] f ws show ?thesis
    by (simp add: mark_entity_reload_failed_def)
qed

lemma settings_prepare_reload:
  assumes "settings_inv E P Q ws" and "prepare_reload E msg name node saved ws = (ws', r)"
  shows "settings_inv E P Q ws'"
proof -
  have 1: "settings_inv E P Q ws1" if "resolve_kind_node_for_reload E msg name k ws = (ws1, x)" for ws1 k x
    using that assms(1) settings_mark_failed[of E P Q ws name]
    by (cases ws) (auto simp: resolve_kind_node_for_reload_def Let_def split: option.splits if_splits sum.splits)
  have 2: "settings_inv E P Q (fst (reread_entity E msg name ws1))" if "settings_inv E P Q ws1" for ws1
    using that settings_mark_failed[of E P Q ws1 name]
    by (cases ws1) (auto simp: reread_entity_def split: sum.split)
  have 3: "settings_inv E P Q ws2" if "refresh_entity_before_reload E msg name saved ws1 = (ws2, x)" "settings_inv E P Q ws1" for ws1 ws2 x
  proof -
    obtain w s where ws1: "ws1 = (w, s)" by fastforce
    have wr: "settings_inv E P Q (w', s\<lparr>ct_writer := wr\<rparr>)"
      if "set_entity_state (ce_kubo E) name c w (ct_writer s) = (w', wr, y)" for c w' wr y
      by (rule settings_writer[OF entity_writers_keep(1) _ that]) (use \<open>settings_inv E P Q ws1\<close> ws1 in simp)
    have "settings_inv E P Q (fst (refresh_entity_before_reload E msg name saved ws1))"
      using that(2) 2 wr settings_mark_failed[of E P Q _ name] ws1
      by (auto simp: refresh_entity_before_reload_def split: sum.split option.split prod.split)
    with that(1) show ?thesis by simp
  qed
  from assms(2) show ?thesis
    by (auto simp: prepare_reload_def dest: 1 3 split: option.splits prod.splits)
qed

lemma settings_finish_reload:
  assumes "settings_inv E P Q (w, s)"
  shows "settings_inv E P Q (finish_reload E name old result replacement (w, s))"
proof -
  have m: "settings_inv E P Q (mark_entity_reload_failed E name reason (w, terminate_worker old (remove_plugin name s)))" for reason
    by (rule settings_mark_failed) (use assms in simp)
  have c: "settings_inv E P Q (w', (terminate_worker old (install_plugin name h s))\<lparr>ct_writer := wr\<rparr>)"
    if "complete_entity_reload (ce_kubo E) name replacement w (ct_writer s) = (w', wr, r)" for h w' wr r
    by (rule settings_writer[OF entity_writers_keep(4), where w = w]) (use assms that in simp_all)
  from assms m c show ?thesis
    by (auto simp: finish_reload_def Let_def split: sum.split prod.split)
qed

lemma save_entity_config: "save_entity E (name, h) m p = (p1, Inr m1) \<Longrightarrow> rm_config m1 = rm_config m"
  by (auto simp: save_entity_def Let_def split: if_splits option.splits prod.splits sum.splits)

lemma save_entities_config: "save_entities E es m p = (p1, Inr m1) \<Longrightarrow> rm_config m1 = rm_config m"
proof (induction es arbitrary: m p)
  case (Cons e es)
  obtain name h where e: "e = (name, h)" by fastforce
  from Cons.prems obtain p2 m2 where "save_entity E e m p = (p2, Inr m2)" "save_entities E es m2 p2 = (p1, Inr m1)"
    by (auto split: prod.splits sum.splits)
  with Cons.IH save_entity_config e show ?case by metis
qed simp

text \<open>A configuration predicate that also allows the head to be written.\<close>

locale daemon_contract = config_contract +
  assumes Q_root: "Q cfg \<Longrightarrow> Q (cfg\<lparr>dc_extra := AList.update ''root_cid'' (YString root) (dc_extra cfg)\<rparr>)"
begin

lemma settings_persist_root: "settings_inv E P Q (w, s) \<Longrightarrow> settings_inv E P Q (w, persist_root_cid root s)"
  by (auto simp: settings_inv_def persist_root_cid_def Let_def Q_root)

lemma settings_republish:
  assumes "publisher_keeps (ce_kubo C) E" and "settings_inv C P Q (w, s)"
    and "republish_advance E fin task R (w, s) = (task', R', (w', s'))"
  shows "settings_inv C P Q (w', s')"
proof -
  have w: "settings_inv C P Q (w', s)" by (rule settings_world[OF assms(2) republish_keeps[OF assms(1,3)]])
  have "s' = s \<or> (\<exists>root. s' = persist_root_cid root s)"
    using assms(3) by (cases task) (auto split: if_splits prod.splits)
  then show ?thesis using w settings_persist_root by auto
qed

lemma settings_publish_stop:
  assumes "ce_kubo C = pool_kubo (st_kubo S)" and "\<forall>c w. node_keeps (st_kubo S) w (fst (st_publish S c w))"
    and "settings_inv C P Q (p, s)"
  shows "settings_inv C P Q (fst (publish_and_stop S rc p s))"
proof -
  have "settings_inv C P Q (put_pool_world w p, s)" if "st_publish S c (pool_world p) = (w, b)" for c w b
    by (rule settings_world[OF assms(3)]) (use assms(1,2) that in \<open>simp, metis fst_conv\<close>)
  then show ?thesis
    by (auto simp: publish_and_stop_def Let_def intro: settings_persist_root split: prod.split)
qed

lemma settings_shutdown:
  assumes "kubo_ok (st_kubo S)" and "ce_kubo C = pool_kubo (st_kubo S)" and "\<forall>h. draws_keep (st_kubo S) (st_host S h)"
    and "\<forall>c w. node_keeps (st_kubo S) w (fst (st_publish S c w))" and "settings_inv C P Q (p, s)"
  shows "settings_inv C P Q (fst (handle_shutdown S p s))"
proof -
  obtain m where m: "coherent (st_kubo S) (pool_world p, ct_writer s)" "current (st_kubo S) (pool_world p, ct_writer s) = Some m"
    "P (rm_config m)" "Q (ct_config s)" "\<forall>cfg\<in>set (ct_saved s). Q cfg"
    using assms(5) by (auto simp: settings_inv_def assms(2) coherent_pool[OF assms(1)])
  note pub = settings_publish_stop[OF assms(2,4)]
  obtain p1 wr r where a: "save_all_entity_states S (ct_plugins s) p (ct_writer s) = (p1, wr, r)" using prod_cases3 by blast
  have "settings_inv C P Q (fst (case save_all_entity_states S (ct_plugins s) p (ct_writer s) of
          (p1, wr, Inl e) \<Rightarrow> ((p1, s\<lparr>ct_writer := wr\<rparr>), False)
        | (p1, wr, Inr c) \<Rightarrow> publish_and_stop S rc p1 (s\<lparr>ct_writer := wr\<lparr>mw_root_cid := Some c\<rparr>\<rparr>)))" for rc
  proof (cases r)
    case (Inl e)
    from save_all_err[OF a[unfolded Inl] m(1) assms(3)] keeps_current[of "st_kubo S" "pool_world p" "pool_world p1" wr "ct_writer s" m] m
    have "settings_inv C P Q (p1, s\<lparr>ct_writer := wr\<rparr>)"
      by (auto simp: settings_inv_def assms(2) coherent_pool[OF assms(1)])
    with a Inl show ?thesis by simp
  next
    case (Inr c)
    obtain m0 m1 p0 where k: "current (st_kubo S) (pool_world p, ct_writer s) = Some m0"
      "save_entities S (ct_plugins s) m0 p = (p0, Inr m1)" "current (st_kubo S) (pool_world p1, wr) = Some m1"
      "coherent (st_kubo S) (pool_world p1, wr)" "mw_cid wr = c"
      using save_all_ok[OF a[unfolded Inr] m(1)] by blast
    then have "mw_root_cid wr = Some c" by (simp add: coherent_def)
    then have "wr\<lparr>mw_root_cid := Some c\<rparr> = wr" by simp
    with k m save_entities_config[OF k(2)] have "settings_inv C P Q (p1, s\<lparr>ct_writer := wr\<lparr>mw_root_cid := Some c\<rparr>\<rparr>)"
      by (auto simp: settings_inv_def assms(2) coherent_pool[OF assms(1)])
    from pub[OF this] a Inr show ?thesis by simp
  qed
  with assms(5) pub show ?thesis by (simp add: handle_shutdown_def split: option.split)
qed

text \<open>The daemon's invariant, and that every step keeps it.\<close>

definition sound :: "('g, 'v, 'r, 'd, 'p) daemon_env \<Rightarrow> ('g, 'v, 'r, 'd) daemon \<Rightarrow> bool" where
  "sound E D = intact (dv_runtime E) P Q (dn_runtime D)"

lemma sound_same: "sound E (with_runtime rt D) = intact (dv_runtime E) P Q rt"
  by (simp add: sound_def with_runtime_def)

lemma sound_ipfs:
  assumes "world_ok E" and "sound E D"
  shows "sound E (drain_ipfs_message E msg D)"
proof (cases "dn_service (note_contact E (lm_from msg) D)")
  case (Some sv)
  let ?rt = "dn_runtime D"
  let ?S = "(dv_service E)\<lparr>sv_groups := ct_group_cache (rt_svc ?rt)\<rparr>"
  obtain sv' r where h: "handle_ipfs_message ?S (ct_root_acl (rt_svc ?rt)) msg (sv\<lparr>sx_world := rt_world ?rt\<rparr>) = (sv', r)" by fastforce
  have k: "ipns_keeps (ce_kubo (re_crud (dv_runtime E))) (sv_node ?S)" using world_okD(6)[OF assms(1)] by simp
  have "node_keeps (ce_kubo (re_crud (dv_runtime E))) (rt_world ?rt) (sx_world sv')"
    using ipfs_message_keeps[OF k, of "sv\<lparr>sx_world := rt_world ?rt\<rparr>" "ct_root_acl (rt_svc ?rt)" msg] h by simp
  with assms(2) have "settings_inv (re_crud (dv_runtime E)) P Q (sx_world sv', rt_svc ?rt)"
    unfolding sound_def by (rule intact_world)
  with Some h show ?thesis by (simp add: drain_ipfs_message_def sound_def Let_def)
qed (use assms(2) in \<open>simp add: drain_ipfs_message_def sound_def Let_def\<close>)

lemma sound_crud:
  assumes "sound E D"
  shows "sound E (drain_crud_message E msg D)"
proof -
  let ?m = "handle_crud_message (re_crud (dv_runtime E)) (dv_order E) (ct_root_acl (dn_svc D)) (crud_message_of E msg)"
  obtain w s where m: "fst (?m (rt_world (dn_runtime D), dn_svc D)) = (w, s)" by fastforce
  have "settings_inv (re_crud (dv_runtime E)) P Q (fst (?m (rt_world (dn_runtime D), dn_svc D)))"
    using keeps_message assms unfolding crud_keeps_def sound_def by blast
  with m show ?thesis
    by (simp add: drain_crud_message_def service_step_def sound_def with_runtime_def Let_def)
qed

lemma sound_step:
  assumes "daemon_step E l D D'" and "world_ok E" and "sound E D"
  shows "sound E D'"
proof -
  let ?C = "re_crud (dv_runtime E)"
  note wk = world_okD(5)[OF assms(2)] and pk = world_okD(7)[OF assms(2)] and bg = world_okD(8)[OF assms(2)]
  from assms(1,3) show ?thesis
  proof (induction rule: daemon_step.induct)
    case (ipfs D msg)
    then show ?case by (simp add: sound_ipfs[OF assms(2)])
  next
    case (crud D msg)
    then show ?case by (simp add: sound_crud)
  next
    case (stop D)
    have "settings_inv ?C P Q (fst (handle_shutdown (dv_stop E) (rt_world (dn_runtime D)) (dn_svc D)))"
      by (rule settings_shutdown[OF world_okD(1-4)[OF assms(2)] stop(2)[unfolded sound_def]])
    then show ?case by (auto simp: stop_signal_def Let_def sound_def split: prod.split)
  next
    case (dispatch msg D)
    then show ?case using intact_dispatch[OF wk, of P Q "dn_runtime D" msg] by (simp add: sound_def with_runtime_def)
  next
    case (local t D registry mid now)
    then show ?case using intact_local[OF wk, of P Q "dn_runtime D" registry mid now t] by (simp add: sound_def with_runtime_def)
  next
    case (background D w)
    then show ?case using settings_world[OF _ bg] by (auto simp: sound_def with_runtime_def)
  next
    case (reload_begin name node D w saved w' s' r)
    have "settings_inv ?C P Q (w, dn_svc D)" using reload_begin settings_world[OF _ bg] by (simp add: sound_def)
    from settings_prepare_reload[OF this reload_begin(3)] show ?case
      by (simp add: sound_def with_runtime_def settings_inv_def)
  next
    case (reload_end name old D w result replacement w' s' h eh)
    have "settings_inv ?C P Q (w, dn_svc D)" using reload_end settings_world[OF _ bg] by (simp add: sound_def)
    from settings_finish_reload[OF this, of name old result replacement] reload_end(3) show ?case
      by (simp add: sound_def with_runtime_def)
  next
    case (persist h b D w' wr ok)
    let ?K = "ce_kubo ?C"
    obtain w1 c where a: "add_bytes_unpinned ?K (rt_world (dn_runtime D)) b = (w1, c)" by fastforce
    have "kubo_ok ?K" using persist(3) by (auto simp: sound_def settings_inv_def coherent_def)
    then have "node_keeps ?K (rt_world (dn_runtime D)) w1" using a unfolding kubo_ok_def by (metis fst_conv)
    with persist(3) have w1: "settings_inv ?C P Q (w1, dn_svc D)" unfolding sound_def by (auto intro: settings_world)
    have wr: "settings_inv ?C P Q (w2, (dn_svc D)\<lparr>ct_writer := wr2\<rparr>)"
      if "set_entity_state ?K name c' w1 (ct_writer (dn_svc D)) = (w2, wr2, r)" for name c' w2 wr2 r
      by (rule settings_writer[OF entity_writers_keep(1) w1 that])
    have same: "(dn_svc D)\<lparr>ct_writer := ct_writer (dn_svc D)\<rparr> = dn_svc D" by simp
    have "settings_inv ?C P Q (w', (dn_svc D)\<lparr>ct_writer := wr\<rparr>)"
      using persist(2) a w1 wr same by (auto simp: publish_state_def split: option.splits prod.splits sum.splits)
    then show ?case by (simp add: sound_def with_runtime_def)
  next
    case (insert name node D)
    then show ?case
      using intact_run_writer[OF insert_entity_keeps _ surjective_pairing, of "dv_runtime E" P Q "dn_runtime D" name node]
      by (simp add: sound_def with_runtime_def)
  next
    case (schedule D fragment msg)
    then show ?case using intact_schedule[OF wk] by (simp add: sound_def with_runtime_def)
  next
    case (publish_advance fin D task R w s)
    then show ?case using settings_republish[OF pk _ publish_advance(1)] by (simp add: sound_def with_runtime_def)
  next
    case (claim body D)
    then show ?case by (simp add: sound_def)
  next
    case (owner work D)
    then show ?case by (simp add: claim_continue_def with_claim_def sound_def settings_inv_def Let_def split: claim_work.split)
  qed (simp_all add: sound_def with_runtime_def drain_inbox_message_def drain_envelopes_def Let_def)
qed

lemma sound_run: "daemon_run E D ls D' \<Longrightarrow> world_ok E \<Longrightarrow> sound E D \<Longrightarrow> sound E D'"
  by (induction rule: daemon_run.induct) (auto dest: sound_step)

end

interpretation kept: daemon_contract config_typed daemon_typed
  by unfold_locales (simp add: daemon_typed_def map_of_update)

interpretation others_kept: daemon_contract "\<lambda>_. True" "other_keys_as cfg0" for cfg0
  by unfold_locales (simp add: other_keys_as_def DAEMON_CONFIG_KEYS_def map_of_update)

section \<open>A world for the witnesses\<close>

definition pool_env :: "(nat, doc list) pool crud_env" where
  "pool_env = \<lparr>ce_kubo = pool_kubo mem_kubo, ce_core = sample_core, ce_fmt = ce_fmt sample_env, ce_cidv1 = ce_cidv1 sample_env,
     ce_entity_cbor = ce_entity_cbor sample_env, ce_decode = ce_decode sample_env\<rparr>"

definition quiet_node :: "(nat, doc list) pool ipns_node" where
  "quiet_node = \<lparr>nd_key_list = (\<lambda>_. None), nd_key_import = (\<lambda>p name b. (p, None)), nd_name_publish = (\<lambda>p arg name. (p, None)),
     nd_name_resolve = (\<lambda>p arg. None), nd_dag_put_cbor = (\<lambda>p b. (p, None)), nd_dag_put_json = (\<lambda>p v. (p, None)),
     nd_add_unpinned = (\<lambda>p b. (p, None)), nd_pin_add = (\<lambda>p c. (p, True)), nd_pin_update = (\<lambda>p old c. (p, True))\<rparr>"

definition pool_runtime_env :: "(nat, doc list) pool runtime_env" where
  "pool_runtime_env = \<lparr>re_crud = pool_env, re_did = split_did, re_our_did = ''did:ma:us'', re_capacity = 16,
     re_node_id = [], re_started_at = 0, re_load = (\<lambda>a p. (p, Inr (8, new_handle a False, Running))),
     re_load_retry = (\<lambda>a p. (p, Inr (8, new_handle a False, Running))), re_prepare_save = (\<lambda>h p. (p, Inr None)),
     re_trigger_save = (\<lambda>h p. (p, Inr None)),
     re_on_message = (\<lambda>h m p. (p, Inr \<lparr>dr_output = [], dr_pending = Some [7], dr_create = [], dr_delete = [], dr_behaviour = []\<rparr>)),
     re_reply_ok = (\<lambda>_. True), re_publish_root = (\<lambda>c p. (p, Inr ())), re_encode = (\<lambda>_. [1]),
     re_decode = (\<lambda>_. Some (CText '':help''))\<rparr>"

definition pool_republish :: "((nat, doc list) pool, bytes) republish_env" where
  "pool_republish = \<lparr>pb_is_cid = (\<lambda>_. True), pb_bundle = None, pb_rfc3339 = (\<lambda>_. None), pb_build = (\<lambda>bundle root. Some [1]),
     pb_encode = Some,
     pb_publisher = \<lparr>op_decode = Some, op_validate = (\<lambda>_. True), op_verify = (\<lambda>_. True), op_create = True, op_ready = (\<lambda>_. True),
       op_publish = (\<lambda>doc key options p. (p, True))\<rparr>,
     pb_node = quiet_node, pb_to_protobuf = Some, pb_ipns_id_of = (\<lambda>_. None), pb_key_name_of = (\<lambda>_ _. []), pb_slug = ''ma'',
     pb_runtime_ipns_key = [], pb_settings = pb_settings sample_republish, pb_remote_of = (\<lambda>_ _. Inr None), pb_today = (2026, 8, 9),
     pb_overwrite = (\<lambda>_. False), pb_cut_did = (\<lambda>p. None), pb_cut_ipns = (\<lambda>p. None), pb_cache_warm = 60\<rparr>"

definition sample_daemon_env :: "(nat, doc list, string list, string, bytes) daemon_env" where
  "sample_daemon_env = \<lparr>dv_runtime = pool_runtime_env,
     dv_service = \<lparr>sv_node = quiet_node, sv_core = sample_core, sv_groups = [], sv_did = split_did, sv_our_did = ''did:ma:us'',
       sv_replay = (\<lambda>g m. (lm_id m # g, True)), sv_validate_publish = (\<lambda>m. None), sv_validate_store = (\<lambda>m. None), sv_key_name = (\<lambda>_. []),
       sv_to_protobuf = Some, sv_decode = (\<lambda>_. None), sv_encode = (\<lambda>_. [2]), sv_remote_pin = None, sv_remote_pin_name = id,
       sv_reply_ok = True, sv_publish_type = ''publish'', sv_store_type = ''store'', sv_cap_publish = ''identity'', sv_cap_ipfs = ''ipfs''\<rparr>,
     dv_loop = sample_loop_env, dv_stop = sample_stop, dv_publish = pool_republish, dv_payload = lm_content,
     dv_order = sorted_list_of_set, dv_crud_text = (\<lambda>_. []), dv_save_ok = (\<lambda>_. True), dv_background = (\<lambda>p p'. p' = p)\<rparr>"

lemma sample_world_ok: "world_ok sample_daemon_env"
proof -
  have n: "ipns_keeps K quiet_node" for K by (simp add: ipns_keeps_def quiet_node_def)
  have w: "workers_keep pool_runtime_env" by (simp add: workers_keep_def pool_runtime_env_def)
  have p: "publisher_keeps K pool_republish" for K using n by (simp add: publisher_keeps_def pool_republish_def)
  have s: "st_kubo sample_stop = mem_kubo" "st_host sample_stop h = sample_host" "fst (st_publish sample_stop c v) = v" for h c v
    by (simp_all add: sample_stop_def)
  have k: "ce_kubo (re_crud pool_runtime_env) = pool_kubo mem_kubo" by (simp add: pool_runtime_env_def pool_env_def)
  show ?thesis
    unfolding world_ok_def Let_def sample_daemon_env_def
    using n w p k s sample_draws mem_kubo_ok by simp
qed

section \<open>Properties\<close>



end
