(* ===== verification/Gateway.thy ===== *)
theory Gateway
  imports Bootstrap Owners CrudConfig
begin

text \<open>
  The status server (\<open>src/status.rs\<close>): what it answers to a request and what it asks the node for.  The router, the JSON
  and YAML encoders, HTTP towards the node and the \<open>/proc\<close> files are parameters; the routes are the
  constructors of \<open>http_request\<close>.
\<close>

section \<open>Text helpers\<close>

text \<open>\<open>split_whitespace().next()\<close>: the first stretch without white space.\<close>

fun until_space :: "string \<Rightarrow> string" where
  "until_space [] = []"
| "until_space (c # cs) = (if list_ex (\<lambda>w. starts_with w (c # cs)) ws_seqs then [] else c # until_space cs)"

definition first_word :: "string \<Rightarrow> string option" where
  "first_word s = (case trim_start s of [] \<Rightarrow> None | t \<Rightarrow> Some (until_space t))"

text \<open>\<open>str::parse::<u64>\<close>, which also takes a plus sign.\<close>

definition parse_u64 :: "string \<Rightarrow> u64 option" where
  "parse_u64 s =
     (let ds = (case s of c # cs \<Rightarrow> if c = CHR ''+'' then cs else s | [] \<Rightarrow> s)
      in if list_all is_ascii_digit ds then parse_u64_digits ds else None)"

definition parse_status_number :: "string \<Rightarrow> u64 option" where
  "parse_status_number v = Option.bind (first_word v) parse_u64"

text \<open>\<open>str::lines\<close>: the last line may lack its end, and a carriage return before an end is dropped.\<close>

definition text_lines :: "string \<Rightarrow> string list" where
  "text_lines s =
     (let parts = split_on (CHR 0x0A) s
      in map (\<lambda>l. if l \<noteq> [] \<and> last l = CHR 0x0D then butlast l else l) (butlast parts)
         @ (if last parts = [] then [] else [last parts]))"

definition format_opt_count :: "u64 option \<Rightarrow> string" where
  "format_opt_count v = (case v of None \<Rightarrow> ''-'' | Some n \<Rightarrow> nat_digits (unat n))"

definition format_opt_kib :: "u64 option \<Rightarrow> string" where
  "format_opt_kib v = (case v of None \<Rightarrow> ''-'' | Some n \<Rightarrow> nat_digits (unat n) @ '' KiB'')"

definition did_to_ipns_path :: "string \<Rightarrow> string option" where
  "did_to_ipns_path did = map_option (\<lambda>identity. ''/ipns/'' @ identity) (strip_prefix ''did:ma:'' did)"

section \<open>Process metrics\<close>

record process_metrics =
  pm_pid :: u64
  pm_vm_peak :: "u64 option"
  pm_vm_size :: "u64 option"
  pm_vm_rss :: "u64 option"
  pm_vm_data :: "u64 option"
  pm_threads :: "u64 option"
  pm_open_fds :: "u64 option"

definition read_status_line :: "string \<Rightarrow> process_metrics \<Rightarrow> process_metrics" where
  "read_status_line line m =
     (case strip_prefix ''VmPeak:'' line of Some v \<Rightarrow> m\<lparr>pm_vm_peak := parse_status_number v\<rparr> | None \<Rightarrow>
     (case strip_prefix ''VmSize:'' line of Some v \<Rightarrow> m\<lparr>pm_vm_size := parse_status_number v\<rparr> | None \<Rightarrow>
     (case strip_prefix ''VmRSS:'' line of Some v \<Rightarrow> m\<lparr>pm_vm_rss := parse_status_number v\<rparr> | None \<Rightarrow>
     (case strip_prefix ''VmData:'' line of Some v \<Rightarrow> m\<lparr>pm_vm_data := parse_status_number v\<rparr> | None \<Rightarrow>
     (case strip_prefix ''Threads:'' line of Some v \<Rightarrow> m\<lparr>pm_threads := parse_status_number v\<rparr> | None \<Rightarrow> m)))))"

text \<open>The arguments: the process ID, \<open>/proc/self/status\<close> and the number of entries of \<open>/proc/self/fd\<close>, if readable.\<close>

definition process_metrics_of :: "u64 \<Rightarrow> string option \<Rightarrow> u64 option \<Rightarrow> process_metrics" where
  "process_metrics_of pid status fds =
     (let m = \<lparr>pm_pid = pid, pm_vm_peak = None, pm_vm_size = None, pm_vm_rss = None, pm_vm_data = None, pm_threads = None,
               pm_open_fds = None\<rparr>;
          m1 = (case status of None \<Rightarrow> m | Some t \<Rightarrow> fold read_status_line (text_lines t) m)
      in m1\<lparr>pm_open_fds := fds\<rparr>)"

section \<open>The operator source\<close>

definition OPERATOR_CONFIG_KEY :: string where "OPERATOR_CONFIG_KEY = ''operator''"

definition default_config_string :: "string \<Rightarrow> string option" where
  "default_config_string key = (if key = OPERATOR_CONFIG_KEY then Some DEFAULT_OPERATOR_SOURCE else None)"

definition normalize_operator_source :: "string \<Rightarrow> string option" where
  "normalize_operator_source raw =
     (let v = trim_end_matches (CHR ''/'') (trim raw) in
      if v = [] then None
      else if starts_with ''/ipfs/'' v \<or> starts_with ''/ipns/'' v then Some v else Some (''/ipfs/'' @ v))"

text \<open>Without a head, or when the manifest cannot be read, the built-in default is used as it is.\<close>

definition manifest_config_string :: "'w kubo \<Rightarrow> 'w \<Rightarrow> cid option \<Rightarrow> string \<Rightarrow> string option" where
  "manifest_config_string K w root key =
     (case root of
        None \<Rightarrow> default_config_string key
      | Some c \<Rightarrow>
          (case dag_get_manifest K w c of
             None \<Rightarrow> default_config_string key
           | Some m \<Rightarrow>
               (case (case Option.bind (map_of (rm_config m) key) yaml_as_str of
                        Some v \<Rightarrow> Some v | None \<Rightarrow> default_config_string key) of
                  None \<Rightarrow> None | Some v \<Rightarrow> normalize_operator_source v)))"

definition operator_asset_path :: "string \<Rightarrow> string \<Rightarrow> string" where
  "operator_asset_path source path = trim_end_matches (CHR ''/'') source @ ''/'' @ path"

definition needs_trust_notice :: "string option \<Rightarrow> bool" where
  "needs_trust_notice source = (source = Some DEFAULT_OPERATOR_SOURCE)"

text \<open>\<open>rsplit_once('.')\<close>.\<close>

definition file_extension :: "string \<Rightarrow> string option" where
  "file_extension path = (if CHR ''.'' \<in> set path then Some (last (split_on (CHR ''.'') path)) else None)"

definition content_type_for_path :: "string \<Rightarrow> string" where
  "content_type_for_path path =
     (case file_extension path of
        None \<Rightarrow> ''application/octet-stream''
      | Some ext \<Rightarrow>
          if ext = ''css'' then ''text/css; charset=utf-8''
          else if ext = ''html'' then ''text/html; charset=utf-8''
          else if ext = ''js'' \<or> ext = ''mjs'' then ''text/javascript; charset=utf-8''
          else if ext = ''json'' then ''application/json''
          else if ext = ''wasm'' then ''application/wasm''
          else if ext = ''svg'' then ''image/svg+xml''
          else if ext = ''png'' then ''image/png''
          else if ext = ''jpg'' \<or> ext = ''jpeg'' then ''image/jpeg''
          else if ext = ''webp'' then ''image/webp''
          else if ext = ''ico'' then ''image/x-icon''
          else if ext = ''ftl'' \<or> ext = ''txt'' then ''text/plain; charset=utf-8''
          else ''application/octet-stream'')"

section \<open>Relaying from the node\<close>

text \<open>The node's answer to a request for content: no connection, a status other than success, or the bytes.\<close>

datatype fetched = Unreachable | Refused | Fetched bytes

record 'w relay_node =
  rl_cat :: "'w \<Rightarrow> string \<Rightarrow> fetched"
  rl_resolve :: "'w \<Rightarrow> string \<Rightarrow> cid option"
  rl_block :: "'w \<Rightarrow> string \<Rightarrow> fetched"

datatype http_body = Text string | Octets bytes | Json json

record http_response =
  hs_status :: nat
  hs_content_type :: "string option"
  hs_no_store :: bool
  hs_location :: "string option"
  hs_body :: http_body

definition text_response :: "nat \<Rightarrow> string \<Rightarrow> http_response" where
  "text_response status body = \<lparr>hs_status = status, hs_content_type = Some ''text/plain; charset=utf-8'', hs_no_store = False,
     hs_location = None, hs_body = Text body\<rparr>"

definition asset_response :: "string \<Rightarrow> bytes \<Rightarrow> http_response" where
  "asset_response content_type b = \<lparr>hs_status = 200, hs_content_type = Some content_type, hs_no_store = True,
     hs_location = None, hs_body = Octets b\<rparr>"

text \<open>A handler's second result is what it asked the node for.\<close>

type_synonym answer = "http_response \<times> string list"

definition relay :: "fetched \<Rightarrow> string \<Rightarrow> string \<Rightarrow> string \<Rightarrow> http_response" where
  "relay result content_type missing failed =
     (case result of
        Fetched b \<Rightarrow> asset_response content_type b
      | Refused \<Rightarrow> text_response 404 missing
      | Unreachable \<Rightarrow> text_response 502 failed)"

definition climbs :: "string \<Rightarrow> bool" where
  "climbs path = list_ex (\<lambda>part. part = ''..'') (split_on (CHR ''/'') path)"

definition handle_gateway_path :: "'w relay_node \<Rightarrow> 'w \<Rightarrow> string \<Rightarrow> string \<Rightarrow> answer" where
  "handle_gateway_path N w namespace raw =
     (let path = trim_start_matches (CHR ''/'') raw in
      if path = [] \<or> climbs path then (text_response 400 ''invalid gateway path'', [])
      else (let arg = ''/'' @ namespace @ ''/'' @ path
            in (relay (rl_cat N w arg) (content_type_for_path path) ''gateway path not found''
                  ''failed to fetch gateway asset from Kubo'', [arg])))"

definition kubo_block_get_ipld_path :: "'w relay_node \<Rightarrow> 'w \<Rightarrow> string \<Rightarrow> fetched" where
  "kubo_block_get_ipld_path N w path = (case rl_resolve N w path of None \<Rightarrow> Refused | Some c \<Rightarrow> rl_block N w c)"

definition handle_ipld_path :: "'w relay_node \<Rightarrow> 'w \<Rightarrow> string \<Rightarrow> answer" where
  "handle_ipld_path N w raw =
     (let path = trim_start_matches (CHR ''/'') raw in
      if path = [] \<or> climbs path then (text_response 400 ''invalid IPLD path'', [])
      else (let ipfs_path = (if starts_with ''ipfs/'' path \<or> starts_with ''ipns/'' path then ''/'' @ path else ''/ipfs/'' @ path)
            in (relay (kubo_block_get_ipld_path N w ipfs_path) ''application/octet-stream'' ''IPLD path not found''
                  ''failed to fetch IPLD block'', [ipfs_path])))"

definition serve_operator_path :: "'w kubo \<Rightarrow> 'w relay_node \<Rightarrow> 'w \<Rightarrow> cid option \<Rightarrow> string \<Rightarrow> answer" where
  "serve_operator_path K N w root path =
     (if climbs path then (text_response 400 ''invalid operator path'', [])
      else (case manifest_config_string K w root OPERATOR_CONFIG_KEY of
              None \<Rightarrow> (text_response 404 ''runtime /config/operator is not configured'', [])
            | Some source \<Rightarrow>
                (let ipfs_path = operator_asset_path source path
                 in (relay (rl_cat N w ipfs_path) (content_type_for_path path) ''operator asset not found''
                       ''failed to fetch operator asset from IPFS'', [ipfs_path]))))"

definition handle_operator_path :: "'w kubo \<Rightarrow> 'w relay_node \<Rightarrow> 'w \<Rightarrow> cid option \<Rightarrow> string \<Rightarrow> answer" where
  "handle_operator_path K N w root raw =
     (let path = trim_start_matches (CHR ''/'') raw
      in serve_operator_path K N w root (if path = [] then ''index.html'' else path))"

definition handle_operator_root_asset :: "'w kubo \<Rightarrow> 'w relay_node \<Rightarrow> 'w \<Rightarrow> cid option \<Rightarrow> string \<Rightarrow> answer" where
  "handle_operator_root_asset K N w root uri_path =
     (let path = trim_start_matches (CHR ''/'') uri_path
      in if path = [] then (text_response 404 ''not found'', []) else serve_operator_path K N w root path)"

section \<open>The status pages\<close>

record stats =
  ss_our_did :: string
  ss_endpoint_id :: string
  ss_ipfs_requests :: u64
  ss_started_at :: u64
  ss_ipfs_publisher_enabled :: bool
  ss_entity_names :: "string list"
  ss_root_cid :: "cid option"

definition uptime_of :: "u64 \<Rightarrow> stats \<Rightarrow> nat" where
  "uptime_of now s = unat now - unat (ss_started_at s)"

definition count_json :: "u64 option \<Rightarrow> json" where
  "count_json v = (case v of None \<Rightarrow> JNull | Some n \<Rightarrow> JNumber (nat_digits (unat n)))"

definition text_json :: "string option \<Rightarrow> json" where
  "text_json v = (case v of None \<Rightarrow> JNull | Some s \<Rightarrow> JString s)"

definition status_json :: "'w kubo \<Rightarrow> 'w \<Rightarrow> u64 \<Rightarrow> process_metrics \<Rightarrow> stats \<Rightarrow> json" where
  "status_json K w now p s =
     (let operator_source = manifest_config_string K w (ss_root_cid s) OPERATOR_CONFIG_KEY
      in JObject
        [(''did'', JString (ss_our_did s)), (''ipns'', text_json (did_to_ipns_path (ss_our_did s))),
         (''endpoint_id'', JString (ss_endpoint_id s)), (''uptime_secs'', JNumber (nat_digits (uptime_of now s))),
         (''ipfs_publisher'', JBool (ss_ipfs_publisher_enabled s)),
         (''ipfs_requests'', JNumber (nat_digits (unat (ss_ipfs_requests s)))),
         (''started_at'', JNumber (nat_digits (unat (ss_started_at s)))),
         (''entity_names'', JArray (map JString (ss_entity_names s))),
         (''runtime'', case ss_root_cid s of None \<Rightarrow> JNull | Some c \<Rightarrow> JObject [(''/'', JString c)]),
         (''operator'', JObject [(''source'', text_json operator_source), (''path'', JString ''/operator/'')]),
         (''process'', JObject
            [(''pid'', JNumber (nat_digits (unat (pm_pid p)))), (''threads'', count_json (pm_threads p)),
             (''open_fds'', count_json (pm_open_fds p)),
             (''memory'', JObject
                [(''vm_peak_kib'', count_json (pm_vm_peak p)), (''vm_size_kib'', count_json (pm_vm_size p)),
                 (''vm_rss_kib'', count_json (pm_vm_rss p)), (''vm_data_kib'', count_json (pm_vm_data p))])])])"

text \<open>The page: \<open>ix_head\<close> and \<open>ix_foot\<close> are the fixed markup around the table, \<open>ix_notice\<close> the warning.\<close>

record index_markup =
  ix_head :: string
  ix_notice :: string
  ix_foot :: string

definition html_row :: "string \<times> string \<Rightarrow> string" where
  "html_row r = ''<tr><td>'' @ fst r @ ''</td><td>'' @ snd r @ ''</td></tr>'' @ [CHR 0x0A]"

definition owner_html :: "string list \<Rightarrow> string" where
  "owner_html owners = (if owners = [] then ''<em>unclaimed</em>'' else join_with ''<br>'' owners)"

definition index_rows :: "u64 \<Rightarrow> process_metrics \<Rightarrow> stats \<Rightarrow> string list \<Rightarrow> string option \<Rightarrow> (string \<times> string) list" where
  "index_rows now p s owners operator =
     [(''DID'', ss_our_did s),
      (''IPNS'', case did_to_ipns_path (ss_our_did s) of Some path \<Rightarrow> path | None \<Rightarrow> ''-''),
      (''Endpoint ID (iroh)'', ss_endpoint_id s), (''Uptime (seconds)'', nat_digits (uptime_of now s)),
      (''IPFS publisher'', if ss_ipfs_publisher_enabled s then ''enabled'' else ''disabled''),
      (''IPFS publish requests'', nat_digits (unat (ss_ipfs_requests s))),
      (''Entities'', if ss_entity_names s = [] then ''<em>none</em>''
         else join_with '', '' (map (\<lambda>n. ''<code>#'' @ n @ ''</code>'') (ss_entity_names s))),
      (''Runtime'', case ss_root_cid s of Some c \<Rightarrow> c | None \<Rightarrow> ''-''),
      (''Operator'', case operator of None \<Rightarrow> ''<em>not configured</em>''
         | Some path \<Rightarrow> ''<a href='' @ [CHR 0x22] @ ''/operator/'' @ [CHR 0x22] @ ''>/operator/</a> <code>'' @ path @ ''</code>''),
      (''Owner'', owner_html owners),
      (''Process PID'', nat_digits (unat (pm_pid p))), (''Process threads'', format_opt_count (pm_threads p)),
      (''Open file descriptors'', format_opt_count (pm_open_fds p)), (''VmRSS'', format_opt_kib (pm_vm_rss p)),
      (''VmSize'', format_opt_kib (pm_vm_size p)), (''VmData'', format_opt_kib (pm_vm_data p)),
      (''VmPeak'', format_opt_kib (pm_vm_peak p))]"

definition index_html :: "index_markup \<Rightarrow> 'w kubo \<Rightarrow> 'w \<Rightarrow> u64 \<Rightarrow> process_metrics \<Rightarrow> stats \<Rightarrow> string list \<Rightarrow> string" where
  "index_html M K w now p s owners =
     (let operator = manifest_config_string K w (ss_root_cid s) OPERATOR_CONFIG_KEY
      in ix_head M @ concat (map html_row (index_rows now p s owners operator))
         @ (if needs_trust_notice operator then ix_notice M else []) @ ix_foot M)"

text \<open>\<open>err_text\<close> is the text of an error of the export, \<open>to_yaml\<close> the YAML text or its own error.\<close>

definition handle_bootstrap_yaml ::
  "(bootstrap_runtime \<Rightarrow> string + string) \<Rightarrow> (boot_error \<Rightarrow> string) \<Rightarrow> 'w kubo \<Rightarrow> 'w \<Rightarrow> cid option \<Rightarrow> http_response" where
  "handle_bootstrap_yaml to_yaml err_text K w root =
     (let failed = (\<lambda>e. (text_response 500 (''export failed: '' @ e))\<lparr>hs_content_type := Some ''text/plain''\<rparr>) in
      case root of
        None \<Rightarrow> (text_response 503 ''Runtime not yet initialised (no root CID)'')\<lparr>hs_content_type := Some ''text/plain''\<rparr>
      | Some c \<Rightarrow>
          (case export_bootstrap K c w of
             Inl e \<Rightarrow> failed (err_text e)
           | Inr b \<Rightarrow>
               (case to_yaml b of
                  Inl e \<Rightarrow> failed e
                | Inr yaml \<Rightarrow> (text_response 200 yaml)\<lparr>hs_content_type := Some ''text/yaml; charset=utf-8''\<rparr>)))"

section \<open>Claims\<close>

definition json_response :: "nat \<Rightarrow> json \<Rightarrow> http_response" where
  "json_response status body = \<lparr>hs_status = status, hs_content_type = Some ''application/json'', hs_no_store = False,
     hs_location = None, hs_body = Json body\<rparr>"

definition claim_response :: "claim_reply \<Rightarrow> http_response" where
  "claim_response r =
     (let names = (\<lambda>os. JArray (map JString os)) in
      case r of
        AlreadyClaimed owners \<Rightarrow>
          json_response 200 (JObject [(''owners'', names owners), (''status'', JString ''already-claimed'')])
      | Conflict owners \<Rightarrow>
          json_response 409 (JObject [(''error'', JString ''already claimed''), (''owners'', names owners)])
      | Claimed owners \<Rightarrow>
          json_response 200 (JObject [(''owners'', names owners), (''status'', JString ''claimed'')]))"

section \<open>The routes\<close>

text \<open>
  \<open>spawn_status_server\<close>: a route with its decoded path or body; \<open>Other\<close> is the fallback with the path as it was sent.
\<close>

datatype http_request =
    Index | StatusJson | BootstrapYaml | IpfsPath string | IpnsPath string | IpldPath string
  | OperatorRedirect | OperatorIndex | OperatorPath string | Claim string | Other string

record 'w gateway_env =
  gw_kubo :: "'w kubo"
  gw_node :: "'w relay_node"
  gw_markup :: index_markup
  gw_now :: u64
  gw_pid :: u64
  gw_status_file :: "string option"
  gw_fds :: "u64 option"
  gw_yaml :: "bootstrap_runtime \<Rightarrow> string + string"
  gw_error :: "boot_error \<Rightarrow> string"
  gw_save_ok :: "string \<Rightarrow> bool"

fun serve_request ::
  "'w gateway_env \<Rightarrow> 'w \<Rightarrow> stats \<Rightarrow> http_request \<Rightarrow> claim_state \<Rightarrow> answer \<times> claim_state" where
  "serve_request E w s Index c =
     ((\<lparr>hs_status = 200, hs_content_type = Some ''text/html; charset=utf-8'', hs_no_store = False, hs_location = None,
        hs_body = Text (index_html (gw_markup E) (gw_kubo E) w (gw_now E) (process_metrics_of (gw_pid E) (gw_status_file E) (gw_fds E))
          s (cs_owners c))\<rparr>, []), c)"
| "serve_request E w s StatusJson c =
     ((json_response 200
        (status_json (gw_kubo E) w (gw_now E) (process_metrics_of (gw_pid E) (gw_status_file E) (gw_fds E)) s), []), c)"
| "serve_request E w s BootstrapYaml c =
     ((handle_bootstrap_yaml (gw_yaml E) (gw_error E) (gw_kubo E) w (ss_root_cid s), []), c)"
| "serve_request E w s (IpfsPath path) c = (handle_gateway_path (gw_node E) w ''ipfs'' path, c)"
| "serve_request E w s (IpnsPath path) c = (handle_gateway_path (gw_node E) w ''ipns'' path, c)"
| "serve_request E w s (IpldPath path) c = (handle_ipld_path (gw_node E) w path, c)"
| "serve_request E w s OperatorRedirect c =
     ((\<lparr>hs_status = 308, hs_content_type = None, hs_no_store = False, hs_location = Some ''/operator/'', hs_body = Text []\<rparr>, []), c)"
| "serve_request E w s OperatorIndex c =
     (serve_operator_path (gw_kubo E) (gw_node E) w (ss_root_cid s) ''index.html'', c)"
| "serve_request E w s (OperatorPath path) c = (handle_operator_path (gw_kubo E) (gw_node E) w (ss_root_cid s) path, c)"
| "serve_request E w s (Claim owner) c = (let (r, c') = handle_claim (gw_save_ok E) owner c in ((claim_response r, []), c'))"
| "serve_request E w s (Other path) c = (handle_operator_root_asset (gw_kubo E) (gw_node E) w (ss_root_cid s) path, c)"

section \<open>Lemmas\<close>

lemma trim_end_matches_last: "trim_end_matches ch s = [] \<or> last (trim_end_matches ch s) \<noteq> ch"
proof -
  have "dropWhile (\<lambda>x. x = ch) (rev s) = [] \<or> hd (dropWhile (\<lambda>x. x = ch) (rev s)) \<noteq> ch"
    using hd_dropWhile[of "\<lambda>x. x = ch" "rev s"] by blast
  then show ?thesis by (auto simp: trim_end_matches_def last_rev)
qed

lemma trim_end_matches_id: "s \<noteq> [] \<Longrightarrow> last s \<noteq> ch \<Longrightarrow> trim_end_matches ch s = s"
  by (cases s rule: rev_cases) (simp_all add: trim_end_matches_def)

definition ipfs_rooted :: "string \<Rightarrow> bool" where
  "ipfs_rooted path \<longleftrightarrow> starts_with ''/ipfs/'' path \<or> starts_with ''/ipns/'' path"

lemma normalized_rooted:
  assumes "normalize_operator_source raw = Some source"
  shows "ipfs_rooted source \<and> source \<noteq> [] \<and> last source \<noteq> CHR ''/''"
proof -
  let ?v = "trim_end_matches (CHR ''/'') (trim raw)"
  have v: "?v \<noteq> []" "source = ?v \<and> ipfs_rooted ?v \<or> source = ''/ipfs/'' @ ?v"
    using assms by (auto simp: normalize_operator_source_def ipfs_rooted_def Let_def split: if_splits)
  from trim_end_matches_last[of "CHR ''/''" "trim raw"] v show ?thesis
    by (auto simp: ipfs_rooted_def starts_with_def)
qed

lemma default_source_rooted: "ipfs_rooted DEFAULT_OPERATOR_SOURCE \<and> last DEFAULT_OPERATOR_SOURCE \<noteq> CHR ''/''"
  by (simp add: DEFAULT_OPERATOR_SOURCE_def ipfs_rooted_def starts_with_def)

lemma operator_source_rooted:
  assumes "manifest_config_string K w root OPERATOR_CONFIG_KEY = Some source"
  shows "ipfs_rooted source \<and> source \<noteq> [] \<and> last source \<noteq> CHR ''/''"
proof -
  have "DEFAULT_OPERATOR_SOURCE \<noteq> []" by (simp add: DEFAULT_OPERATOR_SOURCE_def)
  with assms default_source_rooted normalized_rooted show ?thesis
    by (auto simp: manifest_config_string_def default_config_string_def split: option.splits)
qed

lemma rooted_append: "ipfs_rooted a \<Longrightarrow> ipfs_rooted (a @ b)"
  by (auto simp: ipfs_rooted_def starts_with_iff)

text \<open>A path without its leading slashes.\<close>

definition unslashed :: "string \<Rightarrow> string \<Rightarrow> bool" where
  "unslashed raw path \<longleftrightarrow> (\<exists>n. raw = replicate n (CHR ''/'') @ path) \<and> (path = [] \<or> hd path \<noteq> CHR ''/'')"

lemma unslashed_trim: "unslashed raw (trim_start_matches (CHR ''/'') raw)"
proof -
  let ?slash = "\<lambda>x. x = CHR ''/''"
  have "replicate (length (takeWhile ?slash raw)) (CHR ''/'') = takeWhile ?slash raw"
    by (rule replicate_length_same) (auto dest: set_takeWhileD)
  then have "raw = replicate (length (takeWhile ?slash raw)) (CHR ''/'') @ dropWhile ?slash raw"
    using takeWhile_dropWhile_id[of ?slash raw] by simp
  moreover have "dropWhile ?slash raw = [] \<or> hd (dropWhile ?slash raw) \<noteq> CHR ''/''"
    using hd_dropWhile[of ?slash raw] by blast
  ultimately show ?thesis unfolding unslashed_def trim_start_matches_def by blast
qed

text \<open>
  What a request may make the server ask for: the tail of its path below its own namespace, or below the operator source of the
  manifest.
\<close>

definition below_source :: "'w kubo \<Rightarrow> 'w \<Rightarrow> cid option \<Rightarrow> string \<Rightarrow> string \<Rightarrow> bool" where
  "below_source K w root path arg \<longleftrightarrow>
     (\<exists>source. manifest_config_string K w root ''operator'' = Some source \<and> arg = source @ ''/'' @ path)"

fun asks_for :: "'w kubo \<Rightarrow> 'w \<Rightarrow> cid option \<Rightarrow> http_request \<Rightarrow> string \<Rightarrow> string \<Rightarrow> bool" where
  "asks_for K w root (IpfsPath raw) path arg = (unslashed raw path \<and> arg = ''/ipfs/'' @ path)"
| "asks_for K w root (IpnsPath raw) path arg = (unslashed raw path \<and> arg = ''/ipns/'' @ path)"
| "asks_for K w root (IpldPath raw) path arg =
     (unslashed raw path \<and>
      arg = (if starts_with ''ipfs/'' path \<or> starts_with ''ipns/'' path then ''/'' @ path else ''/ipfs/'' @ path))"
| "asks_for K w root OperatorIndex path arg = (path = ''index.html'' \<and> below_source K w root path arg)"
| "asks_for K w root (OperatorPath raw) path arg =
     ((unslashed raw path \<or> unslashed raw [] \<and> path = ''index.html'') \<and> below_source K w root path arg)"
| "asks_for K w root (Other raw) path arg = (unslashed raw path \<and> below_source K w root path arg)"
| "asks_for K w root _ path arg = False"

text \<open>Content in an answer is what the node has at the path that was asked for.\<close>

definition relayed :: "'w relay_node \<Rightarrow> 'w \<Rightarrow> http_request \<Rightarrow> string \<Rightarrow> bytes \<Rightarrow> bool" where
  "relayed N w req arg b =
     (case req of IpldPath raw \<Rightarrow> (\<exists>c. rl_resolve N w arg = Some c \<and> rl_block N w c = Fetched b) | _ \<Rightarrow> rl_cat N w arg = Fetched b)"

lemma relay_octets: "hs_body (relay result ct missing failed) = Octets b \<longleftrightarrow> result = Fetched b"
  by (simp add: relay_def asset_response_def text_response_def split: fetched.split)

lemma gateway_asks:
  assumes "handle_gateway_path N w namespace raw = (r, asked)"
  shows "arg \<in> set asked \<Longrightarrow> \<exists>path. unslashed raw path \<and> path \<noteq> [] \<and> \<not> climbs path \<and> arg = ''/'' @ namespace @ ''/'' @ path"
    and "hs_body r = Octets b \<Longrightarrow> \<exists>arg. asked = [arg] \<and> rl_cat N w arg = Fetched b"
proof -
  let ?p = "trim_start_matches (CHR ''/'') raw"
  show "\<exists>path. unslashed raw path \<and> path \<noteq> [] \<and> \<not> climbs path \<and> arg = ''/'' @ namespace @ ''/'' @ path" if "arg \<in> set asked"
    using that assms unslashed_trim[of raw]
    by (intro exI[of _ ?p]) (auto simp: handle_gateway_path_def Let_def split: if_split_asm)
  show "\<exists>arg. asked = [arg] \<and> rl_cat N w arg = Fetched b" if "hs_body r = Octets b"
    using that assms by (auto simp: handle_gateway_path_def Let_def relay_octets text_response_def split: if_splits)
qed

lemma block_relayed: "kubo_block_get_ipld_path N w arg = Fetched b \<Longrightarrow> relayed N w (IpldPath raw) arg b"
  by (simp add: relayed_def kubo_block_get_ipld_path_def split: option.splits)

lemma ipld_asks:
  assumes "handle_ipld_path N w raw = (r, asked)"
  shows "arg \<in> set asked \<Longrightarrow>
      \<exists>path. path \<noteq> [] \<and> \<not> climbs path \<and> ipfs_rooted arg \<and> asks_for K w root (IpldPath raw) path arg"
    and "hs_body r = Octets b \<Longrightarrow> \<exists>arg. asked = [arg] \<and> relayed N w (IpldPath raw) arg b"
proof -
  let ?p = "trim_start_matches (CHR ''/'') raw"
  let ?arg = "if starts_with ''ipfs/'' ?p \<or> starts_with ''ipns/'' ?p then ''/'' @ ?p else ''/ipfs/'' @ ?p"
  have rooted: "ipfs_rooted ?arg" by (auto simp: ipfs_rooted_def starts_with_iff)
  show "\<exists>path. path \<noteq> [] \<and> \<not> climbs path \<and> ipfs_rooted arg \<and> asks_for K w root (IpldPath raw) path arg" if "arg \<in> set asked"
  proof -
    have "arg = ?arg" "?p \<noteq> []" "\<not> climbs ?p"
      using that assms by (auto simp: handle_ipld_path_def Let_def simp del: append.simps split: if_split_asm)
    with rooted unslashed_trim[of raw] show ?thesis by (intro exI[of _ ?p]) simp
  qed
  show "\<exists>arg. asked = [arg] \<and> relayed N w (IpldPath raw) arg b" if "hs_body r = Octets b"
  proof -
    define arg where "arg = ?arg"
    have "asked = [arg]" and f: "kubo_block_get_ipld_path N w arg = Fetched b"
      using that assms unfolding arg_def
      by (auto simp: handle_ipld_path_def Let_def relay_octets text_response_def simp del: append.simps split: if_split_asm)
    with block_relayed[OF f] show ?thesis by simp
  qed
qed

lemma serve_operator_asks:
  assumes "serve_operator_path K N w root path = (r, asked)"
  shows "arg \<in> set asked \<Longrightarrow> \<not> climbs path \<and> below_source K w root path arg \<and> ipfs_rooted arg"
    and "hs_body r = Octets b \<Longrightarrow> \<exists>arg. asked = [arg] \<and> rl_cat N w arg = Fetched b"
proof -
  show "arg \<in> set asked \<Longrightarrow> \<not> climbs path \<and> below_source K w root path arg \<and> ipfs_rooted arg"
    using assms operator_source_rooted[of K w root]
    by (auto simp: serve_operator_path_def operator_asset_path_def Let_def trim_end_matches_id rooted_append below_source_def
        OPERATOR_CONFIG_KEY_def[symmetric] split: if_splits option.splits)
  show "hs_body r = Octets b \<Longrightarrow> \<exists>arg. asked = [arg] \<and> rl_cat N w arg = Fetched b"
    using assms by (auto simp: serve_operator_path_def Let_def relay_octets text_response_def split: if_splits option.splits)
qed

lemma operator_asks:
  assumes "handle_operator_path K N w root raw = (r, asked)"
  shows "arg \<in> set asked \<Longrightarrow> \<exists>path. path \<noteq> [] \<and> \<not> climbs path \<and> ipfs_rooted arg \<and> asks_for K w root (OperatorPath raw) path arg"
    and "hs_body r = Octets b \<Longrightarrow> \<exists>arg. asked = [arg] \<and> rl_cat N w arg = Fetched b"
proof -
  let ?t = "trim_start_matches (CHR ''/'') raw"
  let ?path = "if ?t = [] then ''index.html'' else ?t"
  have s: "serve_operator_path K N w root ?path = (r, asked)" using assms by (simp add: handle_operator_path_def Let_def)
  have u: "unslashed raw ?path \<or> unslashed raw [] \<and> ?path = ''index.html''" "?path \<noteq> []"
    using unslashed_trim[of raw] by auto
  show "arg \<in> set asked \<Longrightarrow> \<exists>path. path \<noteq> [] \<and> \<not> climbs path \<and> ipfs_rooted arg \<and> asks_for K w root (OperatorPath raw) path arg"
    using serve_operator_asks(1)[OF s, of arg] u by (intro exI[of _ ?path]) simp
  show "hs_body r = Octets b \<Longrightarrow> \<exists>arg. asked = [arg] \<and> rl_cat N w arg = Fetched b"
    using serve_operator_asks(2)[OF s] .
qed

lemma root_asset_asks:
  assumes "handle_operator_root_asset K N w root raw = (r, asked)"
  shows "arg \<in> set asked \<Longrightarrow> \<exists>path. path \<noteq> [] \<and> \<not> climbs path \<and> ipfs_rooted arg \<and> asks_for K w root (Other raw) path arg"
    and "hs_body r = Octets b \<Longrightarrow> \<exists>arg. asked = [arg] \<and> rl_cat N w arg = Fetched b"
proof -
  let ?t = "trim_start_matches (CHR ''/'') raw"
  have s: "?t = [] \<and> asked = [] \<and> hs_body r = Text ''not found'' \<or> ?t \<noteq> [] \<and> serve_operator_path K N w root ?t = (r, asked)"
    using assms by (auto simp: handle_operator_root_asset_def Let_def text_response_def split: if_splits)
  show "arg \<in> set asked \<Longrightarrow> \<exists>path. path \<noteq> [] \<and> \<not> climbs path \<and> ipfs_rooted arg \<and> asks_for K w root (Other raw) path arg"
    using s serve_operator_asks(1)[of K N w root ?t r asked arg] unslashed_trim[of raw] by (intro exI[of _ ?t]) auto
  show "hs_body r = Octets b \<Longrightarrow> \<exists>arg. asked = [arg] \<and> rl_cat N w arg = Fetched b"
    using s serve_operator_asks(2)[of K N w root ?t r asked b] by auto
qed

text \<open>The routes together.\<close>

lemma request_asks:
  assumes "serve_request E w s req c = ((r, asked), c')"
  shows "arg \<in> set asked \<Longrightarrow>
      \<exists>path. path \<noteq> [] \<and> \<not> climbs path \<and> ipfs_rooted arg \<and> asks_for (gw_kubo E) w (ss_root_cid s) req path arg"
    and "hs_body r = Octets b \<Longrightarrow> \<exists>arg. asked = [arg] \<and> relayed (gw_node E) w req arg b"
proof -
  have rooted: "ipfs_rooted (''/ipfs/'' @ p)" "ipfs_rooted (''/ipns/'' @ p)" for p
    by (auto simp: ipfs_rooted_def starts_with_iff)
  show "\<exists>path. path \<noteq> [] \<and> \<not> climbs path \<and> ipfs_rooted arg \<and> asks_for (gw_kubo E) w (ss_root_cid s) req path arg"
    if "arg \<in> set asked"
  proof (cases req)
    case (IpfsPath raw)
    with assms have "handle_gateway_path (gw_node E) w ''ipfs'' raw = (r, asked)" by simp
    from gateway_asks(1)[OF this that] obtain path where
      "unslashed raw path" "path \<noteq> []" "\<not> climbs path" "arg = ''/ipfs/'' @ path" by auto
    with IpfsPath rooted(1) show ?thesis by (intro exI[of _ path]) simp
  next
    case (IpnsPath raw)
    with assms have "handle_gateway_path (gw_node E) w ''ipns'' raw = (r, asked)" by simp
    from gateway_asks(1)[OF this that] obtain path where
      "unslashed raw path" "path \<noteq> []" "\<not> climbs path" "arg = ''/ipns/'' @ path" by auto
    with IpnsPath rooted(2) show ?thesis by (intro exI[of _ path]) simp
  next
    case (IpldPath raw)
    with assms have "handle_ipld_path (gw_node E) w raw = (r, asked)" by simp
    from ipld_asks(1)[OF this that] IpldPath show ?thesis by blast
  next
    case OperatorIndex
    with assms have "serve_operator_path (gw_kubo E) (gw_node E) w (ss_root_cid s) ''index.html'' = (r, asked)" by simp
    from serve_operator_asks(1)[OF this that] OperatorIndex show ?thesis by simp
  next
    case (OperatorPath raw)
    with assms have "handle_operator_path (gw_kubo E) (gw_node E) w (ss_root_cid s) raw = (r, asked)" by simp
    from operator_asks(1)[OF this that] OperatorPath show ?thesis by blast
  next
    case (Other raw)
    with assms have "handle_operator_root_asset (gw_kubo E) (gw_node E) w (ss_root_cid s) raw = (r, asked)" by simp
    from root_asset_asks(1)[OF this that] Other show ?thesis by blast
  qed (use assms that in \<open>auto split: prod.splits\<close>)
  show "\<exists>arg. asked = [arg] \<and> relayed (gw_node E) w req arg b" if o: "hs_body r = Octets b"
  proof (cases req)
    case (IpldPath raw)
    with assms have "handle_ipld_path (gw_node E) w raw = (r, asked)" by simp
    from ipld_asks(2)[OF this o] IpldPath show ?thesis by simp
  next
    case OperatorIndex
    with assms have "serve_operator_path (gw_kubo E) (gw_node E) w (ss_root_cid s) ''index.html'' = (r, asked)" by simp
    from serve_operator_asks(2)[OF this o] OperatorIndex show ?thesis by (simp add: relayed_def)
  next
    case (Claim owner)
    with assms o show ?thesis by (auto simp: claim_response_def json_response_def Let_def split: prod.splits claim_reply.splits)
  next
    case BootstrapYaml
    with assms o show ?thesis
      by (auto simp: handle_bootstrap_yaml_def text_response_def Let_def split: option.splits sum.splits)
  qed (use assms o gateway_asks(2)[OF _ o] operator_asks(2)[OF _ o] root_asset_asks(2)[OF _ o] in
      \<open>auto simp: relayed_def json_response_def\<close>)
qed

text \<open>What a claim writes into the page: the owner as it was sent.\<close>

theorem claimed_owner_unescaped:
  assumes "serve_request E w s (Claim owner) c = ((r, []), c')" and "cs_owners c = []"
  shows "\<exists>before after. fst (fst (serve_request E w s Index c'))
     = \<lparr>hs_status = 200, hs_content_type = Some ''text/html; charset=utf-8'', hs_no_store = False, hs_location = None,
        hs_body = Text (before @ ''<td>Owner</td><td>'' @ owner @ ''</td>'' @ after)\<rparr>"
proof -
  have o: "cs_owners c' = [owner]"
    using assms by (auto simp: handle_claim_def claim_decide_def claim_write_def claim_grant_def persist_owners_to_config_def
        Let_def split: option.splits if_splits)
  have split: "xs = a @ r # b \<Longrightarrow> concat (map html_row xs) = concat (map html_row a) @ html_row r @ concat (map html_row b)" for xs a r b
    by simp
  have rows: "\<exists>a b. index_rows now p s [owner] operator = a @ (''Owner'', owner) # b" for now p operator
    by (intro exI[of _ "take 9 (index_rows now p s [owner] operator)"] exI[of _ "drop 10 (index_rows now p s [owner] operator)"])
      (simp add: index_rows_def owner_html_def)
  have "\<exists>a b. index_html M K v now p s [owner] = a @ ''<td>Owner</td><td>'' @ owner @ ''</td>'' @ b" for M K v now p
  proof -
    from rows obtain a b where "index_rows now p s [owner] (manifest_config_string K v (ss_root_cid s) OPERATOR_CONFIG_KEY)
        = a @ (''Owner'', owner) # b" by blast
    from split[OF this] show ?thesis unfolding index_html_def Let_def
      by (intro exI[of _ "ix_head M @ concat (map html_row a) @ ''<tr>''"] exI)
        (simp only: append_assoc html_row_def fst_conv snd_conv append_Cons append_Nil)
  qed
  with o show ?thesis by simp
qed

section \<open>Properties\<close>

text \<open>
  C36 (status server). The server relays only what a request names: the node is asked for one path at most, which lies under
  \<open>/ipfs/\<close> or \<open>/ipns/\<close> and is made of the request's own path without its leading slashes, which is not empty and has no part \<open>..\<close>:
  below \<open>/ipfs/\<close> for an IPFS request, below \<open>/ipns/\<close> for an IPNS request, in the namespace it names (or else \<open>/ipfs/\<close>) for an IPLD
  request, below the configured operator source for any other path; content in an answer is what the node has there; and no request but
  a claim of an unowned runtime changes anything.
\<close>

theorem gateway_confined:
  assumes "serve_request E w s req c = ((r, asked), c')"
  shows "length asked \<le> 1
     \<and> (\<forall>arg\<in>set asked. (starts_with ''/ipfs/'' arg \<or> starts_with ''/ipns/'' arg) \<and>
        (\<exists>path. path \<noteq> [] \<and> ''..'' \<notin> set (split_on (CHR ''/'') path) \<and> asks_for (gw_kubo E) w (ss_root_cid s) req path arg))
     \<and> (\<forall>b. hs_body r = Octets b \<longrightarrow> (\<exists>arg. asked = [arg] \<and> relayed (gw_node E) w req arg b))
     \<and> (c' \<noteq> c \<longrightarrow> (\<exists>owner. req = Claim owner \<and> cs_owners c = []))"
proof -
  have climbs: "climbs path \<longleftrightarrow> ''..'' \<in> set (split_on (CHR ''/'') path)" for path
    by (auto simp: climbs_def list_ex_iff)
  have one: "length asked \<le> 1"
    using assms by (cases req) (auto simp: handle_gateway_path_def handle_ipld_path_def handle_operator_path_def serve_operator_path_def
        handle_operator_root_asset_def Let_def split: if_splits option.splits prod.splits)
  have change: "\<exists>owner. req = Claim owner \<and> cs_owners c = []" if "c' \<noteq> c"
  proof -
    from assms that obtain owner where r: "req = Claim owner" "c' = snd (handle_claim (gw_save_ok E) owner c)"
      by (cases req) (auto split: prod.splits)
    from that r(2) have "claim_decide (cs_owners c) owner = None" by (auto simp: handle_claim_def split: option.splits)
    with r(1) show ?thesis by (simp add: claim_decide_def split: if_splits)
  qed
  have asks: "(starts_with ''/ipfs/'' arg \<or> starts_with ''/ipns/'' arg) \<and> (\<exists>path. path \<noteq> []
      \<and> ''..'' \<notin> set (split_on (CHR ''/'') path) \<and> asks_for (gw_kubo E) w (ss_root_cid s) req path arg)" if "arg \<in> set asked" for arg
    using request_asks(1)[OF assms that] by (metis climbs ipfs_rooted_def)
  show ?thesis
    by (intro conjI ballI allI impI; (rule one | rule asks[THEN conjunct1] | rule asks[THEN conjunct2] | rule request_asks(2)[OF assms] | rule change))
qed

definition sample_gateway :: "doc list gateway_env" where
  "sample_gateway = \<lparr>gw_kubo = mem_kubo,
     gw_node = \<lparr>rl_cat = (\<lambda>w path. Fetched [1]), rl_resolve = (\<lambda>w path. None), rl_block = (\<lambda>w c. Refused)\<rparr>,
     gw_markup = \<lparr>ix_head = [], ix_notice = [], ix_foot = []\<rparr>, gw_now = 10, gw_pid = 1, gw_status_file = None, gw_fds = None,
     gw_yaml = (\<lambda>_. Inr []), gw_error = (\<lambda>_. []), gw_save_ok = (\<lambda>_. True)\<rparr>"

definition sample_stats :: stats where
  "sample_stats = \<lparr>ss_our_did = ''did:ma:us'', ss_endpoint_id = [], ss_ipfs_requests = 0, ss_started_at = 3,
     ss_ipfs_publisher_enabled = True, ss_entity_names = [], ss_root_cid = None\<rparr>"

definition unclaimed :: claim_state where
  "unclaimed = \<lparr>cs_owners = [], cs_acl = [], cs_config_path = None, cs_saved = []\<rparr>"

theorem gateway_confined_witness:
  "\<exists>r. serve_request sample_gateway [] sample_stats (OperatorPath ''/a/b.css'') unclaimed
       = ((r, [DEFAULT_OPERATOR_SOURCE @ ''/a/b.css'']), unclaimed)
     \<and> hs_status r = 200 \<and> hs_content_type r = Some ''text/css; charset=utf-8'' \<and> hs_body r = Octets [1]
     \<and> (\<exists>path. path \<noteq> [] \<and> ''..'' \<notin> set (split_on (CHR ''/'') path)
          \<and> asks_for mem_kubo [] None (OperatorPath ''/a/b.css'') path (DEFAULT_OPERATOR_SOURCE @ ''/a/b.css''))
     \<and> relayed (gw_node sample_gateway) [] (OperatorPath ''/a/b.css'') (DEFAULT_OPERATOR_SOURCE @ ''/a/b.css'') [1]"
proof -
  let ?r = "asset_response ''text/css; charset=utf-8'' [1]"
  have t: "trim_end_matches (CHR ''/'') DEFAULT_OPERATOR_SOURCE = DEFAULT_OPERATOR_SOURCE"
    by (rule trim_end_matches_id) (simp_all add: DEFAULT_OPERATOR_SOURCE_def)
  have run: "serve_request sample_gateway [] sample_stats (OperatorPath ''/a/b.css'') unclaimed
      = ((?r, [DEFAULT_OPERATOR_SOURCE @ ''/a/b.css'']), unclaimed)"
    by (simp add: handle_operator_path_def serve_operator_path_def trim_start_matches_def climbs_def manifest_config_string_def
        sample_stats_def sample_gateway_def default_config_string_def operator_asset_path_def t relay_def content_type_for_path_def
        file_extension_def)
  have e: "gw_kubo sample_gateway = mem_kubo" "ss_root_cid sample_stats = None" by (simp_all add: sample_gateway_def sample_stats_def)
  from gateway_confined[OF run] run show ?thesis unfolding e by (auto simp: asset_response_def simp del: asks_for.simps)
qed

end
