(* ===== verification/Replies.thy ===== *)
theory Replies
  imports CrudDispatch Outbox Host
begin

text \<open>
  What the requester of a CRUD request gets to see: the language catalogue (\<open>src/i18n.rs\<close>, the language part of
  \<open>load_i18n_and_ipfs_state\<close> in \<open>src/boot.rs\<close>) and the replies of \<open>src/crud/helpers.rs\<close>, from the choice of the
  language to the message handed to an outbox.  Fluent, the CBOR and YAML encoders, the construction and signature of
  a message and the network are parameters.
\<close>

section \<open>The catalogue\<close>

type_synonym messages = "string \<rightharpoonup> string"

text \<open>The two statics, \<open>None\<close> before the first \<open>init\<close>.\<close>

record i18n =
  i8_messages :: "(string \<rightharpoonup> messages) option"
  i8_lang :: "string option"

definition MESSAGE_IDS :: "string list" where
  "MESSAGE_IDS =
     [''boot-default-root-config-populate-failed'', ''boot-default-root-config-populated'',
      ''boot-entity-load-processed'', ''boot-generated-headless-config'', ''boot-group-load-failed'',
      ''boot-group-loaded-into-cache'', ''boot-initialising-new-identity'', ''boot-kinds-cid-usage-invalid'',
      ''boot-kinds-overlay-applied'', ''boot-kinds-overlay-no-change'', ''boot-load-manifest-for-acl-cache-failed'',
      ''boot-minimal-manifest-bootstrapped'', ''boot-minimal-manifest-not-found'', ''boot-no-config-found'',
      ''boot-no-root-entity'', ''boot-reconciled-owners-manifest-failed'', ''boot-reconciled-owners-persist-failed'',
      ''boot-reconciled-owners-published'', ''boot-root-acl-load-cache-failed'', ''boot-root-acl-load-failed'',
      ''boot-root-acl-loaded-from-manifest'', ''boot-root-acl-loaded-into-cache'', ''boot-root-cid-reset'',
      ''boot-root-cid-usage-invalid'', ''boot-runtime-ipfs-service-disabled'', ''boot-runtime-ipfs-service-enabled'',
      ''bootstrap-acl-published'', ''bootstrap-complete'', ''bootstrap-endpoint-close-stuck'',
      ''bootstrap-endpoint-close-timeout'', ''bootstrap-entity-lifecycle-update-failed'',
      ''bootstrap-entity-lifecycle-updated'', ''bootstrap-entity-node-shutdown-updated'',
      ''bootstrap-entity-published'', ''bootstrap-entity-registering-prepublished'',
      ''bootstrap-entity-registry-fetch-failed'', ''bootstrap-entity-registry-kind-extends-failed'',
      ''bootstrap-entity-registry-kind-fetch-failed'', ''bootstrap-entity-registry-kind-missing'',
      ''bootstrap-entity-registry-not-in-manifest'', ''bootstrap-entity-state-save-failed'',
      ''bootstrap-entity-state-shutdown-aborted'', ''bootstrap-entity-state-update-fetch-failed'',
      ''bootstrap-envelope-delivery-failed'', ''bootstrap-envelope-open-failed'', ''bootstrap-group-published'',
      ''bootstrap-kind-published'', ''bootstrap-kind-registry-extends-failed'',
      ''bootstrap-kind-registry-fetch-log-failed'', ''bootstrap-kind-registry-hydrated'',
      ''bootstrap-kinds-overlay-pin-update-failed'', ''bootstrap-kinds-overlay-published'',
      ''bootstrap-kinds-tree-published'', ''bootstrap-lifecycle-manifest-pin-update-failed'',
      ''bootstrap-lifecycle-manifest-publish-failed'', ''bootstrap-lifecycle-manifest-published'',
      ''bootstrap-manifest-fetch-failed'', ''bootstrap-minimal-manifest-failed'',
      ''bootstrap-remote-root-pin-confirmed'', ''bootstrap-remote-root-pin-misconfigured'',
      ''bootstrap-root-acl-published'', ''bootstrap-root-cid-shutdown-persist-failed'',
      ''bootstrap-root-cid-shutdown-publish-failed'', ''bootstrap-root-cid-shutdown-publish-succeeded'',
      ''bootstrap-root-cid-shutdown-publish-timeout'', ''bootstrap-root-pin-replacement-failed'',
      ''bootstrap-root-pin-update-failed'', ''bootstrap-runtime-manifest-published'', ''cidv1-required'',
      ''closing-endpoint'', ''config-key-no-delete'', ''config-key-not-manifest'', ''config-key-protected'',
      ''crud-acl-updated'', ''crud-message-received'', ''crud-message-rejected'', ''ctrlc-handler-failed'',
      ''did-publish-cid-reply-sent'', ''did-publish-request-received'', ''did-publish-resolve-failed'',
      ''document-published'', ''entity-created'', ''entity-deleted'', ''entity-dispatched'', ''entity-load-failed'',
      ''entity-loaded'', ''entity-name-invalid'', ''entity-not-found'', ''entity-reload-current-node-load-failed'',
      ''entity-reload-failed'', ''entity-reload-kind-extends-failed'', ''entity-reload-kind-fetch-failed'',
      ''entity-reload-kind-lookup-failed'', ''entity-reload-kind-missing'',
      ''entity-reload-manifest-state-update-failed'', ''entity-reload-skipped'', ''entity-reload-started'',
      ''entity-reload-state-persist-failed'', ''entity-reload-state-produced-failed'', ''entity-reloaded'',
      ''entity-reloaded-manifest-update-failed'', ''entity-reloaded-manifest-updated'', ''entity-state-empty'',
      ''entity-state-saved'', ''entity-state-saving'', ''entity-states-saved'', ''entity-states-saving'',
      ''genesis-kind-owner-only'', ''inbox-message-received'', ''inbox-message-rejected'', ''ipfs-message-rejected'',
      ''ipfs-store-cid-reply-sent'', ''ipfs-store-request-received'', ''ipfs-store-resolve-failed'', ''ipfs-stored'',
      ''ipv6-disabled'', ''ipv6-enable-restart-required'', ''ipv6-enable-unchanged'', ''ipv6-enabled'',
      ''ma-create-entity-already-exists'', ''ma-create-entity-invalid-behaviour'', ''ma-create-entity-kind-missing'',
      ''manifest-pin-update-failed'', ''node-connected'', ''own-did-publish-failed'', ''own-did-publish-timeout'',
      ''own-did-published'', ''ping-received'', ''plugin-envelope-build-failed'',
      ''plugin-envelope-create-requests-ignored'', ''plugin-envelope-local-dispatch-failed'',
      ''plugin-envelope-local-dispatch-finish'', ''plugin-envelope-local-dispatch-start'',
      ''plugin-envelope-local-gate-closed'', ''plugin-envelope-local-recipient-unknown'',
      ''plugin-envelope-local-timeout'', ''plugin-envelope-recipient-invalid'', ''plugin-envelope-remote-limit'',
      ''plugin-outbox-congested'', ''plugin-outbox-drain-limit'', ''received-encrypted-ma-msg'',
      ''refuse-delete-root'', ''reply-sent'', ''reserved-entity-name'', ''root-list-entities'',
      ''runtime-claim-persisted'', ''runtime-claimed'', ''schedule-dispatch-firing'', ''schedule-entity-not-found'',
      ''schedule-random-chain-stopped'', ''schedule-random-create-failed'', ''schedule-random-reschedule-failed'',
      ''schedule-stale-dispatch-skipped'', ''scheduled-dispatch-error'',
      ''scheduled-dispatch-manifest-writer-unavailable'', ''shutdown-complete'', ''shutdown-requested'', ''started'',
      ''status-listening'', ''wrong-crud-protocol'']"

text \<open>
  Fluent: which language codes it parses, and for a code and a text, if it is valid, what it has for a message:
  nothing, a message without a value, or the formatted value.
\<close>

record fluent =
  fl_lang_ok :: "string \<Rightarrow> bool"
  fl_bundle :: "string \<Rightarrow> string \<Rightarrow> (string \<Rightarrow> string option option) option"

definition key_name_fallback :: messages where
  "key_name_fallback = fold (\<lambda>key m. m(key \<mapsto> key)) MESSAGE_IDS Map.empty"

definition parse_ftl :: "fluent \<Rightarrow> string \<Rightarrow> string \<Rightarrow> messages" where
  "parse_ftl F ftl lang =
     (case fl_bundle F (if fl_lang_ok F lang then lang else ''en'') ftl of
        None \<Rightarrow> key_name_fallback
      | Some get \<Rightarrow>
          fold (\<lambda>key m. m(key \<mapsto> (case get key of Some (Some value) \<Rightarrow> value | _ \<Rightarrow> key))) MESSAGE_IDS Map.empty)"

text \<open>\<open>BUNDLED_LANGS\<close> is generated by the build from the files of \<open>i18n/\<close>.\<close>

definition bundled_messages :: "fluent \<Rightarrow> (string \<times> string) list \<Rightarrow> string \<rightharpoonup> messages" where
  "bundled_messages F bundled = fold (\<lambda>(code, ftl) m. m(code \<mapsto> parse_ftl F ftl code)) bundled Map.empty"

text \<open>The compiled-in \<open>i18n.yaml\<close>, if it parses.\<close>

definition yaml_get :: "string \<Rightarrow> yaml \<Rightarrow> yaml option" where
  "yaml_get key v = (case v of YMap pairs \<Rightarrow> map_of pairs (YString key) | _ \<Rightarrow> None)"

definition default_lang_cid :: "yaml option \<Rightarrow> cid option" where
  "default_lang_cid lang_yaml = Option.bind lang_yaml (\<lambda>v. Option.bind (yaml_get ''i18n_cid'' v) yaml_as_str)"

definition bundled_lang_map :: "yaml option \<Rightarrow> cid hash_map" where
  "bundled_lang_map lang_yaml =
     (case Option.bind lang_yaml (yaml_get ''langs'') of
        Some (YMap pairs) \<Rightarrow>
          List.map_filter (\<lambda>(k, v). case (yaml_as_str k, yaml_as_str v) of (Some code, Some c) \<Rightarrow> Some (code, c) | _ \<Rightarrow> None) pairs
      | _ \<Rightarrow> [])"

text \<open>\<open>dag_get\<close> of a map from language codes to links.\<close>

type_synonym 'w link_getter = "'w \<Rightarrow> cid \<Rightarrow> cid hash_map option"

definition fetch_lang_map :: "'w kubo \<Rightarrow> 'w link_getter \<Rightarrow> 'w \<Rightarrow> cid option \<Rightarrow> cid option \<Rightarrow> cid hash_map" where
  "fetch_lang_map K links w lang_cid root =
     (case Option.bind lang_cid (links w) of
        Some m \<Rightarrow> m
      | None \<Rightarrow> (case Option.bind root (dag_get_manifest K w) of Some m \<Rightarrow> rm_i18n m | None \<Rightarrow> []))"

definition fetch_ftl :: "'w kubo \<Rightarrow> 'w \<Rightarrow> cid \<Rightarrow> string option" where
  "fetch_ftl K w c = Option.bind (cat_bytes K w c) from_utf8"

definition load_all_messages ::
  "'w kubo \<Rightarrow> 'w link_getter \<Rightarrow> fluent \<Rightarrow> (string \<times> string) list \<Rightarrow> 'w \<Rightarrow> cid option \<Rightarrow> cid option \<Rightarrow> string \<rightharpoonup> messages" where
  "load_all_messages K links F bundled w lang_cid root =
     fold (\<lambda>(code, link) m. case fetch_ftl K w link of None \<Rightarrow> m | Some ftl \<Rightarrow> m(code \<mapsto> parse_ftl F ftl code))
       (fetch_lang_map K links w lang_cid root) (bundled_messages F bundled)"

text \<open>A later \<open>init\<close> replaces both values, as the first one sets them.\<close>

definition i18n_init ::
  "'w kubo \<Rightarrow> 'w link_getter \<Rightarrow> fluent \<Rightarrow> (string \<times> string) list \<Rightarrow> 'w \<Rightarrow> string \<Rightarrow> cid option \<Rightarrow> cid option \<Rightarrow> i18n \<Rightarrow> i18n" where
  "i18n_init K links F bundled w lang lang_cid root st =
     \<lparr>i8_messages = Some (load_all_messages K links F bundled w lang_cid root), i8_lang = Some lang\<rparr>"

definition resolve_active_lang :: "'w kubo \<Rightarrow> 'w \<Rightarrow> cid \<Rightarrow> string option" where
  "resolve_active_lang K w root =
     Option.bind (dag_get_manifest K w root) (\<lambda>m. Option.bind (map_of (rm_config m) ''i18n'') yaml_as_str)"

definition effective_lang :: "'w kubo \<Rightarrow> 'w \<Rightarrow> string option \<Rightarrow> cid option \<Rightarrow> string" where
  "effective_lang K w configured root =
     (case configured of
        Some lang \<Rightarrow> lang
      | None \<Rightarrow> (case Option.bind root (resolve_active_lang K w) of Some lang \<Rightarrow> lang | None \<Rightarrow> ''nb''))"

definition t_lang :: "i18n \<Rightarrow> string \<Rightarrow> string \<Rightarrow> string" where
  "t_lang st lang key =
     (case i8_messages st of
        None \<Rightarrow> key
      | Some catalogue \<Rightarrow>
          (case Option.bind (case catalogue lang of Some m \<Rightarrow> Some m | None \<Rightarrow> catalogue ''en'') (\<lambda>m. m key) of
             Some value \<Rightarrow> value | None \<Rightarrow> key))"

definition runtime_lang :: "i18n \<Rightarrow> string" where
  "runtime_lang st = (case i8_lang st of Some lang \<Rightarrow> lang | None \<Rightarrow> ''en'')"

definition t :: "i18n \<Rightarrow> string \<Rightarrow> string" where
  "t st key = t_lang st (runtime_lang st) key"

definition has_lang :: "i18n \<Rightarrow> string \<Rightarrow> bool" where
  "has_lang st lang = (case i8_messages st of None \<Rightarrow> False | Some catalogue \<Rightarrow> catalogue lang \<noteq> None)"

text \<open>\<open>str::replace\<close> for a pattern that is not empty: from the left, without overlap.\<close>

function replace_text :: "string \<Rightarrow> string \<Rightarrow> string \<Rightarrow> string" where
  "replace_text pat value [] = []"
| "replace_text pat value (c # cs) =
     (if pat = [] then c # cs
      else (case strip_prefix pat (c # cs) of
              Some rest \<Rightarrow> value @ replace_text pat value rest
            | None \<Rightarrow> c # replace_text pat value cs))"
  by pat_completeness auto

termination
  by (relation "measure (\<lambda>(pat, value, s). length s)")
    (auto simp: strip_prefix_Some_iff Cons_eq_append_conv)

definition tf_lang :: "i18n \<Rightarrow> string \<Rightarrow> string \<Rightarrow> (string \<times> string) list \<Rightarrow> string" where
  "tf_lang st lang key args = fold (\<lambda>(name, value) s. replace_text (''%'' @ name @ ''%'') value s) args (t_lang st lang key)"

text \<open>\<open>switch_lang\<close>: a compiled-in text comes first; a language found nowhere changes nothing.\<close>

definition switch_lang ::
  "'w kubo \<Rightarrow> fluent \<Rightarrow> (string \<times> string) list \<Rightarrow> yaml option \<Rightarrow> 'w \<Rightarrow> string \<Rightarrow> i18n \<Rightarrow> i18n" where
  "switch_lang K F bundled lang_yaml w lang st =
     (case (case map_of bundled lang of
              Some ftl \<Rightarrow> Some (parse_ftl F ftl lang)
            | None \<Rightarrow> map_option (\<lambda>ftl. parse_ftl F ftl lang) (Option.bind (map_of (bundled_lang_map lang_yaml) lang) (fetch_ftl K w))) of
        None \<Rightarrow> st
      | Some m \<Rightarrow>
          \<lparr>i8_messages = map_option (\<lambda>catalogue. catalogue(lang \<mapsto> m)) (i8_messages st),
           i8_lang = map_option (\<lambda>_. lang) (i8_lang st)\<rparr>)"

section \<open>Replies\<close>

record incoming =
  in_from :: string
  in_to :: string
  in_id :: string
  in_request :: crud_message

record reply_message =
  rp_from :: string
  rp_to :: string
  rp_type :: string
  rp_content_type :: string
  rp_content :: bytes
  rp_reply_to :: string

definition MESSAGE_TYPE_CRUD_REPLY :: string where
  "MESSAGE_TYPE_CRUD_REPLY = ''application/vnd.ma.crud.reply''"

text \<open>
  \<open>ry_doc_lang\<close> is the \<open>lang\<close> entry of the document a DID resolves to now, \<open>ry_connect\<close> what an outbox for a
  DID meets, \<open>ry_direct\<close> the outbox the endpoint opens when there is no outbox cache, \<open>ry_send\<close> whether a message gets
  through it; the content types of terms are constants of \<open>ma_core\<close>.
\<close>

record ('d, 'o) reply_env =
  ry_did :: "string \<Rightarrow> string option"
  ry_doc_lang :: "string \<Rightarrow> string option"
  ry_encode :: "cbor \<Rightarrow> bytes"
  ry_entity :: "entity_node \<Rightarrow> bytes option"
  ry_kind_yaml :: "kind_node \<Rightarrow> string option"
  ry_yaml :: "yaml \<Rightarrow> string option"
  ry_term :: string
  ry_term_cbor :: string
  ry_term_yaml :: string
  ry_protocol :: string
  ry_builds :: "reply_message \<Rightarrow> bool"
  ry_connect :: "string \<Rightarrow> ('d, 'o) open_env"
  ry_direct :: "string \<Rightarrow> 'o option"
  ry_send :: "'o \<Rightarrow> reply_message \<Rightarrow> bool"

datatype answer_error = Handling crud_error | Encoding | InvalidSender string | NotBuilt | SendFailed

definition caller_lang :: "('d, 'o) reply_env \<Rightarrow> i18n \<Rightarrow> string \<Rightarrow> string" where
  "caller_lang R st from =
     (case ry_doc_lang R from of
        Some lang \<Rightarrow> if has_lang st lang then lang else runtime_lang st
      | None \<Rightarrow> runtime_lang st)"

definition ok_pair :: "string \<Rightarrow> cbor" where "ok_pair v = CArray [CText '':ok'', CText v]"

definition error_pair :: "string \<Rightarrow> cbor" where "error_pair reason = CArray [CText '':error'', CText reason]"

text \<open>
  The \<open>send_crud_*\<close> functions up to \<open>send_crud_reply_raw\<close>: content type and content.  The argument of \<open>ROkPath\<close> is the key
  of a message, which is the path sent, in the runtime's language.
\<close>

fun encode_reply ::
  "('d, 'o) reply_env \<Rightarrow> i18n \<Rightarrow> string \<Rightarrow> crud_reply \<Rightarrow> answer_error + string \<times> bytes" where
  "encode_reply R st from ROk = Inr (ry_term R, ry_encode R (CText '':ok''))"
| "encode_reply R st from (ROkPath key) = Inr (ry_term R, ry_encode R (ok_pair (t st key)))"
| "encode_reply R st from (ROkCid c) = Inr (ry_term R, ry_encode R (ok_pair c))"
| "encode_reply R st from (RError reason) = Inr (ry_term R, ry_encode R (error_pair reason))"
| "encode_reply R st from (RI18n key) = Inr (ry_term R, ry_encode R (error_pair (t_lang st (caller_lang R st from) key)))"
| "encode_reply R st from (RI18nf key args) =
     Inr (ry_term R, ry_encode R (error_pair (tf_lang st (caller_lang R st from) key args)))"
| "encode_reply R st from (RCbor v) = Inr (ry_term R, ry_encode R v)"
| "encode_reply R st from (RData v) = Inr (ry_term_cbor R, ry_encode R v)"
| "encode_reply R st from (RStrings names) = Inr (ry_term R, ry_encode R (CArray (map CText names)))"
| "encode_reply R st from (REntity node) =
     (case ry_entity R node of None \<Rightarrow> Inl Encoding | Some b \<Rightarrow> Inr (ry_term_cbor R, b))"
| "encode_reply R st from (RKind k) =
     (case ry_kind_yaml R k of None \<Rightarrow> Inl Encoding | Some y \<Rightarrow> Inr (''text/yaml'', ry_encode R (ok_pair y)))"
| "encode_reply R st from (RYaml v) =
     (case ry_yaml R v of None \<Rightarrow> Inl Encoding | Some y \<Rightarrow> Inr (ry_term_yaml R, ry_encode R (CText y)))"
| "encode_reply R st from (RYamlMap m) =
     (case ry_yaml R (YMap (map (\<lambda>(k, v). (YString k, v)) m)) of
        None \<Rightarrow> Inl Encoding | Some y \<Rightarrow> Inr (ry_term_yaml R, ry_encode R (CText y)))"

text \<open>
  The messages sent are the second component.  That no outbox could be opened is only logged.
\<close>

definition send_crud_reply_raw ::
  "('d, 'o) reply_env \<Rightarrow> nat \<Rightarrow> incoming \<Rightarrow> string \<times> bytes \<Rightarrow> outbox_cache option
     \<Rightarrow> outbox_cache option \<times> reply_message list \<times> (answer_error + unit)" where
  "send_crud_reply_raw R now msg payload cache =
     (case ry_did R (in_from msg) of
        None \<Rightarrow> (cache, [], Inl (InvalidSender (in_from msg)))
      | Some base \<Rightarrow>
          (let reply = \<lparr>rp_from = in_to msg, rp_to = in_from msg, rp_type = MESSAGE_TYPE_CRUD_REPLY,
                        rp_content_type = fst payload, rp_content = snd payload, rp_reply_to = in_id msg\<rparr>
           in if \<not> ry_builds R reply then (cache, [], Inl NotBuilt)
              else
                (let (cache', box) =
                   (case cache of
                      Some c \<Rightarrow> (let (c', r) = open_outbox_for_did now base (ry_protocol R) (ry_connect R base) c
                                 in (Some c', case r of Opened o' \<Rightarrow> Some o' | _ \<Rightarrow> None))
                    | None \<Rightarrow> (None, ry_direct R base))
                 in case box of
                      None \<Rightarrow> (cache', [], Inr ())
                    | Some o' \<Rightarrow> if ry_send R o' reply then (cache', [reply], Inr ()) else (cache', [], Inl SendFailed))))"

text \<open>A request with the reply at its end, as \<open>drain_crud_messages\<close> runs it; an error is only logged there.\<close>

definition answer_crud ::
  "('d, 'o) reply_env \<Rightarrow> i18n \<Rightarrow> nat \<Rightarrow> 'w crud_env \<Rightarrow> (string set \<Rightarrow> string list) \<Rightarrow> acl_map \<Rightarrow> incoming
     \<Rightarrow> ('w \<times> crud_state) \<times> outbox_cache option
     \<Rightarrow> (('w \<times> crud_state) \<times> outbox_cache option) \<times> reply_message list \<times> (answer_error + unit)" where
  "answer_crud R st now E order acl msg s =
     (case handle_crud_message E order acl (in_request msg) (fst s) of
        (ws, Inl e) \<Rightarrow> ((ws, snd s), [], Inl (Handling e))
      | (ws, Inr reply) \<Rightarrow>
          (case encode_reply R st (in_from msg) reply of
             Inl e \<Rightarrow> ((ws, snd s), [], Inl e)
           | Inr payload \<Rightarrow>
               (case send_crud_reply_raw R now msg payload (snd s) of
                  (cache, sent, result) \<Rightarrow> ((ws, cache), sent, result))))"

section \<open>The catalogue is complete\<close>

lemma fold_messages:
  "fold (\<lambda>key m. m(key \<mapsto> f key)) keys m0 = (\<lambda>key. if key \<in> set keys then Some (f key) else m0 key)"
  by (induction keys arbitrary: m0) (auto simp: fun_eq_iff)

lemma parse_ftl_lookup:
  "parse_ftl F ftl lang key =
     (if key \<notin> set MESSAGE_IDS then None
      else (case fl_bundle F (if fl_lang_ok F lang then lang else ''en'') ftl of
              None \<Rightarrow> Some key
            | Some get \<Rightarrow> Some (case get key of Some (Some value) \<Rightarrow> value | _ \<Rightarrow> key)))"
  by (simp add: parse_ftl_def key_name_fallback_def fold_messages split: option.split)

definition complete_for :: "messages \<Rightarrow> bool" where
  "complete_for m \<longleftrightarrow> dom m = set MESSAGE_IDS"

lemma parse_ftl_complete: "complete_for (parse_ftl F ftl lang)"
  by (auto simp: complete_for_def parse_ftl_lookup split: option.splits if_splits)

definition complete_catalogue :: "i18n \<Rightarrow> bool" where
  "complete_catalogue st \<longleftrightarrow>
     (\<forall>catalogue lang m. i8_messages st = Some catalogue \<longrightarrow> catalogue lang = Some m \<longrightarrow> complete_for m)"

lemma fold_catalogue:
  assumes "\<And>x m. \<forall>lang v. m lang = Some v \<longrightarrow> complete_for v
    \<Longrightarrow> \<forall>lang v. step x m lang = Some v \<longrightarrow> complete_for v"
    and "\<forall>lang v. m0 lang = Some v \<longrightarrow> complete_for v"
  shows "\<forall>lang v. fold step xs m0 lang = Some v \<longrightarrow> complete_for v"
  using assms(2)
proof (induction xs arbitrary: m0)
  case (Cons x xs)
  from assms(1)[OF Cons.prems, of x] show ?case by (simp add: Cons.IH)
qed simp

lemma bundled_complete: "\<forall>lang m. bundled_messages F bundled lang = Some m \<longrightarrow> complete_for m"
  unfolding bundled_messages_def by (rule fold_catalogue) (auto simp: parse_ftl_complete split: if_splits)

lemma init_complete: "complete_catalogue (i18n_init K links F bundled w lang lang_cid root st)"
proof -
  have "\<forall>lang m. load_all_messages K links F bundled w lang_cid root lang = Some m \<longrightarrow> complete_for m"
    unfolding load_all_messages_def
    by (rule fold_catalogue) (auto simp: parse_ftl_complete bundled_complete split: if_splits option.splits)
  then show ?thesis by (auto simp: complete_catalogue_def i18n_init_def)
qed

lemma switch_complete:
  "complete_catalogue st \<Longrightarrow> complete_catalogue (switch_lang K F bundled lang_yaml w lang st)"
  by (auto simp: complete_catalogue_def switch_lang_def parse_ftl_complete split: option.splits if_splits)

text \<open>Every known message has a text in every loaded language, so the fallback to English is for whole languages only.\<close>

lemma t_lang_loaded:
  assumes "complete_catalogue st" and "i8_messages st = Some catalogue" and "catalogue lang = Some m" and "key \<in> set MESSAGE_IDS"
  shows "m key = Some (t_lang st lang key)"
proof -
  from assms have "dom m = set MESSAGE_IDS" by (simp add: complete_catalogue_def complete_for_def)
  with assms(4) obtain v where "m key = Some v" by blast
  with assms(2,3) show ?thesis by (simp add: t_lang_def)
qed

lemma bundled_lookup:
  assumes "distinct (map fst bundled)"
  shows "bundled_messages F bundled lang = map_option (\<lambda>ftl. parse_ftl F ftl lang) (map_of bundled lang)"
proof -
  have "fold (\<lambda>(code, ftl) m. m(code \<mapsto> parse_ftl F ftl code)) xs m0 lang
      = (case map_of xs lang of Some ftl \<Rightarrow> Some (parse_ftl F ftl lang) | None \<Rightarrow> m0 lang)"
    if "distinct (map fst xs)" for xs and m0 :: "string \<rightharpoonup> messages"
    using that
  proof (induction xs arbitrary: m0)
    case (Cons x xs)
    then show ?case
      by (cases x) (auto simp: map_of_eq_None_iff[symmetric] image_iff split: option.split dest: map_of_SomeD)
  qed simp
  from this[OF assms] show ?thesis by (simp add: bundled_messages_def option.map_comp split: option.split)
qed

lemma init_lookup:
  assumes "distinct (map fst bundled)" and "distinct (map fst (fetch_lang_map K links w lang_cid root))"
  shows "load_all_messages K links F bundled w lang_cid root lang =
     (case Option.bind (map_of (fetch_lang_map K links w lang_cid root) lang) (fetch_ftl K w) of
        Some ftl \<Rightarrow> Some (parse_ftl F ftl lang)
      | None \<Rightarrow> map_option (\<lambda>ftl. parse_ftl F ftl lang) (map_of bundled lang))"
proof -
  have "fold (\<lambda>(code, link) m. case fetch_ftl K w link of None \<Rightarrow> m | Some ftl \<Rightarrow> m(code \<mapsto> parse_ftl F ftl code)) xs m0 lang
      = (case Option.bind (map_of xs lang) (fetch_ftl K w) of Some ftl \<Rightarrow> Some (parse_ftl F ftl lang) | None \<Rightarrow> m0 lang)"
    if "distinct (map fst xs)" for xs and m0 :: "string \<rightharpoonup> messages"
    using that
  proof (induction xs arbitrary: m0)
    case (Cons x xs)
    have "map_of xs (fst x) = None" using Cons.prems by (simp add: map_of_eq_None_iff)
    with Cons show ?case by (cases x) (auto split: option.split)
  qed simp
  from this[OF assms(2)] show ?thesis by (simp add: load_all_messages_def bundled_lookup[OF assms(1)] split: option.split)
qed

text \<open>
  The catalogue in force at a start prefers the published text of a language to the compiled-in one; a switch to the
  same language prefers the compiled-in one and so drops what was published.
\<close>

theorem switch_discards_published_text:
  assumes "distinct (map fst bundled)" "distinct (map fst (fetch_lang_map K links w lang_cid root))"
    and "map_of bundled lang = Some compiled"
    and "map_of (fetch_lang_map K links w lang_cid root) lang = Some link" and "fetch_ftl K w link = Some published"
    and "st = i18n_init K links F bundled w start_lang lang_cid root st0" and "key \<in> set MESSAGE_IDS"
  shows "Some (t_lang st lang key) = parse_ftl F published lang key
     \<and> Some (t_lang (switch_lang K F bundled lang_yaml w' lang st) lang key) = parse_ftl F compiled lang key"
  using assms by (auto simp: t_lang_def i18n_init_def switch_lang_def init_lookup parse_ftl_lookup split: option.splits)

section \<open>What an answer says\<close>

text \<open>Computations that change nothing, and computations that answer either with an acknowledgement or without an effect.\<close>

named_theorems answering

definition acknowledges :: "crud_reply \<Rightarrow> bool" where
  "acknowledges r \<longleftrightarrow> r = ROk \<or> (\<exists>key. r = ROkPath key) \<or> (\<exists>c. r = ROkCid c)"

definition reads_only :: "('w, 'a) crud \<Rightarrow> bool" where
  "reads_only m \<longleftrightarrow> (\<forall>ws. fst (m ws) = ws)"

definition acks :: "('w, crud_reply) crud \<Rightarrow> bool" where
  "acks m \<longleftrightarrow> (\<forall>ws ws' r. m ws = (ws', Inr r) \<longrightarrow> acknowledges r)"

definition honest :: "('w, crud_reply) crud \<Rightarrow> bool" where
  "honest m \<longleftrightarrow> (\<forall>ws ws' r. m ws = (ws', Inr r) \<longrightarrow> acknowledges r \<or> ws' = ws)"

lemma reads_pure [answering]:
  "reads_only (ret x)" "reads_only (fail e)" "reads_only (gets g)" "reads_only (asks k)"
  by (auto simp: reads_only_def crud_monad_defs)

lemma reads_and_then [answering]:
  assumes "reads_only m" and "\<And>x. reads_only (f x)"
  shows "reads_only (and_then m f)"
  unfolding reads_only_def
proof
  fix ws
  from assms(1) obtain r where "m ws = (ws, r)" by (metis reads_only_def prod.collapse)
  with assms(2) show "fst (and_then m f ws) = ws" by (cases ws) (auto simp: reads_only_def and_then_def split: sum.split)
qed

lemma reads_load [answering]:
  "reads_only (load_manifest E)" "reads_only (fetch_entity E c)" "reads_only (fetch_kind E c)" "reads_only (load_acl_from_cid E c)"
  by (simp_all add: load_manifest_def fetch_entity_def fetch_kind_def load_acl_from_cid_def reads_pure)

lemma reads_snapshot [answering]: "reads_only (runtime_config_snapshot E)"
  unfolding runtime_config_snapshot_def by (intro answering)

lemma reads_cases [answering]:
  "reads_only m \<Longrightarrow> reads_only n \<Longrightarrow> reads_only (if b then m else n)"
  "reads_only m \<Longrightarrow> (\<And>y. reads_only (f y)) \<Longrightarrow> reads_only (case x of None \<Rightarrow> m | Some y \<Rightarrow> f y)"
  by (auto split: option.split)

lemma acks_ret [answering]: "acks (ret ROk)" "acks (ret (ROkPath key))" "acks (ret (ROkCid c))"
  by (auto simp: acks_def ret_def acknowledges_def)

lemma acks_and_then [answering]:
  assumes "\<And>x. acks (f x)"
  shows "acks (and_then m f)"
  using assms by (auto simp: acks_def and_then_def split: prod.splits sum.splits)

lemma acks_cases [answering]:
  "acks m \<Longrightarrow> acks n \<Longrightarrow> acks (if b then m else n)"
  "acks m \<Longrightarrow> (\<And>y. acks (f y)) \<Longrightarrow> acks (case x of None \<Rightarrow> m | Some y \<Rightarrow> f y)"
  by (auto split: option.split)

lemma honest_acks: "acks m \<Longrightarrow> honest m"
  by (auto simp: acks_def honest_def)

lemma honest_reads: "reads_only m \<Longrightarrow> honest m"
  unfolding reads_only_def honest_def by (metis fst_conv)

lemma honest_and_then:
  assumes "reads_only m" and "\<And>x. honest (f x)"
  shows "honest (and_then m f)"
  unfolding honest_def
proof (intro allI impI)
  fix ws ws' r
  assume run: "and_then m f ws = (ws', Inr r)"
  from assms(1) obtain r1 where m: "m ws = (ws, r1)" by (metis reads_only_def prod.collapse)
  show "acknowledges r \<or> ws' = ws"
  proof (cases r1)
    case (Inr x)
    with run m have "f x ws = (ws', Inr r)" by (simp add: and_then_def)
    with assms(2)[of x] show ?thesis unfolding honest_def by blast
  qed (use run m in \<open>simp add: and_then_def\<close>)
qed

lemma honest_cases:
  "(b \<Longrightarrow> honest m) \<Longrightarrow> (\<not> b \<Longrightarrow> honest n) \<Longrightarrow> honest (if b then m else n)"
  "(x = None \<Longrightarrow> honest m) \<Longrightarrow> (\<And>y. x = Some y \<Longrightarrow> honest (f y)) \<Longrightarrow> honest (case x of None \<Rightarrow> m | Some y \<Rightarrow> f y)"
  by (auto split: option.split)

lemma honest_ret: "honest (ret r)" "honest (fail e)"
  by (auto simp: honest_def ret_def fail_def)

text \<open>As conditional rewrite rules they decide a handler by the shape of its definition.\<close>

lemmas honest_rules = honest_cases honest_ret honest_and_then honest_acks

lemma honest_root_acls: "honest (handle_root_acls E rest tail args)"
  by (cases "(E, rest, tail, args)" rule: handle_root_acls.cases) (simp_all add: honest_rules answering)

lemma honest_root_acl: "honest (handle_root_acl E tail args)"
  by (cases "(E, tail, args)" rule: handle_root_acl.cases) (simp_all add: honest_rules answering)

lemma honest_root_grp: "honest (handle_root_grp E rest tail args)"
  by (cases "(E, rest, tail, args)" rule: handle_root_grp.cases) (simp_all add: honest_rules answering)

lemma honest_kinds_root: "honest (handle_kinds_root E order tail args)"
  by (cases "(E, order, tail, args)" rule: handle_kinds_root.cases) (simp_all add: honest_rules answering apply_kinds_tree_def)

lemma reads_resolve [answering]: "reads_only (resolve_if_extends E m raw)"
  by (simp add: resolve_if_extends_def answering)

lemma honest_kind: "honest (handle_kind E order protocol tail args)"
  by (cases "(E, order, protocol, tail, args)" rule: handle_kind.cases) (simp_all add: honest_rules answering)

lemma reads_check [answering]: "reads_only (check_management E from caps)"
  by (auto simp: reads_only_def check_management_def asks_def split: prod.splits sum.splits)

lemma reads_kind_of_upsert [answering]: "reads_only (resolve_kind_node_for_upsert E kind)"
  by (simp add: resolve_kind_node_for_upsert_def answering split: option.split)

lemma honest_genesis: "honest (apply_genesis_rule E from owners name c node kind)"
  by (simp add: apply_genesis_rule_def finish_upsert_def honest_rules answering)

lemma honest_single_entity: "honest (handle_single_entity E from name tail args)"
  by (cases "(E, from, name, tail, args)" rule: handle_single_entity.cases)
    (simp_all add: honest_rules answering honest_genesis handle_entity_get_def handle_entity_delete_def handle_entity_upsert_def)

lemma reads_entity_node [answering]: "reads_only (fetch_entity_node E name)"
  by (simp add: fetch_entity_node_def answering split: option.split)

lemma honest_entity_acl: "honest (handle_entity_acl_field E name rest tail args)"
  by (cases "(E, name, rest, tail, args)" rule: handle_entity_acl_field.cases) (simp_all add: honest_rules answering write_entity_acl_def Let_def)

lemma reads_entity_field_get [answering]: "reads_only (entity_field_get E name field)"
  by (simp add: entity_field_get_def answering split: option.split cbor.split)

lemma honest_entity_field: "honest (handle_entity_field E name rest tail args)"
  by (cases "(E, name, rest, tail, args)" rule: handle_entity_field.cases)
    (simp_all add: honest_ret honest_entity_acl honest_reads reads_entity_field_get)

lemma honest_entities_ns: "honest (handle_entities_ns E from rest tail args)"
  by (cases "(E, from, rest, tail, args)" rule: handle_entities_ns.cases)
    (simp_all add: honest_rules answering honest_single_entity honest_entity_field del: handle_single_entity.simps handle_entity_field.simps)

lemma honest_config_ns: "honest (handle_config_ns E rest tail args)"
proof -
  have root: "honest (handle_config_root E tail args)"
    by (cases "(E, tail, args)" rule: handle_config_root.cases) (simp_all add: honest_rules answering)
  have get: "honest (handle_config_key_get E key)" for key
    by (simp add: handle_config_key_get_def honest_rules answering)
  have delete: "honest (handle_config_key_delete E key)" for key
    by (simp add: handle_config_key_delete_def honest_rules answering)
  have "honest (handle_config_key_set E key v)" for key v
    by (simp add: handle_config_key_set_def set_ipv6_def set_daemon_key_def set_manifest_key_def honest_rules answering)
  with get delete have "honest (handle_config_key E key tail args)" for key
    by (cases "(E, key, tail, args)" rule: handle_config_key.cases) (simp_all add: honest_ret)
  with root show ?thesis
    by (cases "(E, rest, tail, args)" rule: handle_config_ns.cases) (simp_all add: honest_ret)
qed

lemma honest_crud_message: "honest (handle_crud_message E order acl msg)"
proof -
  have "honest (route_op E order sender ns rest tail args)" for sender ns rest tail args
    by (simp add: route_op_def handle_kinds_ns_def honest_entities_ns honest_kinds_root honest_kind honest_config_ns
        honest_root_acl honest_root_acls honest_root_grp)
  then have "honest (dispatch_management E order msg)"
    by (simp add: dispatch_management_def honest_ret split: sum.split prod.split)
  then show ?thesis by (auto simp: honest_def handle_crud_message_def split: sum.splits)
qed

text \<open>Looking something up changes nothing, whatever is asked for and however it ends.\<close>

lemma reads_get: "reads_only (route_op E order sender ns rest None [])"
proof -
  have entities: "reads_only (handle_entities_ns E sender rest None [])"
  proof (cases rest)
    case (Cons name more)
    show ?thesis
      by (cases more rule: remdups_adj.cases) (simp_all add: Cons answering handle_entity_get_def)
  qed (simp add: answering)
  have config: "reads_only (handle_config_ns E path None [])" for path
  proof (cases path)
    case (Cons key more)
    show ?thesis by (cases more) (simp_all add: Cons answering handle_config_key_get_def)
  qed (simp add: answering)
  have named: "reads_only (handle_root_acls E rest None [])" "reads_only (handle_root_grp E rest None [])"
    by (cases rest rule: remdups_adj.cases; simp add: answering)+
  show ?thesis
    by (simp add: route_op_def handle_kinds_ns_def answering entities config named)
qed

lemma get_changes_nothing:
  assumes "decode_crud_payload (ce_decode E) (cm_payload msg) = Inr (OGet path)"
  shows "reads_only (handle_crud_message E order acl msg)"
proof -
  have "reads_only (dispatch_management E order msg)"
    using assms by (simp add: dispatch_management_def reads_pure reads_get split: sum.split prod.split)
  then show ?thesis by (auto simp: reads_only_def handle_crud_message_def split: sum.splits)
qed

lemma send_shape:
  assumes "send_crud_reply_raw R now msg payload cache = (cache', sent, result)"
  shows "sent = [] \<or> sent = [\<lparr>rp_from = in_to msg, rp_to = in_from msg, rp_type = MESSAGE_TYPE_CRUD_REPLY,
     rp_content_type = fst payload, rp_content = snd payload, rp_reply_to = in_id msg\<rparr>] \<and> result = Inr ()"
  using assms by (auto simp: send_crud_reply_raw_def Let_def split: option.splits if_splits prod.splits)

lemma acknowledgement_text:
  assumes "acknowledges r" and "encode_reply R st sender r = Inr payload"
  shows "fst payload = ry_term R \<and> (snd payload = ry_encode R (CText '':ok'') \<or> (\<exists>v. snd payload = ry_encode R (ok_pair v)))"
  using assms by (auto simp: acknowledges_def) blast+

section \<open>Properties\<close>

text \<open>
  C37 (CRUD replies). An answer can be trusted: a request is answered at most once, to its sender, as the reply to it;
  if it changed anything then an answer that goes out is \<open>:ok\<close>, alone or with a value, so an answer that says
  otherwise, every refusal among them, means that nothing was changed; and a lookup never changes anything, answered
  or not.
\<close>

theorem answers_match_effects:
  assumes "answer_crud R st now E order acl msg (ws, cache) = ((ws', cache'), sent, result)"
  shows "length sent \<le> 1
     \<and> (\<forall>m\<in>set sent. rp_to m = in_from msg \<and> rp_from m = in_to msg \<and> rp_reply_to m = in_id msg
          \<and> (rp_content m \<noteq> ry_encode R (CText '':ok'') \<and> (\<forall>v. rp_content m \<noteq> ry_encode R (ok_pair v)) \<longrightarrow> ws' = ws))
     \<and> (\<forall>path. decode_crud_payload (ce_decode E) (cm_payload (in_request msg)) = Inr (OGet path) \<longrightarrow> ws' = ws)"
proof -
  obtain ws1 r1 where run: "handle_crud_message E order acl (in_request msg) ws = (ws1, r1)" by fastforce
  have ws1: "ws' = ws1" using assms run by (auto simp: answer_crud_def split: sum.splits prod.splits)
  have get: "ws' = ws" if "decode_crud_payload (ce_decode E) (cm_payload (in_request msg)) = Inr (OGet path)" for path
    using get_changes_nothing[OF that, of order acl] run ws1 unfolding reads_only_def by (metis fst_conv)
  show ?thesis
  proof (cases "sent = []")
    case False
    with assms run obtain r payload where r: "r1 = Inr r" and enc: "encode_reply R st (in_from msg) r = Inr payload"
      and send: "send_crud_reply_raw R now msg payload cache = (cache', sent, result)"
      by (auto simp: answer_crud_def split: sum.splits prod.splits)
    from honest_crud_message[of E order acl "in_request msg"] run r ws1 have "acknowledges r \<or> ws' = ws"
      unfolding honest_def by blast
    with acknowledgement_text[OF _ enc] send_shape[OF send] False get show ?thesis by auto
  qed (use get in simp)
qed

definition sample_reply_env :: "(unit, unit) reply_env" where
  "sample_reply_env = \<lparr>ry_did = Some, ry_doc_lang = (\<lambda>_. Some ''nb''),
     ry_encode = (\<lambda>v. case v of CArray (CText key # _) \<Rightarrow> if key = '':ok'' then [2] else [3] | _ \<Rightarrow> [1]),
     ry_entity = (\<lambda>_. None), ry_kind_yaml = (\<lambda>_. None), ry_yaml = (\<lambda>_. None), ry_term = ''term'', ry_term_cbor = ''term+cbor'',
     ry_term_yaml = ''term+yaml'', ry_protocol = ''/ma/crud/0.0.1'', ry_builds = (\<lambda>_. True),
     ry_connect = (\<lambda>_. \<lparr>oe_document = None, oe_service = (\<lambda>_. None), oe_first = ConnectFailed, oe_fresh = None,
       oe_second = ConnectFailed, oe_later = 0\<rparr>), ry_direct = (\<lambda>_. Some ()), ry_send = (\<lambda>_ _. True)\<rparr>"

definition empty_request :: incoming where
  "empty_request = \<lparr>in_from = ''did:ma:alice'', in_to = ''did:ma:us'', in_id = ''7'',
     in_request = \<lparr>cm_from = ''did:ma:alice'', cm_type = MESSAGE_TYPE_CRUD, cm_payload = []\<rparr>\<rparr>"

theorem answers_match_effects_witness:
  "\<exists>m. answer_crud sample_reply_env \<lparr>i8_messages = None, i8_lang = None\<rparr> 0 sample_env (\<lambda>_. []) [] empty_request
        ((sample_docs, sample_crud), None) = (((sample_docs, sample_crud), None), [m], Inr ())
     \<and> rp_content m = [3] \<and> rp_to m = ''did:ma:alice'' \<and> rp_reply_to m = ''7''"
proof -
  have run: "handle_crud_message sample_env (\<lambda>_. []) [] (in_request empty_request) (sample_docs, sample_crud)
      = ((sample_docs, sample_crud), Inr (RError ''empty CRUD payload''))"
    by (simp add: handle_crud_message_def crud_gate_def is_owner_def sample_defs sample_crud_def empty_request_def
        dispatch_management_def ret_def)
  obtain m where answer: "answer_crud sample_reply_env \<lparr>i8_messages = None, i8_lang = None\<rparr> 0 sample_env (\<lambda>_. []) [] empty_request
      ((sample_docs, sample_crud), None) = (((sample_docs, sample_crud), None), [m], Inr ())" and m: "rp_content m = [3]"
    by (simp add: answer_crud_def run send_crud_reply_raw_def sample_reply_env_def error_pair_def)
  from answers_match_effects[OF answer] answer m show ?thesis by (auto simp: empty_request_def)
qed

end
