(* ===== verification/Node.thy ===== *)
theory Node
  imports Kinds
begin

text \<open>
  The HTTP client behind the Kubo interface (\<open>src/kubo.rs\<close>): the permits that bound the concurrent requests, the
  requests and their queries, and what is made of a reply.  The node is a parameter, given by its replies; the JSON parser,
  the encodings of the documents and the decoding of a body as text are parameters too.  The end of the theory relates the
  client to the interface \<open>kubo\<close> the rest of the development uses.
\<close>

section \<open>Requests and replies\<close>

definition MAX_CONCURRENT_KUBO_REQUESTS :: nat where "MAX_CONCURRENT_KUBO_REQUESTS = 16"

text \<open>No reply within the client's timeouts (or no connection), or a status and a body.\<close>

datatype http_reply = NoReply | Reply nat bytes

text \<open>\<open>hn_permit\<close>: the request gate grants a permit for the operation within five seconds.\<close>

record 'w http_node =
  hn_url :: string
  hn_permit :: "'w \<Rightarrow> string \<Rightarrow> bool"
  hn_read :: "'w \<Rightarrow> string \<Rightarrow> (string \<times> string) list \<Rightarrow> http_reply"
  hn_write :: "'w \<Rightarrow> string \<Rightarrow> (string \<times> string) list \<Rightarrow> bytes option \<Rightarrow> 'w \<times> http_reply"
  hn_text :: "bytes \<Rightarrow> string"
  hn_json :: "string \<Rightarrow> json option"

datatype client_error = QueueTimeout string | Transport | Status nat | Serialise | BadReply string | MissingCid | PinFailed string

text \<open>What a client call does beside its result: it takes and gives back permits and sends requests.\<close>

datatype client_event = Took string | Gave | Asked string

type_synonym ('w, 'a) client = "'w \<Rightarrow> 'w \<times> client_event list \<times> (client_error + 'a)"

text \<open>The permit is given back when it goes out of scope, on every path.\<close>

definition with_permit :: "'w http_node \<Rightarrow> string \<Rightarrow> ('w, 'a) client \<Rightarrow> ('w, 'a) client" where
  "with_permit H op body w =
     (if hn_permit H w op then (let (w', events, r) = body w in (w', Took op # events @ [Gave], r))
      else (w, [], Inl (QueueTimeout op)))"

definition api_url :: "'w http_node \<Rightarrow> string \<Rightarrow> string" where
  "api_url H op = trim_end_matches (CHR ''/'') (hn_url H) @ ''/api/v0/'' @ op"

text \<open>\<open>error_for_status\<close> refuses the client and server errors only.\<close>

definition body_for_status :: "http_reply \<Rightarrow> client_error + bytes" where
  "body_for_status reply =
     (case reply of
        NoReply \<Rightarrow> Inl Transport
      | Reply status body \<Rightarrow> if 400 \<le> status \<and> status < 600 then Inl (Status status) else Inr body)"

definition ask :: "'w http_node \<Rightarrow> string \<Rightarrow> (string \<times> string) list \<Rightarrow> (bytes \<Rightarrow> client_error + 'a) \<Rightarrow> ('w, 'a) client" where
  "ask H op query use w =
     (w, [Asked (api_url H op)],
      case body_for_status (hn_read H w (api_url H op) query) of Inl e \<Rightarrow> Inl e | Inr body \<Rightarrow> use body)"

definition tell ::
  "'w http_node \<Rightarrow> string \<Rightarrow> (string \<times> string) list \<Rightarrow> bytes option \<Rightarrow> (http_reply \<Rightarrow> client_error + 'a) \<Rightarrow> ('w, 'a) client" where
  "tell H op query part use w =
     (let (w', reply) = hn_write H w (api_url H op) query part in (w', [Asked (api_url H op)], use reply))"

section \<open>Response types\<close>

text \<open>JSON objects have distinct keys here; the array form that \<open>serde\<close> also reads as a struct is left out.\<close>

definition read_cid :: "json \<Rightarrow> cid option" where
  "read_cid j =
     (case j of JObject members \<Rightarrow> (case map_of members ''/'' of Some (JString c) \<Rightarrow> Some c | _ \<Rightarrow> None) | _ \<Rightarrow> None)"

text \<open>An optional field: absent, null, or a value that has to be readable.\<close>

definition read_optional :: "(string \<times> json) list \<Rightarrow> string \<Rightarrow> cid option option" where
  "read_optional members key =
     (case map_of members key of None \<Rightarrow> Some None | Some JNull \<Rightarrow> Some None | Some j \<Rightarrow> map_option Some (read_cid j))"

definition dag_put_response :: "json \<Rightarrow> (cid option \<times> cid option) option" where
  "dag_put_response j =
     (case j of
        JObject members \<Rightarrow>
          (case (read_optional members ''Cid'', read_optional members ''cid'') of (Some a, Some b) \<Rightarrow> Some (a, b) | _ \<Rightarrow> None)
      | _ \<Rightarrow> None)"

definition dag_resolve_response :: "json \<Rightarrow> cid option" where
  "dag_resolve_response j =
     (case j of JObject members \<Rightarrow> Option.bind (map_of members ''Cid'') read_cid | _ \<Rightarrow> None)"

definition add_response :: "json \<Rightarrow> string option" where
  "add_response j =
     (case j of JObject members \<Rightarrow> (case map_of members ''Hash'' of Some (JString h) \<Rightarrow> Some h | _ \<Rightarrow> None) | _ \<Rightarrow> None)"

section \<open>Operations\<close>

definition parse_put :: "'w http_node \<Rightarrow> http_reply \<Rightarrow> client_error + cid" where
  "parse_put H reply =
     (case body_for_status reply of
        Inl e \<Rightarrow> Inl e
      | Inr body \<Rightarrow>
          (case Option.bind (hn_json H (hn_text H body)) dag_put_response of
             None \<Rightarrow> Inl (BadReply (hn_text H body))
           | Some (Some c, _) \<Rightarrow> Inr c
           | Some (None, Some c) \<Rightarrow> Inr c
           | Some (None, None) \<Rightarrow> Inl MissingCid))"

text \<open>The argument is the value's JSON, or \<open>None\<close> where the serialisation fails.\<close>

definition client_dag_put :: "'w http_node \<Rightarrow> bytes option \<Rightarrow> ('w, cid) client" where
  "client_dag_put H payload = with_permit H ''dag/put''
     (case payload of
        None \<Rightarrow> (\<lambda>w. (w, [], Inl Serialise))
      | Some b \<Rightarrow>
          tell H ''dag/put'' [(''store-codec'', ''dag-cbor''), (''input-codec'', ''dag-json''), (''pin'', ''false'')] (Some b)
            (parse_put H))"

definition client_pin_add :: "'w http_node \<Rightarrow> cid \<Rightarrow> ('w, unit) client" where
  "client_pin_add H c = with_permit H ''pin/add''
     (tell H ''pin/add'' [(''arg'', c), (''recursive'', ''true'')] None
        (\<lambda>reply. case body_for_status reply of Inl e \<Rightarrow> Inl e | Inr _ \<Rightarrow> Inr ()))"

text \<open>\<open>s.contains(p)\<close>.\<close>

definition contains_text :: "string \<Rightarrow> string \<Rightarrow> bool" where
  "contains_text p s = (split_at_str p s \<noteq> None)"

text \<open>The answer to \<open>pin/update\<close>: done, or the old CID was not pinned.\<close>

definition parse_pin_update :: "'w http_node \<Rightarrow> http_reply \<Rightarrow> client_error + bool" where
  "parse_pin_update H reply =
     (case reply of
        NoReply \<Rightarrow> Inl Transport
      | Reply status body \<Rightarrow>
          if 200 \<le> status \<and> status < 300 then Inr True
          else if contains_text ''not recursively pinned'' (hn_text H body) \<or> contains_text ''not pinned'' (hn_text H body)
          then Inr False
          else Inl (PinFailed (hn_text H body)))"

text \<open>The permit is dropped before the fallback takes its own.\<close>

definition client_pin_update :: "'w http_node \<Rightarrow> cid \<Rightarrow> cid \<Rightarrow> ('w, unit) client" where
  "client_pin_update H old new w =
     (case with_permit H ''pin/update''
             (tell H ''pin/update'' [(''arg'', old), (''arg'', new), (''unpin'', ''true'')] None (parse_pin_update H)) w of
        (w', events, Inl e) \<Rightarrow> (w', events, Inl e)
      | (w', events, Inr True) \<Rightarrow> (w', events, Inr ())
      | (w', events, Inr False) \<Rightarrow>
          (let (w'', more, r) = client_pin_add H new w' in (w'', events @ more, r)))"

definition parse_add :: "'w http_node \<Rightarrow> http_reply \<Rightarrow> client_error + string" where
  "parse_add H reply =
     (case body_for_status reply of
        Inl e \<Rightarrow> Inl e
      | Inr body \<Rightarrow>
          (case Option.bind (hn_json H (hn_text H body)) add_response of
             None \<Rightarrow> Inl (BadReply (hn_text H body)) | Some h \<Rightarrow> Inr h))"

definition ipfs_add_bytes_with_pin :: "'w http_node \<Rightarrow> bytes \<Rightarrow> bool \<Rightarrow> ('w, string) client" where
  "ipfs_add_bytes_with_pin H b pin = with_permit H ''add''
     (tell H ''add'' [(''pin'', if pin then ''true'' else ''false'')] (Some b) (parse_add H))"

definition ipfs_add_bytes_unpinned :: "'w http_node \<Rightarrow> bytes \<Rightarrow> ('w, string) client" where
  "ipfs_add_bytes_unpinned H b = ipfs_add_bytes_with_pin H b False"

definition client_cat_bytes :: "'w http_node \<Rightarrow> cid \<Rightarrow> ('w, bytes) client" where
  "client_cat_bytes H c = with_permit H ''cat'' (ask H ''cat'' [(''arg'', c)] Inr)"

definition client_dag_get :: "'w http_node \<Rightarrow> (string \<Rightarrow> 'a option) \<Rightarrow> cid \<Rightarrow> ('w, 'a) client" where
  "client_dag_get H decode c = with_permit H ''dag/get''
     (ask H ''dag/get'' [(''arg'', c), (''output-codec'', ''dag-json'')]
        (\<lambda>body. case decode (hn_text H body) of None \<Rightarrow> Inl (BadReply (hn_text H body)) | Some x \<Rightarrow> Inr x))"

definition client_dag_resolve :: "'w http_node \<Rightarrow> string \<Rightarrow> ('w, cid) client" where
  "client_dag_resolve H path =
     (if \<not> starts_with ''/'' path then (\<lambda>w. (w, [], Inr path))
      else with_permit H ''dag/resolve''
        (ask H ''dag/resolve'' [(''arg'', path)]
           (\<lambda>body. case Option.bind (hn_json H (hn_text H body)) dag_resolve_response of
                     None \<Rightarrow> Inl (BadReply (hn_text H body)) | Some c \<Rightarrow> Inr c)))"

section \<open>Permits\<close>

text \<open>
  A call never asks for a permit while it holds one, never sends a request without one, and ends with none: its events
  are blocks of one permit each.  So a task waits for the gate only while it holds nothing that others wait for.
\<close>

fun blocks_of_one :: "client_event list \<Rightarrow> bool" where
  "blocks_of_one [] = True"
| "blocks_of_one (Took op # Gave # events) = blocks_of_one events"
| "blocks_of_one (Took op # Asked url # Gave # events) = blocks_of_one events"
| "blocks_of_one events = False"

lemma blocks_append: "blocks_of_one a \<Longrightarrow> blocks_of_one b \<Longrightarrow> blocks_of_one (a @ b)"
  by (induction a rule: blocks_of_one.induct) (auto split: client_event.splits elim: blocks_of_one.elims)

lemma with_permit_blocks:
  assumes "with_permit H op body w = (w', events, r)"
    and "\<And>w w' events r. body w = (w', events, r) \<Longrightarrow> events = [] \<or> (\<exists>url. events = [Asked url])"
  shows "blocks_of_one events"
  using assms(1) assms(2)[of w] by (fastforce simp: with_permit_def split: if_splits prod.splits)

lemma ask_events: "ask H op query use w = (w', events, r) \<Longrightarrow> events = [] \<or> (\<exists>url. events = [Asked url])"
  by (auto simp: ask_def)

lemma tell_events: "tell H op query part use w = (w', events, r) \<Longrightarrow> events = [] \<or> (\<exists>url. events = [Asked url])"
  by (auto simp: tell_def split: prod.splits)

lemma client_calls_hold_one_permit:
  "client_dag_put H payload w = (w', events, r) \<Longrightarrow> blocks_of_one events"
  "client_pin_add H c w = (w', events, r1) \<Longrightarrow> blocks_of_one events"
  "client_pin_update H old new w = (w', events, r1) \<Longrightarrow> blocks_of_one events"
  "ipfs_add_bytes_with_pin H b pin w = (w', events, r2) \<Longrightarrow> blocks_of_one events"
  "client_cat_bytes H c w = (w', events, r3) \<Longrightarrow> blocks_of_one events"
  "client_dag_get H decode c w = (w', events, r4) \<Longrightarrow> blocks_of_one events"
  "client_dag_resolve H path w = (w', events, r) \<Longrightarrow> blocks_of_one events"
proof -
  show "client_dag_put H payload w = (w', events, r) \<Longrightarrow> blocks_of_one events"
    unfolding client_dag_put_def by (erule with_permit_blocks) (auto split: option.splits dest: tell_events)
  have add: "blocks_of_one events" if "client_pin_add H c w = (w', events, r1)" for c w w' events r1
    using that unfolding client_pin_add_def by (rule with_permit_blocks) (auto dest: tell_events)
  then show "client_pin_add H c w = (w', events, r1) \<Longrightarrow> blocks_of_one events" .
  show "client_pin_update H old new w = (w', events, r1) \<Longrightarrow> blocks_of_one events"
  proof -
    assume run: "client_pin_update H old new w = (w', events, r1)"
    let ?m = "with_permit H ''pin/update''
      (tell H ''pin/update'' [(''arg'', old), (''arg'', new), (''unpin'', ''true'')] None (parse_pin_update H))"
    obtain w1 e1 q where q: "?m w = (w1, e1, q)" using prod_cases3 by blast
    from q have e1: "blocks_of_one e1" by (rule with_permit_blocks) (auto dest: tell_events)
    obtain w2 e2 r2 where p: "client_pin_add H new w1 = (w2, e2, r2)" using prod_cases3 by blast
    from add[OF p] e1 run q p show ?thesis
      by (auto simp: client_pin_update_def blocks_append split: sum.splits bool.splits)
  qed
  show "ipfs_add_bytes_with_pin H b pin w = (w', events, r2) \<Longrightarrow> blocks_of_one events"
    unfolding ipfs_add_bytes_with_pin_def by (erule with_permit_blocks) (auto dest: tell_events)
  show "client_cat_bytes H c w = (w', events, r3) \<Longrightarrow> blocks_of_one events"
    unfolding client_cat_bytes_def by (erule with_permit_blocks) (auto dest: ask_events)
  show "client_dag_get H decode c w = (w', events, r4) \<Longrightarrow> blocks_of_one events"
    unfolding client_dag_get_def by (erule with_permit_blocks) (auto dest: ask_events)
  show "client_dag_resolve H path w = (w', events, r) \<Longrightarrow> blocks_of_one events"
    unfolding client_dag_resolve_def
    by (auto split: if_splits elim!: with_permit_blocks dest: ask_events)
qed

text \<open>The gate with the tasks' remaining events: a task waits only for a permit.\<close>

inductive gate_step :: "nat \<times> client_event list list \<Rightarrow> nat \<times> client_event list list \<Rightarrow> bool" where
  took: "0 < free \<Longrightarrow> i < length tasks \<Longrightarrow> tasks ! i = Took op # rest \<Longrightarrow>
     gate_step (free, tasks) (free - 1, tasks[i := rest])"
| asked: "i < length tasks \<Longrightarrow> tasks ! i = Asked url # rest \<Longrightarrow> gate_step (free, tasks) (free, tasks[i := rest])"
| gave: "i < length tasks \<Longrightarrow> tasks ! i = Gave # rest \<Longrightarrow> gate_step (free, tasks) (free + 1, tasks[i := rest])"

fun holding :: "client_event list \<Rightarrow> nat" where
  "holding (Asked url # events) = 1"
| "holding (Gave # events) = 1"
| "holding events = 0"

fun rest_ok :: "client_event list \<Rightarrow> bool" where
  "rest_ok (Asked url # Gave # events) = blocks_of_one events"
| "rest_ok (Gave # events) = blocks_of_one events"
| "rest_ok events = blocks_of_one events"

lemma rest_ok_blocks: "blocks_of_one events \<Longrightarrow> rest_ok events"
  by (cases events rule: rest_ok.cases) auto

lemma rest_ok_took: "rest_ok (Took op # rest) \<Longrightarrow> rest_ok rest \<and> holding rest = 1"
  by (cases "Took op # rest" rule: blocks_of_one.cases) auto

lemma rest_ok_asked: "rest_ok (Asked url # rest) \<Longrightarrow> rest_ok rest \<and> holding rest = 1"
  by (cases "Asked url # rest" rule: rest_ok.cases) auto

lemma blocks_hold_nothing: "blocks_of_one events \<Longrightarrow> holding events = 0"
  by (cases events rule: holding.cases) auto

definition gate_ok :: "nat \<times> client_event list list \<Rightarrow> bool" where
  "gate_ok s \<longleftrightarrow> list_all rest_ok (snd s) \<and> fst s + sum_list (map holding (snd s)) = MAX_CONCURRENT_KUBO_REQUESTS"

lemma gate_step_ok: "gate_step s s' \<Longrightarrow> gate_ok s \<Longrightarrow> gate_ok s'"
proof (induction rule: gate_step.induct)
  case (took free i tasks op rest)
  have "rest_ok (Took op # rest)" using took by (metis gate_ok_def list_all_length snd_conv)
  from rest_ok_took[OF this] took show ?case
    by (auto simp: gate_ok_def list_all_iff map_update sum_list_update set_update_subset_insert dest!: set_update_subset_insert[THEN subsetD])
next
  case (asked i tasks url rest free)
  have ok: "rest_ok (Asked url # rest)" using asked by (metis gate_ok_def list_all_length snd_conv)
  have "1 \<le> sum_list (map holding tasks)" using asked by (metis elem_le_sum_list holding.simps(1) length_map nth_map)
  with rest_ok_asked[OF ok] asked show ?case
    by (auto simp: gate_ok_def list_all_iff map_update sum_list_update dest!: set_update_subset_insert[THEN subsetD])
next
  case (gave i tasks rest free)
  have ok: "rest_ok (Gave # rest)" using gave by (metis gate_ok_def list_all_length snd_conv)
  have "1 \<le> sum_list (map holding tasks)" using gave by (metis elem_le_sum_list holding.simps(2) length_map nth_map)
  with ok blocks_hold_nothing[of rest] rest_ok_blocks[of rest] gave show ?case
    by (auto simp: gate_ok_def list_all_iff map_update sum_list_update dest!: set_update_subset_insert[THEN subsetD])
qed

lemma gate_not_stuck:
  assumes ok: "gate_ok (free, tasks)" and work: "list_ex (\<lambda>events. events \<noteq> []) tasks"
  shows "\<exists>s'. gate_step (free, tasks) s'"
proof (cases "\<exists>i<length tasks. \<exists>url rest. tasks ! i = Asked url # rest \<or> tasks ! i = Gave # rest")
  case True
  then show ?thesis by (metis gate_step.asked gate_step.gave)
next
  case False
  have idle: "holding events = 0" if "events \<in> set tasks" for events
    using that False by (cases events rule: holding.cases) (auto simp: in_set_conv_nth)
  have "map holding tasks = map (\<lambda>_. 0) tasks" using idle by (simp add: map_eq_conv)
  then have "sum_list (map holding tasks) = 0" by simp
  with ok have "0 < free" by (simp add: gate_ok_def MAX_CONCURRENT_KUBO_REQUESTS_def)
  moreover from work obtain i where i: "i < length tasks" "tasks ! i \<noteq> []" by (auto simp: list_ex_length)
  with False obtain op rest where "tasks ! i = Took op # rest" by (metis client_event.exhaust list.exhaust)
  ultimately show ?thesis using gate_step.took i(1) by blast
qed

text \<open>Every step uses up one event, so a run of the gate ends, and where it ends every call is through.\<close>

definition events_left :: "nat \<times> client_event list list \<Rightarrow> nat" where
  "events_left s = sum_list (map length (snd s))"

lemma one_event_less:
  assumes "i < length tasks" and "tasks ! i = e # rest"
  shows "sum_list (map length tasks) = Suc (sum_list (map length (tasks[i := rest])))"
proof -
  have "length (tasks ! i) \<le> sum_list (map length tasks)" using assms(1) by (metis elem_le_sum_list length_map nth_map)
  then show ?thesis using assms by (simp add: map_update sum_list_update)
qed

lemma gate_step_progress: "gate_step s s' \<Longrightarrow> events_left s = Suc (events_left s')"
  by (induction rule: gate_step.induct) (simp_all add: events_left_def one_event_less)

lemma gate_run_ok: "gate_step\<^sup>*\<^sup>* s s' \<Longrightarrow> gate_ok s \<Longrightarrow> gate_ok s'"
  by (induction rule: rtranclp_induct) (auto intro: gate_step_ok)

text \<open>The events of a task that makes calls one after the other.\<close>

inductive call_trace :: "'w http_node \<Rightarrow> client_event list \<Rightarrow> bool" for H where
  no_call: "call_trace H []"
| put_call: "client_dag_put H payload w = (w', events, r) \<Longrightarrow> call_trace H later \<Longrightarrow> call_trace H (events @ later)"
| pin_call: "client_pin_add H c w = (w', events, r1) \<Longrightarrow> call_trace H later \<Longrightarrow> call_trace H (events @ later)"
| update_call: "client_pin_update H old new w = (w', events, r1) \<Longrightarrow> call_trace H later \<Longrightarrow> call_trace H (events @ later)"
| add_call: "ipfs_add_bytes_with_pin H b pin w = (w', events, r2) \<Longrightarrow> call_trace H later \<Longrightarrow> call_trace H (events @ later)"
| cat_call: "client_cat_bytes H c w = (w', events, r3) \<Longrightarrow> call_trace H later \<Longrightarrow> call_trace H (events @ later)"
| get_call: "client_dag_get H (decode :: string \<Rightarrow> json option) c w = (w', events, r4) \<Longrightarrow> call_trace H later
    \<Longrightarrow> call_trace H (events @ later)"
| resolve_call: "client_dag_resolve H path w = (w', events, r) \<Longrightarrow> call_trace H later \<Longrightarrow> call_trace H (events @ later)"

lemma call_trace_blocks: "call_trace H events \<Longrightarrow> blocks_of_one events"
  by (induction rule: call_trace.induct) (auto intro: blocks_append client_calls_hold_one_permit)

section \<open>The interface\<close>

text \<open>What the development asks of a node, made of client calls; the encodings of the documents are parameters.\<close>

record codecs =
  cd_manifest :: "runtime_manifest \<Rightarrow> bytes option"
  cd_manifest_of :: "string \<Rightarrow> runtime_manifest option"
  cd_entity :: "entity_node \<Rightarrow> bytes option"
  cd_entity_of :: "string \<Rightarrow> entity_node option"
  cd_strings :: "string list \<Rightarrow> bytes option"
  cd_strings_of :: "string \<Rightarrow> string list option"
  cd_kind_of :: "string \<Rightarrow> kind_node option"
  cd_kinds_of :: "string \<Rightarrow> kind_tree option"
  cd_acl_of :: "string \<Rightarrow> acl_map option"

definition ok_value :: "'w \<times> client_event list \<times> (client_error + 'a) \<Rightarrow> 'a option" where
  "ok_value x = (case snd (snd x) of Inl e \<Rightarrow> None | Inr v \<Rightarrow> Some v)"

definition written :: "'w \<times> client_event list \<times> (client_error + 'a) \<Rightarrow> 'w \<times> 'a option" where
  "written x = (fst x, ok_value x)"

definition http_kubo :: "'w http_node \<Rightarrow> codecs \<Rightarrow> 'w kubo" where
  "http_kubo H C = \<lparr>
     dag_get_manifest = (\<lambda>w c. ok_value (client_dag_get H (cd_manifest_of C) c w)),
     dag_put_manifest = (\<lambda>w m. written (client_dag_put H (cd_manifest C m) w)),
     dag_get_entity = (\<lambda>w c. ok_value (client_dag_get H (cd_entity_of C) c w)),
     dag_put_entity = (\<lambda>w e. written (client_dag_put H (cd_entity C e) w)),
     dag_get_kind = (\<lambda>w c. ok_value (client_dag_get H (cd_kind_of C) c w)),
     dag_get_kinds = (\<lambda>w c. ok_value (client_dag_get H (cd_kinds_of C) c w)),
     dag_get_acl = (\<lambda>w c. ok_value (client_dag_get H (cd_acl_of C) c w)),
     dag_get_strings = (\<lambda>w c. ok_value (client_dag_get H (cd_strings_of C) c w)),
     dag_put_strings = (\<lambda>w ss. written (client_dag_put H (cd_strings C ss) w)),
     resolve_path = (\<lambda>w path. ok_value (client_dag_resolve H path w)),
     add_bytes_unpinned = (\<lambda>w b. written (ipfs_add_bytes_unpinned H b w)),
     cat_bytes = (\<lambda>w c. ok_value (client_cat_bytes H c w)),
     pin_update = (\<lambda>w old new. let (w', r) = written (client_pin_update H old new w) in (w', r \<noteq> None))\<rparr>"

definition reply_body :: "http_reply \<Rightarrow> bytes option" where
  "reply_body reply = (case body_for_status reply of Inl e \<Rightarrow> None | Inr b \<Rightarrow> Some b)"

definition dag_text :: "'w http_node \<Rightarrow> 'w \<Rightarrow> cid \<Rightarrow> string option" where
  "dag_text H w c =
     (if hn_permit H w ''dag/get''
      then map_option (hn_text H) (reply_body (hn_read H w (api_url H ''dag/get'') [(''arg'', c), (''output-codec'', ''dag-json'')]))
      else None)"

definition raw_bytes :: "'w http_node \<Rightarrow> 'w \<Rightarrow> cid \<Rightarrow> bytes option" where
  "raw_bytes H w c =
     (if hn_permit H w ''cat'' then reply_body (hn_read H w (api_url H ''cat'') [(''arg'', c)]) else None)"

definition api_keeps :: "'w http_node \<Rightarrow> 'w \<Rightarrow> 'w \<Rightarrow> bool" where
  "api_keeps H w w' \<longleftrightarrow>
     (\<forall>c x. dag_text H w c = Some x \<longrightarrow> dag_text H w' c = Some x) \<and> (\<forall>c b. raw_bytes H w c = Some b \<longrightarrow> raw_bytes H w' c = Some b)"

text \<open>
  Documented behaviour of Kubo's API, for the four writes the client sends and with just these parameters.  \<open>pins w\<close> are the
  CIDs that are pinned recursively.
  \<^item> \<open>dag/put\<close> of DAG-JSON to be stored as DAG-CBOR, and \<open>add\<close>, both without a pin: the reply names a CID under which
    \<open>dag/get\<close> gives the same node as text, or \<open>cat\<close> the same bytes.
  \<^item> \<open>pin/add\<close>, recursive, pins its argument when it succeeds.
  \<^item> \<open>pin/update\<close> with \<open>unpin\<close> moves a recursive pin from the first argument to the second; it is refused with \<open>not pinned\<close>
    when the first is not pinned.
  \<^item> None of them takes blocks away: also what an update unpins stays until a garbage collection, which a node does not start by
    itself unless it is configured to.  A request without an answer may or may not have had its effect.
\<close>

definition failed_reply :: "http_reply \<Rightarrow> bool" where
  "failed_reply reply \<longleftrightarrow> reply = NoReply \<or> (\<exists>status body. reply = Reply status body \<and> 400 \<le> status \<and> status < 600)"

definition put_documented :: "'w http_node \<Rightarrow> (string \<Rightarrow> string \<Rightarrow> bool) \<Rightarrow> ('w \<Rightarrow> cid set) \<Rightarrow> bool" where
  "put_documented H same pins \<longleftrightarrow>
     (\<forall>w b w' reply.
        hn_write H w (api_url H ''dag/put'') [(''store-codec'', ''dag-cbor''), (''input-codec'', ''dag-json''), (''pin'', ''false'')]
          (Some b) = (w', reply) \<longrightarrow>
        api_keeps H w w' \<and> pins w' = pins w \<and>
        (failed_reply reply \<or>
         (\<exists>body members c x. reply = Reply 200 body \<and> hn_json H (hn_text H body) = Some (JObject members)
            \<and> map_of members ''Cid'' = Some (JObject [(''/'', JString c)]) \<and> map_of members ''cid'' = None
            \<and> dag_text H w' c = Some x \<and> same (hn_text H b) x)))"

definition add_documented :: "'w http_node \<Rightarrow> ('w \<Rightarrow> cid set) \<Rightarrow> bool" where
  "add_documented H pins \<longleftrightarrow>
     (\<forall>w b w' reply.
        hn_write H w (api_url H ''add'') [(''pin'', ''false'')] (Some b) = (w', reply) \<longrightarrow>
        api_keeps H w w' \<and> pins w' = pins w \<and>
        (failed_reply reply \<or>
         (\<exists>body members c. reply = Reply 200 body \<and> hn_json H (hn_text H body) = Some (JObject members)
            \<and> map_of members ''Hash'' = Some (JString c) \<and> raw_bytes H w' c = Some b)))"

definition pin_add_documented :: "'w http_node \<Rightarrow> ('w \<Rightarrow> cid set) \<Rightarrow> bool" where
  "pin_add_documented H pins \<longleftrightarrow>
     (\<forall>w c w' reply.
        hn_write H w (api_url H ''pin/add'') [(''arg'', c), (''recursive'', ''true'')] None = (w', reply) \<longrightarrow>
        api_keeps H w w' \<and>
        (failed_reply reply \<and> pins w' \<in> {pins w, insert c (pins w)} \<or>
         (\<exists>body. reply = Reply 200 body \<and> pins w' = insert c (pins w))))"

definition says_not_pinned :: "'w http_node \<Rightarrow> http_reply \<Rightarrow> bool" where
  "says_not_pinned H reply \<longleftrightarrow>
     (\<exists>status body. reply = Reply status body
        \<and> (contains_text ''not recursively pinned'' (hn_text H body) \<or> contains_text ''not pinned'' (hn_text H body)))"

definition pin_update_documented :: "'w http_node \<Rightarrow> ('w \<Rightarrow> cid set) \<Rightarrow> bool" where
  "pin_update_documented H pins \<longleftrightarrow>
     (\<forall>w old new w' reply.
        hn_write H w (api_url H ''pin/update'') [(''arg'', old), (''arg'', new), (''unpin'', ''true'')] None = (w', reply) \<longrightarrow>
        api_keeps H w w' \<and>
        (failed_reply reply \<and>
           (if says_not_pinned H reply then old \<notin> pins w \<and> pins w' = pins w
            else pins w' \<in> {pins w, insert new (pins w - {old})}) \<or>
         (\<exists>body. reply = Reply 200 body \<and> old \<in> pins w \<and> pins w' = insert new (pins w - {old}))))"

definition api_ok :: "'w http_node \<Rightarrow> (string \<Rightarrow> string \<Rightarrow> bool) \<Rightarrow> ('w \<Rightarrow> cid set) \<Rightarrow> bool" where
  "api_ok H same pins \<longleftrightarrow>
     put_documented H same pins \<and> add_documented H pins \<and> pin_add_documented H pins \<and> pin_update_documented H pins"

text \<open>Every document is read back from any text of the node it was written as.\<close>

definition codec_ok :: "'w http_node \<Rightarrow> (string \<Rightarrow> string \<Rightarrow> bool) \<Rightarrow> ('a \<Rightarrow> bytes option) \<Rightarrow> (string \<Rightarrow> 'a option) \<Rightarrow> bool" where
  "codec_ok H same enc dec \<longleftrightarrow> (\<forall>x b s. enc x = Some b \<longrightarrow> same (hn_text H b) s \<longrightarrow> dec s = Some x)"

lemma ok_dag_get: "ok_value (client_dag_get H dec c w) = Option.bind (dag_text H w c) dec"
  by (auto simp: ok_value_def client_dag_get_def with_permit_def ask_def dag_text_def reply_body_def split: option.splits sum.splits)

lemma ok_cat: "ok_value (client_cat_bytes H c w) = raw_bytes H w c"
  by (auto simp: ok_value_def client_cat_bytes_def with_permit_def ask_def raw_bytes_def reply_body_def split: sum.splits)

lemma api_keeps_refl: "api_keeps H w w"
  by (simp add: api_keeps_def)

lemma api_keeps_trans: "api_keeps H w w' \<Longrightarrow> api_keeps H w' w'' \<Longrightarrow> api_keeps H w w''"
  by (simp add: api_keeps_def)

lemma keeps_node: "api_keeps H w w' \<Longrightarrow> node_keeps (http_kubo H C) w w'"
  by (auto simp: node_keeps_def http_kubo_def ok_dag_get ok_cat api_keeps_def bind_eq_Some_conv)

text \<open>What a call does to a node, in terms of \<open>dag/get\<close>, \<open>cat\<close> and the pins.\<close>

lemma failed_body: "failed_reply reply \<longleftrightarrow> reply_body reply = None"
  by (auto simp: failed_reply_def reply_body_def body_for_status_def split: http_reply.splits)

lemma reply_body_200 [simp]: "body_for_status (Reply 200 body) = Inr body"
  by (simp add: body_for_status_def)

lemma failed_parse:
  assumes "failed_reply reply"
  shows "\<exists>e. parse_put H reply = Inl e" "\<exists>e. parse_add H reply = Inl e" "\<exists>e. body_for_status reply = Inl e"
    "parse_pin_update H reply \<noteq> Inr True" "says_not_pinned H reply \<longleftrightarrow> parse_pin_update H reply = Inr False"
  using assms by (auto simp: failed_reply_def parse_put_def parse_add_def body_for_status_def parse_pin_update_def says_not_pinned_def
      split: if_splits)

lemma put_effect:
  assumes "api_ok H same pins" and "client_dag_put H payload w = (w', events, r)"
  shows "api_keeps H w w' \<and> pins w' = pins w
     \<and> (\<forall>c b. r = Inr c \<longrightarrow> payload = Some b \<longrightarrow> (\<exists>x. dag_text H w' c = Some x \<and> same (hn_text H b) x))"
proof (cases payload)
  case None
  with assms(2) show ?thesis by (auto simp: client_dag_put_def with_permit_def api_keeps_refl split: if_splits)
next
  case (Some b)
  obtain w1 reply where h: "hn_write H w (api_url H ''dag/put'')
      [(''store-codec'', ''dag-cbor''), (''input-codec'', ''dag-json''), (''pin'', ''false'')] (Some b) = (w1, reply)" by fastforce
  from assms(1) have doc: "put_documented H same pins" by (simp add: api_ok_def)
  note d = doc[unfolded put_documented_def, rule_format, OF h]
  have x: "\<exists>x. dag_text H w1 c = Some x \<and> same (hn_text H b) x" if "parse_put H reply = Inr c" for c
    using d that failed_parse(1)[of reply H]
    by (auto simp: parse_put_def dag_put_response_def read_optional_def read_cid_def)
  from assms(2) Some h have "w' = w1 \<and> r = parse_put H reply \<or> w' = w \<and> r = Inl (QueueTimeout ''dag/put'')"
    by (auto simp: client_dag_put_def with_permit_def tell_def split: if_splits)
  with d x Some api_keeps_refl show ?thesis by auto
qed

lemma add_effect:
  assumes "api_ok H same pins" and "ipfs_add_bytes_unpinned H b w = (w', events, r)"
  shows "api_keeps H w w' \<and> pins w' = pins w \<and> (\<forall>c. r = Inr c \<longrightarrow> raw_bytes H w' c = Some b)"
proof -
  obtain w1 reply where h: "hn_write H w (api_url H ''add'') [(''pin'', ''false'')] (Some b) = (w1, reply)" by fastforce
  from assms(1) have doc: "add_documented H pins" by (simp add: api_ok_def)
  note d = doc[unfolded add_documented_def, rule_format, OF h]
  have x: "raw_bytes H w1 c = Some b" if "parse_add H reply = Inr c" for c
    using d that failed_parse(2)[of reply H] by (auto simp: parse_add_def add_response_def)
  from assms(2) h have "w' = w1 \<and> r = parse_add H reply \<or> w' = w \<and> r = Inl (QueueTimeout ''add'')"
    by (auto simp: ipfs_add_bytes_unpinned_def ipfs_add_bytes_with_pin_def with_permit_def tell_def split: if_splits)
  with d x api_keeps_refl show ?thesis by auto
qed

lemma pin_add_effect:
  assumes "api_ok H same pins" and "client_pin_add H c w = (w', events, r)"
  shows "api_keeps H w w' \<and> (if r = Inr () then pins w' = insert c (pins w) else pins w' \<in> {pins w, insert c (pins w)})"
proof -
  obtain w1 reply where h: "hn_write H w (api_url H ''pin/add'') [(''arg'', c), (''recursive'', ''true'')] None = (w1, reply)" by fastforce
  from assms(1) have doc: "pin_add_documented H pins" by (simp add: api_ok_def)
  note d = doc[unfolded pin_add_documented_def, rule_format, OF h]
  from assms(2) h have "w' = w1 \<and> (r = Inr () \<longleftrightarrow> \<not> failed_reply reply) \<or> w' = w \<and> r = Inl (QueueTimeout ''pin/add'')"
    by (auto simp: client_pin_add_def with_permit_def tell_def failed_body reply_body_def split: if_splits sum.splits)
  moreover have "\<not> failed_reply (Reply 200 body)" for body by (simp add: failed_reply_def)
  ultimately show ?thesis using d api_keeps_refl by auto
qed

lemma pin_update_effect:
  assumes "api_ok H same pins" and "client_pin_update H old new w = (w', events, r)"
  shows "api_keeps H w w' \<and> (if r = Inr () then pins w' = insert new (pins w - {old})
     else pins w' \<in> {pins w, insert new (pins w), insert new (pins w - {old})})"
proof -
  obtain w1 reply where h: "hn_write H w (api_url H ''pin/update'') [(''arg'', old), (''arg'', new), (''unpin'', ''true'')] None = (w1, reply)"
    by fastforce
  let ?r = "parse_pin_update H reply"
  from assms(1) have doc: "pin_update_documented H pins" by (simp add: api_ok_def)
  note d0 = doc[unfolded pin_update_documented_def, rule_format, OF h]
  have ok: "parse_pin_update H (Reply 200 body) = Inr True" for body by (simp add: parse_pin_update_def)
  have d: "api_keeps H w w1" "?r = Inr True \<Longrightarrow> pins w1 = insert new (pins w - {old})"
    "?r = Inr False \<Longrightarrow> old \<notin> pins w \<and> pins w1 = pins w" "?r = Inl e \<Longrightarrow> pins w1 \<in> {pins w, insert new (pins w - {old})}" for e
    using d0 failed_parse(4,5)[of reply H] ok by (auto split: if_splits)
  show ?thesis
  proof (cases "hn_permit H w ''pin/update'' \<and> ?r = Inr False")
    case True
    obtain w2 more r2 where a: "client_pin_add H new w1 = (w2, more, r2)" using prod_cases3 by blast
    with True assms(2) h have "w' = w2" "r = r2" by (auto simp: client_pin_update_def with_permit_def tell_def)
    with True d pin_add_effect[OF assms(1) a] show ?thesis by (auto intro: api_keeps_trans split: if_splits)
  next
    case False
    with assms(2) h have "w' = w1 \<and> (r = Inr () \<and> ?r = Inr True \<or> (\<exists>e. r = Inl e \<and> ?r = Inl e)) \<or> w' = w \<and> r \<noteq> Inr ()"
      by (auto simp: client_pin_update_def with_permit_def tell_def split: if_splits sum.splits bool.splits)
    with d api_keeps_refl show ?thesis by auto
  qed
qed

lemma put_read_back:
  assumes "api_ok H same pins" and "codec_ok H same enc dec" and "written (client_dag_put H (enc x) w) = (w', Some c)"
  shows "Option.bind (dag_text H w' c) dec = Some x"
proof -
  from assms(3) obtain b where b: "enc x = Some b"
    by (cases "enc x") (auto simp: written_def ok_value_def client_dag_put_def with_permit_def split: if_splits)
  obtain events r where "client_dag_put H (enc x) w = (w', events, r)" "r = Inr c"
    using assms(3) by (cases "client_dag_put H (enc x) w") (auto simp: written_def ok_value_def split: sum.splits)
  with put_effect[OF assms(1)] b obtain s where "dag_text H w' c = Some s" "same (hn_text H b) s" by blast
  with assms(2) b show ?thesis by (auto simp: codec_ok_def)
qed

section \<open>Properties\<close>

text \<open>
  C39 (Kubo client). The permits of the Kubo client cannot deadlock: tasks that make calls one after the other, each call a
  client operation, never get stuck at the gate whatever the order of their steps; every step uses up an event, so after as
  many steps as there are events all calls are through, and every permit is free again.
\<close>

theorem kubo_gate_never_stuck:
  assumes "\<forall>events\<in>set tasks. call_trace H events"
    and "gate_step\<^sup>*\<^sup>* (MAX_CONCURRENT_KUBO_REQUESTS, tasks) (free, left)"
  shows "if \<forall>events\<in>set left. events = [] then free = MAX_CONCURRENT_KUBO_REQUESTS
    else (\<exists>s. gate_step (free, left) s) \<and> (\<forall>s. gate_step (free, left) s \<longrightarrow> events_left (free, left) = Suc (events_left s))"
proof -
  have "holding events = 0 \<and> rest_ok events" if "events \<in> set tasks" for events
    using assms(1) that call_trace_blocks blocks_hold_nothing rest_ok_blocks by metis
  then have "map holding tasks = map (\<lambda>_. 0) tasks" and "list_all rest_ok tasks" by (auto simp: list_all_iff)
  then have "gate_ok (MAX_CONCURRENT_KUBO_REQUESTS, tasks)" by (simp add: gate_ok_def)
  with assms(2) have ok: "gate_ok (free, left)" by (rule gate_run_ok)
  show ?thesis
  proof (cases "\<forall>events\<in>set left. events = []")
    case True
    then have "map holding left = map (\<lambda>_. 0) left" by (auto simp: map_eq_conv)
    with ok have "free = MAX_CONCURRENT_KUBO_REQUESTS" by (simp add: gate_ok_def)
    with True show ?thesis by simp
  next
    case False
    then have "list_ex (\<lambda>events. events \<noteq> []) left" by (auto simp: list_ex_iff)
    with gate_not_stuck[OF ok] gate_step_progress False show ?thesis by auto
  qed
qed

text \<open>
  A node in memory: its blocks with their bodies, addressed by position, and its pins; the replies name the CID as plain text.
\<close>

definition mem_reply :: "bytes list \<Rightarrow> (string \<times> string) list \<Rightarrow> http_reply" where
  "mem_reply bodies query =
     (case map_of query ''arg'' of
        Some c \<Rightarrow> (let n = length c - 4 in
          if c = mem_cid n \<and> n < length bodies then Reply 200 (bodies ! n) else Reply 500 [])
      | None \<Rightarrow> Reply 400 [])"

definition plain_text :: "bytes \<Rightarrow> string" where
  "plain_text = map (\<lambda>b. char_of (unat b))"

definition plain_bytes :: "string \<Rightarrow> bytes" where
  "plain_bytes = map (\<lambda>c. word_of_nat (of_char c))"

definition mem_pins :: "(string \<times> string) list \<Rightarrow> cid list \<Rightarrow> cid list \<times> http_reply" where
  "mem_pins query pins =
     (case query of
        [(_, c), _] \<Rightarrow> (c # pins, Reply 200 [])
      | [(_, old), (_, new), _] \<Rightarrow>
          if old \<in> set pins then (new # removeAll old pins, Reply 200 []) else (pins, Reply 500 (plain_bytes ''not pinned''))
      | _ \<Rightarrow> (pins, Reply 400 []))"

definition mem_http :: "(bytes list \<times> cid list) http_node" where
  "mem_http = \<lparr>hn_url = ''http://localhost:5001/'', hn_permit = (\<lambda>_ _. True),
     hn_read = (\<lambda>w url query. mem_reply (fst w) query),
     hn_write = (\<lambda>(w, pins) url query part. case part of
        None \<Rightarrow> (let (pins', reply) = mem_pins query pins in ((w, pins'), reply))
      | Some b \<Rightarrow> ((w @ [b], pins), Reply 200 (plain_bytes (mem_cid (length w))))),
     hn_text = plain_text,
     hn_json = (\<lambda>s. Some (JObject [(''Cid'', JObject [(''/'', JString s)]), (''Hash'', JString s)]))\<rparr>"

abbreviation pins_of :: "bytes list \<times> cid list \<Rightarrow> cid set" where
  "pins_of w \<equiv> set (snd w)"

lemma plain_text_bytes [simp]: "plain_text (plain_bytes s) = s"
  by (simp add: plain_text_def plain_bytes_def comp_def unat_of_nat)

lemma mem_reply_grows: "mem_reply w query = Reply 200 b \<Longrightarrow> mem_reply (w @ [x]) query = Reply 200 b"
  by (auto simp: mem_reply_def nth_append Let_def split: option.splits if_splits)

lemma mem_reply_body: "reply_body (mem_reply w query) = Some b \<longleftrightarrow> mem_reply w query = Reply 200 b"
  by (auto simp: mem_reply_def reply_body_def body_for_status_def Let_def split: option.splits if_splits)

lemma reply_body_ok: "reply_body (Reply 200 b) = Some b"
  by (simp add: reply_body_def body_for_status_def)

lemma mem_keeps: "api_keeps mem_http (w, pins) (w @ [x], pins')" "api_keeps mem_http (w, pins) (w, pins')"
  using mem_reply_grows
  by (auto simp: api_keeps_def dag_text_def raw_bytes_def mem_http_def mem_reply_body reply_body_ok)

lemma mem_reply_here: "map_of query ''arg'' = Some (mem_cid (length w)) \<Longrightarrow> mem_reply (w @ [b]) query = Reply 200 b"
  by (simp add: mem_reply_def Let_def)

lemma mem_write:
  "hn_write mem_http (w, pins) url query (Some b) = ((w @ [b], pins), Reply 200 (plain_bytes (mem_cid (length w))))"
  "hn_write mem_http (w, pins) url [(''arg'', c), (''recursive'', ''true'')] None = ((w, c # pins), Reply 200 [])"
  "hn_write mem_http (w, pins) url [(''arg'', old), (''arg'', new), (''unpin'', ''true'')] None =
     (if old \<in> set pins then ((w, new # removeAll old pins), Reply 200 []) else ((w, pins), Reply 500 (plain_bytes ''not pinned'')))"
  by (simp_all add: mem_http_def mem_pins_def)

lemma mem_http_ok: "api_ok mem_http (=) pins_of"
proof -
  have json: "hn_json mem_http (hn_text mem_http (plain_bytes s)) = Some (JObject [(''Cid'', JObject [(''/'', JString s)]), (''Hash'', JString s)])"
    for s by (simp add: mem_http_def)
  have not_pinned: "hn_text mem_http (plain_bytes ''not pinned'') = ''not pinned''" by (simp add: mem_http_def)
  have refused: "says_not_pinned mem_http (Reply 500 (plain_bytes ''not pinned''))"
    by (simp add: says_not_pinned_def not_pinned contains_text_def)
  have failed: "failed_reply (Reply 500 b)" "\<not> failed_reply (Reply 200 b)" for b by (simp_all add: failed_reply_def)
  have stored: "dag_text mem_http (w @ [b], p) (mem_cid (length w)) = Some (hn_text mem_http b)"
    "raw_bytes mem_http (w @ [b], p) (mem_cid (length w)) = Some b" for w b p
    by (simp_all add: dag_text_def raw_bytes_def mem_http_def mem_reply_here reply_body_ok)
  have "put_documented mem_http (=) pins_of" "add_documented mem_http pins_of"
    using mem_keeps stored by (auto simp: put_documented_def add_documented_def mem_write json)
  moreover have "pin_add_documented mem_http pins_of"
    using mem_keeps by (auto simp: pin_add_documented_def mem_write)
  moreover have "pin_update_documented mem_http pins_of"
    using mem_keeps by (auto simp: pin_update_documented_def mem_write refused failed split: if_splits)
  ultimately show ?thesis by (simp add: api_ok_def)
qed

theorem kubo_gate_never_stuck_witness:
  "\<exists>s. gate_step (15, [[Asked ''http://localhost:5001/api/v0/cat'', Gave], [Took ''cat'', Asked ''http://localhost:5001/api/v0/cat'', Gave]]) s"
proof -
  let ?url = "''http://localhost:5001/api/v0/cat''"
  let ?call = "[Took ''cat'', Asked ?url, Gave]"
  have url: "api_url mem_http ''cat'' = ?url"
    by (simp add: api_url_def mem_http_def trim_end_matches_def)
  have permit: "hn_permit mem_http w ''cat''" for w by (simp add: mem_http_def)
  obtain r where "client_cat_bytes mem_http ''c'' ([], []) = (([], []), ?call, r)"
    by (simp add: client_cat_bytes_def with_permit_def permit ask_def url)
  from cat_call[OF this no_call] have call: "call_trace mem_http ?call" by simp
  have "gate_step (MAX_CONCURRENT_KUBO_REQUESTS, [?call, ?call]) (MAX_CONCURRENT_KUBO_REQUESTS - 1, [?call, ?call][0 := [Asked ?url, Gave]])"
    by (rule gate_step.took) (simp_all add: MAX_CONCURRENT_KUBO_REQUESTS_def)
  then have run: "gate_step\<^sup>*\<^sup>* (MAX_CONCURRENT_KUBO_REQUESTS, [?call, ?call]) (15, [[Asked ?url, Gave], ?call])"
    by (simp add: MAX_CONCURRENT_KUBO_REQUESTS_def)
  from call have "\<forall>events\<in>set [?call, ?call]. call_trace mem_http events" by simp
  from kubo_gate_never_stuck[OF this run] show ?thesis by simp
qed

text \<open>
  C38 (Kubo client). The client implements the interface the rest of the development rests on: if the node behaves as
  Kubo's API is documented for the requests the client sends and every document can be read back from the texts it is
  written as, then the client's operations form a node in the sense of \<open>kubo_ok\<close>: what is put is read back under the CID of the
  reply, and no put, add or pin update, whether it succeeds, fails or falls back to \<open>pin/add\<close>, loses or changes what could be
  read before; and the recursive pins are what the runtime counts on: puts and adds leave them alone, and a pin
  update that reports success has pinned the new CID and none but the old one is unpinned, also when the old one was not pinned; one
  that fails has unpinned the old CID only if it has pinned the new one.
\<close>

theorem client_implements_kubo:
  assumes "api_ok H same pins" and "codec_ok H same (cd_manifest C) (cd_manifest_of C)"
    and "codec_ok H same (cd_entity C) (cd_entity_of C)" and "K = http_kubo H C"
  shows "kubo_ok K
     \<and> (\<forall>w old new w' ok. pin_update K w old new = (w', ok) \<longrightarrow>
          (if ok then pins w' = insert new (pins w - {old})
           else pins w' \<in> {pins w, insert new (pins w), insert new (pins w - {old})}))
     \<and> (\<forall>w m e ss b. pins (fst (dag_put_manifest K w m)) = pins w \<and> pins (fst (dag_put_entity K w e)) = pins w
          \<and> pins (fst (dag_put_strings K w ss)) = pins w \<and> pins (fst (add_bytes_unpinned K w b)) = pins w)"
proof -
  let ?K = "http_kubo H C"
  have put: "api_keeps H w (fst (client_dag_put H payload w))" "pins (fst (client_dag_put H payload w)) = pins w" for payload w
    using put_effect[OF assms(1), of payload w] by (metis prod_cases3 fst_conv)+
  have add: "api_keeps H w (fst (ipfs_add_bytes_unpinned H b w))" "pins (fst (ipfs_add_bytes_unpinned H b w)) = pins w" for b w
    using add_effect[OF assms(1), of b w] by (metis prod_cases3 fst_conv)+
  have pin: "api_keeps H w (fst (client_pin_update H old new w))" for old new w
    using pin_update_effect[OF assms(1), of old new w] by (metis prod_cases3 fst_conv)
  have read_back: "cat_bytes ?K (fst (ipfs_add_bytes_unpinned H b w)) c = Some b"
    if "ok_value (ipfs_add_bytes_unpinned H b w) = Some c" for b w c
  proof -
    obtain w' events r where a: "ipfs_add_bytes_unpinned H b w = (w', events, r)" using prod_cases3 by blast
    with that have "r = Inr c" by (simp add: ok_value_def split: sum.splits)
    with add_effect[OF assms(1) a] a show ?thesis by (simp add: http_kubo_def ok_cat)
  qed
  have "kubo_ok ?K" unfolding kubo_ok_def
    using keeps_node[OF put(1)] keeps_node[OF add(1)] keeps_node[OF pin] read_back
      put_read_back[OF assms(1,2)] put_read_back[OF assms(1,3)]
    by (simp add: http_kubo_def written_def ok_dag_get Let_def)
  moreover have "if ok then pins w' = insert new (pins w - {old})
      else pins w' \<in> {pins w, insert new (pins w), insert new (pins w - {old})}"
    if "pin_update ?K w old new = (w', ok)" for w old new w' ok
  proof -
    obtain w1 events r where u: "client_pin_update H old new w = (w1, events, r)" using prod_cases3 by blast
    with that have "w' = w1" "ok \<longleftrightarrow> r = Inr ()" by (auto simp: http_kubo_def written_def ok_value_def split: sum.splits)
    with pin_update_effect[OF assms(1) u] show ?thesis by (auto split: if_splits)
  qed
  moreover have "pins (fst (dag_put_manifest ?K w m)) = pins w \<and> pins (fst (dag_put_entity ?K w e)) = pins w
      \<and> pins (fst (dag_put_strings ?K w ss)) = pins w \<and> pins (fst (add_bytes_unpinned ?K w b)) = pins w" for w m e ss b
    using put(2) add(2) by (simp add: http_kubo_def written_def)
  ultimately show ?thesis unfolding assms(4) by blast
qed

definition sample_codecs :: codecs where
  "sample_codecs = \<lparr>cd_manifest = (\<lambda>m. if m = empty_manifest then Some (plain_bytes ''m'') else None),
     cd_manifest_of = (\<lambda>s. if s = ''m'' then Some empty_manifest else None),
     cd_entity = (\<lambda>_. None), cd_entity_of = (\<lambda>_. None), cd_strings = (\<lambda>_. None), cd_strings_of = (\<lambda>_. None),
     cd_kind_of = (\<lambda>_. None), cd_kinds_of = (\<lambda>_. None), cd_acl_of = (\<lambda>_. None)\<rparr>"

theorem client_implements_kubo_witness:
  "\<exists>K w1 w2. K = http_kubo mem_http sample_codecs \<and> kubo_ok K
   \<and> dag_put_manifest K ([], []) empty_manifest = (([plain_bytes ''m''], []), Some (mem_cid 0))
   \<and> dag_get_manifest K ([plain_bytes ''m''], []) (mem_cid 0) = Some empty_manifest
   \<and> pin_update K ([plain_bytes ''m''], []) ''old'' (mem_cid 0) = (w1, True) \<and> pins_of w1 = {mem_cid 0}
   \<and> pin_update K w1 (mem_cid 0) ''new'' = (w2, True) \<and> pins_of w2 = {''new''}"
proof -
  let ?K = "http_kubo mem_http sample_codecs"
  have "codec_ok mem_http (=) (cd_manifest sample_codecs) (cd_manifest_of sample_codecs)"
    "codec_ok mem_http (=) (cd_entity sample_codecs) (cd_entity_of sample_codecs)"
    by (auto simp: codec_ok_def sample_codecs_def mem_http_def split: if_splits)
  note impl = client_implements_kubo[OF mem_http_ok this refl]
  then have ok: "kubo_ok ?K" and pins: "pin_update ?K w old new = (w', True) \<Longrightarrow> pins_of w' = insert new (pins_of w - {old})"
    for w old new w' by (blast, metis (mono_tags))
  have put: "dag_put_manifest ?K ([], []) empty_manifest = (([plain_bytes ''m''], []), Some (mem_cid 0))"
    by (simp add: http_kubo_def sample_codecs_def written_def ok_value_def client_dag_put_def with_permit_def tell_def mem_http_def
        parse_put_def body_for_status_def dag_put_response_def read_optional_def read_cid_def)
  have get: "dag_get_manifest ?K ([plain_bytes ''m''], []) (mem_cid 0) = Some empty_manifest" using kubo_okD(2)[OF ok put] .
  have granted: "hn_permit mem_http w op" for w op by (simp add: mem_http_def)
  have first: "\<exists>w1. pin_update ?K ([plain_bytes ''m''], []) ''old'' (mem_cid 0) = (w1, True)"
    by (simp add: http_kubo_def written_def ok_value_def client_pin_update_def client_pin_add_def with_permit_def tell_def mem_write
        granted parse_pin_update_def body_for_status_def contains_text_def) (simp add: mem_http_def contains_text_def)
  then obtain w1 where 1: "pin_update ?K ([plain_bytes ''m''], []) ''old'' (mem_cid 0) = (w1, True)" by blast
  have p1: "pins_of w1 = {mem_cid 0}" using pins[OF 1] by simp
  obtain v ps where w1: "w1 = (v, ps)" by fastforce
  have "mem_cid 0 \<in> set ps" using p1 w1 by simp
  then have "\<exists>w2. pin_update ?K w1 (mem_cid 0) ''new'' = (w2, True)"
    by (simp add: w1 http_kubo_def written_def ok_value_def client_pin_update_def with_permit_def tell_def mem_write granted
        parse_pin_update_def)
  then obtain w2 where 2: "pin_update ?K w1 (mem_cid 0) ''new'' = (w2, True)" by blast
  have "pins_of w2 = {''new''}" using pins[OF 2] p1 by simp
  with ok put get 1 2 p1 show ?thesis by blast
qed

end
