(* ===== verification/Activity.thy ===== *)
theory Activity
  imports Worker Gateway
begin

text \<open>
  Dispatching a message through an entity's handle (\<open>on_message\<close> and \<open>dispatch\<close> in \<open>src/plugin/mod.rs\<close>), the limits a
  Wasm worker is built with (\<open>src/plugin/backend.rs\<close>), and the counters that decide whether growth of the process's memory
  is attributed to one dispatch.  The environment variables are a function, Extism a parameter.  The counters are natural
  numbers: no process begins two to the 64 dispatches.
\<close>

section \<open>Limits\<close>

type_synonym environment = "string \<Rightarrow> string option"

definition env_u64 :: "environment \<Rightarrow> string \<Rightarrow> u64 \<Rightarrow> u64" where
  "env_u64 getenv var dflt = (case Option.bind (getenv var) parse_u64 of Some n \<Rightarrow> n | None \<Rightarrow> dflt)"

text \<open>\<open>str::parse::<u32>\<close>.\<close>

definition parse_u32 :: "string \<Rightarrow> 32 word option" where
  "parse_u32 s = Option.bind (parse_u64 s) (\<lambda>n. if unat n < 2 ^ 32 then Some (ucast n) else None)"

definition wasm_call_timeout :: "environment \<Rightarrow> u64" where
  "wasm_call_timeout getenv = env_u64 getenv ''MA_WASM_CALL_TIMEOUT_SECS'' 30"

definition wasm_load_timeout :: "environment \<Rightarrow> u64" where
  "wasm_load_timeout getenv = env_u64 getenv ''MA_WASM_LOAD_TIMEOUT_SECS'' 60"

definition wasm_max_pages :: "environment \<Rightarrow> 32 word" where
  "wasm_max_pages getenv = (case Option.bind (getenv ''MA_WASM_MAX_PAGES'') parse_u32 of Some n \<Rightarrow> n | None \<Rightarrow> 4096)"

record wasmtime_config =
  wt_memory_reservation :: u64
  wt_reservation_for_growth :: u64

definition wasmtime_config_of :: "environment \<Rightarrow> wasmtime_config" where
  "wasmtime_config_of getenv =
     \<lparr>wt_memory_reservation = env_u64 getenv ''MA_WASM_MEMORY_RESERVATION_BYTES'' (64 * 1024 * 1024),
      wt_reservation_for_growth = env_u64 getenv ''MA_WASM_MEMORY_RESERVATION_FOR_GROWTH_BYTES'' (1024 * 1024)\<rparr>"

text \<open>
  Twice the timeout of a call, \<open>None\<close> where the multiplication of the duration overflows, which panics.
\<close>

definition dispatch_backstop :: "environment \<Rightarrow> u64 option" where
  "dispatch_backstop getenv =
     (let s = 2 * unat (wasm_call_timeout getenv) in if s < 2 ^ 64 then Some (word_of_nat s) else None)"

definition graceful_shutdown_timeout :: "environment \<Rightarrow> u64 option" where
  "graceful_shutdown_timeout getenv = dispatch_backstop getenv"

text \<open>What the builder of Extism is given.\<close>

record plugin_spec =
  ps_wasm :: bytes
  ps_max_pages :: "32 word"
  ps_timeout_secs :: u64
  ps_config :: "string btree_map"
  ps_functions :: "string list"
  ps_wasi :: bool
  ps_cache :: bool
  ps_wasmtime :: wasmtime_config

definition build_wasm_plugin ::
  "environment \<Rightarrow> (plugin_spec \<Rightarrow> 'g option) \<Rightarrow> bytes \<Rightarrow> bool \<Rightarrow> string btree_map \<Rightarrow> string list \<Rightarrow> 'g option" where
  "build_wasm_plugin getenv create wasm with_wasi config functions =
     create \<lparr>ps_wasm = wasm, ps_max_pages = wasm_max_pages getenv, ps_timeout_secs = wasm_call_timeout getenv, ps_config = config,
       ps_functions = functions, ps_wasi = with_wasi, ps_cache = False, ps_wasmtime = wasmtime_config_of getenv\<rparr>"

section \<open>Dispatch\<close>

definition plugin_message_verb :: "(bytes \<Rightarrow> cbor option) \<Rightarrow> bytes \<Rightarrow> string option" where
  "plugin_message_verb dec content =
     (case dec content of
        Some (CText verb) \<Rightarrow> Some verb
      | Some (CArray (CText verb # items)) \<Rightarrow> Some verb
      | _ \<Rightarrow> None)"

definition memory_growth_log_threshold_kib :: "environment \<Rightarrow> u64" where
  "memory_growth_log_threshold_kib getenv = env_u64 getenv ''MA_MEMORY_GROWTH_LOG_THRESHOLD_KIB'' (16 * 1024)"

text \<open>The first line with a readable value; the argument is \<open>/proc/self/status\<close>, if readable.\<close>

fun find_rss :: "string list \<Rightarrow> u64 option" where
  "find_rss [] = None"
| "find_rss (line # ls) =
     (case Option.bind (strip_prefix ''VmRSS:'' line) parse_status_number of Some n \<Rightarrow> Some n | None \<Rightarrow> find_rss ls)"

definition current_rss_kib :: "string option \<Rightarrow> u64 option" where
  "current_rss_kib status = Option.bind status (\<lambda>s. find_rss (text_lines s))"

text \<open>The worker, its mailbox and the wait for the reply are those of \<open>call_worker\<close>.\<close>

definition dispatch ::
  "(worker_msg \<Rightarrow> 's \<Rightarrow> 's \<times> worker_reply) \<Rightarrow> delivery \<Rightarrow> local_message \<Rightarrow> 's \<Rightarrow> 's \<times> (dispatch_error + dispatch_result)" where
  "dispatch step d input s =
     (case call_worker step d (MDispatch input) s of
        (s', Inl e) \<Rightarrow> (s', Inl e)
      | (s', Inr (RDispatch r)) \<Rightarrow> (s', r)
      | (s', Inr _) \<Rightarrow> (s', Inl DeReply))"

definition rss_growth :: "u64 option \<Rightarrow> u64 option \<Rightarrow> nat option" where
  "rss_growth before after =
     (case (before, after) of (Some b, Some a) \<Rightarrow> Some (unat a - unat b) | _ \<Rightarrow> None)"

text \<open>
  \<open>on_message\<close>: the third result tells whether the growth is logged; \<open>isolated\<close> is the verdict of the counters below, which
  is asked for only when the growth reaches the threshold.
\<close>

definition on_message ::
  "environment \<Rightarrow> (worker_msg \<Rightarrow> 's \<Rightarrow> 's \<times> worker_reply) \<Rightarrow> delivery \<Rightarrow> local_message \<Rightarrow> string option \<Rightarrow> string option \<Rightarrow> bool
     \<Rightarrow> 's \<Rightarrow> 's \<times> (dispatch_error + dispatch_result) \<times> bool" where
  "on_message getenv step d input status_before status_after isolated s =
     (case dispatch step d input s of
        (s', r) \<Rightarrow>
          (s', r, (case rss_growth (current_rss_kib status_before) (current_rss_kib status_after) of
                     None \<Rightarrow> False
                   | Some delta \<Rightarrow> unat (memory_growth_log_threshold_kib getenv) \<le> delta \<and> isolated)))"

section \<open>The activity counters\<close>

text \<open>
  Every access to the two counters is a step of its own, since the workers of different entities interleave.  A dispatch
  has a number and has drawn it only, has entered (alone or not), has read the number of active dispatches, has been judged,
  or has left.
\<close>

datatype activity_phase = Drawn | Entered bool | Loaded bool | Judged bool | Gone

record activity =
  da_active :: nat
  da_generation :: nat
  da_dispatch :: "nat \<rightharpoonup> nat \<times> activity_phase"

datatype activity_event = Draw nat | Enter nat | Load nat | Judge nat | Leave nat

definition idle :: activity where
  "idle = \<lparr>da_active = 0, da_generation = 0, da_dispatch = Map.empty\<rparr>"

definition in_phase :: "activity \<Rightarrow> nat \<Rightarrow> nat \<Rightarrow> activity_phase \<Rightarrow> bool" where
  "in_phase A d g p \<longleftrightarrow> da_dispatch A d = Some (g, p)"

abbreviation put_phase :: "nat \<Rightarrow> nat \<Rightarrow> activity_phase \<Rightarrow> activity \<Rightarrow> activity" where
  "put_phase d g p A \<equiv> A\<lparr>da_dispatch := (da_dispatch A)(d \<mapsto> (g, p))\<rparr>"

text \<open>\<open>begin\<close>, \<open>is_isolated\<close> (evaluated from left to right) and \<open>drop\<close>.\<close>

inductive activity_step :: "activity \<Rightarrow> activity_event \<Rightarrow> activity \<Rightarrow> bool" where
  draw: "da_dispatch A d = None \<Longrightarrow> g = da_generation A + 1 \<Longrightarrow>
     activity_step A (Draw d) (put_phase d g Drawn (A\<lparr>da_generation := g\<rparr>))"
| enter: "da_dispatch A d = Some (g, Drawn) \<Longrightarrow>
     activity_step A (Enter d) (put_phase d g (Entered (da_active A = 0)) (A\<lparr>da_active := da_active A + 1\<rparr>))"
| load: "da_dispatch A d = Some (g, Entered alone) \<Longrightarrow>
     activity_step A (Load d) (put_phase d g (if alone then Loaded (da_active A = 1) else Judged False) A)"
| judge: "da_dispatch A d = Some (g, Loaded one) \<Longrightarrow>
     activity_step A (Judge d) (put_phase d g (Judged (one \<and> da_generation A = g)) A)"
| leave: "da_dispatch A d = Some (g, p) \<Longrightarrow> p \<noteq> Drawn \<Longrightarrow> p \<noteq> Gone \<Longrightarrow>
     activity_step A (Leave d) (put_phase d g Gone (A\<lparr>da_active := da_active A - 1\<rparr>))"

inductive activity_run :: "activity \<Rightarrow> activity_event list \<Rightarrow> activity \<Rightarrow> bool" where
  activity_end: "activity_run A [] A"
| activity_more: "activity_step A e A' \<Longrightarrow> activity_run A' es A'' \<Longrightarrow> activity_run A (e # es) A''"

inductive_simps activity_run_Nil [simp]: "activity_run A [] A'"
inductive_simps activity_run_Cons: "activity_run A (e # es) A'"

inductive_cases draw_elim: "activity_step A (Draw d) A'"
inductive_cases enter_elim: "activity_step A (Enter d) A'"
inductive_cases judge_elim: "activity_step A (Judge d) A'"

section \<open>Lemmas\<close>

lemma activity_run_append:
  "activity_run A (es @ fs) C \<longleftrightarrow> (\<exists>B. activity_run A es B \<and> activity_run B fs C)"
  by (induction es arbitrary: A) (auto simp: activity_run_Cons)

definition inside :: "activity \<Rightarrow> nat \<Rightarrow> bool" where
  "inside A d \<longleftrightarrow> (\<exists>g p. da_dispatch A d = Some (g, p) \<and> p \<noteq> Drawn \<and> p \<noteq> Gone)"

text \<open>The counter of active dispatches counts those that are inside; numbers are distinct and have been drawn.\<close>

definition activity_inv :: "activity \<Rightarrow> bool" where
  "activity_inv A \<longleftrightarrow>
     finite {d. inside A d} \<and> da_active A = card {d. inside A d}
     \<and> (\<forall>d g p. da_dispatch A d = Some (g, p) \<longrightarrow> g \<le> da_generation A)
     \<and> (\<forall>d e g p q. da_dispatch A d = Some (g, p) \<longrightarrow> da_dispatch A e = Some (g, q) \<longrightarrow> d = e)"

lemma inside_change:
  assumes "da_dispatch A' = (da_dispatch A)(d \<mapsto> (g, p))"
  shows "{x. inside A' x} = (if p \<noteq> Drawn \<and> p \<noteq> Gone then insert d {x. inside A x} else {x. inside A x} - {d})"
  using assms by (auto simp: inside_def split: if_splits)

lemma inv_change:
  assumes inv: "activity_inv A" and d: "da_dispatch A d = Some (g, p0)" and upd: "da_dispatch A' = (da_dispatch A)(d \<mapsto> (g, p))"
    and gen: "da_generation A' = da_generation A" and count: "da_active A' = card {x. inside A' x}"
  shows "activity_inv A'"
proof -
  have "finite {x. inside A' x}" using inv unfolding inside_change[OF upd] by (simp add: activity_inv_def)
  moreover have "\<exists>q. da_dispatch A e = Some (h, q)" if "da_dispatch A' e = Some (h, p')" for e h p'
    using that d upd by (cases "e = d") auto
  ultimately show ?thesis using inv gen count unfolding activity_inv_def by metis
qed

lemma activity_step_inv:
  assumes "activity_step A e A'" and inv: "activity_inv A"
  shows "activity_inv A'"
  using assms(1)
proof cases
  case (draw d g)
  have "da_dispatch A' = (da_dispatch A)(d \<mapsto> (g, Drawn))" using draw by simp
  moreover have "{x. inside A' x} = {x. inside A x}" using draw by (auto simp: inside_def)
  moreover have "g \<notin> fst ` ran (da_dispatch A)" using inv draw(4) by (fastforce simp: activity_inv_def ran_def)
  ultimately show ?thesis using inv draw
    by (auto simp: activity_inv_def le_Suc_eq ran_def image_iff split: if_splits)
next
  case (enter d g)
  have upd: "da_dispatch A' = (da_dispatch A)(d \<mapsto> (g, Entered (da_active A = 0)))" using enter by simp
  have "\<not> inside A d" "finite {x. inside A x}" "da_active A = card {x. inside A x}"
    using enter(3) inv by (auto simp: inside_def activity_inv_def)
  then have "Suc (da_active A) = card {x. inside A' x}" unfolding inside_change[OF upd] by simp
  moreover have "da_generation A' = da_generation A" "da_active A' = Suc (da_active A)" using enter by simp_all
  ultimately show ?thesis using inv_change[OF inv enter(3) upd] by metis
next
  case (load d g alone)
  have upd: "da_dispatch A' = (da_dispatch A)(d \<mapsto> (g, if alone then Loaded (da_active A = 1) else Judged False))" using load by simp
  have "insert d {x. inside A x} = {x. inside A x}" "da_active A = card {x. inside A x}"
    using load(3) inv by (auto simp: inside_def activity_inv_def)
  then have "da_active A = card {x. inside A' x}" unfolding inside_change[OF upd] by simp
  moreover have "da_generation A' = da_generation A" "da_active A' = da_active A" using load by simp_all
  ultimately show ?thesis using inv_change[OF inv load(3) upd] by metis
next
  case (judge d g one)
  have upd: "da_dispatch A' = (da_dispatch A)(d \<mapsto> (g, Judged (one \<and> da_generation A = g)))" using judge by simp
  have "insert d {x. inside A x} = {x. inside A x}" "da_active A = card {x. inside A x}"
    using judge(3) inv by (auto simp: inside_def activity_inv_def)
  then have "da_active A = card {x. inside A' x}" unfolding inside_change[OF upd] by simp
  moreover have "da_generation A' = da_generation A" "da_active A' = da_active A" using judge by simp_all
  ultimately show ?thesis using inv_change[OF inv judge(3) upd] by metis
next
  case (leave d g p)
  have upd: "da_dispatch A' = (da_dispatch A)(d \<mapsto> (g, Gone))" using leave by simp
  have "inside A d" "finite {x. inside A x}" "da_active A = card {x. inside A x}"
    using leave(3-5) inv by (auto simp: inside_def activity_inv_def)
  then have "da_active A - 1 = card {x. inside A' x}" unfolding inside_change[OF upd] by simp
  moreover have "da_generation A' = da_generation A" "da_active A' = da_active A - 1" using leave by simp_all
  ultimately show ?thesis using inv_change[OF inv leave(3) upd] by metis
qed

lemma activity_run_inv: "activity_run A es A' \<Longrightarrow> activity_inv A \<Longrightarrow> activity_inv A'"
  by (induction rule: activity_run.induct) (auto intro: activity_step_inv)

lemma idle_inv: "activity_inv idle"
  by (simp add: activity_inv_def idle_def inside_def)

text \<open>Numbers stay, generations grow, with every number that is drawn.\<close>

lemma step_number: "activity_step A e A' \<Longrightarrow> da_dispatch A d = Some (g, p) \<Longrightarrow> \<exists>q. da_dispatch A' d = Some (g, q)"
  by (induction rule: activity_step.induct) auto

lemma run_number: "activity_run A es A' \<Longrightarrow> da_dispatch A d = Some (g, p) \<Longrightarrow> \<exists>q. da_dispatch A' d = Some (g, q)"
  by (induction arbitrary: p rule: activity_run.induct) (blast dest: step_number)+

definition is_draw :: "activity_event \<Rightarrow> bool" where
  "is_draw e \<longleftrightarrow> (\<exists>d. e = Draw d)"

lemma step_generation: "activity_step A e A' \<Longrightarrow> da_generation A' = da_generation A + (if is_draw e then 1 else 0)"
  by (induction rule: activity_step.induct) (auto simp: is_draw_def)

lemma run_generation: "activity_run A es A' \<Longrightarrow> da_generation A' = da_generation A + length (filter is_draw es)"
  by (induction rule: activity_run.induct) (auto dest: step_generation)

text \<open>A dispatch that enters without drawing has drawn before.\<close>

lemma enters_drawn:
  assumes "activity_run A es A'" and "Enter d \<in> set es" and "Draw d \<notin> set es"
  shows "\<exists>g. da_dispatch A d = Some (g, Drawn)"
  using assms
proof (induction rule: activity_run.induct)
  case (activity_more A e A' es A'')
  show ?case
  proof (cases "e = Enter d")
    case True
    with activity_more(1) show ?thesis by (auto elim: enter_elim)
  next
    case False
    with activity_more obtain g where "da_dispatch A' d = Some (g, Drawn)" by auto
    with activity_more(1,5) False show ?thesis
      by (cases rule: activity_step.cases) (auto split: if_splits)
  qed
qed simp

text \<open>A dispatch that entered beside another never gets to compare the numbers.\<close>

lemma not_alone_never_loaded:
  assumes "activity_run A es A'" and "da_dispatch A d = Some (g, p)" and "p \<in> {Entered False, Judged False, Gone}"
  shows "\<exists>q\<in>{Entered False, Judged False, Gone}. da_dispatch A' d = Some (g, q)"
  using assms
proof (induction arbitrary: p rule: activity_run.induct)
  case (activity_more A e A' es A'')
  from activity_more(1,4,5) have "\<exists>q\<in>{Entered False, Judged False, Gone}. da_dispatch A' d = Some (g, q)"
    by (cases rule: activity_step.cases) (auto split: if_splits)
  with activity_more(3) show ?case by blast
qed auto

section \<open>Properties\<close>

text \<open>
  C40 (dispatch). Growth of memory is attributed to a dispatch only if it ran by itself, up to the gap between the two
  updates of the counters: in every interleaving, when a dispatch is judged isolated no other one was running as it
  entered, and every dispatch that entered since then had drawn its number before, and was then still between drawing and
  entering.
\<close>

theorem isolated_dispatch_alone:
  assumes "activity_run idle before A" and "activity_step A (Enter d) A1" and "activity_run A1 during A2"
    and "activity_step A2 (Judge d) A3" and "da_dispatch A3 d = Some (g, Judged True)"
  shows "(\<forall>e. \<not> inside A e) \<and> (\<forall>e. Enter e \<in> set during \<longrightarrow> (\<exists>h<g. da_dispatch A e = Some (h, Drawn)))"
proof -
  have inv: "activity_inv A" using activity_run_inv[OF assms(1) idle_inv] .
  from assms(2) obtain g0 where A: "da_dispatch A d = Some (g0, Drawn)"
    and A1: "A1 = put_phase d g0 (Entered (da_active A = 0)) (A\<lparr>da_active := da_active A + 1\<rparr>)" by (auto elim: enter_elim)
  from assms(4,5) obtain one where A2: "da_dispatch A2 d = Some (g, Loaded one)" "da_generation A2 = g" by (auto elim: judge_elim)
  from run_number[OF assms(3), of d] A1 A2(1) have g0: "g0 = g" by fastforce
  have "da_active A = 0"
  proof (rule ccontr)
    assume "da_active A \<noteq> 0"
    with A1 have "da_dispatch A1 d = Some (g, Entered False)" by (simp add: g0)
    with not_alone_never_loaded[OF assms(3)] A2(1) show False by fastforce
  qed
  with inv have alone: "\<forall>e. \<not> inside A e" by (auto simp: activity_inv_def)
  have le: "g \<le> da_generation A" using inv A g0 by (auto simp: activity_inv_def)
  have gen: "da_generation A2 = da_generation A + length (filter is_draw during)" using run_generation[OF assms(3)] A1 by simp
  with le A2(2) have none: "filter is_draw during = []" by auto
  have "\<exists>h<g. da_dispatch A e = Some (h, Drawn)" if e: "Enter e \<in> set during" for e
  proof -
    have "Draw e \<notin> set during" using none by (auto simp: filter_empty_conv is_draw_def)
    from enters_drawn[OF assms(3) e this] A1 obtain h where h: "da_dispatch A e = Some (h, Drawn)" "e \<noteq> d"
      by (auto split: if_splits)
    from inv h A g0 have "h \<le> da_generation A" "h \<noteq> g" by (auto simp: activity_inv_def)
    with gen none A2(2) h(1) show ?thesis by auto
  qed
  with alone show ?thesis by blast
qed

lemma single_dispatch:
  "activity_run idle [Draw 0] (put_phase 0 1 Drawn (idle\<lparr>da_generation := 1\<rparr>))"
  by (rule activity_more[OF activity_step.draw activity_end]) (simp_all add: idle_def)

theorem isolated_dispatch_alone_witness:
  "\<exists>A A1 A2 A3. activity_step A (Enter 0) A1 \<and> activity_run A1 [Load 0] A2 \<and> activity_step A2 (Judge 0) A3
     \<and> da_dispatch A3 0 = Some (1, Judged True) \<and> (\<forall>e. \<not> inside A e)"
proof -
  let ?A = "put_phase 0 1 Drawn (idle\<lparr>da_generation := 1\<rparr>)"
  let ?A1 = "put_phase 0 1 (Entered (da_active ?A = 0)) (?A\<lparr>da_active := da_active ?A + 1\<rparr>)"
  let ?A2 = "put_phase 0 1 (if True then Loaded (da_active ?A1 = 1) else Judged False) ?A1"
  let ?A3 = "put_phase 0 1 (Judged (True \<and> da_generation ?A2 = 1)) ?A2"
  have s1: "activity_step ?A (Enter 0) ?A1" by (rule activity_step.enter) simp
  have s2: "activity_step ?A1 (Load 0) ?A2" by (rule activity_step.load) (simp add: idle_def)
  have s3: "activity_step ?A2 (Judge 0) ?A3" by (rule activity_step.judge) (simp add: idle_def)
  have judged: "da_dispatch ?A3 0 = Some (1, Judged True)" by (simp add: idle_def)
  have run: "activity_run ?A1 [Load 0] ?A2" using s2 by (auto simp: activity_run_Cons)
  from isolated_dispatch_alone[OF single_dispatch s1 run s3 judged] s1 run s3 judged show ?thesis by blast
qed

text \<open>The gap is real: here dispatch 0 runs while 1 does, and 1 is judged isolated.\<close>

lemma overlap_missed:
  "\<exists>A. activity_run idle [Draw 0, Draw 1, Enter 1, Enter 0, Leave 0, Load 1, Judge 1] A \<and> da_dispatch A 1 = Some (2, Judged True)"
  by (simp add: activity_run_Cons idle_def)
    (intro exI conjI, rule activity_step.draw, simp, simp, rule activity_step.draw, simp, simp, rule activity_step.enter, simp,
        rule activity_step.enter, simp, rule activity_step.leave, simp, simp, simp, rule activity_step.load, simp,
        rule activity_step.judge, simp, simp)

text \<open>What a caller is told about its dispatch does not depend on the log line, nor the worker's state on either.\<close>

lemma on_message_is_dispatch:
  "on_message getenv step d input b a isolated s = (s', r, logged) \<Longrightarrow> dispatch step d input s = (s', r)"
  by (auto simp: on_message_def split: prod.splits)

lemma backstop_defined: "unat (wasm_call_timeout getenv) < 2 ^ 63 \<Longrightarrow> dispatch_backstop getenv = Some (2 * wasm_call_timeout getenv)"
  by (simp add: dispatch_backstop_def Let_def)

end
