(* ===== verification/Endpoint.thy ===== *)
theory Endpoint
  imports Startup Republish
begin

text \<open>
  The parts of a start that concern keys and the network, and the end of the endpoint: the secret bundle of a first run, the
  choice of services, the runtime's own document (\<open>src/boot.rs\<close>, \<open>src/startup.rs\<close>) and \<open>close_endpoint\<close>
  (\<open>src/eventloop.rs\<close>).  The files are an abstract state with \<open>ma_core\<close>'s operations on it; keys, documents and the network
  endpoint are parameters.
\<close>

section \<open>The secret bundle\<close>

record keyed_bundle = secret_bundle +
  sb_keys :: "bytes hash_map"

text \<open>What the configuration says of the bundle: the passphrase, and the path unless it cannot be told.\<close>

record secret_config =
  sg_passphrase :: "string option"
  sg_bundle_path :: "string option"
  sg_config_path :: "string option"

text \<open>
  \<open>sv_gen_headless\<close> is \<open>Config::gen_headless\<close>, which writes \<open>config.yaml\<close> and a bundle, \<open>sv_config\<close> is \<open>Config::from_args\<close>,
  \<open>sv_new_key\<close> what \<open>generate_key\<close> draws.
\<close>

record 'f secret_store =
  sv_gen_headless :: "'f \<Rightarrow> 'f option"
  sv_config :: "'f \<Rightarrow> secret_config option"
  sv_load :: "'f \<Rightarrow> string \<Rightarrow> string \<Rightarrow> keyed_bundle option"
  sv_save :: "'f \<Rightarrow> string \<Rightarrow> string \<Rightarrow> keyed_bundle \<Rightarrow> 'f option"
  sv_new_key :: "'f \<Rightarrow> bytes option"
  sv_exists :: "'f \<Rightarrow> string \<Rightarrow> bool"

datatype secret_error =
    NoPassphrase | NoBundlePath | BundleUnreadable string | HeadlessFailed | ConfigFailed | KeyNotGenerated | BundleNotSaved
  | MissingKey string | IpnsId | EndpointFailed | DocumentNotBuilt | InvalidRootCid cid | InvalidRefresh setting_error

definition load_secret_bundle :: "'f secret_store \<Rightarrow> secret_config \<Rightarrow> 'f \<Rightarrow> secret_error + keyed_bundle" where
  "load_secret_bundle V cfg f =
     (case sg_passphrase cfg of
        None \<Rightarrow> Inl NoPassphrase
      | Some passphrase \<Rightarrow>
          (case sg_bundle_path cfg of
             None \<Rightarrow> Inl NoBundlePath
           | Some path \<Rightarrow> (case sv_load V f path passphrase of None \<Rightarrow> Inl (BundleUnreadable path) | Some b \<Rightarrow> Inr b)))"

definition RUNTIME_KEY :: string where "RUNTIME_KEY = ''runtime_ipns''"

text \<open>The files are written in two steps: configuration and bundle first, the bundle with the additional key after.\<close>

definition generate_and_persist_headless_config :: "'f secret_store \<Rightarrow> 'f \<Rightarrow> 'f \<times> (secret_error + unit)" where
  "generate_and_persist_headless_config V f =
     (case sv_gen_headless V f of
        None \<Rightarrow> (f, Inl HeadlessFailed)
      | Some f1 \<Rightarrow>
          (case sv_config V f1 of
             None \<Rightarrow> (f1, Inl ConfigFailed)
           | Some cfg \<Rightarrow>
               (case load_secret_bundle V cfg f1 of
                  Inl e \<Rightarrow> (f1, Inl e)
                | Inr bundle \<Rightarrow>
                    (case sv_new_key V f1 of
                       None \<Rightarrow> (f1, Inl KeyNotGenerated)
                     | Some key \<Rightarrow>
                         (case (sg_passphrase cfg, sg_bundle_path cfg) of
                            (Some passphrase, Some path) \<Rightarrow>
                              (case sv_save V f1 path passphrase (bundle\<lparr>sb_keys := AList.update RUNTIME_KEY key (sb_keys bundle)\<rparr>) of
                                 None \<Rightarrow> (f1, Inl BundleNotSaved)
                               | Some f2 \<Rightarrow> (f2, Inr ()))
                          | (None, _) \<Rightarrow> (f1, Inl NoPassphrase)
                          | (_, None) \<Rightarrow> (f1, Inl NoBundlePath))))))"

section \<open>Endpoint and services\<close>

text \<open>
  \<open>nt_endpoint\<close>: whether an endpoint can be made of the bundle's keys, with or without IPv6; \<open>nt_document\<close> the document
  of the bundle with the given extension fields.
\<close>

record 'd network =
  nt_rfc3339 :: "string \<Rightarrow> string option"
  nt_ipns_id :: "bytes \<Rightarrow> string option"
  nt_endpoint :: "keyed_bundle \<Rightarrow> bool \<Rightarrow> bool"
  nt_document :: "keyed_bundle \<Rightarrow> (string \<times> string) list \<Rightarrow> 'd option"
  nt_is_cid :: "string \<Rightarrow> bool"
  nt_inbox :: string
  nt_ipfs :: string
  nt_crud :: string

record endpoint_setup =
  es_bundle :: keyed_bundle
  es_ipv6 :: bool
  es_services :: "string list"
  es_runtime_key :: bytes
  es_runtime_id :: string

definition canonical_bundle :: "(string \<Rightarrow> string option) \<Rightarrow> keyed_bundle \<Rightarrow> keyed_bundle" where
  "canonical_bundle rfc3339 b = (case rfc3339 (sb_created_at b) of Some s \<Rightarrow> b\<lparr>sb_created_at := s\<rparr> | None \<Rightarrow> b)"

definition setup_endpoint_services ::
  "'d network \<Rightarrow> keyed_bundle \<Rightarrow> bool \<Rightarrow> bool \<Rightarrow> bool \<Rightarrow> secret_error + string list" where
  "setup_endpoint_services N bundle ipv6 ipfs crud =
     (if \<not> nt_endpoint N bundle ipv6 then Inl EndpointFailed
      else Inr (nt_inbox N # (if ipfs then [nt_ipfs N] else []) @ (if crud then [nt_crud N] else [])))"

definition setup_endpoint ::
  "'f secret_store \<Rightarrow> 'd network \<Rightarrow> secret_config \<Rightarrow> daemon_config \<Rightarrow> 'f \<Rightarrow> secret_error + endpoint_setup" where
  "setup_endpoint V N sc cfg f =
     (let ipv6 = get_bool_setting cfg ''ipv6_enable'' True in
      case load_secret_bundle V sc f of
        Inl e \<Rightarrow> Inl e
      | Inr loaded \<Rightarrow>
          (let bundle = canonical_bundle (nt_rfc3339 N) loaded in
           case map_of (sb_keys bundle) RUNTIME_KEY of
             None \<Rightarrow> Inl (MissingKey RUNTIME_KEY)
           | Some key \<Rightarrow>
               (case nt_ipns_id N key of
                  None \<Rightarrow> Inl IpnsId
                | Some ident \<Rightarrow>
                    (case setup_endpoint_services N bundle ipv6 (get_bool_setting cfg ''ipfs_publisher'' True)
                            (get_bool_setting cfg ''crud_service'' True) of
                       Inl e \<Rightarrow> Inl e
                     | Inr services \<Rightarrow>
                         Inr \<lparr>es_bundle = bundle, es_ipv6 = ipv6, es_services = services, es_runtime_key = key,
                              es_runtime_id = ident\<rparr>))))"

text \<open>The extension of the own document, without and with the link to the head.\<close>

definition ma_base :: "(string \<times> string) list" where
  "ma_base = [(''kind'', ''runtime''), (''protocol'', ''/ma/runtime/0.0.1'')]"

definition build_own_document :: "'d network \<Rightarrow> keyed_bundle \<Rightarrow> cid option \<Rightarrow> secret_error + 'd" where
  "build_own_document N bundle root =
     (case nt_document N bundle ma_base of
        None \<Rightarrow> Inl DocumentNotBuilt
      | Some _ \<Rightarrow>
          (case root of
             Some rc \<Rightarrow>
               if \<not> nt_is_cid N rc then Inl (InvalidRootCid rc)
               else (case nt_document N bundle (ma_base @ [(''runtime'', rc)]) of None \<Rightarrow> Inl DocumentNotBuilt | Some d \<Rightarrow> Inr d)
           | None \<Rightarrow> (case nt_document N bundle ma_base of None \<Rightarrow> Inl DocumentNotBuilt | Some d \<Rightarrow> Inr d)))"

text \<open>What \<open>finalize\<close> adds to the state: the refresh interval its worker starts with; here a bad value ends the start.\<close>

definition refresh_interval_of :: "daemon_config \<Rightarrow> secret_error + u64" where
  "refresh_interval_of cfg =
     (case did_refresh_interval_secs (map_of (dc_extra cfg) ''did_refresh_interval_secs'') of
        Inl e \<Rightarrow> Inl (InvalidRefresh e) | Inr n \<Rightarrow> Inr n)"

section \<open>The start as a whole\<close>

text \<open>
  \<open>main\<close> with the endpoint set up where it is: after the early commands and before the head is chosen.  The steps around
  it are those of \<open>start\<close>.
\<close>

datatype main_failure = MfBoot boot_failure | MfSecret secret_error

definition main_start ::
  "'f secret_store \<Rightarrow> 'd network \<Rightarrow> secret_config \<Rightarrow> 'f \<Rightarrow> ('g, 'a, 'w) start_env \<Rightarrow> cli \<Rightarrow> 'w
     \<Rightarrow> 'w \<times> (main_failure + ('g, 'a, 'w) start_result)" where
  "main_start V N sc f E args w =
     (let c = parse_and_sanitise args in
      case boot_new E c of
        Inl e \<Rightarrow> (w, Inl (MfBoot e))
      | Inr st \<Rightarrow>
          (case run_cli_subcommands E c st w of
             (w1, Inl e) \<Rightarrow> (w1, Inl (MfBoot e))
           | (w1, Inr (Break out)) \<Rightarrow> (w1, Inr (Printed out))
           | (w1, Inr (Continue bootstrap_root)) \<Rightarrow>
               (case setup_endpoint V N sc (sd_config st) f of
                  Inl e \<Rightarrow> (w1, Inl (MfSecret e))
                | Inr es \<Rightarrow>
                    (case build_identity_and_resolve_root E c st bootstrap_root w1 of
                       (w2, Inl e) \<Rightarrow> (w2, Inl (MfBoot e))
                     | (w2, Inr h) \<Rightarrow>
                         (case finish_start E c h w2 of
                            (bs, Inl e) \<Rightarrow> (boot_world bs, Inl (MfBoot e))
                          | (bs, Inr (s, capacity)) \<Rightarrow> (boot_world bs, Inr (Started bs s capacity st)))))))"

text \<open>\<open>--gen-headless-config\<close> does nothing else.\<close>

definition main_program ::
  "'f secret_store \<Rightarrow> 'd network \<Rightarrow> secret_config \<Rightarrow> bool \<Rightarrow> 'f \<Rightarrow> ('g, 'a, 'w) start_env \<Rightarrow> cli \<Rightarrow> 'w
     \<Rightarrow> 'f \<times> 'w \<times> (main_failure + ('g, 'a, 'w) start_result option)" where
  "main_program V N sc gen f E args w =
     (if gen
      then (case generate_and_persist_headless_config V f of
              (f', Inl e) \<Rightarrow> (f', w, Inl (MfSecret e)) | (f', Inr _) \<Rightarrow> (f', w, Inr None))
      else (case main_start V N sc f E args w of
              (w', Inl e) \<Rightarrow> (f, w', Inl e) | (w', Inr r) \<Rightarrow> (f, w', Inr (Some r))))"

section \<open>Closing\<close>

datatype closing = ClosedInTime | CloseTimedOut | CloseStuck

text \<open>
  \<open>counts\<close> are the numbers of references to the endpoint that are seen one after the other, ten milliseconds apart, the last
  one being seen from then on; the wait ends with the first that is one, or at the deadline.  The second result is how often
  it slept.
\<close>

fun wait_released :: "nat \<Rightarrow> nat list \<Rightarrow> nat \<times> nat" where
  "wait_released sleeps [] = (1, 0)"
| "wait_released 0 (n # ns) = (n, 0)"
| "wait_released (Suc sleeps) (n # ns) =
     (if n \<le> 1 then (n, 0)
      else (let (m, k) = wait_released sleeps (if ns = [] then [n] else ns) in (m, Suc k)))"

definition CLOSE_POLLS :: nat where "CLOSE_POLLS = 1000"

definition close_endpoint :: "nat list \<Rightarrow> bool \<Rightarrow> closing" where
  "close_endpoint counts closes =
     (if fst (wait_released CLOSE_POLLS counts) \<le> 1 then (if closes then ClosedInTime else CloseTimedOut) else CloseStuck)"

section \<open>Lemmas\<close>

lemma wait_bounded: "snd (wait_released sleeps counts) \<le> sleeps"
  by (induction sleeps counts rule: wait_released.induct) (auto split: prod.split simp: Let_def)

text \<open>If the references go before the deadline, the endpoint is closed.\<close>

lemma wait_until_released:
  "i \<le> sleeps \<Longrightarrow> i < length counts \<Longrightarrow> counts ! i \<le> 1 \<Longrightarrow> fst (wait_released sleeps counts) \<le> 1"
proof (induction sleeps counts arbitrary: i rule: wait_released.induct)
  case (3 sleeps n ns)
  show ?case
  proof (cases "n \<le> 1")
    case False
    with 3(2-4) obtain j where j: "i = Suc j" by (cases i) auto
    with 3(3) have "ns \<noteq> []" by auto
    with 3(1)[of j] 3(2-4) False j show ?thesis by (auto split: prod.split simp: Let_def)
  qed simp
qed (auto simp: less_Suc_eq_0_disj)

lemma close_outcome:
  "close_endpoint counts closes = ClosedInTime \<Longrightarrow> closes"
  "i \<le> CLOSE_POLLS \<Longrightarrow> i < length counts \<Longrightarrow> counts ! i \<le> 1 \<Longrightarrow> close_endpoint counts closes \<noteq> CloseStuck"
  using wait_until_released[of i CLOSE_POLLS counts] by (auto simp: close_endpoint_def split: if_splits)

text \<open>Documented behaviour of the files: what is saved can be loaded, and saving a bundle leaves the configuration as it is.\<close>

definition store_ok :: "'f secret_store \<Rightarrow> bool" where
  "store_ok V \<longleftrightarrow>
     (\<forall>f path passphrase b f'. sv_save V f path passphrase b = Some f' \<longrightarrow>
        sv_load V f' path passphrase = Some b \<and> sv_config V f' = sv_config V f)"

lemma canonical_keys [simp]: "sb_keys (canonical_bundle rfc3339 b) = sb_keys b"
  by (simp add: canonical_bundle_def split: option.split)

text \<open>A first run that succeeds leaves a bundle that the next step accepts.\<close>

theorem headless_bundle_complete:
  assumes "store_ok V" and "generate_and_persist_headless_config V f = (f', Inr ())"
  shows "\<exists>sc. sv_config V f' = Some sc \<and> (\<forall>N cfg. setup_endpoint V N sc cfg f' \<noteq> Inl (MissingKey RUNTIME_KEY)
     \<and> (\<forall>e. load_secret_bundle V sc f' \<noteq> Inl e))"
proof -
  from assms(2) obtain f1 sc b key passphrase path where
    run: "sv_config V f1 = Some sc" "sg_passphrase sc = Some passphrase" "sg_bundle_path sc = Some path"
      "sv_save V f1 path passphrase (b\<lparr>sb_keys := AList.update RUNTIME_KEY key (sb_keys b)\<rparr>) = Some f'"
    by (auto simp: generate_and_persist_headless_config_def split: option.splits sum.splits)
  with assms(1) have "sv_load V f' path passphrase = Some (b\<lparr>sb_keys := AList.update RUNTIME_KEY key (sb_keys b)\<rparr>)"
    and "sv_config V f' = Some sc" unfolding store_ok_def by metis+
  with run(2,3) show ?thesis
    by (auto simp: setup_endpoint_def load_secret_bundle_def setup_endpoint_services_def Let_def map_of_update
        split: option.splits sum.splits if_splits)
qed

text \<open>
  A first run that fails after the files are written is not repeated: the files are there, so no start generates them again,
  and the bundle without the key stops every start.
\<close>

theorem interrupted_first_run_blocks_starts:
  assumes "sv_gen_headless V f = Some f1" and "sv_config V f1 = Some sc" and "load_secret_bundle V sc f1 = Inr b"
    and "map_of (sb_keys b) RUNTIME_KEY = None"
    and "sv_new_key V f1 = None \<or> (\<forall>path passphrase b'. sv_save V f1 path passphrase b' = None)"
    and "sg_bundle_path sc = Some path" and "sv_exists V f1 path"
  shows "\<exists>e. generate_and_persist_headless_config V f = (f1, Inl e)
     \<and> \<not> should_generate_headless_config (sv_exists V f1) (sg_config_path sc) path
     \<and> setup_endpoint V N sc cfg f1 = Inl (MissingKey RUNTIME_KEY)"
  using assms
  by (auto simp: generate_and_persist_headless_config_def should_generate_headless_config_def setup_endpoint_def Let_def
      split: option.split)

text \<open>A start that comes through is one of \<open>start\<close>, whatever the endpoint, so what is shown of that one holds.\<close>

lemma main_start_is_start:
  assumes "main_start V N sc f E args w = (w', Inr r)"
  shows "start E args w = (w', Inr r)"
  using assms
  by (auto simp: main_start_def start_def bind_w_def Let_def split: sum.splits prod.splits flow.splits)

text \<open>A start that the endpoint stops has done no more than the early commands.\<close>

lemma endpoint_stops_start:
  assumes "main_start V N sc f E args w = (w', Inl (MfSecret e))"
  shows "\<exists>st root. boot_new E (parse_and_sanitise args) = Inr st
     \<and> run_cli_subcommands E (parse_and_sanitise args) st w = (w', Inr (Continue root))
     \<and> setup_endpoint V N sc (sd_config st) f = Inl e"
  using assms by (auto simp: main_start_def Let_def split: sum.splits prod.splits flow.splits)

end
