(* ===== verification/ErrorText.thy ===== *)
theory ErrorText
  imports Prelude
begin

text \<open>
  The text of \<open>ma_core\<close>'s error about a key whose IPNS id is not the one of the DID document, and the helper of \<open>lib.rs\<close>
  that reads the id back from it.
\<close>

definition id_mark :: string where
  "id_mark = ''imported key IPNS id '' @ [CHR 0x27]"

definition id_end_mark :: string where
  "id_end_mark = [CHR 0x27] @ '' does not match document DID IPNS '' @ [CHR 0x27]"

text \<open>\<open>text.find(prefix)?\<close>, the rest after it, up to the first \<open>infix\<close>, trimmed; an empty id is no id.\<close>

definition extract_imported_ipns_id_from_error_text :: "string \<Rightarrow> string option" where
  "extract_imported_ipns_id_from_error_text t =
     (case split_at_str id_mark t of
        None \<Rightarrow> None
      | Some (_, rest) \<Rightarrow>
          (case split_at_str id_end_mark rest of
             None \<Rightarrow> None
           | Some (mid, _) \<Rightarrow> if trim mid = [] then None else Some (trim mid)))"

section \<open>The first occurrence\<close>

lemma split_at_str_sound: "split_at_str p s = Some (a, b) \<Longrightarrow> s = a @ p @ b"
  by (induction p s arbitrary: a rule: split_at_str.induct)
    (auto split: if_splits option.splits simp: strip_prefix_Some_iff)

lemma split_at_str_first:
  assumes "p \<noteq> []" and "hd p \<notin> set a"
  shows "split_at_str p (a @ p @ r) = Some (a, r)"
  using assms(2)
proof (induction a)
  case Nil
  obtain x q where p: "p = x # q" using assms(1) by (cases p) auto
  have "strip_prefix p (p @ r) = Some r" by simp
  then show ?case using p by simp
next
  case (Cons y a)
  obtain x q where p: "p = x # q" using assms(1) by (cases p) auto
  have "strip_prefix p (y # a @ p @ r) = None" using Cons.prems p by auto
  then show ?case using Cons by simp
qed

section \<open>What is read back\<close>

text \<open>Only an id that stands between the two marks is read, and it is never empty.\<close>

lemma extracted_between_marks:
  assumes "extract_imported_ipns_id_from_error_text t = Some v"
  obtains a mid r where "t = a @ id_mark @ mid @ id_end_mark @ r" and "v = trim mid" and "v \<noteq> []"
  using assms
  by (auto simp: extract_imported_ipns_id_from_error_text_def dest!: split_at_str_sound split: option.splits if_splits)

text \<open>The id of an error text comes back, in whatever longer text the error was put by an earlier layer.\<close>

theorem extract_reads_id:
  assumes "CHR ''i'' \<notin> set lead" and "CHR 0x27 \<notin> set ident" and "ident \<noteq> []"
    and "33 \<le> (of_char (hd ident) :: nat)" "(of_char (hd ident) :: nat) < 127"
    and "33 \<le> (of_char (last ident) :: nat)" "(of_char (last ident) :: nat) < 127"
  shows "extract_imported_ipns_id_from_error_text (lead @ id_mark @ ident @ id_end_mark @ did) = Some ident"
proof -
  have "split_at_str id_mark (lead @ id_mark @ ident @ id_end_mark @ did) = Some (lead, ident @ id_end_mark @ did)"
    by (rule split_at_str_first) (simp_all add: id_mark_def assms(1))
  moreover have "split_at_str id_end_mark (ident @ id_end_mark @ did) = Some (ident, did)"
    by (rule split_at_str_first) (simp_all add: id_end_mark_def assms(2))
  ultimately show ?thesis
    using trim_visible[OF assms(3-7)] assms(3) by (simp add: extract_imported_ipns_id_from_error_text_def)
qed

theorem extract_reads_id_witness:
  "extract_imported_ipns_id_from_error_text (''Kubo: '' @ id_mark @ ''k51qzi'' @ id_end_mark @ ''12D3KooW'') = Some ''k51qzi''"
  by (rule extract_reads_id) simp_all

end
