(* ===== verification/Spec2Isabelle.thy ===== *)
theory Spec2Isabelle
  imports Startup Integrity Gateway Replies Node Activity Endpoint ErrorText
begin

text \<open>
  A verification development for the \<open>ma\<close> runtime (the Rust crate under \<open>src/\<close>): a daemon that keeps a manifest of
  entities, kinds, access lists, groups and configuration in IPFS, runs every entity as a Wasm or native plugin on a thread
  of its own, and serves messages from other runtimes.

  \<^bold>\<open>Parts and their interplay.\<close>  A start (\<open>main.rs\<close>, \<open>boot.rs\<close>, \<open>startup.rs\<close>, \<open>bootstrap.rs\<close>) reads the settings, chooses
  the head (the CID of the manifest), loads the entities and hands the caches to the main loop (\<open>eventloop.rs\<close>).  The loop
  drains three inboxes, those of the IPFS service (\<open>ipfs.rs\<close>), of the CRUD service (\<open>crud/\<close>) and of the messages to
  entities (\<open>dispatch.rs\<close>), and the envelopes the plugins send.  All changes of the manifest go through one writer
  (\<open>manifest.rs\<close>), which puts a new manifest and moves the head.  Beside the loop run the workers of the entities
  (\<open>plugin/\<close>), reload and persist tasks, the scheduler (\<open>schedule.rs\<close>, \<open>scheduler_actor.rs\<close>), the periodic publication of
  the head (\<open>republish.rs\<close>) and the status server (\<open>status.rs\<close>).  A stop saves the states of the entities and the head.

  \<^bold>\<open>Conventions.\<close>  Structs are records, enums datatypes with the source's constructors, \<open>u64\<close> and \<open>u32\<close> are machine words,
  a \<open>String\<close> is the list of its UTF-8 bytes, a \<open>HashMap\<close> or \<open>BTreeMap\<close> an association list under the contract
  \<open>key_map\<close> of \<open>Prelude\<close>.  An error is a value of an error datatype on the left of a sum.  The state of the Kubo node is an abstract
  world \<open>'w\<close>, passed and returned; the records \<open>kubo\<close>, \<open>boot_kubo\<close> and \<open>ipns_node\<close> are the requests made of it.
  Everything outside \<open>src/\<close> (\<open>ma_core\<close>, \<open>serde\<close>, Extism, Fluent, \<open>tokio\<close>, \<open>reqwest\<close>, \<open>axum\<close>) is an argument or a field of an
  environment record; what is relied on of it is a predicate with a name (\<open>kubo_ok\<close>, \<open>boot_ok\<close>, \<open>ipns_laws\<close>, \<open>api_ok\<close>,
  \<open>store_ok\<close>), and each has a concrete instance in the witnesses.  A handler is one atomic step, unless its theory says
  otherwise; where the order of steps matters there is a step relation.  In particular a claim reads and writes in separate steps
  (\<open>Owners\<close>, \<open>Daemon\<close>), a scheduled callback passes its guard in one step and dispatches in another (\<open>Scheduler\<close>), the periodic publication
  waits in four places while others go on (\<open>Republish\<close>, \<open>Daemon\<close>), and a reload has two parts (\<open>Reload\<close>, \<open>Daemon\<close>).

  \<^bold>\<open>Theories.\<close>
  \<^item> \<open>Prelude\<close>: strings, words, CBOR, maps.  \<open>Documents\<close> (\<open>entity.rs\<close>): kind, entity and manifest nodes, the interface \<open>kubo\<close>.
    \<open>Node\<close> (\<open>kubo.rs\<close>): the HTTP client behind that interface, with its permits.
  \<^item> \<open>KindTree\<close>, \<open>Kinds\<close> (\<open>entity.rs\<close>, \<open>crud/helpers.rs\<close>, \<open>bootstrap.rs\<close>): the tree of kinds, inheritance, dependents, overlays.
  \<^item> \<open>Routing\<close> (\<open>routing.rs\<close>), \<open>Acl\<close> (\<open>acl.rs\<close> and the gates of \<open>dispatch.rs\<close> and \<open>crud/\<close>), \<open>Owners\<close> (claims in \<open>status.rs\<close>,
    reconciliation in \<open>boot.rs\<close>).
  \<^item> \<open>Manifest\<close> (\<open>manifest.rs\<close>): the writer and all its operations.
  \<^item> \<open>CrudConfig\<close>, \<open>Crud\<close>, \<open>CrudDispatch\<close> (\<open>crud/\<close>): configuration keys, the handlers as computations on the shared state
    \<open>crud_state\<close>, dispatch.  \<open>Replies\<close> (\<open>crud/helpers.rs\<close>, \<open>i18n.rs\<close>): languages, payloads and delivery of the answers.
  \<^item> \<open>EntityState\<close>, \<open>Host\<close>, \<open>Worker\<close>, \<open>Activity\<close>, \<open>Reload\<close> (\<open>plugin/\<close>, \<open>behaviour.rs\<close>, \<open>crud/helpers.rs\<close>): queued state and its
    persist loop, host functions, workers and their life, limits and the attribution of memory growth, hot reloads.
  \<^item> \<open>Outbox\<close> (\<open>ipfs.rs\<close>, \<open>doccache.rs\<close>): connections, backoff, document cache.  \<open>IpfsService\<close> (\<open>ipfs.rs\<close>): publishing documents,
    storing content, IPNS.
  \<^item> \<open>Dispatch\<close> (\<open>dispatch.rs\<close>): messages to entities and what the entities ask for.  \<open>EventLoop\<close> (\<open>eventloop.rs\<close>): their envelopes.
  \<^item> \<open>Schedule\<close>, \<open>Scheduler\<close> (\<open>schedule.rs\<close>, \<open>scheduler_actor.rs\<close>): requests, the registry, the live jobs.
  \<^item> \<open>Bootstrap\<close>, \<open>Loading\<close>, \<open>Settings\<close>, \<open>Startup\<close>, \<open>Endpoint\<close> (\<open>bootstrap.rs\<close>, \<open>startup.rs\<close>, \<open>boot.rs\<close>, \<open>main.rs\<close>): building
    and exporting a manifest, loading, settings, the staged start, keys and services.
  \<^item> \<open>Shutdown\<close> (\<open>eventloop.rs\<close>, \<open>bootstrap.rs\<close>), \<open>Republish\<close> (\<open>republish.rs\<close>), \<open>Gateway\<close> (\<open>status.rs\<close>): stopping, the periodic
    publication, the status server.  \<open>ErrorText\<close> (\<open>lib.rs\<close>): an id read from an error text.
  \<^item> \<open>Daemon\<close>, \<open>Integrity\<close>: the loop and every task beside it as one step relation, and what all its runs keep.

  \<^bold>\<open>Interfaces.\<close>  \<open>key_map\<close> (maps by key; hash and tree maps), \<open>path_map\<close> (maps by path; the kind tree), \<open>doc_cell\<close> (a
  published document with one writer; \<open>Manifest\<close>), \<open>versioned_registry\<close> (\<open>Scheduler\<close>), \<open>worker_protocol\<close> and \<open>saving_worker\<close>
  (\<open>Worker\<close>; the Wasm and the native worker), \<open>publisher\<close> (\<open>Bootstrap\<close>; kinds, lists, groups, entities), \<open>config_contract\<close>
  (\<open>Settings\<close>; predicates that no request breaks) and its extension \<open>daemon_contract\<close> (\<open>Integrity\<close>).  Each is
  interpreted on the model's definitions in the theory that provides it.

  \<^bold>\<open>What is shown.\<close>
  \<^item> Access: the check of a capability against its specification, and that an entity is reached only through its list; in every run
    of the daemon authority changes only by an admitted request or by a claim of an unowned runtime.
  \<^item> The manifest: no update is lost in any interleaving, a kind resolves to the merge of its chain, overlays are all or
    nothing, a bootstrap file comes back from its export, a start keeps the head, and the daemon never loses it.
  \<^item> Entities: a guest asks only with the host functions it was granted and as itself, deletions keep the registry a forest, queued
    state survives reloads, the persist loop and the stop (but for entities whose node cannot be read); a failed reload touches only its
    own entity.
  \<^item> The services: what changes is acknowledged and what is refused changes nothing; the settings named there stay typed; only
    admitted, fresh messages reach the IPFS service; the status server relays only the path a request names, in its own namespace.
  \<^item> Time and order: drains are bounded and in order, only the latest definition of a schedule passes the guard, a head that is due
    is tried until it is published under both names, resolution and backoff end, the permits of the client never deadlock.
  \<^item> The client of \<open>Node\<close> implements the interface \<open>kubo\<close> with its laws \<open>kubo_ok\<close> and moves the pins as the runtime expects, given the
    documented behaviour of Kubo's API for the requests it sends (and no garbage collection in between).

  \<^bold>\<open>Bounds and fuel.\<close>  Kind resolution and dependency search stop after eight hops, as the code does.  \<open>strip_repeated\<close> has the
  length of its text as fuel, and every round shortens it.  A drain takes 64 envelopes, a search for a free name 40 attempts, a load
  retries five times with the delays of the code; the persist loop and the refresh worker run over the list of what happens in
  each round, and the theorems say what holds when it ends.  The wait for the endpoint is a thousand polls.

  \<^bold>\<open>Not modelled.\<close>  The tests, the test node (\<open>testkubo.rs\<close>), \<open>build.rs\<close> (it writes the list of languages, an argument
  here), module declarations; logging and the texts of errors; \<open>serde\<close>'s derived encodings; the time
  limits around whole handlers; the semaphores that bound concurrent reloads; IPv6 and transport, which are \<open>ma_core\<close>'s; the
  fixed markup of the status page.  The effect of a DID resolution on the document cache is in \<open>Outbox\<close> and is not threaded
  through the handlers that resolve.
\<close>

end
